(* ===== verification/Prelude.thy ===== *)
theory Prelude
  imports Main "HOL-Library.Sublist" "HOL-Library.List_Lexorder" "HOL-Library.Char_ord"
begin

text \<open>
  Shared vocabulary of the development: Go strings as byte lists with the functions of
  the \<open>strings\<close> and \<open>strconv\<close> packages the modelled code calls, JSON payload values,
  and the generic lemmas about lists and runs the component theories share.

  A Go \<open>string\<close> is a byte sequence, so it is a \<^typ>\<open>string\<close> (a list of 8-bit
  characters); \<open>len\<close> is \<^const>\<open>length\<close>. Functions of the standard library that
  depend on Unicode tables (\<open>strings.ToLower\<close>, \<open>unicode.IsLetter\<close>) are exact on ASCII;
  a byte of a multi-byte rune counts as a letter and keeps its case. The code's \<open>int\<close>
  counters are \<^typ>\<open>int\<close>: none of them can reach 64 bits in a mission's life.
\<close>

named_theorems go_strings "facts about the string functions"
named_theorems go_defs "definitions the closed witnesses unfold"

section \<open>JSON payloads\<close>

text \<open>
  The values an event payload (\<open>map[string]any\<close>) holds in the modelled code. A payload
  is an association list in which every key occurs once. A time is the instant, not its
  RFC 3339 rendering.
\<close>

datatype json =
    JStr string
  | JInt int
  | JBool bool
  | JStrs "string list"
  | JInts "int list"
  | JTime int

type_synonym payload = "(string \<times> json) list"

section \<open>Strings\<close>

definition backtick :: char where "backtick = CHR 0x60"
definition dquote :: char where "dquote = CHR 0x22"
definition squote :: char where "squote = CHR 0x27"
definition backslash :: char where "backslash = CHR 0x5C"

fun has_prefix :: "string \<Rightarrow> string \<Rightarrow> bool" where
  "has_prefix _ [] = True"
| "has_prefix [] (_ # _) = False"
| "has_prefix (c # s) (d # p) = (c = d \<and> has_prefix s p)"

definition has_suffix :: "string \<Rightarrow> string \<Rightarrow> bool" where
  "has_suffix s p = has_prefix (rev s) (rev p)"

fun str_contains :: "string \<Rightarrow> string \<Rightarrow> bool" where
  "str_contains [] sub = (sub = [])"
| "str_contains (c # s) sub = (has_prefix (c # s) sub \<or> str_contains s sub)"

text \<open>\<open>strings.Index\<close>: the first position, \<^const>\<open>None\<close> for Go's \<open>-1\<close>.\<close>

fun str_index :: "string \<Rightarrow> string \<Rightarrow> nat option" where
  "str_index [] sub = (if sub = [] then Some 0 else None)"
| "str_index (c # s) sub =
     (if has_prefix (c # s) sub then Some 0 else map_option Suc (str_index s sub))"

fun str_join :: "string \<Rightarrow> string list \<Rightarrow> string" where
  "str_join sep [] = []"
| "str_join sep [w] = w"
| "str_join sep (w # v # ws) = w @ sep @ str_join sep (v # ws)"

fun split_on :: "(char \<Rightarrow> bool) \<Rightarrow> string \<Rightarrow> string list" where
  "split_on p [] = [[]]"
| "split_on p (c # s) =
     (if p c then [] # split_on p s
      else (case split_on p s of [] \<Rightarrow> [[c]] | w # ws \<Rightarrow> (c # w) # ws))"

text \<open>\<open>strings.FieldsFunc\<close>: the maximal runs of characters that are no separators.\<close>

definition fields_func :: "(char \<Rightarrow> bool) \<Rightarrow> string \<Rightarrow> string list" where
  "fields_func p s = filter (\<lambda>w. w \<noteq> []) (split_on p s)"

definition trim_prefix :: "string \<Rightarrow> string \<Rightarrow> string" where
  "trim_prefix s p = (if has_prefix s p then drop (length p) s else s)"

definition trim_left :: "(char \<Rightarrow> bool) \<Rightarrow> string \<Rightarrow> string" where
  "trim_left p s = dropWhile p s"

definition trim_both :: "(char \<Rightarrow> bool) \<Rightarrow> string \<Rightarrow> string" where
  "trim_both p s = rev (dropWhile p (rev (dropWhile p s)))"

definition is_space :: "char \<Rightarrow> bool" where
  "is_space c = (c \<in> {CHR '' '', CHR 0x09, CHR 0x0A, CHR 0x0B, CHR 0x0C, CHR 0x0D})"

abbreviation trim_space :: "string \<Rightarrow> string" where
  "trim_space \<equiv> trim_both is_space"

definition is_upper :: "char \<Rightarrow> bool" where
  "is_upper c = (65 \<le> (of_char c :: nat) \<and> (of_char c :: nat) \<le> 90)"

definition is_lower :: "char \<Rightarrow> bool" where
  "is_lower c = (97 \<le> (of_char c :: nat) \<and> (of_char c :: nat) \<le> 122)"

definition is_digit :: "char \<Rightarrow> bool" where
  "is_digit c = (48 \<le> (of_char c :: nat) \<and> (of_char c :: nat) \<le> 57)"

definition is_letter :: "char \<Rightarrow> bool" where
  "is_letter c = (is_upper c \<or> is_lower c \<or> 128 \<le> (of_char c :: nat))"

definition lower_char :: "char \<Rightarrow> char" where
  "lower_char c = (if is_upper c then char_of ((of_char c :: nat) + 32) else c)"

definition to_lower :: "string \<Rightarrow> string" where
  "to_lower s = map lower_char s"

section \<open>Decimal rendering (\<open>%d\<close>)\<close>

definition digit_char :: "nat \<Rightarrow> char" where
  "digit_char d = char_of (48 + d)"

fun nat_dec :: "nat \<Rightarrow> string" where
  "nat_dec n = (if n < 10 then [digit_char n] else nat_dec (n div 10) @ [digit_char (n mod 10)])"

declare nat_dec.simps [simp del]

definition int_dec :: "int \<Rightarrow> string" where
  "int_dec i = (if i < 0 then CHR ''-'' # nat_dec (nat (- i)) else nat_dec (nat i))"

fun dec_value :: "string \<Rightarrow> nat \<Rightarrow> nat" where
  "dec_value [] acc = acc"
| "dec_value (c # s) acc = dec_value s (10 * acc + (of_char c - 48))"

lemma dec_value_append: "dec_value (s @ t) acc = dec_value t (dec_value s acc)"
  by (induction s arbitrary: acc) auto

lemma of_digit_char: "d < 10 \<Longrightarrow> (of_char (digit_char d) :: nat) = 48 + d"
  by (simp add: digit_char_def)

lemma dec_value_nat_dec: "dec_value (nat_dec n) 0 = n"
proof (induction n rule: nat_dec.induct)
  case (1 n)
  show ?case
  proof (cases "n < 10")
    case True
    then show ?thesis by (simp add: nat_dec.simps [of n] of_digit_char)
  next
    case False
    with 1 show ?thesis
      by (simp add: nat_dec.simps [of n] dec_value_append of_digit_char)
  qed
qed

lemma nat_dec_inj [go_strings]: "nat_dec m = nat_dec n \<longleftrightarrow> m = n"
  by (metis dec_value_nat_dec)

section \<open>Facts about the string functions\<close>

lemma has_prefix_iff [go_strings]: "has_prefix s p \<longleftrightarrow> prefix p s"
  by (induction s p rule: has_prefix.induct) auto

lemma has_suffix_iff [go_strings]: "has_suffix s p \<longleftrightarrow> suffix p s"
  by (simp add: has_suffix_def has_prefix_iff suffix_to_prefix)

lemma str_contains_iff [go_strings]: "str_contains s sub \<longleftrightarrow> sublist sub s"
proof (induction s)
  case Nil
  show ?case by simp
next
  case (Cons c s)
  then show ?case by (auto simp: has_prefix_iff sublist_Cons_right)
qed

lemma str_index_None [go_strings]: "str_index s sub = None \<longleftrightarrow> \<not> str_contains s sub"
  by (induction s) auto

lemma str_index_split:
  "str_index s sub = Some i \<Longrightarrow>
     s = take i s @ sub @ drop (i + length sub) s"
proof (induction s arbitrary: i)
  case Nil
  then show ?case by (auto split: if_splits)
next
  case (Cons c s)
  show ?case
  proof (cases "has_prefix (c # s) sub")
    case True
    with Cons.prems show ?thesis
      by (auto simp: has_prefix_iff prefix_def)
  next
    case False
    with Cons.prems obtain j where "str_index s sub = Some j" "i = Suc j" by auto
    with Cons.IH [of j] show ?thesis by simp
  qed
qed

lemma str_index_bound: "str_index s sub = Some i \<Longrightarrow> i + length sub \<le> length s"
proof (induction s arbitrary: i)
  case Nil
  then show ?case by (auto split: if_splits)
next
  case (Cons c s)
  then show ?case
    by (auto simp: has_prefix_iff split: if_splits dest: prefix_length_le)
qed

lemma split_on_nonempty [simp]: "split_on p s \<noteq> []"
  by (induction s) (auto split: list.splits)

lemma split_on_no_sep: "w \<in> set (split_on p s) \<Longrightarrow> c \<in> set w \<Longrightarrow> \<not> p c"
proof (induction s arbitrary: w)
  case Nil
  then show ?case by simp
next
  case (Cons d s)
  then show ?case by (fastforce split: if_splits list.splits)
qed

section \<open>Lists\<close>

text \<open>Go's in-place loops over a copied slice at one index.\<close>

lemma nth_list_update_map:
  "i < length xs \<Longrightarrow> map f (xs[i := v]) = (map f xs)[i := f v]"
  by (simp add: map_update)

lemma fold_invariant:
  "P s \<Longrightarrow> (\<And>x t. x \<in> set xs \<Longrightarrow> P t \<Longrightarrow> P (f x t)) \<Longrightarrow> P (fold f xs s)"
  by (induction xs arbitrary: s) auto

section \<open>Machines driven by a sequence of inputs\<close>

text \<open>
  The components that are transition functions share one contract: an invariant the
  transition keeps holds after any sequence of inputs, and a preorder along which every
  transition moves relates the start of a run to its end.
\<close>

locale input_machine =
  fixes step :: "'s \<Rightarrow> 'i \<Rightarrow> 's"
    and inv :: "'s \<Rightarrow> bool"
  assumes step_inv: "inv s \<Longrightarrow> inv (step s i)"
begin

lemma run_inv: "inv s \<Longrightarrow> inv (foldl step s is)"
  by (induction "is" arbitrary: s) (auto intro: step_inv)

lemma prefix_inv: "inv s \<Longrightarrow> prefix js is \<Longrightarrow> inv (foldl step s js)"
  by (rule run_inv)

end

locale monotone_machine = input_machine +
  fixes le :: "'s \<Rightarrow> 's \<Rightarrow> bool"
  assumes le_refl: "le s s"
    and le_trans: "le s t \<Longrightarrow> le t u \<Longrightarrow> le s u"
    and step_le: "inv s \<Longrightarrow> le s (step s i)"
begin

lemma run_le: "inv s \<Longrightarrow> le s (foldl step s is)"
proof (induction "is" arbitrary: s)
  case Nil
  show ?case by (simp add: le_refl)
next
  case (Cons i "is")
  from Cons.prems have "le s (step s i)" and "inv (step s i)"
    by (auto intro: step_le step_inv)
  with Cons.IH show ?case by (auto intro: le_trans)
qed

end

end
