(* ===== verification/Mission_State.thy ===== *)
theory Mission_State
  imports Prelude Complex_Main
begin

text \<open>
  The data of a mission as its state machine sees it
  (\<open>internal/brain/missions/statemachine.go\<close>, \<open>missions.go\<close>, \<open>review.go\<close>,
  \<open>verify.go\<close>, \<open>policy.go\<close>): phases, statuses, pause reasons, the plan units and
  reviewer findings, the \<open>StepState\<close> slice of a mission row, the inputs of \<open>Step\<close>
  and its output. An empty Go string that means absence is \<^const>\<open>None\<close>;
  a zero \<open>time.Time\<close> is \<^const>\<open>None\<close>; \<open>float64\<close> amounts are reals,
  which are only compared here.
\<close>

section \<open>Phases, statuses, flows\<close>

datatype Phase =
    PhaseDiscover | PhasePlan | PhaseBuild | PhaseProve | PhaseResult | PhaseDone | PhaseFailed

definition phase_name :: "Phase \<Rightarrow> string" where
  "phase_name p = (case p of
     PhaseDiscover \<Rightarrow> ''discover'' | PhasePlan \<Rightarrow> ''plan'' | PhaseBuild \<Rightarrow> ''build''
   | PhaseProve \<Rightarrow> ''prove'' | PhaseResult \<Rightarrow> ''result'' | PhaseDone \<Rightarrow> ''done''
   | PhaseFailed \<Rightarrow> ''failed'')"

definition Terminal :: "Phase \<Rightarrow> bool" where
  "Terminal p = (p = PhaseDone \<or> p = PhaseFailed)"

definition parsePhase :: "string \<Rightarrow> Phase option" where
  "parsePhase raw =
     (if raw = ''discover'' then Some PhaseDiscover
      else if raw = ''plan'' then Some PhasePlan
      else if raw = ''build'' then Some PhaseBuild
      else if raw = ''prove'' then Some PhaseProve
      else if raw = ''result'' then Some PhaseResult
      else if raw = ''done'' then Some PhaseDone
      else if raw = ''failed'' then Some PhaseFailed
      else if raw = ''explore'' then Some PhaseDiscover
      else if raw = ''execute'' \<or> raw = ''generate'' then Some PhaseBuild
      else if raw = ''review'' then Some PhaseProve
      else None)"

datatype Status =
    StatusIdle | StatusWorking | StatusWaitingForInput | StatusPaused | StatusDone | StatusError

definition status_name :: "Status \<Rightarrow> string" where
  "status_name s = (case s of
     StatusIdle \<Rightarrow> ''idle'' | StatusWorking \<Rightarrow> ''working''
   | StatusWaitingForInput \<Rightarrow> ''waiting_for_input'' | StatusPaused \<Rightarrow> ''paused''
   | StatusDone \<Rightarrow> ''done'' | StatusError \<Rightarrow> ''error'')"

definition parseStatus :: "string \<Rightarrow> Status option" where
  "parseStatus raw =
     (if raw = ''idle'' then Some StatusIdle
      else if raw = ''working'' then Some StatusWorking
      else if raw = ''waiting_for_input'' then Some StatusWaitingForInput
      else if raw = ''paused'' then Some StatusPaused
      else if raw = ''done'' then Some StatusDone
      else if raw = ''error'' then Some StatusError
      else None)"

datatype PauseReason =
    PauseBackoff | PauseNoProgress | PauseInfra | PauseBudget | PauseMixedCurrency
  | PauseApproval | PauseReviewExhausted

definition pause_name :: "PauseReason \<Rightarrow> string" where
  "pause_name r = (case r of
     PauseBackoff \<Rightarrow> ''backoff'' | PauseNoProgress \<Rightarrow> ''no_progress'' | PauseInfra \<Rightarrow> ''infra''
   | PauseBudget \<Rightarrow> ''budget'' | PauseMixedCurrency \<Rightarrow> ''mixed_currency''
   | PauseApproval \<Rightarrow> ''approval'' | PauseReviewExhausted \<Rightarrow> ''review_exhausted'')"

text \<open>A stored flow is any string: \<open>FlowOther\<close> is one the code does not know.\<close>

datatype Flow = FlowFull | FlowDiscoverBuild | FlowNoProve | FlowLight | FlowOther string

section \<open>The fixed pipeline\<close>

definition phaseOrder :: "Phase list" where
  "phaseOrder = [PhaseDiscover, PhasePlan, PhaseBuild, PhaseProve]"

definition discoverBuildPhaseOrder :: "Phase list" where
  "discoverBuildPhaseOrder = [PhaseDiscover, PhaseBuild]"

text \<open>The loop of \<open>nextPhase\<close>: the entry after the first match that has one.\<close>

fun successor :: "Phase \<Rightarrow> Phase list \<Rightarrow> Phase option" where
  "successor p (c # n # rest) = (if c = p then Some n else successor p (n # rest))"
| "successor p _ = None"

definition nextPhase :: "Flow \<Rightarrow> Phase \<Rightarrow> Phase option" where
  "nextPhase flow p =
     successor p (if flow = FlowDiscoverBuild then discoverBuildPhaseOrder else phaseOrder)"

section \<open>Findings, units, verification outcomes\<close>

datatype FindingStatus = FindingOpen | FindingResolved | FindingAccepted

datatype Severity = SeverityNone | SeverityBlocking | SeverityMinor | SeverityOther string

record Finding =
  fID :: string
  fUnit :: int
  fTitle :: string
  fFile :: string
  fDetail :: string
  fSeverity :: Severity
  fEvidence :: string
  fStatus :: "FindingStatus option"
  fRoundOpened :: int
  fUntouchedRounds :: int

definition is_open :: "Finding \<Rightarrow> bool" where
  "is_open f = (fStatus f = Some FindingOpen)"

definition Blocking :: "Finding \<Rightarrow> bool" where
  "Blocking f = (fSeverity f \<noteq> SeverityMinor)"

definition OpenFindings :: "Finding list \<Rightarrow> Finding list" where
  "OpenFindings fs = filter is_open fs"

record PlanUnit =
  uTitle :: string
  uCheckCmd :: string
  uLegacyVerifyCmd :: string
  uArtifacts :: "string list"
  uEvidenceOnly :: bool
  uBootstrap :: bool
  uCriteria :: "string list"
  uScope :: "string list"
  uPasses :: bool
  uHarnessPassed :: bool
  uVerifyCheck :: string
  uVerifyExcerpt :: string
  uRegressed :: bool

definition verified :: "PlanUnit \<Rightarrow> bool" where
  "verified u = (uHarnessPassed u \<or> uPasses u)"

definition normalize_unit :: "PlanUnit \<Rightarrow> PlanUnit" where
  "normalize_unit u =
     (let u' = (if uCheckCmd u = [] \<and> uLegacyVerifyCmd u \<noteq> []
                then u\<lparr>uCheckCmd := uLegacyVerifyCmd u\<rparr> else u)
      in u'\<lparr>uLegacyVerifyCmd := []\<rparr>)"

definition normalize_plan :: "PlanUnit list \<Rightarrow> PlanUnit list" where
  "normalize_plan us = map normalize_unit us"

record UnitVerification =
  vUnit :: int
  vPassed :: bool
  vCheck :: string
  vExcerpt :: string

definition verifyExcerptCap :: nat where
  "verifyExcerptCap = 4096"

text \<open>\<open>truncate\<close> of \<open>driver.go\<close>: the cut string ends in the three bytes of U+2026.\<close>

definition ellipsis :: string where
  "ellipsis = [CHR 0xE2, CHR 0x80, CHR 0xA6]"

definition truncate_str :: "string \<Rightarrow> nat \<Rightarrow> string" where
  "truncate_str s n = (if length s \<le> n then s else take n s @ ellipsis)"

section \<open>The state, the inputs, the output of \<open>Step\<close>\<close>

record StepState =
  phase :: Phase
  status :: Status
  pauseReason :: "PauseReason option"
  iteration :: int
  maxIterations :: int
  consecutiveFailures :: int
  lastGapFingerprint :: string
  stallCount :: int
  harnessRetries :: int
  spent :: real
  budget :: "real option"
  mixedCurrencySpend :: bool
  rateAsOf :: string
  units :: "PlanUnit list"
  replanUsed :: bool
  flow :: Flow
  autoApprovePlan :: bool
  reviewFindings :: "Finding list"
  reworkRounds :: int
  lastReviewCommit :: string
  lastReviewAt :: "int option"
  reviewRoute :: string
  reviewRouteModel :: string

definition neverVisitsPlan :: "StepState \<Rightarrow> bool" where
  "neverVisitsPlan s = (flow s = FlowLight \<or> flow s = FlowDiscoverBuild)"

datatype Input =
    InputPhaseComplete | InputWorkerRetry | InputWorkerBlocked | InputPlanDefect
  | InputWorkerFailed | InputReviewApprove | InputReviewRework | InputReviewInfraFailure
  | InputReviewBudget | InputResume | InputCancel | InputPlanInfeasible
  | InputResultComplete | InputResultFailed | InputPlanApprove | InputPlanReplan
  | InputPlanRediscover | InputAskUser | InputRouteChange | InputOther string

record StepInput =
  inInput :: Input
  inGapFingerprint :: string
  inMessage :: string
  inHarnessCaused :: bool
  inReason :: string
  inFindings :: "Finding list"
  inResolved :: "string list"
  inUnit :: int
  inReviewCommit :: string
  inReviewAt :: "int option"
  inTouchedFiles :: "string list option"
  inProvider :: string
  inModel :: string
  inVerified :: "UnitVerification list"
  inRoute :: string
  inUntil :: "int option"
  inCause :: string
  inReviewRoute :: string
  inReviewRouteModel :: string

text \<open>Go's zero value of \<open>StepInput\<close> with the triggering input set.\<close>

definition input :: "Input \<Rightarrow> StepInput" where
  "input i = \<lparr>inInput = i, inGapFingerprint = [], inMessage = [], inHarnessCaused = False,
     inReason = [], inFindings = [], inResolved = [], inUnit = 0, inReviewCommit = [],
     inReviewAt = None, inTouchedFiles = None, inProvider = [], inModel = [], inVerified = [],
     inRoute = [], inUntil = None, inCause = [], inReviewRoute = [], inReviewRouteModel = []\<rparr>"

record EventDraft =
  evKind :: string
  evPayload :: payload

definition event :: "string \<Rightarrow> payload \<Rightarrow> EventDraft" where
  "event k p = \<lparr>evKind = k, evPayload = p\<rparr>"

record Transition =
  Next :: StepState
  Events :: "EventDraft list"

definition transition :: "StepState \<Rightarrow> EventDraft list \<Rightarrow> Transition" where
  "transition s es = \<lparr>Next = s, Events = es\<rparr>"

lemma transition_sel [simp]:
  "Next (transition s es) = s" "Events (transition s es) = es"
  by (simp_all add: transition_def)

lemma event_sel [simp]: "evKind (event k p) = k" "evPayload (event k p) = p"
  by (simp_all add: event_def)

lemma input_sel [simp]: "inInput (input i) = i" "inVerified (input i) = []"
    "inHarnessCaused (input i) = False" "inGapFingerprint (input i) = []"
    "inFindings (input i) = []" "inResolved (input i) = []" "inReviewCommit (input i) = []"
    "inReviewAt (input i) = None" "inTouchedFiles (input i) = None" "inCause (input i) = []"
    "inReviewRoute (input i) = []" "inReviewRouteModel (input i) = []" "inUnit (input i) = 0"
    "inReason (input i) = []" "inModel (input i) = []" "inRoute (input i) = []"
    "inUntil (input i) = None" "inMessage (input i) = []" "inProvider (input i) = []"
  by (simp_all add: input_def)

record Config =
  BackoffFailures :: int
  StallRounds :: int
  HarnessRetryCap :: int

definition DefaultConfig :: Config where
  "DefaultConfig = \<lparr>BackoffFailures = 3, StallRounds = 2, HarnessRetryCap = 3\<rparr>"

section \<open>Names round-trip\<close>

lemma parsePhase_name [simp]: "parsePhase (phase_name p) = Some p"
  by (cases p) (simp_all add: parsePhase_def phase_name_def)

lemma parseStatus_name [simp]: "parseStatus (status_name s) = Some s"
  by (cases s) (simp_all add: parseStatus_def status_name_def)

lemma parseStatus_inverse: "parseStatus raw = Some s \<Longrightarrow> raw = status_name s"
  by (auto simp: parseStatus_def status_name_def split: if_splits)

lemma pause_name_inj: "pause_name a = pause_name b \<longleftrightarrow> a = b"
  by (cases a; cases b) (simp_all add: pause_name_def)

lemma Terminal_simps [simp]:
  "\<not> Terminal PhaseDiscover" "\<not> Terminal PhasePlan" "\<not> Terminal PhaseBuild"
  "\<not> Terminal PhaseProve" "\<not> Terminal PhaseResult" "Terminal PhaseDone" "Terminal PhaseFailed"
  by (simp_all add: Terminal_def)

lemma nextPhase_cases:
  "nextPhase f p = Some q \<longleftrightarrow>
     (if f = FlowDiscoverBuild then p = PhaseDiscover \<and> q = PhaseBuild
      else (p, q) \<in> {(PhaseDiscover, PhasePlan), (PhasePlan, PhaseBuild), (PhaseBuild, PhaseProve)})"
  by (cases p; cases q) (simp_all add: nextPhase_def phaseOrder_def discoverBuildPhaseOrder_def)

lemma length_truncate_str: "length (truncate_str s n) \<le> n + 3"
  by (simp add: truncate_str_def ellipsis_def)

lemma normalize_unit_idem: "normalize_unit (normalize_unit u) = normalize_unit u"
  by (simp add: normalize_unit_def Let_def)

end
