(* ===== verification/Go_Path.thy ===== *)
theory Go_Path
  imports Prelude
begin

text \<open>
  Go's lexical path functions (\<open>path.Clean\<close>, \<open>path.Join\<close>; \<open>filepath\<close> agrees with
  \<open>path\<close> on the Unix systems the services run on), which the findings ledger and the
  permission guard both rest on, and the facts that make a lexical containment check
  meaningful: a cleaned rooted path has no \<open>.\<close> or \<open>..\<close> component.
\<close>

definition dot :: string where "dot = ''.''"
definition dotdot :: string where "dotdot = ''..''"

abbreviation slash :: char where "slash \<equiv> CHR ''/''"

definition rooted :: "string \<Rightarrow> bool" where
  "rooted p = has_prefix p ''/''"

definition components :: "string \<Rightarrow> string list" where
  "components p = split_on (\<lambda>c. c = slash) p"

text \<open>
  One component pushed onto the reversed output: empty and \<open>.\<close> elements vanish, \<open>..\<close>
  removes the element before it, and at the root of a rooted path it vanishes too.
\<close>

definition push_component :: "bool \<Rightarrow> string \<Rightarrow> string list \<Rightarrow> string list" where
  "push_component rt c out =
     (if c = [] \<or> c = dot then out
      else if c = dotdot then
        (case out of
           [] \<Rightarrow> (if rt then [] else [dotdot])
         | d # rest \<Rightarrow> (if d = dotdot then dotdot # out else rest))
      else c # out)"

definition clean_components :: "bool \<Rightarrow> string list \<Rightarrow> string list" where
  "clean_components rt cs = rev (fold (push_component rt) cs [])"

definition path_clean :: "string \<Rightarrow> string" where
  "path_clean p =
     (let rt = rooted p; cs = clean_components rt (components p)
      in if rt then slash # str_join ''/'' cs
         else if cs = [] then dot
         else str_join ''/'' cs)"

text \<open>\<open>path.Join\<close> of two elements: empty elements are ignored, the rest is cleaned.\<close>

definition path_join :: "string \<Rightarrow> string \<Rightarrow> string" where
  "path_join a b =
     (let es = filter (\<lambda>e. e \<noteq> []) [a, b]
      in if es = [] then [] else path_clean (str_join ''/'' es))"

definition path_base :: "string \<Rightarrow> string" where
  "path_base p =
     (if p = [] then dot
      else let b = last (components (rev (dropWhile (\<lambda>c. c = slash) (rev p))))
           in if b = [] then ''/'' else b)"

definition path_dir :: "string \<Rightarrow> string" where
  "path_dir p = path_clean (rev (dropWhile (\<lambda>c. c \<noteq> slash) (rev p)))"

text \<open>The suffix from the last dot of the last element.\<close>

definition path_ext :: "string \<Rightarrow> string" where
  "path_ext p =
     (let b = last (components p)
      in if CHR ''.'' \<in> set b then CHR ''.'' # rev (takeWhile (\<lambda>c. c \<noteq> CHR ''.'') (rev b)) else [])"

text \<open>\<open>filepath.IsLocal\<close> on Unix.\<close>

definition is_local :: "string \<Rightarrow> bool" where
  "is_local p =
     (if rooted p \<or> p = [] then False
      else let q = (if list_ex (\<lambda>c. c = dot \<or> c = dotdot) (components p) then path_clean p else p)
           in \<not> (q = dotdot \<or> has_prefix q ''../''))"

section \<open>What cleaning leaves\<close>

definition plain_component :: "string \<Rightarrow> bool" where
  "plain_component c = (c \<noteq> [] \<and> c \<noteq> dot \<and> c \<noteq> dotdot \<and> slash \<notin> set c)"

lemma components_no_slash: "c \<in> set (components p) \<Longrightarrow> slash \<notin> set c"
  unfolding components_def using split_on_no_sep by fast

lemma push_rooted_plain:
  "\<forall>d \<in> set out. plain_component d \<Longrightarrow> slash \<notin> set c \<Longrightarrow>
     \<forall>d \<in> set (push_component True c out). plain_component d"
  by (cases out) (simp_all add: push_component_def plain_component_def)

lemma fold_push_rooted_plain:
  "\<forall>c \<in> set cs. slash \<notin> set c \<Longrightarrow> \<forall>d \<in> set out. plain_component d \<Longrightarrow>
     \<forall>d \<in> set (fold (push_component True) cs out). plain_component d"
proof (induction cs arbitrary: out)
  case Nil
  then show ?case by simp
next
  case (Cons c cs)
  then show ?case using push_rooted_plain [of out c] by simp
qed

lemma clean_rooted_plain:
  "\<forall>c \<in> set cs. slash \<notin> set c \<Longrightarrow> \<forall>d \<in> set (clean_components True cs). plain_component d"
  using fold_push_rooted_plain [of cs "[]"] by (simp add: clean_components_def)

lemma push_plain: "plain_component c \<Longrightarrow> push_component rt c out = c # out"
  by (simp add: push_component_def plain_component_def)

lemma fold_push_plain:
  "\<forall>c \<in> set cs. plain_component c \<Longrightarrow> fold (push_component rt) cs out = rev cs @ out"
  by (induction cs arbitrary: out) (auto simp: push_plain)

lemma clean_components_plain:
  "\<forall>c \<in> set cs. plain_component c \<Longrightarrow> clean_components rt cs = cs"
  by (simp add: clean_components_def fold_push_plain)

lemma split_on_append_sep:
  "\<forall>c \<in> set w. \<not> p c \<Longrightarrow> p d \<Longrightarrow> split_on p (w @ d # s) = w # split_on p s"
  by (induction w) auto

lemma split_on_word: "\<forall>c \<in> set w. \<not> p c \<Longrightarrow> split_on p w = [w]"
  by (induction w) auto

lemma components_join:
  "\<forall>c \<in> set cs. slash \<notin> set c \<Longrightarrow> cs \<noteq> [] \<Longrightarrow> components (str_join ''/'' cs) = cs"
proof (induction cs rule: induct_list012)
  case 1
  then show ?case by simp
next
  case (2 w)
  then have "\<forall>c \<in> set w. \<not> (c = slash)" by auto
  then show ?case by (simp add: components_def split_on_word [where p = "\<lambda>c. c = slash"])
next
  case (3 w v ws)
  then have "components (str_join ''/'' (v # ws)) = v # ws" by simp
  moreover from "3.prems" have "\<forall>c \<in> set w. \<not> (c = slash)" by auto
  ultimately show ?case
    by (simp add: components_def split_on_append_sep [where p = "\<lambda>c. c = slash"])
qed

lemma components_root: "components (slash # s) = [] # components s"
  by (simp add: components_def)

lemma clean_components_Nil: "clean_components rt ([] # cs) = clean_components rt cs"
  by (simp add: clean_components_def push_component_def)

text \<open>A rooted path stays rooted, and cleaning a cleaned rooted path changes nothing.\<close>

lemma rooted_Cons [simp]: "rooted (slash # s)"
  by (simp add: rooted_def)

lemma rooted_clean: "rooted p \<Longrightarrow> rooted (path_clean p)"
  by (simp add: path_clean_def Let_def)

lemma clean_components_empty [simp]: "clean_components rt [[]] = []"
  by (simp add: clean_components_def push_component_def)

lemma components_clean_rooted:
  assumes "rooted p"
  shows "\<exists>cs. path_clean p = slash # str_join ''/'' cs \<and> (\<forall>c \<in> set cs. plain_component c)"
  using assms clean_rooted_plain [of "components p"] components_no_slash [of _ p]
  by (auto simp: path_clean_def Let_def)

lemma path_clean_canonical:
  assumes "\<forall>c \<in> set cs. plain_component c"
  shows "path_clean (slash # str_join ''/'' cs) = slash # str_join ''/'' cs"
proof (cases "cs = []")
  case True
  then show ?thesis
    by (simp add: path_clean_def Let_def components_def clean_components_def push_component_def)
next
  case False
  from assms have "\<forall>c \<in> set cs. slash \<notin> set c" by (auto simp: plain_component_def)
  with False have "components (str_join ''/'' cs) = cs" by (simp add: components_join)
  with assms show ?thesis
    by (simp add: path_clean_def Let_def components_root clean_components_Nil
        clean_components_plain)
qed

lemma path_clean_idem: "rooted p \<Longrightarrow> path_clean (path_clean p) = path_clean p"
  using components_clean_rooted [of p] path_clean_canonical by metis

end
