(* ===== verification/Findings.thy ===== *)
theory Findings
  imports Mission_State Go_Path
begin

text \<open>
  The reviewer-findings ledger of a mission (D-092; \<open>statemachine.go\<close> from
  \<open>mergeFindings\<close> to \<open>findingsSummary\<close>): merging a rework round, scoring a worker
  turn against the open findings, resolving everything on approval. The facts say that the
  ledger is an append-only history: identifiers are \<open>F1, F2, \<dots>\<close> in order of first
  appearance, entries are never dropped, a closed entry never changes again, and two open
  entries never describe the same file and title words.
\<close>

section \<open>Duplicate detection\<close>

definition normalizeFindingPath :: "string \<Rightarrow> string" where
  "normalizeFindingPath p =
     (let q = trim_space (to_lower p)
      in if q = [] then []
         else trim_prefix (trim_prefix (path_clean q) ''./'') ''/'')"

text \<open>
  The in-place \<open>uniq := tokens[:0]\<close> loop keeps a token that differs from its
  predecessor in the sorted slice: the write position never passes the read position, so
  the predecessor it compares with is the sorted slice's own.
\<close>

definition findingKey :: "Finding \<Rightarrow> string" where
  "findingKey f =
     (let tokens = sort (fields_func (\<lambda>c. \<not> is_letter c \<and> \<not> is_digit c) (to_lower (fTitle f)))
      in normalizeFindingPath (fFile f) @ ''|'' @ str_join '' '' (remdups_adj tokens))"

section \<open>Merging a rework round\<close>

fun refresh_match :: "string \<Rightarrow> string \<Rightarrow> Finding list \<Rightarrow> Finding list option" where
  "refresh_match key detail [] = None"
| "refresh_match key detail (f # fs) =
     (if is_open f \<and> findingKey f = key
      then Some ((if detail \<noteq> [] then f\<lparr>fDetail := detail\<rparr> else f) # fs)
      else map_option (\<lambda>fs'. f # fs') (refresh_match key detail fs))"

definition finding_id :: "nat \<Rightarrow> string" where
  "finding_id n = ''F'' @ nat_dec n"

definition open_finding :: "int \<Rightarrow> int \<Rightarrow> nat \<Rightarrow> Finding \<Rightarrow> Finding" where
  "open_finding unit rnd n f =
     f\<lparr>fID := finding_id n, fUnit := unit, fStatus := Some FindingOpen, fRoundOpened := rnd,
       fUntouchedRounds := 0,
       fSeverity := (if fSeverity f \<noteq> SeverityMinor then SeverityBlocking else SeverityMinor)\<rparr>"

definition merge_one :: "int \<Rightarrow> int \<Rightarrow> Finding \<Rightarrow> Finding list \<Rightarrow> Finding list" where
  "merge_one unit rnd f out =
     (case refresh_match (findingKey f) (fDetail f) out of
        Some out' \<Rightarrow> out'
      | None \<Rightarrow> out @ [open_finding unit rnd (length out + 1) f])"

definition resolve_id :: "string \<Rightarrow> Finding list \<Rightarrow> Finding list" where
  "resolve_id i out =
     map (\<lambda>f. if fID f = i \<and> is_open f then f\<lparr>fStatus := Some FindingResolved\<rparr> else f) out"

definition mergeFindings ::
    "Finding list \<Rightarrow> Finding list \<Rightarrow> string list \<Rightarrow> int \<Rightarrow> int \<Rightarrow> Finding list" where
  "mergeFindings existing incoming resolved unit rnd =
     (if incoming = [] \<and> resolved = [] then existing
      else fold resolve_id resolved (fold (merge_one unit rnd) incoming existing))"

section \<open>Scoring a worker turn\<close>

definition fileTouched :: "string \<Rightarrow> string list \<Rightarrow> bool" where
  "fileTouched file touched =
     (let want = normalizeFindingPath file
      in list_ex (\<lambda>t. let got = normalizeFindingPath t
           in got = want \<or> has_prefix got (want @ ''/'') \<or> has_suffix got (''/'' @ want)) touched)"

definition scored :: "Finding \<Rightarrow> bool" where
  "scored f = (is_open f \<and> normalizeFindingPath (fFile f) \<noteq> [])"

definition score_finding :: "string list \<Rightarrow> Finding \<Rightarrow> Finding" where
  "score_finding touched f =
     (if \<not> scored f then f
      else if fileTouched (fFile f) touched then f\<lparr>fUntouchedRounds := 0\<rparr>
      else f\<lparr>fUntouchedRounds := fUntouchedRounds f + 1\<rparr>)"

definition markUntouched :: "Finding list \<Rightarrow> string list \<Rightarrow> Finding list \<times> Finding list" where
  "markUntouched findings touched =
     (let out = map (score_finding touched) findings
      in (out, filter (\<lambda>f. scored f \<and> \<not> fileTouched (fFile f) touched \<and> Blocking f) out))"

definition stalledFindings :: "Finding list \<Rightarrow> int \<Rightarrow> Finding list" where
  "stalledFindings opn stallRounds =
     filter (\<lambda>f. Blocking f \<and> stallRounds \<le> fUntouchedRounds f) opn"

definition resolveAll :: "Finding list \<Rightarrow> Finding list" where
  "resolveAll fs =
     (if OpenFindings fs = [] then fs
      else map (\<lambda>f. if is_open f then f\<lparr>fStatus := Some FindingResolved\<rparr> else f) fs)"

definition findingIDs :: "Finding list \<Rightarrow> string list" where
  "findingIDs fs = map fID fs"

definition findingsSummary :: "Finding list \<Rightarrow> string" where
  "findingsSummary fs = str_join ''; '' (map (\<lambda>f. fID f @ '' '' @ fTitle f) fs)"

section \<open>The ledger only grows\<close>

text \<open>
  What stays of an entry forever: its identity. What stays of a closed entry: everything.
\<close>

definition same_identity :: "Finding \<Rightarrow> Finding \<Rightarrow> bool" where
  "same_identity f g =
     (fID f = fID g \<and> fUnit f = fUnit g \<and> fTitle f = fTitle g \<and> fFile f = fFile g
      \<and> fSeverity f = fSeverity g \<and> fRoundOpened f = fRoundOpened g)"

definition evolves :: "Finding \<Rightarrow> Finding \<Rightarrow> bool" where
  "evolves f g = (same_identity f g \<and> (\<not> is_open f \<longrightarrow> g = f))"

definition ledger_le :: "Finding list \<Rightarrow> Finding list \<Rightarrow> bool" where
  "ledger_le fs gs = (\<exists>hs ks. gs = hs @ ks \<and> list_all2 evolves fs hs)"

lemma evolves_refl [simp]: "evolves f f"
  by (simp add: evolves_def same_identity_def)

lemma evolves_trans: "evolves f g \<Longrightarrow> evolves g h \<Longrightarrow> evolves f h"
  by (auto simp: evolves_def same_identity_def)

lemma ledger_le_refl [simp]: "ledger_le fs fs"
  unfolding ledger_le_def
  by (rule exI [of _ fs], rule exI [of _ "[]"]) (simp add: list_all2_refl)

lemma ledger_le_trans:
  assumes "ledger_le fs gs" and "ledger_le gs hs"
  shows "ledger_le fs hs"
proof -
  from assms(1) obtain g1 g2 where g: "gs = g1 @ g2" "list_all2 evolves fs g1"
    by (auto simp: ledger_le_def)
  from assms(2) obtain h1 h2 where h: "hs = h1 @ h2" "list_all2 evolves gs h1"
    by (auto simp: ledger_le_def)
  from g(1) h(2) obtain k1 k2 where k: "h1 = k1 @ k2" "list_all2 evolves g1 k1"
    by (auto simp: list_all2_append1)
  from g(2) k(2) have "list_all2 evolves fs k1"
    by (rule list_all2_trans [rotated]) (rule evolves_trans)
  with h(1) k(1) show ?thesis by (auto simp: ledger_le_def)
qed

lemma ledger_le_map: "(\<And>f. evolves f (h f)) \<Longrightarrow> ledger_le fs (map h fs)"
  unfolding ledger_le_def
  by (rule exI [of _ "map h fs"], rule exI [of _ "[]"])
     (simp add: list_all2_map2 list.rel_refl_strong)

lemma ledger_le_append: "ledger_le fs (fs @ gs)"
  unfolding ledger_le_def
  by (rule exI [of _ fs], rule exI [of _ gs]) (simp add: list_all2_refl)

lemma ledger_le_length: "ledger_le fs gs \<Longrightarrow> length fs \<le> length gs"
  by (auto simp: ledger_le_def dest: list_all2_lengthD)

lemma ledger_le_nth:
  "ledger_le fs gs \<Longrightarrow> i < length fs \<Longrightarrow> evolves (fs ! i) (gs ! i)"
  by (auto simp: ledger_le_def nth_append list_all2_conv_all_nth)

section \<open>How each operation moves the ledger\<close>

lemma refresh_match_le: "refresh_match key d fs = Some gs \<Longrightarrow> list_all2 evolves fs gs"
proof (induction fs arbitrary: gs)
  case Nil
  then show ?case by simp
next
  case (Cons f fs)
  then show ?case
    by (auto split: if_splits simp: list_all2_refl evolves_def same_identity_def)
qed

lemma refresh_match_None:
  "refresh_match key d fs = None \<longleftrightarrow> (\<forall>f \<in> set fs. is_open f \<longrightarrow> findingKey f \<noteq> key)"
  by (induction fs) auto

lemma refresh_match_ids: "refresh_match key d fs = Some gs \<Longrightarrow> map fID gs = map fID fs"
  by (induction fs arbitrary: gs) (auto split: if_splits)

lemma findingKey_cong: "fTitle f = fTitle g \<Longrightarrow> fFile f = fFile g \<Longrightarrow> findingKey f = findingKey g"
  by (simp add: findingKey_def)

lemma findingKey_detail [simp]: "findingKey (f\<lparr>fDetail := d\<rparr>) = findingKey f"
  by (rule findingKey_cong) simp_all

lemma is_open_detail [simp]: "is_open (f\<lparr>fDetail := d\<rparr>) = is_open f"
  by (simp add: is_open_def)

lemma findingKey_status [simp]: "findingKey (f\<lparr>fStatus := d\<rparr>) = findingKey f"
  by (rule findingKey_cong) simp_all

lemma is_open_status [simp]: "is_open (f\<lparr>fStatus := st\<rparr>) = (st = Some FindingOpen)"
  by (simp add: is_open_def)

lemma score_open [simp]: "is_open (score_finding t f) = is_open f"
  by (simp add: score_finding_def is_open_def)

lemma score_key [simp]: "findingKey (score_finding t f) = findingKey f"
  by (rule findingKey_cong) (simp_all add: score_finding_def)

lemma evolves_resolve: "is_open f \<Longrightarrow> evolves f (f\<lparr>fStatus := Some FindingResolved\<rparr>)"
  by (simp add: evolves_def same_identity_def)

lemma merge_one_le: "ledger_le fs (merge_one u r f fs)"
proof (cases "refresh_match (findingKey f) (fDetail f) fs")
  case None
  then show ?thesis by (simp add: merge_one_def ledger_le_append)
next
  case (Some gs)
  with refresh_match_le [OF Some] show ?thesis
    unfolding ledger_le_def merge_one_def by (intro exI [of _ gs] exI [of _ "[]"]) simp
qed

lemma resolve_id_le: "ledger_le fs (resolve_id i fs)"
  unfolding resolve_id_def by (rule ledger_le_map) (simp add: evolves_resolve)

lemma fold_le:
  "(\<And>x fs. ledger_le fs (h x fs)) \<Longrightarrow> ledger_le fs (fold h xs fs)"
proof (induction xs arbitrary: fs)
  case Nil
  show ?case by simp
next
  case (Cons x xs)
  have "ledger_le fs (h x fs)" by (rule Cons.prems)
  moreover have "ledger_le (h x fs) (fold h xs (h x fs))" using Cons by blast
  ultimately show ?case using ledger_le_trans by simp
qed

lemma mergeFindings_le: "ledger_le fs (mergeFindings fs inc res u r)"
proof -
  have "ledger_le fs (fold (merge_one u r) inc fs)" by (intro fold_le merge_one_le)
  also have "ledger_le \<dots> (fold resolve_id res (fold (merge_one u r) inc fs))"
    by (intro fold_le resolve_id_le)
  finally (ledger_le_trans) show ?thesis by (simp add: mergeFindings_def)
qed

lemma markUntouched_le: "ledger_le fs (fst (markUntouched fs t))"
  unfolding markUntouched_def Let_def fst_conv
  by (rule ledger_le_map)
     (auto simp: evolves_def same_identity_def score_finding_def scored_def)

lemma resolveAll_le: "ledger_le fs (resolveAll fs)"
  using ledger_le_map [of "\<lambda>f. if is_open f then f\<lparr>fStatus := Some FindingResolved\<rparr> else f" fs]
  by (simp add: resolveAll_def evolves_resolve)

lemmas ledger_steps = mergeFindings_le markUntouched_le resolveAll_le

lemma OpenFindings_resolveAll [simp]: "OpenFindings (resolveAll fs) = []"
  by (auto simp: resolveAll_def OpenFindings_def filter_empty_conv)

section \<open>Identifiers\<close>

definition ledger_ids :: "Finding list \<Rightarrow> bool" where
  "ledger_ids fs = (map fID fs = map finding_id [1..<length fs + 1])"

lemma finding_id_inj: "finding_id m = finding_id n \<longleftrightarrow> m = n"
  by (simp add: finding_id_def nat_dec_inj)

lemma ledger_ids_distinct: "ledger_ids fs \<Longrightarrow> distinct (map fID fs)"
  unfolding ledger_ids_def
  by (simp add: distinct_map inj_on_def finding_id_inj)

lemma ledger_ids_cong: "map fID gs = map fID fs \<Longrightarrow> ledger_ids fs \<Longrightarrow> ledger_ids gs"
  unfolding ledger_ids_def by (metis length_map)

lemma map_id_resolve [simp]: "map fID (resolve_id i fs) = map fID fs"
  by (auto simp: resolve_id_def)

lemma map_id_mark [simp]: "map fID (fst (markUntouched fs t)) = map fID fs"
  by (auto simp: markUntouched_def Let_def score_finding_def)

lemma map_id_resolveAll [simp]: "map fID (resolveAll fs) = map fID fs"
  by (auto simp: resolveAll_def)

lemma ledger_ids_merge_one: "ledger_ids fs \<Longrightarrow> ledger_ids (merge_one u r f fs)"
proof (cases "refresh_match (findingKey f) (fDetail f) fs")
  case None
  assume "ledger_ids fs"
  with None show ?thesis by (simp add: merge_one_def ledger_ids_def open_finding_def)
next
  case (Some gs)
  assume "ledger_ids fs"
  with refresh_match_ids [OF Some] Some show ?thesis
    by (auto simp: merge_one_def intro: ledger_ids_cong)
qed

lemma ledger_ids_merge: "ledger_ids fs \<Longrightarrow> ledger_ids (mergeFindings fs inc res u r)"
  unfolding mergeFindings_def
  by (auto intro!: fold_invariant [where P = ledger_ids] ledger_ids_merge_one
      intro: ledger_ids_cong [OF map_id_resolve])

section \<open>No duplicates among the open findings\<close>

definition open_keys :: "Finding list \<Rightarrow> string list" where
  "open_keys fs = map findingKey (filter is_open fs)"

definition no_open_duplicates :: "Finding list \<Rightarrow> bool" where
  "no_open_duplicates fs = distinct (open_keys fs)"

lemma open_keys_refresh: "refresh_match key d fs = Some gs \<Longrightarrow> open_keys gs = open_keys fs"
  by (induction fs arbitrary: gs) (auto simp: open_keys_def split: if_splits)

lemma open_keys_set: "key \<in> set (open_keys fs) \<longleftrightarrow> (\<exists>f \<in> set fs. is_open f \<and> findingKey f = key)"
  by (auto simp: open_keys_def)

lemma open_finding_key [simp]: "findingKey (open_finding u r n f) = findingKey f"
  by (rule findingKey_cong) (simp_all add: open_finding_def)

lemma open_finding_open [simp]: "is_open (open_finding u r n f)"
  by (simp add: open_finding_def is_open_def)

lemma open_keys_merge_one:
  "open_keys (merge_one u r f fs) =
     (if findingKey f \<in> set (open_keys fs) then open_keys fs else open_keys fs @ [findingKey f])"
proof (cases "refresh_match (findingKey f) (fDetail f) fs")
  case None
  then have "findingKey f \<notin> set (open_keys fs)"
    by (auto simp: refresh_match_None open_keys_set)
  with None show ?thesis by (simp add: merge_one_def open_keys_def)
next
  case (Some gs)
  then have "findingKey f \<in> set (open_keys fs)"
    using refresh_match_None [of "findingKey f" "fDetail f" fs] by (auto simp: open_keys_set)
  with Some open_keys_refresh [OF Some] show ?thesis by (simp add: merge_one_def)
qed

lemma no_dup_merge_one: "no_open_duplicates fs \<Longrightarrow> no_open_duplicates (merge_one u r f fs)"
  by (simp add: no_open_duplicates_def open_keys_merge_one)

lemma open_keys_resolve_subseq: "subseq (open_keys (resolve_id i fs)) (open_keys fs)"
  by (induction fs) (auto simp: open_keys_def resolve_id_def)

lemma no_dup_resolve: "no_open_duplicates fs \<Longrightarrow> no_open_duplicates (resolve_id i fs)"
  unfolding no_open_duplicates_def
  using open_keys_resolve_subseq subseq_conv_nths distinct_nthsI by metis

lemma no_dup_merge:
  "no_open_duplicates fs \<Longrightarrow> no_open_duplicates (mergeFindings fs inc res u r)"
  unfolding mergeFindings_def
  by (auto intro!: fold_invariant [where P = no_open_duplicates] no_dup_merge_one no_dup_resolve)

lemma open_keys_mark [simp]: "open_keys (fst (markUntouched fs t)) = open_keys fs"
  by (auto simp: open_keys_def markUntouched_def Let_def filter_map o_def)

lemma no_dup_resolveAll [simp]: "no_open_duplicates (resolveAll fs)"
  using OpenFindings_resolveAll [of fs]
  by (simp add: no_open_duplicates_def open_keys_def OpenFindings_def)

text \<open>A key once open stays open through a merge that resolves nothing.\<close>

lemma open_keys_fold_mono:
  "set (open_keys fs) \<subseteq> set (open_keys (fold (merge_one u r) inc fs))"
proof (induction inc arbitrary: fs)
  case Nil
  then show ?case by simp
next
  case (Cons f inc)
  have "set (open_keys fs) \<subseteq> set (open_keys (merge_one u r f fs))"
    by (auto simp: open_keys_merge_one)
  with Cons.IH [of "merge_one u r f fs"] show ?case by auto
qed

lemma open_keys_fold_covers:
  "f \<in> set inc \<Longrightarrow> findingKey f \<in> set (open_keys (fold (merge_one u r) inc fs))"
proof (induction inc arbitrary: fs)
  case Nil
  then show ?case by simp
next
  case (Cons g inc)
  show ?case
  proof (cases "f = g")
    case True
    have "findingKey f \<in> set (open_keys (merge_one u r f fs))"
      by (simp add: open_keys_merge_one)
    with True open_keys_fold_mono [of "merge_one u r f fs" u r inc] show ?thesis by auto
  next
    case False
    with Cons show ?thesis by simp
  qed
qed

lemma length_merge_one_known:
  "findingKey f \<in> set (open_keys fs) \<Longrightarrow> length (merge_one u r f fs) = length fs"
proof (cases "refresh_match (findingKey f) (fDetail f) fs")
  case None
  assume "findingKey f \<in> set (open_keys fs)"
  with None show ?thesis by (auto simp: refresh_match_None open_keys_set)
next
  case (Some gs)
  then show ?thesis
    using refresh_match_ids [OF Some] by (simp add: merge_one_def) (metis length_map)
qed

lemma length_fold_known:
  "\<forall>f \<in> set inc. findingKey f \<in> set (open_keys fs) \<Longrightarrow>
     length (fold (merge_one u r) inc fs) = length fs"
proof (induction inc arbitrary: fs)
  case Nil
  then show ?case by simp
next
  case (Cons g inc)
  then have "\<forall>f \<in> set inc. findingKey f \<in> set (open_keys (merge_one u r g fs))"
    by (simp add: open_keys_merge_one)
  with Cons show ?case by (simp add: length_merge_one_known)
qed

end
