(* ===== verification/Mission_Step.thy ===== *)
theory Mission_Step
  imports Findings
begin

text \<open>
  The pure transition function of a mission (\<open>Step\<close>,
  \<open>internal/brain/missions/statemachine.go\<close>), one definition per Go function, in the
  source's order of guards: cancel, then batch verification, then the budget brake, then
  the switch on the input. The facts are the branch lemmas the run theory builds on.
\<close>

section \<open>Batch verification and the plan's units\<close>

definition apply_one :: "UnitVerification \<Rightarrow> PlanUnit list \<times> EventDraft list
    \<Rightarrow> PlanUnit list \<times> EventDraft list" where
  "apply_one v acc =
     (let us = fst acc; evs = snd acc in
      if vUnit v < 0 \<or> int (length us) \<le> vUnit v then (us, evs)
      else
        let i = nat (vUnit v);
            u = (us ! i)\<lparr>uVerifyCheck := vCheck v,
                         uVerifyExcerpt := truncate_str (vExcerpt v) verifyExcerptCap\<rparr>
        in if vPassed v then (us[i := u\<lparr>uHarnessPassed := True, uRegressed := False\<rparr>], evs)
           else if verified u then
             (us[i := u\<lparr>uRegressed := True, uHarnessPassed := False, uPasses := False\<rparr>],
              evs @ [event ''mission.unit_regressed''
                 [(''unit'', JInt (vUnit v)), (''title'', JStr (uTitle u)),
                  (''check'', JStr (vCheck v)), (''excerpt'', JStr (truncate_str (vExcerpt v) 500))]])
           else (us[i := u\<lparr>uHarnessPassed := False, uPasses := False\<rparr>], evs))"

definition applyVerification :: "StepState \<Rightarrow> UnitVerification list \<Rightarrow> StepState \<times> EventDraft list" where
  "applyVerification s vs =
     (if vs = [] then (s, [])
      else let r = fold apply_one vs (units s, []) in (s\<lparr>units := fst r\<rparr>, snd r))"

definition unitsUnderReview :: "PlanUnit list \<Rightarrow> nat list" where
  "unitsUnderReview us =
     filter (\<lambda>i. uHarnessPassed (us ! i) \<and> \<not> uPasses (us ! i)) [0..<length us]"

definition passHarnessVerified :: "PlanUnit list \<Rightarrow> PlanUnit list" where
  "passHarnessVerified us =
     (if unitsUnderReview us = [] then us
      else map (\<lambda>u. if uHarnessPassed u then u\<lparr>uPasses := True\<rparr> else u) us)"

definition allPassed :: "PlanUnit list \<Rightarrow> bool" where
  "allPassed us = list_all uPasses us"

definition unverifiedUnits :: "PlanUnit list \<Rightarrow> nat list" where
  "unverifiedUnits us = filter (\<lambda>i. \<not> verified (us ! i)) [0..<length us]"

definition firstUnverified :: "PlanUnit list \<Rightarrow> int" where
  "firstUnverified us = (case unverifiedUnits us of [] \<Rightarrow> -1 | i # _ \<Rightarrow> int i)"

section \<open>State updates\<close>

definition withStatus :: "StepState \<Rightarrow> Status \<Rightarrow> StepState" where
  "withStatus s st = s\<lparr>status := st\<rparr>"

definition withPause :: "StepState \<Rightarrow> PauseReason \<Rightarrow> StepState" where
  "withPause s r = s\<lparr>status := StatusPaused, pauseReason := Some r\<rparr>"

definition withPhaseFailed :: "StepState \<Rightarrow> StepState" where
  "withPhaseFailed s = s\<lparr>phase := PhaseFailed, status := StatusError, pauseReason := None\<rparr>"

definition paused_event :: "PauseReason \<Rightarrow> string \<Rightarrow> payload \<Rightarrow> EventDraft" where
  "paused_event r cause extra =
     event ''mission.paused'' ([(''reason'', JStr (pause_name r)), (''cause'', JStr cause)] @ extra)"

section \<open>Input handlers\<close>

definition stepResume :: "StepState \<Rightarrow> Transition" where
  "stepResume s =
     (if Terminal (phase s) then transition s []
      else transition (s\<lparr>status := StatusIdle, pauseReason := None\<rparr>) [event ''mission.resumed'' []])"

definition advance_phase :: "StepState \<Rightarrow> Phase \<Rightarrow> EventDraft list \<Rightarrow> Transition" where
  "advance_phase s next events =
     transition (s\<lparr>phase := next, status := StatusIdle, iteration := 0, consecutiveFailures := 0\<rparr>)
       (events @ [event ''mission.phase_started'' [(''phase'', JStr (phase_name next))]])"

definition score_turn :: "StepState \<Rightarrow> StepInput \<Rightarrow> StepState \<times> EventDraft list" where
  "score_turn s i =
     (case inTouchedFiles i of
        None \<Rightarrow> (s, [])
      | Some touched \<Rightarrow>
          if phase s \<noteq> PhaseBuild then (s, [])
          else let m = markUntouched (reviewFindings s) touched
               in (s\<lparr>reviewFindings := fst m\<rparr>,
                   if snd m = [] then []
                   else [event ''mission.rework_untouched''
                     [(''findings'', JStrs (findingIDs (snd m))),
                      (''detail'', JStr (findingsSummary (snd m)))]]))"

definition stepPhaseComplete :: "StepState \<Rightarrow> StepInput \<Rightarrow> Transition" where
  "stepPhaseComplete s i =
     (if phase s = PhasePlan \<and> \<not> autoApprovePlan s then
        transition (withPause s PauseApproval)
          [event ''mission.plan_awaiting_approval'' [(''cause'', JStr ''plan_approval'')]]
      else case nextPhase (flow s) (phase s) of
        None \<Rightarrow> transition s []
      | Some next \<Rightarrow>
          let r = score_turn s i; s1 = fst r; events = snd r; pending = unverifiedUnits (units s1)
          in if phase s1 = PhaseBuild \<and> OpenFindings (reviewFindings s1) = [] \<and> pending \<noteq> [] then
               transition (s1\<lparr>status := StatusIdle, iteration := 0, consecutiveFailures := 0\<rparr>)
                 (events @ [event ''mission.generate_continued''
                    [(''next_unit'', JInt (int (hd pending))),
                     (''pending_units'', JInt (int (length pending)))]])
             else advance_phase s1 next events)"

definition awaiting_approval :: "StepState \<Rightarrow> bool" where
  "awaiting_approval s = (phase s = PhasePlan \<and> pauseReason s = Some PauseApproval)"

definition fresh_start :: "StepState \<Rightarrow> StepState" where
  "fresh_start s = s\<lparr>status := StatusIdle, pauseReason := None, iteration := 0, consecutiveFailures := 0\<rparr>"

definition stepPlanApprove :: "StepState \<Rightarrow> Transition" where
  "stepPlanApprove s =
     (if \<not> awaiting_approval s then transition s []
      else transition ((fresh_start s)\<lparr>phase := PhaseBuild\<rparr>) [event ''mission.plan_approved'' []])"

definition stepPlanReplan :: "StepState \<Rightarrow> StepInput \<Rightarrow> Transition" where
  "stepPlanReplan s i =
     (if \<not> awaiting_approval s then transition s []
      else transition (fresh_start s)
        [event ''mission.plan_replan_requested'' [(''feedback'', JBool (inReason i \<noteq> []))]])"

definition stepPlanRediscover :: "StepState \<Rightarrow> Transition" where
  "stepPlanRediscover s =
     (if \<not> awaiting_approval s then transition s []
      else transition ((fresh_start s)\<lparr>phase := PhaseDiscover\<rparr>)
        [event ''mission.rediscover_requested'' []])"

definition stepRouteChange :: "StepState \<Rightarrow> StepInput \<Rightarrow> Transition" where
  "stepRouteChange s i =
     (if Terminal (phase s) \<or> status s \<noteq> StatusPaused \<or> inReviewRoute i = [] then transition s []
      else transition (s\<lparr>reviewRoute := inReviewRoute i, reviewRouteModel := inReviewRouteModel i\<rparr>)
        [event ''mission.route_changed''
          [(''from_route'', JStr (reviewRoute s)), (''to_route'', JStr (inReviewRoute i)),
           (''from_model'', JStr (reviewRouteModel s)), (''to_model'', JStr (inReviewRouteModel i))]])"

definition harnessRetryExhausted :: "StepState \<Rightarrow> StepInput \<Rightarrow> Config \<Rightarrow> Transition option" where
  "harnessRetryExhausted s i cfg =
     (if HarnessRetryCap cfg \<le> 0 \<or> harnessRetries s < HarnessRetryCap cfg then None
      else Some (transition (withPause s PauseNoProgress)
        [paused_event PauseNoProgress ''harness_retries_exhausted''
          [(''phase'', JStr (phase_name (phase s))), (''harness_retries'', JInt (harnessRetries s)),
           (''detail'', JStr (inReason i))]]))"

definition retryPayload :: "string \<Rightarrow> StepInput \<Rightarrow> payload" where
  "retryPayload cause i =
     [(''cause'', JStr cause), (''reason'', JStr (inReason i))] @
     (if inHarnessCaused i then [(''harness_caused'', JBool True)] else [])"

definition fail_max_iterations :: "StepState \<Rightarrow> StepInput \<Rightarrow> Transition" where
  "fail_max_iterations s i =
     transition (withPhaseFailed s)
       [event ''mission.failed'' [(''reason'', JStr ''max_iterations''), (''detail'', JStr (inReason i))]]"

text \<open>The brakes behind the harness cap and the iteration ceiling.\<close>

definition backoff_or_retry :: "StepState \<Rightarrow> StepInput \<Rightarrow> Config \<Rightarrow> Transition" where
  "backoff_or_retry s i cfg =
     (if BackoffFailures cfg \<le> consecutiveFailures s then
        transition (withPause s PauseBackoff)
          [paused_event PauseBackoff ''consecutive_failures'' [(''detail'', JStr (inReason i))]]
      else transition s [event ''mission.retry'' (retryPayload ''worker_failed'' i)])"

definition stepWorkerFailed :: "StepState \<Rightarrow> StepInput \<Rightarrow> Config \<Rightarrow> Transition" where
  "stepWorkerFailed s i cfg =
     (let s = s\<lparr>consecutiveFailures := consecutiveFailures s + 1\<rparr> in
      if inHarnessCaused i then
        let s = s\<lparr>harnessRetries := harnessRetries s + 1\<rparr> in
        case harnessRetryExhausted s i cfg of
          Some t \<Rightarrow> t
        | None \<Rightarrow> backoff_or_retry s i cfg
      else
        let s = s\<lparr>iteration := iteration s + 1\<rparr> in
        if maxIterations s \<le> iteration s then fail_max_iterations s i
        else backoff_or_retry s i cfg)"

definition replanTransition :: "StepState \<Rightarrow> StepInput \<Rightarrow> payload \<Rightarrow> Transition" where
  "replanTransition s i extra =
     transition (s\<lparr>replanUsed := True, phase := PhasePlan, status := StatusIdle, stallCount := 0,
                   lastGapFingerprint := [], iteration := 0, consecutiveFailures := 0\<rparr>)
       [event ''mission.replan'' ((''reason'', JStr (inReason i)) # extra)]"

text \<open>The tail of \<open>stepWorkerRetry\<close>: the lifetime cap or the iteration ceiling.\<close>

definition retry_tail :: "StepState \<Rightarrow> StepInput \<Rightarrow> Config \<Rightarrow> Transition" where
  "retry_tail s i cfg =
     (let retry = (\<lambda>s. transition s [event ''mission.retry'' (retryPayload ''worker_retry'' i)]) in
      if inHarnessCaused i then
        (case harnessRetryExhausted s i cfg of Some t \<Rightarrow> t | None \<Rightarrow> retry s)
      else
        let s = s\<lparr>iteration := iteration s + 1\<rparr> in
        if maxIterations s \<le> iteration s then fail_max_iterations s i else retry s)"

definition stepWorkerRetry :: "StepState \<Rightarrow> StepInput \<Rightarrow> Config \<Rightarrow> Transition" where
  "stepWorkerRetry s i cfg =
     (let s = s\<lparr>consecutiveFailures := 0\<rparr>;
          s = (if inHarnessCaused i then s\<lparr>harnessRetries := harnessRetries s + 1\<rparr> else s) in
      if inGapFingerprint i = [] then retry_tail s i cfg
      else
        let s = s\<lparr>stallCount := (if inGapFingerprint i = lastGapFingerprint s
                                  then stallCount s + 1 else 1),
                   lastGapFingerprint := inGapFingerprint i\<rparr> in
        if StallRounds cfg \<le> stallCount s \<and> (\<not> neverVisitsPlan s \<or> inHarnessCaused i) then
          if \<not> replanUsed s \<and> \<not> neverVisitsPlan s then replanTransition s i []
          else transition (withPause s PauseNoProgress)
            [paused_event PauseNoProgress ''stalled_retries'' [(''detail'', JStr (inReason i))]]
        else retry_tail s i cfg)"

definition reviewSkippedOrProvePassTransition :: "StepState \<Rightarrow> Transition" where
  "reviewSkippedOrProvePassTransition s =
     transition (s\<lparr>phase := PhaseResult, status := StatusIdle\<rparr>)
       [event ''mission.phase_started'' [(''phase'', JStr (phase_name PhaseResult))]]"

definition stepReviewApprove :: "StepState \<Rightarrow> Transition" where
  "stepReviewApprove s =
     (let s = s\<lparr>stallCount := 0, lastGapFingerprint := [],
                reviewFindings := resolveAll (reviewFindings s), reworkRounds := 0,
                units := passHarnessVerified (units s)\<rparr> in
      if allPassed (units s) then reviewSkippedOrProvePassTransition s
      else transition (s\<lparr>phase := PhaseBuild, status := StatusIdle, iteration := 0,
                         consecutiveFailures := 0\<rparr>)
        [event ''mission.unit_verified'' [(''passed'', JBool True), (''check'', JStr ''review'')]])"

definition stepReviewRework :: "StepState \<Rightarrow> StepInput \<Rightarrow> Config \<Rightarrow> Transition" where
  "stepReviewRework s i cfg =
     (let s = s\<lparr>reworkRounds := reworkRounds s + 1\<rparr>;
          s = s\<lparr>reviewFindings := mergeFindings (reviewFindings s) (inFindings i) (inResolved i)
                                    (inUnit i) (reworkRounds s)\<rparr>;
          s = (if inReviewCommit i \<noteq> [] then s\<lparr>lastReviewCommit := inReviewCommit i\<rparr> else s);
          s = (if inReviewAt i \<noteq> None then s\<lparr>lastReviewAt := inReviewAt i\<rparr> else s);
          opn = OpenFindings (reviewFindings s);
          s = s\<lparr>phase := PhaseBuild, status := StatusIdle\<rparr>;
          stalled = stalledFindings opn (StallRounds cfg) in
      if stalled \<noteq> [] then
        transition (withPause s PauseNoProgress)
          [paused_event PauseNoProgress ''findings_untouched''
            [(''findings'', JStrs (findingIDs stalled)),
             (''detail'', JStr (''worker left the named file untouched for '' @
                int_dec (StallRounds cfg) @ '' rounds: '' @ findingsSummary stalled))]]
      else if maxIterations s \<le> reworkRounds s then
        transition (withPause s PauseReviewExhausted)
          [paused_event PauseReviewExhausted ''review_rounds_exhausted''
            [(''findings'', JStrs (findingIDs opn)),
             (''detail'', JStr (int_dec (reworkRounds s) @ '' rework rounds with findings still open: ''
                @ findingsSummary opn))]]
      else
        transition (s\<lparr>iteration := iteration s + 1\<rparr>)
          [event ''mission.review_verdict''
            [(''decision'', JStr ''rework''), (''reason'', JStr (inReason i)),
             (''round'', JInt (reworkRounds s)), (''open'', JStrs (findingIDs opn))]])"

definition stepResultComplete :: "StepState \<Rightarrow> Transition" where
  "stepResultComplete s =
     transition (s\<lparr>phase := PhaseDone, status := StatusDone\<rparr>)
       [event ''mission.done'' [(''verified'', JBool (flow s \<noteq> FlowLight \<and> flow s \<noteq> FlowDiscoverBuild))]]"

definition stepResultFailed :: "StepState \<Rightarrow> StepInput \<Rightarrow> Transition" where
  "stepResultFailed s i =
     transition (withPause s PauseInfra)
       [paused_event PauseInfra ''result_failed'' [(''detail'', JStr (inReason i))]]"

definition stepWorkerBlocked :: "StepState \<Rightarrow> StepInput \<Rightarrow> Transition" where
  "stepWorkerBlocked s i =
     transition (withStatus s StatusWaitingForInput)
       [event ''mission.blocked'' [(''question'', JStr (inMessage i))]]"

definition stepReviewInfraFailure :: "StepState \<Rightarrow> StepInput \<Rightarrow> Transition" where
  "stepReviewInfraFailure s i =
     transition (withPause s PauseInfra)
       [paused_event PauseInfra (if inCause i \<noteq> [] then inCause i else ''review_infra'')
         ([(''detail'', JStr (inReason i))]
          @ (if inModel i \<noteq> [] then [(''model'', JStr (inModel i))] else [])
          @ (if inRoute i \<noteq> [] then [(''route'', JStr (inRoute i))] else [])
          @ (case inUntil i of None \<Rightarrow> [] | Some t \<Rightarrow> [(''until'', JTime t)]))]"

definition stepReviewBudget :: "StepState \<Rightarrow> StepInput \<Rightarrow> Transition" where
  "stepReviewBudget s i =
     transition (withPause s PauseBudget)
       [paused_event PauseBudget ''review_budget''
         [(''detail'', JStr ''review_tokens''), (''message'', JStr (inReason i))]]"

definition stepPlanInfeasible :: "StepState \<Rightarrow> StepInput \<Rightarrow> Transition" where
  "stepPlanInfeasible s i =
     (if phase s \<noteq> PhasePlan then transition s []
      else transition (withPhaseFailed s)
        [event ''mission.failed'' [(''reason'', JStr ''goal_infeasible''), (''detail'', JStr (inReason i))]])"

section \<open>The budget brake and the input switch\<close>

definition over_budget :: "StepState \<Rightarrow> bool" where
  "over_budget s = (case budget s of None \<Rightarrow> False | Some b \<Rightarrow> b \<le> spent s)"

definition brake :: "StepState \<Rightarrow> Transition option" where
  "brake s =
     (if budget s \<noteq> None \<and> \<not> Terminal (phase s) then
        if mixedCurrencySpend s then
          Some (transition (withPause s PauseMixedCurrency)
            [paused_event PauseMixedCurrency ''mixed_currency''
              [(''detail'', JStr ''spend recorded in a currency with no usable stored exchange rate to convert against the mission's budget'')]])
        else if over_budget s then
          Some (transition (withPause s PauseBudget)
            [paused_event PauseBudget ''budget''
              (if rateAsOf s \<noteq> [] then [(''rate_as_of'', JStr (rateAsOf s))] else [])])
        else None
      else None)"

definition dispatch :: "StepState \<Rightarrow> StepInput \<Rightarrow> Config \<Rightarrow> Transition" where
  "dispatch s i cfg =
     (case inInput i of
        InputResume \<Rightarrow> stepResume s
      | InputPhaseComplete \<Rightarrow> stepPhaseComplete s i
      | InputWorkerRetry \<Rightarrow> stepWorkerRetry s i cfg
      | InputWorkerBlocked \<Rightarrow> stepWorkerBlocked s i
      | InputPlanDefect \<Rightarrow>
          if \<not> replanUsed s \<and> \<not> neverVisitsPlan s
          then replanTransition s i [(''cause'', JStr ''worker_blocked'')]
          else stepWorkerBlocked s i
      | InputAskUser \<Rightarrow> transition (withStatus s StatusWaitingForInput) []
      | InputWorkerFailed \<Rightarrow> stepWorkerFailed s i cfg
      | InputReviewApprove \<Rightarrow> stepReviewApprove s
      | InputReviewRework \<Rightarrow> stepReviewRework s i cfg
      | InputReviewInfraFailure \<Rightarrow> stepReviewInfraFailure s i
      | InputReviewBudget \<Rightarrow> stepReviewBudget s i
      | InputResultComplete \<Rightarrow> stepResultComplete s
      | InputResultFailed \<Rightarrow> stepResultFailed s i
      | InputPlanInfeasible \<Rightarrow> stepPlanInfeasible s i
      | InputPlanApprove \<Rightarrow> stepPlanApprove s
      | InputPlanReplan \<Rightarrow> stepPlanReplan s i
      | InputPlanRediscover \<Rightarrow> stepPlanRediscover s
      | InputRouteChange \<Rightarrow> stepRouteChange s i
      | InputCancel \<Rightarrow> transition s []
      | InputOther _ \<Rightarrow> transition s [])"

definition stepInput :: "StepState \<Rightarrow> StepInput \<Rightarrow> Config \<Rightarrow> Transition" where
  "stepInput s i cfg = (case brake s of Some t \<Rightarrow> t | None \<Rightarrow> dispatch s i cfg)"

definition Step :: "StepState \<Rightarrow> StepInput \<Rightarrow> Config \<Rightarrow> Transition" where
  "Step s i cfg =
     (if inInput i = InputCancel then
        if Terminal (phase s) then transition s []
        else transition (withPhaseFailed s)
          [event ''mission.failed'' [(''reason'', JStr ''cancelled'')]]
      else
        let r = applyVerification s (inVerified i); t = stepInput (fst r) i cfg
        in transition (Next t) (snd r @ Events t))"

lemmas handler_defs =
  stepResume_def stepPhaseComplete_def stepPlanApprove_def stepPlanReplan_def
  stepPlanRediscover_def stepRouteChange_def stepWorkerFailed_def stepWorkerRetry_def
  stepReviewApprove_def stepReviewRework_def stepResultComplete_def stepResultFailed_def
  stepWorkerBlocked_def stepReviewInfraFailure_def stepReviewBudget_def stepPlanInfeasible_def

lemmas park_defs =
  withStatus_def withPause_def withPhaseFailed_def fresh_start_def advance_phase_def
  replanTransition_def reviewSkippedOrProvePassTransition_def fail_max_iterations_def
  backoff_or_retry_def retry_tail_def harnessRetryExhausted_def score_turn_def brake_def

end
