(* ===== verification/Mission_Facts.thy ===== *)
theory Mission_Facts
  imports Mission_Step
begin

text \<open>
  What one transition does to each part of the state: \<open>Step\<close> taken apart into cancel,
  verification, brake and handler, then one frame or monotonicity fact per field, proved
  by a case split on the input over the handler definitions.
\<close>

section \<open>Taking a step apart\<close>

definition verify_units :: "StepState \<Rightarrow> UnitVerification list \<Rightarrow> PlanUnit list" where
  "verify_units s vs = (if vs = [] then units s else fst (fold apply_one vs (units s, [])))"

lemma fst_applyVerification: "fst (applyVerification s vs) = s\<lparr>units := verify_units s vs\<rparr>"
  by (simp add: applyVerification_def verify_units_def Let_def)

lemma Next_Step:
  "Next (Step s i cfg) =
     (if inInput i = InputCancel then (if Terminal (phase s) then s else withPhaseFailed s)
      else Next (stepInput (s\<lparr>units := verify_units s (inVerified i)\<rparr>) i cfg))"
  by (simp add: Step_def fst_applyVerification Let_def)

lemma Next_stepInput:
  "Next (stepInput s i cfg) = (case brake s of Some t \<Rightarrow> Next t | None \<Rightarrow> Next (dispatch s i cfg))"
  by (simp add: stepInput_def split: option.splits)

lemma brake_Next:
  "brake s = Some t \<Longrightarrow> \<not> Terminal (phase s) \<and>
     (Next t = withPause s PauseMixedCurrency \<or> Next t = withPause s PauseBudget)"
  by (auto simp: brake_def split: if_splits)

text \<open>
  A property of the next state follows from four cases: nothing changes, the mission is
  failed by a cancel, the budget brake parks it, or a handler runs. The state of the last
  three carries the verified units.
\<close>

lemma Step_state_cases:
  assumes "P s"
    and "\<not> Terminal (phase s) \<Longrightarrow> P (withPhaseFailed s)"
    and "\<And>us r. us = verify_units s (inVerified i) \<Longrightarrow> \<not> Terminal (phase s) \<Longrightarrow>
           P (withPause (s\<lparr>units := us\<rparr>) r)"
    and "\<And>us. us = verify_units s (inVerified i) \<Longrightarrow> inInput i \<noteq> InputCancel \<Longrightarrow>
           brake (s\<lparr>units := us\<rparr>) = None \<Longrightarrow> P (Next (dispatch (s\<lparr>units := us\<rparr>) i cfg))"
  shows "P (Next (Step s i cfg))"
proof (cases "inInput i = InputCancel")
  case True
  with assms(1,2) show ?thesis by (simp add: Next_Step)
next
  case False
  let ?s = "s\<lparr>units := verify_units s (inVerified i)\<rparr>"
  show ?thesis
  proof (cases "brake ?s")
    case None
    with False assms(4) show ?thesis by (simp add: Next_Step Next_stepInput)
  next
    case (Some t)
    from brake_Next [OF Some] assms(3) have "P (Next t)" by fastforce
    with False Some show ?thesis by (simp add: Next_Step Next_stepInput)
  qed
qed

lemmas unfold_handlers = handler_defs park_defs Let_def

section \<open>Counters and flags that never go back\<close>

lemma dispatch_replanUsed: "replanUsed s \<Longrightarrow> replanUsed (Next (dispatch s i cfg))"
  by (cases "inInput i")
     (simp_all add: dispatch_def unfold_handlers split: option.splits if_splits)

lemma dispatch_harnessRetries: "harnessRetries s \<le> harnessRetries (Next (dispatch s i cfg))"
  by (cases "inInput i")
     (simp_all add: dispatch_def unfold_handlers split: option.splits)

lemma dispatch_frame:
  "flow (Next (dispatch s i cfg)) = flow s"
  "budget (Next (dispatch s i cfg)) = budget s"
  "maxIterations (Next (dispatch s i cfg)) = maxIterations s"
  "autoApprovePlan (Next (dispatch s i cfg)) = autoApprovePlan s"
  by (cases "inInput i",
      simp_all add: dispatch_def unfold_handlers split: option.splits)+

section \<open>Units and harness evidence\<close>

text \<open>A unit passes only on harness evidence (D-094).\<close>

definition passes_backed :: "PlanUnit list \<Rightarrow> bool" where
  "passes_backed us = (\<forall>u \<in> set us. uPasses u \<longrightarrow> uHarnessPassed u)"

lemma apply_one_length [simp]: "length (fst (apply_one v acc)) = length (fst acc)"
  by (simp add: apply_one_def Let_def)

lemma fold_apply_one_length [simp]:
  "length (fst (fold apply_one vs acc)) = length (fst acc)"
  by (induction vs arbitrary: acc) auto

lemma passes_backed_update:
  "passes_backed us \<Longrightarrow> (uPasses u \<longrightarrow> uHarnessPassed u) \<Longrightarrow> passes_backed (us[i := u])"
  using set_update_subset_insert [of us i u] by (auto simp: passes_backed_def)

lemma passes_backed_nth:
  "passes_backed us \<Longrightarrow> i < length us \<Longrightarrow> uPasses (us ! i) \<Longrightarrow> uHarnessPassed (us ! i)"
  by (simp add: passes_backed_def)

lemma apply_one_backed: "passes_backed (fst acc) \<Longrightarrow> passes_backed (fst (apply_one v acc))"
  by (auto simp: apply_one_def Let_def intro!: passes_backed_update)

lemma verify_units_backed: "passes_backed (units s) \<Longrightarrow> passes_backed (verify_units s vs)"
  unfolding verify_units_def
  using fold_invariant [where P = "\<lambda>acc. passes_backed (fst acc)" and s = "(units s, [])"
      and f = apply_one and xs = vs]
  by (simp add: apply_one_backed)

lemma verify_units_length [simp]: "length (verify_units s vs) = length (units s)"
  by (simp add: verify_units_def)

lemma passHarnessVerified_length [simp]: "length (passHarnessVerified us) = length us"
  by (simp add: passHarnessVerified_def)

lemma passHarnessVerified_map:
  "passHarnessVerified us = map (\<lambda>u. if uHarnessPassed u then u\<lparr>uPasses := True\<rparr> else u) us"
proof (cases "unitsUnderReview us = []")
  case True
  then have "\<forall>i < length us. uHarnessPassed (us ! i) \<longrightarrow> uPasses (us ! i)"
    by (simp add: unitsUnderReview_def filter_empty_conv)
  then have "\<forall>u \<in> set us. uHarnessPassed u \<longrightarrow> u\<lparr>uPasses := True\<rparr> = u"
    by (auto simp: in_set_conv_nth)
  then have "map (\<lambda>u. if uHarnessPassed u then u\<lparr>uPasses := True\<rparr> else u) us = us"
    by (intro map_idI) auto
  with True show ?thesis by (simp add: passHarnessVerified_def)
next
  case False
  then show ?thesis by (simp add: passHarnessVerified_def)
qed

lemma passHarnessVerified_backed: "passes_backed us \<Longrightarrow> passes_backed (passHarnessVerified us)"
  by (auto simp: passes_backed_def passHarnessVerified_map)

lemma dispatch_units:
  "units (Next (dispatch s i cfg)) =
     (if inInput i = InputReviewApprove then passHarnessVerified (units s) else units s)"
  by (cases "inInput i")
     (simp_all add: dispatch_def unfold_handlers split: option.splits)

lemma Step_units_length: "length (units (Next (Step s i cfg))) = length (units s)"
  by (rule Step_state_cases [where P = "\<lambda>t. length (units t) = length (units s)"])
     (simp_all add: park_defs dispatch_units)

lemma Step_passes_backed:
  "passes_backed (units s) \<Longrightarrow> passes_backed (units (Next (Step s i cfg)))"
  by (rule Step_state_cases [where P = "\<lambda>t. passes_backed (units t)"])
     (simp_all add: park_defs dispatch_units verify_units_backed passHarnessVerified_backed)

section \<open>The findings ledger\<close>

text \<open>The only ways a step writes the ledger.\<close>

inductive ledger_op :: "Finding list \<Rightarrow> Finding list \<Rightarrow> bool" where
  keep: "ledger_op fs fs"
| mark: "ledger_op fs (fst (markUntouched fs t))"
| approve: "ledger_op fs (resolveAll fs)"
| merge: "ledger_op fs (mergeFindings fs inc res u r)"

lemma dispatch_findings: "ledger_op (reviewFindings s) (reviewFindings (Next (dispatch s i cfg)))"
  by (cases "inInput i")
     (simp_all add: dispatch_def unfold_handlers ledger_op.intros split: option.splits)

lemma Step_findings: "ledger_op (reviewFindings s) (reviewFindings (Next (Step s i cfg)))"
proof (rule Step_state_cases [where P = "\<lambda>t. ledger_op (reviewFindings s) (reviewFindings t)"], goal_cases)
  case (4 us)
  then show ?case using dispatch_findings [of "s\<lparr>units := us\<rparr>" i cfg] by simp
qed (simp_all add: park_defs ledger_op.keep)

lemma ledger_op_le: "ledger_op fs gs \<Longrightarrow> ledger_le fs gs"
  by (induction rule: ledger_op.induct) (simp_all add: ledger_steps)

lemma Step_ledger_le: "ledger_le (reviewFindings s) (reviewFindings (Next (Step s i cfg)))"
  using Step_findings by (rule ledger_op_le)

definition ledger_ok :: "Finding list \<Rightarrow> bool" where
  "ledger_ok fs = (ledger_ids fs \<and> no_open_duplicates fs)"

lemma ledger_ok_ops:
  assumes "ledger_ok fs"
  shows "ledger_ok (fst (markUntouched fs t))" "ledger_ok (resolveAll fs)"
    "ledger_ok (mergeFindings fs inc res u r)"
  using assms ledger_ids_cong [OF map_id_mark] ledger_ids_cong [OF map_id_resolveAll]
  by (auto simp: ledger_ok_def no_open_duplicates_def ledger_ids_merge
      intro: no_dup_merge [unfolded no_open_duplicates_def]
        no_dup_resolveAll [unfolded no_open_duplicates_def])

lemma ledger_op_ok: "ledger_op fs gs \<Longrightarrow> ledger_ok fs \<Longrightarrow> ledger_ok gs"
  by (induction rule: ledger_op.induct) (simp_all add: ledger_ok_ops)

lemma Step_ledger_ok:
  "ledger_ok (reviewFindings s) \<Longrightarrow> ledger_ok (reviewFindings (Next (Step s i cfg)))"
  using Step_findings by (rule ledger_op_ok)

end
