(* ===== verification/Mission_Phases.thy ===== *)
theory Mission_Phases
  imports Mission_Facts
begin

text \<open>
  Where a step can take a mission: the phase edges and what each needs, the agreement of
  status and phase, the planless flows, the budget brake, and the events a step writes.
\<close>

section \<open>Phase edges\<close>

text \<open>
  \<open>phase_edge s i q\<close>: the transition relation of the phases, one rule per way a step
  leaves a phase, with the guard the code puts on it.
\<close>

inductive phase_edge :: "StepState \<Rightarrow> StepInput \<Rightarrow> Phase \<Rightarrow> bool" for s i where
  stay: "q = phase s \<Longrightarrow> phase_edge s i q"
| cancel: "inInput i = InputCancel \<Longrightarrow> \<not> Terminal (phase s) \<Longrightarrow> phase_edge s i PhaseFailed"
| complete: "inInput i = InputPhaseComplete \<Longrightarrow> nextPhase (flow s) (phase s) = Some q \<Longrightarrow>
    phase s \<noteq> PhasePlan \<or> autoApprovePlan s \<Longrightarrow> phase_edge s i q"
| plan_approve: "inInput i = InputPlanApprove \<Longrightarrow> awaiting_approval s \<Longrightarrow> phase_edge s i PhaseBuild"
| rediscover: "inInput i = InputPlanRediscover \<Longrightarrow> awaiting_approval s \<Longrightarrow> phase_edge s i PhaseDiscover"
| replan: "inInput i \<in> {InputWorkerRetry, InputPlanDefect} \<Longrightarrow> \<not> replanUsed s \<Longrightarrow>
    \<not> neverVisitsPlan s \<Longrightarrow> phase_edge s i PhasePlan"
| ceiling: "inInput i \<in> {InputWorkerFailed, InputWorkerRetry} \<Longrightarrow> \<not> inHarnessCaused i \<Longrightarrow>
    maxIterations s \<le> iteration s + 1 \<Longrightarrow> phase_edge s i PhaseFailed"
| approved: "inInput i = InputReviewApprove \<Longrightarrow>
    allPassed (passHarnessVerified (verify_units s (inVerified i))) \<Longrightarrow> phase_edge s i PhaseResult"
| unit_approved: "inInput i = InputReviewApprove \<Longrightarrow>
    \<not> allPassed (passHarnessVerified (verify_units s (inVerified i))) \<Longrightarrow> phase_edge s i PhaseBuild"
| rework: "inInput i = InputReviewRework \<Longrightarrow> phase_edge s i PhaseBuild"
| delivered: "inInput i = InputResultComplete \<Longrightarrow> phase_edge s i PhaseDone"
| infeasible: "inInput i = InputPlanInfeasible \<Longrightarrow> phase s = PhasePlan \<Longrightarrow> phase_edge s i PhaseFailed"

inductive_cases phase_edgeE: "phase_edge s i q"

inductive_simps phase_edge_done: "phase_edge s i PhaseDone"
inductive_simps phase_edge_result: "phase_edge s i PhaseResult"
inductive_simps phase_edge_failed: "phase_edge s i PhaseFailed"
inductive_simps phase_edge_plan: "phase_edge s i PhasePlan"

lemma brake_units_irrelevant: "brake (s\<lparr>units := us\<rparr>) = None \<longleftrightarrow> brake s = None"
  by (simp add: brake_def over_budget_def split: option.splits)

lemma dispatch_phase_edge:
  assumes "inInput i \<noteq> InputCancel" and "units s = verify_units s0 (inVerified i)"
    and "s = s0\<lparr>units := units s\<rparr>"
  shows "phase_edge s0 i (phase (Next (dispatch s i cfg)))"
proof -
  obtain us where us: "us = verify_units s0 (inVerified i)" by simp
  with assms(2,3) have s: "s = s0\<lparr>units := us\<rparr>" by simp
  show ?thesis
    unfolding s using assms(1)
    by (cases "inInput i")
       (simp_all add: dispatch_def unfold_handlers neverVisitsPlan_def awaiting_approval_def us
          phase_edge.simps
          split: option.splits)
qed

lemma Step_phase_edge: "phase_edge s i (phase (Next (Step s i cfg)))"
proof (cases "inInput i = InputCancel")
  case True
  then show ?thesis
    by (auto simp: Next_Step withPhaseFailed_def intro: phase_edge.stay phase_edge.cancel)
next
  case False
  let ?us = "verify_units s (inVerified i)"
  show ?thesis
  proof (cases "brake (s\<lparr>units := ?us\<rparr>)")
    case None
    with False dispatch_phase_edge [of i "s\<lparr>units := ?us\<rparr>" s cfg] show ?thesis
      by (simp add: Next_Step Next_stepInput)
  next
    case (Some t)
    from brake_Next [OF Some] have "phase (Next t) = phase s"
      by (auto simp: withPause_def)
    with False Some show ?thesis by (simp add: Next_Step Next_stepInput phase_edge.stay)
  qed
qed

lemma Step_frame:
  "flow (Next (Step s i cfg)) = flow s"
  "budget (Next (Step s i cfg)) = budget s"
  "maxIterations (Next (Step s i cfg)) = maxIterations s"
  "autoApprovePlan (Next (Step s i cfg)) = autoApprovePlan s"
proof -
  let ?P = "\<lambda>t. flow t = flow s \<and> budget t = budget s \<and> maxIterations t = maxIterations s
    \<and> autoApprovePlan t = autoApprovePlan s"
  have "?P (Next (Step s i cfg))"
    by (rule Step_state_cases [where P = ?P]) (simp_all add: park_defs dispatch_frame)
  then show "flow (Next (Step s i cfg)) = flow s"
    "budget (Next (Step s i cfg)) = budget s"
    "maxIterations (Next (Step s i cfg)) = maxIterations s"
    "autoApprovePlan (Next (Step s i cfg)) = autoApprovePlan s" by simp_all
qed

lemma Step_replanUsed: "replanUsed s \<Longrightarrow> replanUsed (Next (Step s i cfg))"
  by (rule Step_state_cases [where P = replanUsed])
     (simp_all add: park_defs dispatch_replanUsed)

lemma Step_harnessRetries: "harnessRetries s \<le> harnessRetries (Next (Step s i cfg))"
proof (rule Step_state_cases [where P = "\<lambda>t. harnessRetries s \<le> harnessRetries t"], goal_cases)
  case (4 us)
  then show ?case using dispatch_harnessRetries [of "s\<lparr>units := us\<rparr>" i cfg] by simp
qed (simp_all add: park_defs)

section \<open>Status and phase agree\<close>

definition coherent :: "StepState \<Rightarrow> bool" where
  "coherent s = ((phase s = PhaseDone \<longleftrightarrow> status s = StatusDone)
     \<and> (phase s = PhaseFailed \<longleftrightarrow> status s = StatusError)
     \<and> (status s = StatusPaused \<longrightarrow> pauseReason s \<noteq> None)
     \<and> (phase s = PhaseFailed \<longrightarrow> pauseReason s = None))"

lemma coherent_units [simp]: "coherent (s\<lparr>units := us\<rparr>) = coherent s"
  by (simp add: coherent_def)

lemma dispatch_coherent:
  "coherent s \<Longrightarrow> \<not> Terminal (phase s) \<Longrightarrow> coherent (Next (dispatch s i cfg))"
  by (cases "inInput i")
     (auto simp: dispatch_def unfold_handlers coherent_def Terminal_def nextPhase_cases
        split: option.splits if_splits)

lemma Step_coherent:
  "coherent s \<Longrightarrow> \<not> Terminal (phase s) \<Longrightarrow> coherent (Next (Step s i cfg))"
  by (rule Step_state_cases [where P = coherent])
     (auto simp: dispatch_coherent, auto simp: park_defs coherent_def Terminal_def)

section \<open>Planless flows\<close>

definition planless_ok :: "StepState \<Rightarrow> bool" where
  "planless_ok s =
     ((flow s = FlowLight \<longrightarrow> phase s \<noteq> PhaseDiscover \<and> phase s \<noteq> PhasePlan)
      \<and> (flow s = FlowDiscoverBuild \<longrightarrow> phase s \<noteq> PhasePlan))"

lemma phase_edge_planless:
  "phase_edge s i q \<Longrightarrow> planless_ok s \<Longrightarrow>
     (flow s = FlowLight \<longrightarrow> q \<noteq> PhaseDiscover \<and> q \<noteq> PhasePlan)
      \<and> (flow s = FlowDiscoverBuild \<longrightarrow> q \<noteq> PhasePlan)"
  by (induction rule: phase_edge.induct)
     (auto simp: planless_ok_def neverVisitsPlan_def awaiting_approval_def nextPhase_cases
        split: if_splits)

lemma Step_planless_ok: "planless_ok s \<Longrightarrow> planless_ok (Next (Step s i cfg))"
  using phase_edge_planless [OF Step_phase_edge] by (simp add: planless_ok_def Step_frame)

section \<open>The budget brake\<close>

lemma Step_brake:
  assumes "inInput i \<noteq> InputCancel" and "\<not> Terminal (phase s)" and "over_budget s"
  shows "Next (Step s i cfg) = withPause (s\<lparr>units := verify_units s (inVerified i)\<rparr>)
     (if mixedCurrencySpend s then PauseMixedCurrency else PauseBudget)"
  using assms
  by (auto simp: Next_Step Next_stepInput brake_def over_budget_def split: option.splits)

section \<open>Events\<close>

lemma Events_Step:
  "inInput i \<noteq> InputCancel \<Longrightarrow> Events (Step s i cfg) =
     snd (applyVerification s (inVerified i)) @
     Events (stepInput (s\<lparr>units := verify_units s (inVerified i)\<rparr>) i cfg)"
  by (simp add: Step_def fst_applyVerification Let_def)

lemma apply_one_events:
  "\<forall>e \<in> set (snd acc). evKind e = ''mission.unit_regressed'' \<Longrightarrow>
     \<forall>e \<in> set (snd (apply_one v acc)). evKind e = ''mission.unit_regressed''"
  by (auto simp: apply_one_def Let_def)

lemma verification_events:
  "e \<in> set (snd (applyVerification s vs)) \<Longrightarrow> evKind e = ''mission.unit_regressed''"
proof -
  have "\<forall>e \<in> set (snd (fold apply_one vs (units s, []))). evKind e = ''mission.unit_regressed''"
    using fold_invariant [where P = "\<lambda>acc. \<forall>e \<in> set (snd acc). evKind e = ''mission.unit_regressed''"
        and s = "(units s, [])" and f = apply_one and xs = vs] apply_one_events
    by simp
  then show "e \<in> set (snd (applyVerification s vs)) \<Longrightarrow> ?thesis"
    by (auto simp: applyVerification_def Let_def split: if_splits)
qed

text \<open>A pause event names the reason the status column takes and a cause (D-136).\<close>

definition announces_pause :: "StepState \<Rightarrow> EventDraft \<Rightarrow> bool" where
  "announces_pause t e =
     (status t = StatusPaused \<and>
      (case pauseReason t of None \<Rightarrow> False
       | Some r \<Rightarrow> map_of (evPayload e) ''reason'' = Some (JStr (pause_name r))) \<and>
      (case map_of (evPayload e) ''cause'' of Some (JStr c) \<Rightarrow> c \<noteq> [] | _ \<Rightarrow> False))"

lemma announces_paused_event:
  "status t = StatusPaused \<Longrightarrow> pauseReason t = Some r \<Longrightarrow> c \<noteq> [] \<Longrightarrow>
     announces_pause t (paused_event r c extra)"
  by (simp add: announces_pause_def paused_event_def)

lemma paused_event_kind [simp]: "evKind (paused_event r c extra) = ''mission.paused''"
  by (simp add: paused_event_def)

lemma dispatch_pause_events:
  "\<forall>e \<in> set (Events (dispatch s i cfg)). evKind e = ''mission.paused'' \<longrightarrow>
     announces_pause (Next (dispatch s i cfg)) e"
  by (cases "inInput i")
     (simp_all add: dispatch_def unfold_handlers announces_paused_event split: option.splits)

lemma brake_pause_events:
  "brake s = Some t \<Longrightarrow> \<forall>e \<in> set (Events t). announces_pause (Next t) e"
  by (auto simp: brake_def withPause_def announces_paused_event split: if_splits)

lemma Step_pause_events:
  assumes "e \<in> set (Events (Step s i cfg))" and "evKind e = ''mission.paused''"
  shows "announces_pause (Next (Step s i cfg)) e"
proof (cases "inInput i = InputCancel")
  case True
  with assms show ?thesis by (auto simp: Step_def split: if_splits)
next
  case False
  let ?s = "s\<lparr>units := verify_units s (inVerified i)\<rparr>"
  from False assms verification_events [of e s "inVerified i"]
  have "e \<in> set (Events (stepInput ?s i cfg))" by (auto simp: Events_Step)
  then have "announces_pause (Next (stepInput ?s i cfg)) e"
    using assms(2) dispatch_pause_events [of ?s i cfg] brake_pause_events [of ?s]
    by (auto simp: stepInput_def split: option.splits)
  with False show ?thesis by (simp add: Next_Step)
qed

definition count_kind :: "string \<Rightarrow> EventDraft list \<Rightarrow> nat" where
  "count_kind k es = length (filter (\<lambda>e. evKind e = k) es)"

lemma count_kind_append [simp]: "count_kind k (xs @ ys) = count_kind k xs + count_kind k ys"
  by (simp add: count_kind_def)

lemma count_kind_Nil [simp]: "count_kind k [] = 0"
  by (simp add: count_kind_def)

lemma count_kind_Cons [simp]:
  "count_kind k (e # es) = (if evKind e = k then 1 else 0) + count_kind k es"
  by (simp add: count_kind_def)

lemma dispatch_replan_events:
  "count_kind ''mission.replan'' (Events (dispatch s i cfg)) =
     (if replanUsed (Next (dispatch s i cfg)) \<and> \<not> replanUsed s then 1 else 0)"
  by (cases "inInput i")
     (simp_all add: dispatch_def unfold_handlers paused_event_def split: option.splits)

lemma Step_replan_events:
  "count_kind ''mission.replan'' (Events (Step s i cfg)) =
     (if replanUsed (Next (Step s i cfg)) \<and> \<not> replanUsed s then 1 else 0)"
proof (cases "inInput i = InputCancel")
  case True
  then show ?thesis by (simp add: Step_def withPhaseFailed_def)
next
  case False
  let ?s = "s\<lparr>units := verify_units s (inVerified i)\<rparr>"
  have "count_kind ''mission.replan'' (snd (applyVerification s (inVerified i))) = 0"
    using verification_events [of _ s "inVerified i"]
    by (auto simp: count_kind_def filter_empty_conv)
  moreover have "count_kind ''mission.replan'' (Events (stepInput ?s i cfg)) =
     (if replanUsed (Next (stepInput ?s i cfg)) \<and> \<not> replanUsed s then 1 else 0)"
    using dispatch_replan_events [of ?s i cfg]
    by (auto simp: stepInput_def brake_def withPause_def paused_event_def split: option.splits)
  ultimately show ?thesis using False by (simp add: Events_Step Next_Step)
qed

end
