(* ===== verification/Mission_Store.thy ===== *)
theory Mission_Store
  imports Mission_Phases
begin

text \<open>
  The mission row and the writers of it: \<open>store.go\<close> (\<open>scanMission\<close>,
  \<open>ApplyTransition\<close>, \<open>SetPendingInput\<close>, \<open>AnswerPendingInput\<close>,
  \<open>ClaimWorkSlot\<close>), \<open>notify.go\<close> and the driver's entry points
  (\<open>toStepState\<close>, \<open>Signal\<close>, \<open>DecidePlan\<close>, \<open>ChangeRouting\<close>,
  \<open>AnswerAskUser\<close>). A row carries its own event log and the events rows committed with
  a transition; one store call is one database transaction, so one function from row to row.
  Phase and status are stored as strings, which may be values the code does not know.
\<close>

section \<open>The row\<close>

record PendingInput =
  pQuestion :: string
  pKind :: string
  pOptions :: "string list"
  pProposedDefault :: string
  pPhase :: Phase

record PendingPermission =
  ppID :: string
  ppTool :: string
  ppArgs :: string
  ppDanger :: string
  ppRationale :: string

datatype OutboxEvent = MissionTerminal Phase string | MissionActionable Phase Status

record MissionRow =
  rPhase :: string
  rStatus :: string
  rPauseReason :: "PauseReason option"
  rPauseMessage :: string
  rIteration :: int
  rMaxIterations :: int
  rConsecutiveFailures :: int
  rLastGapFingerprint :: string
  rStallCount :: int
  rHarnessRetries :: int
  rReplanUsed :: bool
  rBudget :: "real option"
  rFlow :: string
  rAutoApprovePlan :: bool
  rUnits :: "PlanUnit list"
  rLastReviewCommit :: string
  rLastReviewAt :: "int option"
  rFindings :: "Finding list"
  rReworkRounds :: int
  rReviewRoute :: string
  rReviewRouteModel :: string
  rPendingPermission :: "PendingPermission option"
  rPendingInput :: "PendingInput option"
  rAsksUsed :: int
  rUnreadActionable :: bool
  rLog :: "EventDraft list"
  rOutbox :: "OutboxEvent list"

datatype store_error = ErrTerminal | ErrNotPaused | ErrNotAwaitingApproval | ErrBadInput

definition parseFlow :: "string \<Rightarrow> Flow" where
  "parseFlow raw =
     (if raw = ''discover_generate'' then FlowDiscoverBuild
      else if raw = ''full'' then FlowFull
      else if raw = ''discover_build'' then FlowDiscoverBuild
      else if raw = ''no_prove'' then FlowNoProve
      else if raw = ''light'' then FlowLight
      else FlowOther raw)"

text \<open>\<open>scanMission\<close>'s fail-safe degrade of an unknown phase or status.\<close>

definition scan_phase :: "MissionRow \<Rightarrow> Phase" where
  "scan_phase r = (case parsePhase (rPhase r) of Some p \<Rightarrow> p | None \<Rightarrow> PhaseFailed)"

definition scan_status :: "MissionRow \<Rightarrow> Status \<times> PauseReason option" where
  "scan_status r = (case parseStatus (rStatus r) of
     Some st \<Rightarrow> (st, rPauseReason r) | None \<Rightarrow> (StatusPaused, Some PauseInfra))"

text \<open>The projected spend: amount in budget currency, unconvertible flag, rate date.\<close>

record Spend =
  spSpent :: real
  spMixed :: bool
  spRateAsOf :: string

definition toStepState :: "Spend \<Rightarrow> MissionRow \<Rightarrow> StepState" where
  "toStepState sp r =
     \<lparr>phase = scan_phase r, status = fst (scan_status r), pauseReason = snd (scan_status r),
      iteration = rIteration r, maxIterations = rMaxIterations r,
      consecutiveFailures = rConsecutiveFailures r, lastGapFingerprint = rLastGapFingerprint r,
      stallCount = rStallCount r, harnessRetries = rHarnessRetries r,
      spent = spSpent sp, budget = rBudget r, mixedCurrencySpend = spMixed sp,
      rateAsOf = spRateAsOf sp, units = normalize_plan (rUnits r), replanUsed = rReplanUsed r,
      flow = parseFlow (rFlow r), autoApprovePlan = rAutoApprovePlan r,
      reviewFindings = rFindings r, reworkRounds = rReworkRounds r,
      lastReviewCommit = rLastReviewCommit r, lastReviewAt = rLastReviewAt r,
      reviewRoute = rReviewRoute r, reviewRouteModel = rReviewRouteModel r\<rparr>"

section \<open>Notifications\<close>

definition isActionableTransition :: "Status \<Rightarrow> Status \<Rightarrow> Status option" where
  "isActionableTransition before after =
     (if before = after then None
      else case after of
        StatusWaitingForInput \<Rightarrow> Some after
      | StatusPaused \<Rightarrow> Some after
      | _ \<Rightarrow> None)"

definition leftActionable :: "Status \<Rightarrow> Status \<Rightarrow> bool" where
  "leftActionable before after =
     (before \<noteq> after \<and> (before = StatusPaused \<or> before = StatusWaitingForInput))"

fun failedReason :: "EventDraft list \<Rightarrow> string" where
  "failedReason [] = []"
| "failedReason (e # es) =
     (if evKind e \<noteq> ''mission.failed'' then failedReason es
      else case map_of (evPayload e) ''reason'' of
        Some (JStr r) \<Rightarrow> r
      | _ \<Rightarrow> failedReason es)"

section \<open>\<open>ApplyTransition\<close>\<close>

text \<open>
  The stored status is compared with the next one as the string it is
  (\<open>Status(currentStatus)\<close>); \<open>StatusIdle\<close> stands for a stored string that is no status,
  which, like idle, is neither actionable nor equal to an actionable one.
\<close>

definition raw_status :: "MissionRow \<Rightarrow> Status" where
  "raw_status r = (case parseStatus (rStatus r) of Some st \<Rightarrow> st | None \<Rightarrow> StatusIdle)"

definition row_writable :: "MissionRow \<Rightarrow> bool" where
  "row_writable r = (case parsePhase (rPhase r) of None \<Rightarrow> False | Some p \<Rightarrow> \<not> Terminal p)"

definition write_columns :: "MissionRow \<Rightarrow> StepState \<Rightarrow> MissionRow" where
  "write_columns r n =
     r\<lparr>rPhase := phase_name (phase n), rStatus := status_name (status n),
       rPauseReason := pauseReason n, rPauseMessage := [],
       rIteration := iteration n, rMaxIterations := maxIterations n,
       rConsecutiveFailures := consecutiveFailures n,
       rLastGapFingerprint := lastGapFingerprint n, rStallCount := stallCount n,
       rReplanUsed := replanUsed n, rHarnessRetries := harnessRetries n,
       rPendingPermission := (if Terminal (phase n) then None else rPendingPermission r),
       rFindings := reviewFindings n, rReworkRounds := reworkRounds n,
       rUnits := (if units n = [] then rUnits r else units n),
       rLastReviewCommit := (if lastReviewCommit n = [] then rLastReviewCommit r else lastReviewCommit n),
       rLastReviewAt := (if lastReviewAt n = None then rLastReviewAt r else lastReviewAt n),
       rReviewRoute := (if reviewRoute n = [] then rReviewRoute r else reviewRoute n),
       rReviewRouteModel := (if reviewRoute n = [] then rReviewRouteModel r else reviewRouteModel n)\<rparr>"

definition ApplyTransition :: "MissionRow \<Rightarrow> Transition \<Rightarrow> store_error + MissionRow" where
  "ApplyTransition r t =
     (if \<not> row_writable r then Inl ErrTerminal
      else
        let n = Next t; before = raw_status r;
            r1 = (write_columns r n)\<lparr>rLog := rLog r @ Events t\<rparr>;
            r2 = (if Terminal (phase n)
                  then r1\<lparr>rOutbox := rOutbox r1 @ [MissionTerminal (phase n) (failedReason (Events t))]\<rparr>
                  else r1);
            r3 = (if leftActionable before (status n) then r2\<lparr>rUnreadActionable := False\<rparr> else r2);
            r4 = (case isActionableTransition before (status n) of
                    None \<Rightarrow> r3
                  | Some st \<Rightarrow> r3\<lparr>rOutbox := rOutbox r3 @ [MissionActionable (phase n) st]\<rparr>)
        in Inr r4)"

section \<open>Writes outside \<open>ApplyTransition\<close>\<close>

definition SetPendingInput :: "MissionRow \<Rightarrow> PendingInput \<Rightarrow> MissionRow" where
  "SetPendingInput r p =
     r\<lparr>rPendingInput := Some p, rAsksUsed := rAsksUsed r + 1,
       rLog := rLog r @ [event ''mission.input_requested''
         [(''question'', JStr (pQuestion p)), (''kind'', JStr (pKind p)),
          (''options'', JStrs (pOptions p)), (''proposed_default'', JStr (pProposedDefault p)),
          (''phase'', JStr (phase_name (pPhase p)))]]\<rparr>"

definition AnswerPendingInput :: "MissionRow \<Rightarrow> string \<Rightarrow> payload \<Rightarrow> MissionRow" where
  "AnswerPendingInput r kind p =
     r\<lparr>rPendingInput := None, rStatus := ''idle'', rLog := rLog r @ [event kind p],
       rUnreadActionable := False\<rparr>"

definition SetPendingPermission :: "MissionRow \<Rightarrow> PendingPermission \<Rightarrow> MissionRow" where
  "SetPendingPermission r p =
     r\<lparr>rPendingPermission := Some p,
       rLog := rLog r @ [event ''mission.permission_requested''
         [(''tool'', JStr (ppTool p)), (''args'', JStr (truncate_str (ppArgs p) 2000)),
          (''danger'', JStr (ppDanger p)), (''rationale'', JStr (ppRationale p))]]\<rparr>"

definition ClearPendingPermission :: "MissionRow \<Rightarrow> MissionRow" where
  "ClearPendingPermission r = r\<lparr>rPendingPermission := None\<rparr>"

definition ResolvePendingPermissionTimeout :: "MissionRow \<Rightarrow> string \<Rightarrow> MissionRow" where
  "ResolvePendingPermissionTimeout r tool =
     r\<lparr>rPendingPermission := None,
       rLog := rLog r @ [event ''mission.permission_answered''
         [(''tool'', JStr tool), (''decision'', JStr ''deny''), (''reason'', JStr ''timed_out'')]]\<rparr>"

text \<open>\<open>ResolvePendingPermission\<close>: the row whose parked request has the id, if any.\<close>

definition ResolvePendingPermission :: "MissionRow \<Rightarrow> string \<Rightarrow> string \<Rightarrow> MissionRow option" where
  "ResolvePendingPermission r permissionID decision =
     (case rPendingPermission r of
        None \<Rightarrow> None
      | Some p \<Rightarrow>
          if ppID p \<noteq> permissionID then None
          else Some (r\<lparr>rPendingPermission := None,
            rLog := rLog r @ [event ''mission.permission_answered''
              [(''tool'', JStr (ppTool p)), (''decision'', JStr decision)]]\<rparr>))"

text \<open>\<open>SetPlan\<close> replaces the plan document: its units and the review markers beside them.\<close>

definition SetPlan ::
    "MissionRow \<Rightarrow> PlanUnit list \<Rightarrow> string \<Rightarrow> int option \<Rightarrow> MissionRow" where
  "SetPlan r us commit reviewed =
     r\<lparr>rUnits := us, rLastReviewCommit := commit, rLastReviewAt := reviewed\<rparr>"

definition AppendEvent :: "MissionRow \<Rightarrow> string \<Rightarrow> payload \<Rightarrow> MissionRow" where
  "AppendEvent r kind p = r\<lparr>rLog := rLog r @ [event kind p]\<rparr>"

text \<open>
  \<open>ClaimWorkSlot\<close> over the table in creation order: no claim when \<open>limit\<close> rows are
  working, else the oldest idle row becomes working.
\<close>

fun claim_first_idle :: "MissionRow list \<Rightarrow> MissionRow list option" where
  "claim_first_idle [] = None"
| "claim_first_idle (r # rs) =
     (if rStatus r = ''idle'' then Some (r\<lparr>rStatus := ''working''\<rparr> # rs)
      else map_option (\<lambda>rs'. r # rs') (claim_first_idle rs))"

definition ClaimWorkSlot :: "nat \<Rightarrow> MissionRow list \<Rightarrow> MissionRow list option" where
  "ClaimWorkSlot limit rows =
     (if limit \<le> length (filter (\<lambda>r. rStatus r = ''working'') rows) then None
      else claim_first_idle rows)"

section \<open>The driver's entry points\<close>

definition Signal :: "Spend \<Rightarrow> Config \<Rightarrow> MissionRow \<Rightarrow> Input \<Rightarrow> store_error + MissionRow" where
  "Signal sp cfg r i =
     (if i \<noteq> InputResume \<and> i \<noteq> InputCancel then Inl ErrBadInput
      else let s = toStepState sp r in
        if Terminal (phase s) then Inl ErrTerminal
        else ApplyTransition r (Step s (input i) cfg))"

definition ChangeRouting ::
    "Spend \<Rightarrow> Config \<Rightarrow> MissionRow \<Rightarrow> string \<Rightarrow> string \<Rightarrow> store_error + MissionRow" where
  "ChangeRouting sp cfg r route model =
     (let s = toStepState sp r in
      if Terminal (phase s) then Inl ErrTerminal
      else if status s \<noteq> StatusPaused then Inl ErrNotPaused
      else ApplyTransition r (Step s ((input InputRouteChange)
             \<lparr>inReviewRoute := route, inReviewRouteModel := model\<rparr>) cfg))"

definition DecidePlan ::
    "Spend \<Rightarrow> Config \<Rightarrow> MissionRow \<Rightarrow> Input \<Rightarrow> string \<Rightarrow> store_error + MissionRow" where
  "DecidePlan sp cfg r i feedback =
     (if i \<notin> {InputPlanApprove, InputPlanReplan, InputPlanRediscover} then Inl ErrBadInput
      else let s = toStepState sp r in
        if \<not> awaiting_approval s then Inl ErrNotAwaitingApproval
        else ApplyTransition r (Step s ((input i)\<lparr>inReason := feedback\<rparr>) cfg))"

definition AnswerAskUser :: "MissionRow \<Rightarrow> string \<Rightarrow> store_error + MissionRow" where
  "AnswerAskUser r answer =
     (case rPendingInput r of
        None \<Rightarrow> Inl ErrNotAwaitingApproval
      | Some p \<Rightarrow> Inr (AnswerPendingInput r ''mission.input_answered'' [(''answer'', JStr answer)]))"

text \<open>
  The statuses and phases in which \<open>advance\<close> runs a turn; in any other it returns without
  touching the row.
\<close>

definition advance_runs :: "MissionRow \<Rightarrow> bool" where
  "advance_runs r =
     (\<not> Terminal (scan_phase r) \<and>
      fst (scan_status r) \<notin> {StatusPaused, StatusWaitingForInput, StatusDone, StatusError})"

section \<open>Persisting loses nothing\<close>

definition no_legacy :: "PlanUnit list \<Rightarrow> bool" where
  "no_legacy us = (\<forall>u \<in> set us. uLegacyVerifyCmd u = [])"

lemma normalize_no_legacy [simp]: "no_legacy (normalize_plan us)"
  by (auto simp: no_legacy_def normalize_plan_def normalize_unit_def Let_def)

lemma normalize_id: "no_legacy us \<Longrightarrow> normalize_plan us = us"
  unfolding normalize_plan_def no_legacy_def
  by (intro map_idI) (auto simp: normalize_unit_def Let_def)

lemma no_legacy_update:
  "no_legacy us \<Longrightarrow> uLegacyVerifyCmd u = [] \<Longrightarrow> no_legacy (us[i := u])"
  using set_update_subset_insert [of us i u] by (auto simp: no_legacy_def)

lemma apply_one_no_legacy: "no_legacy (fst acc) \<Longrightarrow> no_legacy (fst (apply_one v acc))"
  by (auto simp: apply_one_def Let_def intro!: no_legacy_update)
     (auto simp: no_legacy_def)

lemma verify_units_no_legacy: "no_legacy (units s) \<Longrightarrow> no_legacy (verify_units s vs)"
  unfolding verify_units_def
  using fold_invariant [where P = "\<lambda>acc. no_legacy (fst acc)" and s = "(units s, [])"
      and f = apply_one and xs = vs]
  by (simp add: apply_one_no_legacy)

lemma pass_no_legacy: "no_legacy us \<Longrightarrow> no_legacy (passHarnessVerified us)"
  by (auto simp: no_legacy_def passHarnessVerified_map)

lemma Step_no_legacy: "no_legacy (units s) \<Longrightarrow> no_legacy (units (Next (Step s i cfg)))"
  by (rule Step_state_cases [where P = "\<lambda>t. no_legacy (units t)"])
     (simp_all add: park_defs dispatch_units verify_units_no_legacy pass_no_legacy)

text \<open>The columns \<open>ApplyTransition\<close> skips when empty are never emptied by a step.\<close>

definition kept_columns :: "StepState \<Rightarrow> StepState \<Rightarrow> bool" where
  "kept_columns s t =
     ((lastReviewCommit t = [] \<longrightarrow> lastReviewCommit s = [])
      \<and> (lastReviewAt t = None \<longrightarrow> lastReviewAt s = None)
      \<and> (reviewRoute t = [] \<longrightarrow> reviewRoute s = [] \<and> reviewRouteModel t = reviewRouteModel s)
      \<and> spent t = spent s \<and> mixedCurrencySpend t = mixedCurrencySpend s \<and> rateAsOf t = rateAsOf s)"

lemma dispatch_kept: "kept_columns s (Next (dispatch s i cfg))"
  by (cases "inInput i")
     (simp_all add: kept_columns_def dispatch_def unfold_handlers split: option.splits, auto)

lemma Step_kept: "kept_columns s (Next (Step s i cfg))"
proof (rule Step_state_cases [where P = "kept_columns s"], goal_cases)
  case (4 us)
  then show ?case using dispatch_kept [of "s\<lparr>units := us\<rparr>" i cfg] by (simp add: kept_columns_def)
qed (simp_all add: park_defs kept_columns_def)

lemma row_writable_iff:
  "row_writable r \<longleftrightarrow> (\<exists>p. parsePhase (rPhase r) = Some p \<and> \<not> Terminal p)"
  by (auto simp: row_writable_def split: option.splits)

lemma row_writable_scan: "row_writable r \<longleftrightarrow> \<not> Terminal (scan_phase r)"
  by (auto simp: row_writable_def scan_phase_def split: option.splits)

lemma ApplyTransition_writable:
  "ApplyTransition r t = Inr r' \<Longrightarrow> row_writable r"
  by (simp add: ApplyTransition_def split: if_splits)

text \<open>The written row is \<open>write_columns\<close> up to the log, the outbox and the unread flag.\<close>

definition same_columns :: "MissionRow \<Rightarrow> MissionRow \<Rightarrow> bool" where
  "same_columns r q =
     (r\<lparr>rLog := rLog q, rOutbox := rOutbox q, rUnreadActionable := rUnreadActionable q\<rparr> = q)"

lemma ApplyTransition_same:
  "ApplyTransition r t = Inr r' \<Longrightarrow> same_columns (write_columns r (Next t)) r'"
  by (simp add: ApplyTransition_def Let_def same_columns_def split: if_splits option.splits)
     auto

lemma ApplyTransition_log: "ApplyTransition r t = Inr r' \<Longrightarrow> rLog r' = rLog r @ Events t"
  by (simp add: ApplyTransition_def Let_def split: if_splits option.splits) auto

lemma same_columns_state: "same_columns r q \<Longrightarrow> toStepState sp q = toStepState sp r"
  unfolding same_columns_def
  by (erule subst) (simp add: toStepState_def scan_phase_def scan_status_def split: option.splits)

lemma same_columns_sel:
  "same_columns r q \<Longrightarrow> rPhase q = rPhase r"
  "same_columns r q \<Longrightarrow> rStatus q = rStatus r"
  "same_columns r q \<Longrightarrow> rPendingInput q = rPendingInput r"
  "same_columns r q \<Longrightarrow> rPauseReason q = rPauseReason r"
  "same_columns r q \<Longrightarrow> rPendingPermission q = rPendingPermission r"
  unfolding same_columns_def by (erule subst, simp)+

end
