(* ===== verification/Mission_World.thy ===== *)
theory Mission_World
  imports Mission_Store
begin

text \<open>
  The interleavings of a mission row's writers. Every actor (a \<open>Drive\<close> turn, a
  \<open>Signal\<close>, a plan decision, a sweep) reads the row, computes a transition from what it
  read, and commits it later; between the two any other write may land. A world is the row
  and the transitions computed but not yet committed. The facts: a terminal phase is final
  under every interleaving, and the log holds exactly one ending.
\<close>

section \<open>Persisting loses nothing\<close>

lemma toStepState_sel [simp]:
  "phase (toStepState sp r) = scan_phase r"
  "status (toStepState sp r) = fst (scan_status r)"
  "pauseReason (toStepState sp r) = snd (scan_status r)"
  "units (toStepState sp r) = normalize_plan (rUnits r)"
  "budget (toStepState sp r) = rBudget r" "flow (toStepState sp r) = parseFlow (rFlow r)"
  "autoApprovePlan (toStepState sp r) = rAutoApprovePlan r"
  "spent (toStepState sp r) = spSpent sp"
  "mixedCurrencySpend (toStepState sp r) = spMixed sp"
  "rateAsOf (toStepState sp r) = spRateAsOf sp"
  "lastReviewCommit (toStepState sp r) = rLastReviewCommit r"
  "lastReviewAt (toStepState sp r) = rLastReviewAt r"
  "reviewRoute (toStepState sp r) = rReviewRoute r"
  "reviewRouteModel (toStepState sp r) = rReviewRouteModel r"
  by (simp_all add: toStepState_def)

lemma toStepState_write:
  assumes kept: "kept_columns (toStepState sp r) n" and frame: "flow n = flow (toStepState sp r)"
      "budget n = budget (toStepState sp r)" "autoApprovePlan n = autoApprovePlan (toStepState sp r)"
    and us: "no_legacy (units n)" "length (units n) = length (rUnits r)"
  shows "toStepState sp (write_columns r n) = n"
proof -
  have "normalize_plan (rUnits (write_columns r n)) = units n"
    using us by (auto simp: write_columns_def normalize_id)
  then show ?thesis
    using kept frame
    by (intro StepState.equality)
       (auto simp: toStepState_def write_columns_def kept_columns_def scan_phase_def scan_status_def)
qed

lemma commit_state:
  assumes "ApplyTransition r (Step (toStepState sp r) i cfg) = Inr r'"
  shows "toStepState sp r' = Next (Step (toStepState sp r) i cfg)"
proof -
  let ?n = "Next (Step (toStepState sp r) i cfg)"
  have "toStepState sp (write_columns r ?n) = ?n"
  proof (rule toStepState_write)
    show "no_legacy (units ?n)" by (rule Step_no_legacy) simp
    show "length (units ?n) = length (rUnits r)"
      by (simp add: Step_units_length normalize_plan_def)
  qed (simp_all only: Step_kept Step_frame)
  with same_columns_state [OF ApplyTransition_same [OF assms]] show ?thesis by simp
qed

section \<open>The endings a step writes\<close>

definition ending_count :: "EventDraft list \<Rightarrow> nat" where
  "ending_count es = count_kind ''mission.done'' es + count_kind ''mission.failed'' es"

definition endings_match :: "StepState \<Rightarrow> EventDraft list \<Rightarrow> bool" where
  "endings_match n es =
     (count_kind ''mission.done'' es = (if phase n = PhaseDone then 1 else 0)
      \<and> count_kind ''mission.failed'' es = (if phase n = PhaseFailed then 1 else 0))"

lemma dispatch_endings:
  "\<not> Terminal (phase s) \<Longrightarrow> endings_match (Next (dispatch s i cfg)) (Events (dispatch s i cfg))"
  by (cases "inInput i")
     (simp_all add: endings_match_def dispatch_def unfold_handlers paused_event_def Terminal_def
        nextPhase_cases split: option.splits)

lemma verification_no_kind:
  "k \<noteq> ''mission.unit_regressed'' \<Longrightarrow> count_kind k (snd (applyVerification s vs)) = 0"
  using verification_events [of _ s vs] by (auto simp: count_kind_def filter_empty_conv)

lemma Step_endings:
  assumes "\<not> Terminal (phase s)"
  shows "endings_match (Next (Step s i cfg)) (Events (Step s i cfg))"
proof (cases "inInput i = InputCancel")
  case True
  with assms show ?thesis by (simp add: Step_def endings_match_def withPhaseFailed_def)
next
  case False
  let ?s = "s\<lparr>units := verify_units s (inVerified i)\<rparr>"
  have "endings_match (Next (stepInput ?s i cfg)) (Events (stepInput ?s i cfg))"
    using assms dispatch_endings [of ?s i cfg]
    by (auto simp: stepInput_def brake_def withPause_def paused_event_def endings_match_def
        Terminal_def split: option.splits)
  then show ?thesis
    using False by (simp add: Events_Step Next_Step endings_match_def verification_no_kind)
qed

section \<open>Worlds\<close>

record World =
  wRow :: MissionRow
  wPending :: "Transition list"

text \<open>
  One database transaction or one read per step. \<open>observe\<close> is any actor's read and \<open>Step\<close>;
  \<open>commit\<close> and \<open>refused\<close> are the two outcomes of its \<open>ApplyTransition\<close>; the other rules
  are the writes that bypass it.
\<close>

inductive world_step :: "World \<Rightarrow> World \<Rightarrow> bool" where
  observe: "world_step w (w\<lparr>wPending := Step (toStepState sp (wRow w)) i cfg # wPending w\<rparr>)"
| commit: "t \<in> set (wPending w) \<Longrightarrow> ApplyTransition (wRow w) t = Inr r \<Longrightarrow>
    world_step w (w\<lparr>wRow := r, wPending := remove1 t (wPending w)\<rparr>)"
| refused: "ApplyTransition (wRow w) t = Inl e \<Longrightarrow>
    world_step w (w\<lparr>wPending := remove1 t (wPending w)\<rparr>)"
| ask: "world_step w (w\<lparr>wRow := SetPendingInput (wRow w) p\<rparr>)"
| answered: "k \<in> {''mission.input_answered'', ''mission.input_timed_out''} \<Longrightarrow>
    world_step w (w\<lparr>wRow := AnswerPendingInput (wRow w) k q\<rparr>)"
| claim: "rStatus (wRow w) = ''idle'' \<Longrightarrow>
    world_step w (w\<lparr>wRow := (wRow w)\<lparr>rStatus := ''working''\<rparr>\<rparr>)"
| plan: "world_step w (w\<lparr>wRow := SetPlan (wRow w) us c d\<rparr>)"
| permission: "world_step w (w\<lparr>wRow := SetPendingPermission (wRow w) pp\<rparr>)"
| permission_cleared: "world_step w (w\<lparr>wRow := ClearPendingPermission (wRow w)\<rparr>)"
| permission_timeout: "world_step w (w\<lparr>wRow := ResolvePendingPermissionTimeout (wRow w) tool\<rparr>)"
| permission_answered: "ResolvePendingPermission (wRow w) pid d = Some r \<Longrightarrow>
    world_step w (w\<lparr>wRow := r\<rparr>)"
| noted: "k \<in> {''mission.turn'', ''mission.provisioned'', ''mission.reconciled'', ''executor.progress'',
      ''executor.session''} \<Longrightarrow>
    world_step w (w\<lparr>wRow := AppendEvent (wRow w) k q\<rparr>)"

inductive_cases world_stepE: "world_step w w'"

lemmas bypass_defs =
  SetPendingInput_def AnswerPendingInput_def SetPlan_def SetPendingPermission_def
  ClearPendingPermission_def ResolvePendingPermissionTimeout_def ResolvePendingPermission_def
  AppendEvent_def

text \<open>Only \<open>ApplyTransition\<close> writes the phase, the outbox and an ending.\<close>

definition bypass :: "MissionRow \<Rightarrow> MissionRow \<Rightarrow> bool" where
  "bypass r r' = (rPhase r' = rPhase r \<and> rOutbox r' = rOutbox r
     \<and> count_kind ''mission.done'' (rLog r') = count_kind ''mission.done'' (rLog r)
     \<and> count_kind ''mission.failed'' (rLog r') = count_kind ''mission.failed'' (rLog r))"

lemma world_step_cases:
  assumes "world_step w w'"
  obtains sp i cfg where "wRow w' = wRow w"
      "wPending w' = Step (toStepState sp (wRow w)) i cfg # wPending w"
    | t where "t \<in> set (wPending w)" "ApplyTransition (wRow w) t = Inr (wRow w')"
      "set (wPending w') \<subseteq> set (wPending w)"
    | "bypass (wRow w) (wRow w')" "set (wPending w') \<subseteq> set (wPending w)"
  using assms
proof cases
  case (observe sp i cfg)
  then show ?thesis using that(1) by simp
next
  case (commit t r)
  then show ?thesis using that(2) by (simp add: set_remove1_subset)
next
  case (refused t e)
  then show ?thesis using that(3) by (simp add: set_remove1_subset bypass_def)
qed (use that(3) in \<open>auto simp: bypass_def bypass_defs split: option.splits if_splits\<close>)

definition row_terminal :: "MissionRow \<Rightarrow> bool" where
  "row_terminal r = (rPhase r \<in> {''done'', ''failed''})"

lemma world_terminal_step:
  assumes "world_step w w'" and "row_terminal (wRow w)"
  shows "rPhase (wRow w') = rPhase (wRow w) \<and> rOutbox (wRow w') = rOutbox (wRow w)
    \<and> ending_count (rLog (wRow w')) = ending_count (rLog (wRow w))"
  using assms(1)
proof (cases rule: world_step_cases)
  case (2 t)
  from ApplyTransition_writable [OF 2(2)] assms(2) have False
    by (auto simp: row_writable_def row_terminal_def parsePhase_def)
  then show ?thesis ..
qed (simp_all add: bypass_def ending_count_def)

section \<open>One ending\<close>

definition outbox_endings :: "OutboxEvent list \<Rightarrow> OutboxEvent list" where
  "outbox_endings os = filter (\<lambda>e. case e of MissionTerminal _ _ \<Rightarrow> True | _ \<Rightarrow> False) os"

definition one_ending :: "World \<Rightarrow> bool" where
  "one_ending w =
     (count_kind ''mission.done'' (rLog (wRow w)) = (if rPhase (wRow w) = ''done'' then 1 else 0)
      \<and> count_kind ''mission.failed'' (rLog (wRow w)) = (if rPhase (wRow w) = ''failed'' then 1 else 0)
      \<and> length (outbox_endings (rOutbox (wRow w))) = (if row_terminal (wRow w) then 1 else 0)
      \<and> (row_writable (wRow w) \<longrightarrow>
           (\<forall>t \<in> set (wPending w). endings_match (Next t) (Events t))))"

lemma phase_name_done: "phase_name p = ''done'' \<longleftrightarrow> p = PhaseDone"
  by (cases p) (simp_all add: phase_name_def)

lemma phase_name_failed: "phase_name p = ''failed'' \<longleftrightarrow> p = PhaseFailed"
  by (cases p) (simp_all add: phase_name_def)

lemma row_terminal_name: "rPhase r = phase_name p \<Longrightarrow> row_terminal r = Terminal p"
  by (auto simp: row_terminal_def phase_name_done phase_name_failed Terminal_def)

lemma ApplyTransition_outbox:
  assumes "ApplyTransition r t = Inr r'"
  shows "rOutbox r' = rOutbox r
    @ (if Terminal (phase (Next t))
       then [MissionTerminal (phase (Next t)) (failedReason (Events t))] else [])
    @ (case isActionableTransition (raw_status r) (status (Next t)) of
         None \<Rightarrow> [] | Some st \<Rightarrow> [MissionActionable (phase (Next t)) st])"
proof -
  have w: "rOutbox (write_columns r n) = rOutbox r" for n by (simp add: write_columns_def)
  from ApplyTransition_writable [OF assms] assms show ?thesis
    by (cases "Terminal (phase (Next t))";
        cases "leftActionable (raw_status r) (status (Next t))";
        cases "isActionableTransition (raw_status r) (status (Next t))")
       (simp_all add: ApplyTransition_def Let_def, (erule subst, simp add: w)+)
qed

lemma ApplyTransition_outbox_endings:
  "ApplyTransition r t = Inr r' \<Longrightarrow>
     length (outbox_endings (rOutbox r')) =
       length (outbox_endings (rOutbox r)) + (if Terminal (phase (Next t)) then 1 else 0)"
  by (simp add: ApplyTransition_outbox outbox_endings_def split: option.splits)

lemma ApplyTransition_names:
  assumes "ApplyTransition r t = Inr r'"
  shows "rPhase r' = phase_name (phase (Next t))" "rStatus r' = status_name (status (Next t))"
  using same_columns_sel(1,2) [OF ApplyTransition_same [OF assms]]
  by (simp_all add: write_columns_def)

lemma writable_not_terminal: "row_writable r \<Longrightarrow> \<not> row_terminal r"
  by (auto simp: row_writable_def row_terminal_def parsePhase_def)

lemma bypass_writable: "bypass r r' \<Longrightarrow> row_writable r' = row_writable r"
  by (simp add: bypass_def row_writable_def)

lemma one_ending_step:
  assumes "world_step w w'" and inv: "one_ending w"
  shows "one_ending w'"
  using assms(1)
proof (cases rule: world_step_cases)
  case (1 sp i cfg)
  have "row_writable (wRow w) \<Longrightarrow>
      endings_match (Next (Step (toStepState sp (wRow w)) i cfg))
        (Events (Step (toStepState sp (wRow w)) i cfg))"
    by (rule Step_endings) (simp add: row_writable_scan)
  with inv 1 show ?thesis by (auto simp: one_ending_def)
next
  case (2 t)
  from ApplyTransition_writable [OF 2(2)] have wr: "row_writable (wRow w)" .
  then have nt: "\<not> row_terminal (wRow w)" by (rule writable_not_terminal)
  have em: "endings_match (Next t) (Events t)" using inv wr 2(1) by (simp add: one_ending_def)
  have n: "rPhase (wRow w') = phase_name (phase (Next t))" by (rule ApplyTransition_names [OF 2(2)])
  have later: "row_writable (wRow w') \<longrightarrow>
      (\<forall>u \<in> set (wPending w'). endings_match (Next u) (Events u))"
    using inv wr 2(3) by (auto simp: one_ending_def)
  from inv nt have zero: "count_kind ''mission.done'' (rLog (wRow w)) = 0"
      "count_kind ''mission.failed'' (rLog (wRow w)) = 0"
      "length (outbox_endings (rOutbox (wRow w))) = 0"
    by (auto simp: one_ending_def row_terminal_def)
  show ?thesis
    unfolding one_ending_def
    using later zero em ApplyTransition_log [OF 2(2)] ApplyTransition_outbox_endings [OF 2(2)]
    by (simp add: row_terminal_name [OF n] n phase_name_done phase_name_failed endings_match_def)
next
  case 3
  with inv bypass_writable [OF 3(1)] show ?thesis
    by (auto simp: one_ending_def bypass_def row_terminal_def)
qed

definition fresh_world :: "MissionRow \<Rightarrow> World" where
  "fresh_world r = \<lparr>wRow = r\<lparr>rLog := [], rOutbox := []\<rparr>, wPending = []\<rparr>"

lemma fresh_one_ending: "\<not> row_terminal r \<Longrightarrow> one_ending (fresh_world r)"
  by (simp add: one_ending_def fresh_world_def row_terminal_def outbox_endings_def)

lemma reachable_one_ending:
  assumes "world_step\<^sup>*\<^sup>* w w'" and "one_ending w"
  shows "one_ending w'"
  using assms by (induction rule: rtranclp_induct) (auto intro: one_ending_step)

lemma terminal_frozen:
  assumes "world_step\<^sup>*\<^sup>* w w'" and "row_terminal (wRow w)"
  shows "rPhase (wRow w') = rPhase (wRow w) \<and> rOutbox (wRow w') = rOutbox (wRow w)
    \<and> ending_count (rLog (wRow w')) = ending_count (rLog (wRow w))"
  using assms
proof (induction rule: rtranclp_induct)
  case (step u v)
  with world_terminal_step [OF step(2)] show ?case by (simp add: row_terminal_def)
qed simp

end
