(* ===== verification/Mission_Run.thy ===== *)
theory Mission_Run
  imports Mission_World
begin

text \<open>
  Runs: a mission's row driven by a sequence of inputs, each with the spend projected at
  that moment. \<open>turn\<close> is one read, \<open>Step\<close> and commit on the abstract state;
  \<open>row_turn\<close> is the same on the stored row. The invariants of \<open>Step\<close> are lifted to runs
  through the machine locales of the prelude, and the row runs refine the state runs.
\<close>

section \<open>Turns\<close>

type_synonym turn_input = "Spend \<times> StepInput"

definition with_spend :: "Spend \<Rightarrow> StepState \<Rightarrow> StepState" where
  "with_spend sp s = s\<lparr>spent := spSpent sp, mixedCurrencySpend := spMixed sp, rateAsOf := spRateAsOf sp\<rparr>"

definition turn :: "Config \<Rightarrow> StepState \<Rightarrow> turn_input \<Rightarrow> StepState" where
  "turn cfg s x =
     (if Terminal (phase s) then s else Next (Step (with_spend (fst x) s) (snd x) cfg))"

definition row_turn :: "Config \<Rightarrow> MissionRow \<Rightarrow> turn_input \<Rightarrow> MissionRow" where
  "row_turn cfg r x =
     (case ApplyTransition r (Step (toStepState (fst x) r) (snd x) cfg) of Inl _ \<Rightarrow> r | Inr r' \<Rightarrow> r')"

lemma with_spend_sel [simp]:
  "phase (with_spend sp s) = phase s" "status (with_spend sp s) = status s"
  "pauseReason (with_spend sp s) = pauseReason s" "iteration (with_spend sp s) = iteration s"
  "maxIterations (with_spend sp s) = maxIterations s" "units (with_spend sp s) = units s"
  "harnessRetries (with_spend sp s) = harnessRetries s" "replanUsed (with_spend sp s) = replanUsed s"
  "flow (with_spend sp s) = flow s" "budget (with_spend sp s) = budget s"
  "autoApprovePlan (with_spend sp s) = autoApprovePlan s"
  "reviewFindings (with_spend sp s) = reviewFindings s"
  "reworkRounds (with_spend sp s) = reworkRounds s"
  by (simp_all add: with_spend_def)

lemma with_spend_state [simp]: "with_spend sp (toStepState sp' r) = toStepState sp r"
  by (simp add: with_spend_def toStepState_def)

lemma with_spend_twice [simp]: "with_spend sp (with_spend sp' s) = with_spend sp s"
  by (simp add: with_spend_def)

lemma ApplyTransition_total:
  "ApplyTransition r t = Inl e \<longleftrightarrow> \<not> row_writable r \<and> e = ErrTerminal"
  by (auto simp: ApplyTransition_def Let_def)

lemma row_turn_state: "toStepState sp (row_turn cfg r x) = with_spend sp (turn cfg (toStepState sp r) x)"
proof (cases "ApplyTransition r (Step (toStepState (fst x) r) (snd x) cfg)")
  case (Inl e)
  then have "Terminal (scan_phase r)" by (simp add: ApplyTransition_total row_writable_scan)
  with Inl show ?thesis by (simp add: row_turn_def turn_def)
next
  case (Inr r')
  from ApplyTransition_writable [OF Inr] have "\<not> Terminal (scan_phase r)"
    by (simp add: row_writable_scan)
  moreover have "toStepState sp r' = with_spend sp (toStepState (fst x) r')" by simp
  ultimately show ?thesis using Inr commit_state [OF Inr] by (simp add: row_turn_def turn_def)
qed

lemma turn_with_spend: "turn cfg (with_spend sp s) x = (if Terminal (phase s) then with_spend sp s else turn cfg s x)"
  by (simp add: turn_def)

lemma turn_respend: "with_spend sp' (turn cfg (with_spend sp s) x) = with_spend sp' (turn cfg s x)"
  by (simp add: turn_def)

lemma run_respend:
  "with_spend sp' (foldl (turn cfg) (with_spend sp s) xs) = with_spend sp' (foldl (turn cfg) s xs)"
proof (induction xs arbitrary: s sp)
  case (Cons x xs)
  show ?case
  proof (cases "Terminal (phase s)")
    case True
    with Cons [of sp s] show ?thesis by (simp add: turn_def)
  next
    case False
    then show ?thesis by (simp add: turn_with_spend)
  qed
qed simp

lemma row_run_state:
  "toStepState sp (foldl (row_turn cfg) r xs) = with_spend sp (foldl (turn cfg) (toStepState sp r) xs)"
proof (induction xs arbitrary: r)
  case (Cons x xs)
  then show ?case by (simp add: row_turn_state run_respend)
qed simp

section \<open>The invariants of runs\<close>

definition units_backed :: "StepState \<Rightarrow> bool" where
  "units_backed s = passes_backed (units s)"

definition findings_ok :: "StepState \<Rightarrow> bool" where
  "findings_ok s = ledger_ok (reviewFindings s)"

definition any_state :: "StepState \<Rightarrow> bool" where
  "any_state s = True"

definition history_le :: "StepState \<Rightarrow> StepState \<Rightarrow> bool" where
  "history_le s t = (ledger_le (reviewFindings s) (reviewFindings t)
     \<and> (replanUsed s \<longrightarrow> replanUsed t) \<and> harnessRetries s \<le> harnessRetries t
     \<and> length (units t) = length (units s) \<and> flow t = flow s \<and> budget t = budget s
     \<and> maxIterations t = maxIterations s \<and> autoApprovePlan t = autoApprovePlan s)"

lemma turn_cases: "P s \<Longrightarrow> (\<not> Terminal (phase s) \<Longrightarrow> P (Next (Step (with_spend (fst x) s) (snd x) cfg))) \<Longrightarrow>
    P (turn cfg s x)"
  by (simp add: turn_def)

lemma with_spend_inv [simp]:
  "planless_ok (with_spend sp s) = planless_ok s" "coherent (with_spend sp s) = coherent s"
  by (simp_all add: planless_ok_def coherent_def)

interpretation evidence: input_machine "turn cfg" units_backed for cfg
  by unfold_locales
     (rule turn_cases, simp_all add: units_backed_def Step_passes_backed)

interpretation ledger: input_machine "turn cfg" findings_ok for cfg
  by unfold_locales
     (rule turn_cases, simp_all add: findings_ok_def Step_ledger_ok)

interpretation planless: input_machine "turn cfg" planless_ok for cfg
  by unfold_locales
     (rule turn_cases, simp_all add: Step_planless_ok)

interpretation status: input_machine "turn cfg" coherent for cfg
  by unfold_locales
     (rule turn_cases, simp_all add: Step_coherent)

interpretation history: monotone_machine "turn cfg" any_state history_le for cfg
proof unfold_locales
  fix s x
  show "history_le s (turn cfg s x)"
    by (rule turn_cases)
       (use Step_ledger_le [of "with_spend (fst x) s"] Step_replanUsed [of "with_spend (fst x) s"]
          Step_harnessRetries [of "with_spend (fst x) s"] in
        \<open>simp_all add: history_le_def Step_units_length Step_frame\<close>)
next
  fix s t u
  assume "history_le s t" and "history_le t u"
  then show "history_le s u" by (auto simp: history_le_def intro: ledger_le_trans)
qed (simp_all add: history_le_def any_state_def)

section \<open>The worker loop makes progress\<close>

text \<open>
  A worker input either parks, fails or replans the mission, or spends one unit of one of
  two counters that are both bounded.
\<close>

definition worker_input :: "StepInput \<Rightarrow> bool" where
  "worker_input i = (inInput i = InputWorkerFailed \<or> inInput i = InputWorkerRetry)"

definition loop_stopped :: "StepState \<Rightarrow> StepState \<Rightarrow> bool" where
  "loop_stopped s t = (status t = StatusPaused \<or> Terminal (phase t) \<or> (replanUsed t \<and> \<not> replanUsed s))"

definition loop_fuel :: "Config \<Rightarrow> StepState \<Rightarrow> nat" where
  "loop_fuel cfg s = nat (maxIterations s - iteration s) + nat (HarnessRetryCap cfg - harnessRetries s)"

definition loop_progress :: "Config \<Rightarrow> StepState \<Rightarrow> StepState \<Rightarrow> bool" where
  "loop_progress cfg s t =
     (maxIterations t = maxIterations s \<and>
      (iteration t = iteration s + 1 \<and> iteration t < maxIterations s \<and> harnessRetries t = harnessRetries s \<or>
       harnessRetries t = harnessRetries s + 1 \<and> harnessRetries t < HarnessRetryCap cfg \<and>
       iteration t = iteration s))"

lemma loop_progress_fuel: "loop_progress cfg s t \<Longrightarrow> loop_fuel cfg t < loop_fuel cfg s"
  by (auto simp: loop_progress_def loop_fuel_def)

lemma worker_failed_progress:
  assumes "0 < HarnessRetryCap cfg"
  shows "loop_stopped s (Next (stepWorkerFailed s i cfg)) \<or> loop_progress cfg s (Next (stepWorkerFailed s i cfg))"
  using assms
  by (simp add: stepWorkerFailed_def Let_def harnessRetryExhausted_def backoff_or_retry_def
      fail_max_iterations_def withPause_def withPhaseFailed_def loop_stopped_def loop_progress_def)

lemma retry_tail_loop:
  assumes "0 < HarnessRetryCap cfg" and "iteration u = iteration s" and "maxIterations u = maxIterations s"
    and "harnessRetries u = (if inHarnessCaused i then harnessRetries s + 1 else harnessRetries s)"
    and "replanUsed u = replanUsed s"
  shows "loop_stopped s (Next (retry_tail u i cfg)) \<or> loop_progress cfg s (Next (retry_tail u i cfg))"
  using assms
  by (cases "inHarnessCaused i")
     (simp_all add: retry_tail_def Let_def harnessRetryExhausted_def fail_max_iterations_def
        withPause_def withPhaseFailed_def loop_stopped_def loop_progress_def)

text \<open>The state in which \<open>stepWorkerRetry\<close> runs its tail.\<close>

definition retry_state :: "StepState \<Rightarrow> StepInput \<Rightarrow> StepState" where
  "retry_state s i =
     (let s1 = (if inHarnessCaused i then s\<lparr>consecutiveFailures := 0, harnessRetries := harnessRetries s + 1\<rparr>
                else s\<lparr>consecutiveFailures := 0\<rparr>)
      in if inGapFingerprint i = [] then s1
         else s1\<lparr>stallCount := (if inGapFingerprint i = lastGapFingerprint s then stallCount s + 1 else 1),
                 lastGapFingerprint := inGapFingerprint i\<rparr>)"

lemma stepWorkerRetry_tail:
  "Next (stepWorkerRetry s i cfg) = Next (retry_tail (retry_state s i) i cfg) \<or>
     loop_stopped s (Next (stepWorkerRetry s i cfg))"
  by (simp add: stepWorkerRetry_def Let_def retry_state_def withPause_def loop_stopped_def
      replanTransition_def)

lemma worker_retry_progress:
  assumes "0 < HarnessRetryCap cfg"
  shows "loop_stopped s (Next (stepWorkerRetry s i cfg)) \<or> loop_progress cfg s (Next (stepWorkerRetry s i cfg))"
proof -
  have "loop_stopped s (Next (retry_tail (retry_state s i) i cfg)) \<or>
      loop_progress cfg s (Next (retry_tail (retry_state s i) i cfg))"
    by (rule retry_tail_loop [OF assms]) (simp_all add: retry_state_def Let_def)
  with stepWorkerRetry_tail [of s i cfg] show ?thesis by presburger
qed

lemma dispatch_worker:
  assumes "worker_input i" and "0 < HarnessRetryCap cfg"
  shows "loop_stopped s (Next (dispatch s i cfg)) \<or>
    loop_fuel cfg (Next (dispatch s i cfg)) < loop_fuel cfg s"
  using assms(1) worker_failed_progress [OF assms(2), of s i] worker_retry_progress [OF assms(2), of s i]
  by (auto simp: worker_input_def dispatch_def dest: loop_progress_fuel)

lemma turn_worker:
  assumes "worker_input (snd x)" and "0 < HarnessRetryCap cfg"
  shows "loop_stopped s (turn cfg s x) \<or> loop_fuel cfg (turn cfg s x) < loop_fuel cfg s"
proof (cases "Terminal (phase s)")
  case True
  then show ?thesis by (simp add: turn_def loop_stopped_def)
next
  case False
  let ?s = "(with_spend (fst x) s)\<lparr>units := verify_units (with_spend (fst x) s) (inVerified (snd x))\<rparr>"
  have nc: "inInput (snd x) \<noteq> InputCancel" using assms(1) by (auto simp: worker_input_def)
  have eq: "loop_stopped ?s t = loop_stopped s t" "loop_fuel cfg ?s = loop_fuel cfg s" for t
    by (simp_all add: loop_stopped_def loop_fuel_def)
  show ?thesis
  proof (cases "brake ?s")
    case None
    with False nc dispatch_worker [OF assms, of ?s] show ?thesis
      by (simp add: turn_def Next_Step Next_stepInput eq)
  next
    case (Some t)
    from brake_Next [OF Some] have "loop_stopped s (Next t)" by (auto simp: loop_stopped_def withPause_def)
    with False nc Some show ?thesis by (simp add: turn_def Next_Step Next_stepInput)
  qed
qed

lemma worker_run_stops:
  assumes "\<forall>x \<in> set xs. worker_input (snd x)" and "0 < HarnessRetryCap cfg"
    and "loop_fuel cfg s < length xs"
  shows "\<exists>n < length xs. loop_stopped (foldl (turn cfg) s (take n xs)) (foldl (turn cfg) s (take (Suc n) xs))"
  using assms(1,3)
proof (induction xs arbitrary: s)
  case (Cons x xs)
  from turn_worker [OF _ assms(2), of x s] Cons.prems(1)
  consider "loop_stopped s (turn cfg s x)" | "loop_fuel cfg (turn cfg s x) < loop_fuel cfg s" by auto
  then show ?case
  proof cases
    case 1
    then show ?thesis by (intro exI [of _ 0]) simp
  next
    case 2
    with Cons.prems(2) have "loop_fuel cfg (turn cfg s x) < length xs" by simp
    with Cons.IH [of "turn cfg s x"] Cons.prems(1) obtain n where
      "n < length xs" "loop_stopped (foldl (turn cfg) (turn cfg s x) (take n xs))
         (foldl (turn cfg) (turn cfg s x) (take (Suc n) xs))" by auto
    then show ?thesis by (intro exI [of _ "Suc n"]) simp
  qed
qed simp

section \<open>One replan per mission\<close>

lemma ApplyTransition_replan:
  "ApplyTransition r t = Inr r' \<Longrightarrow> rReplanUsed r' = replanUsed (Next t)"
  apply (drule ApplyTransition_same)
  unfolding same_columns_def
  by (erule subst) (simp add: write_columns_def)

definition replans :: "MissionRow \<Rightarrow> nat" where
  "replans r = count_kind ''mission.replan'' (rLog r)"

lemma row_turn_replans:
  "replans (row_turn cfg r x) + of_bool (rReplanUsed r) =
     replans r + of_bool (rReplanUsed (row_turn cfg r x)) \<and>
   (rReplanUsed r \<longrightarrow> rReplanUsed (row_turn cfg r x))"
proof (cases "ApplyTransition r (Step (toStepState (fst x) r) (snd x) cfg)")
  case (Inl e)
  then show ?thesis by (simp add: row_turn_def)
next
  case (Inr r')
  let ?s = "toStepState (fst x) r"
  have "replanUsed ?s = rReplanUsed r" by (simp add: toStepState_def)
  with Inr ApplyTransition_replan [OF Inr] ApplyTransition_log [OF Inr]
    Step_replan_events [of ?s "snd x" cfg] Step_replanUsed [of ?s "snd x" cfg]
  show ?thesis by (auto simp: row_turn_def replans_def)
qed

lemma row_run_replans:
  "replans (foldl (row_turn cfg) r xs) + of_bool (rReplanUsed r) =
     replans r + of_bool (rReplanUsed (foldl (row_turn cfg) r xs))"
proof (induction xs arbitrary: r)
  case (Cons x xs)
  from Cons [of "row_turn cfg r x"] row_turn_replans [of cfg r x] show ?case by simp
qed simp

end
