(* ===== verification/Mission_Driver.thy ===== *)
theory Mission_Driver
  imports Mission_Run
begin

text \<open>
  What \<open>advance\<close> (\<open>driver.go\<close>) makes of a turn that ended in an error: the input it
  hands to \<open>Step\<close>. A Go error is a chain that may match several sentinels, so it is a record
  of what \<open>errors.Is\<close> and \<open>errors.As\<close> find in it, and the switch takes the first match.
  The resolved review route is what the gateway answered, a parameter.
\<close>

record TurnError =
  eText :: string
  eAskedUser :: bool
  eModelFloor :: "string option"
  eExecutorAuth :: bool
  eProviderRejected :: bool
  eUnavailable :: "int option option"
  eGatewayDown :: bool
  eNoRoute :: bool

definition CauseModelFloor :: string where
  "CauseModelFloor = ''model_floor''"

record RouteEntry =
  reUsable :: bool
  reSkipReason :: string

text \<open>The loop of \<open>reviewRouteSkip\<close>: a usable entry ends it, the first reason names it.\<close>

fun route_skip :: "RouteEntry list \<Rightarrow> string option" where
  "route_skip [] = Some ''route has no chain entries''"
| "route_skip (e # es) =
     (if reUsable e then None
      else if reSkipReason e \<noteq> [] then Some (reSkipReason e)
      else route_skip es)"

definition reviewRouteSkip ::
    "string \<Rightarrow> RouteEntry list option \<Rightarrow> TurnError \<Rightarrow> (string \<times> string) option" where
  "reviewRouteSkip route resolved err =
     (if \<not> eNoRoute err then None
      else case resolved of
        None \<Rightarrow> None
      | Some es \<Rightarrow> map_option (\<lambda>skip. (route, skip)) (route_skip es))"

definition infra_failure :: "TurnError \<Rightarrow> StepInput" where
  "infra_failure err = (input InputReviewInfraFailure)\<lparr>inReason := eText err\<rparr>"

definition error_input ::
    "Phase \<Rightarrow> string \<Rightarrow> RouteEntry list option \<Rightarrow> TurnError \<Rightarrow> StepInput" where
  "error_input p route resolved err =
     (if eAskedUser err then input InputAskUser
      else case eModelFloor err of
        Some m \<Rightarrow> (infra_failure err)\<lparr>inCause := CauseModelFloor, inModel := m\<rparr>
      | None \<Rightarrow>
        if eExecutorAuth err then infra_failure err
        else if eProviderRejected err then infra_failure err
        else case eUnavailable err of
          Some until \<Rightarrow> (infra_failure err)\<lparr>inUntil := until\<rparr>
        | None \<Rightarrow>
          if eGatewayDown err then infra_failure err
          else if p = PhaseProve then
            (case reviewRouteSkip route resolved err of
               None \<Rightarrow> infra_failure err
             | Some (rt, skip) \<Rightarrow> (infra_failure err)\<lparr>inRoute := rt,
                 inReason := ''review route \"'' @ rt @ ''\" has no usable provider: '' @ skip\<rparr>)
          else if p = PhaseResult then (input InputResultFailed)\<lparr>inReason := eText err\<rparr>
          else (input InputWorkerFailed)\<lparr>inReason := eText err, inHarnessCaused := True\<rparr>)"

lemma error_input_kind:
  "inInput (error_input p route resolved err) \<in>
        {InputAskUser, InputReviewInfraFailure, InputResultFailed} \<or>
   inInput (error_input p route resolved err) = InputWorkerFailed \<and>
      inHarnessCaused (error_input p route resolved err)"
  unfolding error_input_def infra_failure_def
  by (simp split: option.split prod.split)

lemma error_input_cases:
  obtains "inInput (error_input p route resolved err) \<in>
        {InputAskUser, InputReviewInfraFailure, InputResultFailed}"
    | "inInput (error_input p route resolved err) = InputWorkerFailed"
      "inHarnessCaused (error_input p route resolved err)"
  using error_input_kind [of p route resolved err] by auto

lemma error_input_verified: "inVerified (error_input p route resolved err) = []"
  by (simp add: error_input_def infra_failure_def split: option.splits prod.splits)

text \<open>An error input never changes the phase, the iteration, the units or the findings.\<close>

definition same_work :: "StepState \<Rightarrow> StepState \<Rightarrow> bool" where
  "same_work s t = (phase t = phase s \<and> iteration t = iteration s \<and> units t = units s
     \<and> reviewFindings t = reviewFindings s \<and> reworkRounds t = reworkRounds s)"

lemma harness_failed_same_work:
  "inHarnessCaused i \<Longrightarrow> same_work s (Next (stepWorkerFailed s i cfg))"
  by (simp add: same_work_def stepWorkerFailed_def Let_def harnessRetryExhausted_def
      backoff_or_retry_def withPause_def)

lemma dispatch_error_same_work:
  "same_work s (Next (dispatch s (error_input p route resolved err) cfg))"
proof (cases rule: error_input_cases [of p route resolved err])
  case 1
  then show ?thesis
    by (auto simp: dispatch_def same_work_def withStatus_def withPause_def stepReviewInfraFailure_def
        stepResultFailed_def)
next
  case 2
  with harness_failed_same_work [OF 2(2)] show ?thesis by (simp add: dispatch_def)
qed

lemma error_turn_same_work: "same_work s (turn cfg s (sp, error_input p route resolved err))"
proof (cases "Terminal (phase s)")
  case True
  then show ?thesis by (simp add: turn_def same_work_def)
next
  case False
  let ?i = "error_input p route resolved err" and ?w = "with_spend sp s"
  have nc: "inInput ?i \<noteq> InputCancel" by (cases rule: error_input_cases [of p route resolved err]) auto
  have "verify_units ?w (inVerified ?i) = units ?w" by (simp add: verify_units_def error_input_verified)
  then have "?w\<lparr>units := verify_units ?w (inVerified ?i)\<rparr> = ?w" by (simp only:) simp
  with False nc have "turn cfg s (sp, ?i) = Next (stepInput ?w ?i cfg)"
    by (simp add: turn_def Next_Step)
  moreover have "same_work ?w (Next (stepInput ?w ?i cfg))"
    using dispatch_error_same_work [of ?w p route resolved err cfg] brake_Next [of ?w]
    by (auto simp: Next_stepInput withPause_def same_work_def split: option.splits)
  ultimately show ?thesis by (simp add: same_work_def)
qed

end
