(* ===== verification/Mission_Props.thy ===== *)
theory Mission_Props
  imports Mission_Driver
begin

text \<open>
  The properties of missions: their endings under every interleaving of writers, what a
  delivery rests on, the brakes, the ledger of findings, the approval gate and the parks.
  Each is a few steps over the step, run and world theories; the witnesses evaluate the
  definitions on the sample mission below.
\<close>

section \<open>A sample mission\<close>

definition demo_unit :: PlanUnit where
  "demo_unit = \<lparr>uTitle = ''unit'', uCheckCmd = ''make test'', uLegacyVerifyCmd = [],
     uArtifacts = [], uEvidenceOnly = False, uBootstrap = False, uCriteria = [], uScope = [],
     uPasses = False, uHarnessPassed = False, uVerifyCheck = [], uVerifyExcerpt = [],
     uRegressed = False\<rparr>"

definition demo_row :: MissionRow where
  "demo_row = \<lparr>rPhase = ''build'', rStatus = ''working'', rPauseReason = None,
     rPauseMessage = [], rIteration = 0, rMaxIterations = 3, rConsecutiveFailures = 0,
     rLastGapFingerprint = [], rStallCount = 0, rHarnessRetries = 0, rReplanUsed = False,
     rBudget = None, rFlow = ''full'', rAutoApprovePlan = False, rUnits = [demo_unit],
     rLastReviewCommit = [], rLastReviewAt = None, rFindings = [], rReworkRounds = 0,
     rReviewRoute = [], rReviewRouteModel = [], rPendingPermission = None, rPendingInput = None,
     rAsksUsed = 0, rUnreadActionable = False, rLog = [], rOutbox = []\<rparr>"

definition demo_spend :: Spend where
  "demo_spend = \<lparr>spSpent = 0, spMixed = False, spRateAsOf = []\<rparr>"

definition demo_state :: StepState where
  "demo_state = toStepState demo_spend demo_row"

definition demo_finding :: Finding where
  "demo_finding = \<lparr>fID = [], fUnit = 0, fTitle = ''missing test'', fFile = ''a.go'', fDetail = [],
     fSeverity = SeverityNone, fEvidence = [], fStatus = None, fRoundOpened = 0,
     fUntouchedRounds = 0\<rparr>"

lemmas demo_defs = demo_unit_def demo_row_def demo_spend_def demo_state_def demo_finding_def

lemma demo_phase: "parsePhase (rPhase demo_row) = Some PhaseBuild"
  by (simp add: demo_row_def parsePhase_def)

lemma demo_state_sel [simp]:
  "phase demo_state = PhaseBuild" "status demo_state = StatusWorking" "pauseReason demo_state = None"
  "iteration demo_state = 0" "maxIterations demo_state = 3" "harnessRetries demo_state = 0"
  "budget demo_state = None" "flow demo_state = FlowFull" "replanUsed demo_state = False"
  "units demo_state = [demo_unit]" "reviewFindings demo_state = []" "reworkRounds demo_state = 0"
  "autoApprovePlan demo_state = False"
  by (simp_all add: demo_defs toStepState_def scan_phase_def scan_status_def parsePhase_def
      parseStatus_def parseFlow_def normalize_plan_def normalize_unit_def)

lemma demo_writable: "row_writable demo_row"
  by (simp add: row_writable_def demo_phase)

lemma commit_exists: "row_writable r \<Longrightarrow> \<exists>r'. ApplyTransition r t = Inr r'"
  by (cases "ApplyTransition r t") (simp_all add: ApplyTransition_total)

text \<open>The sample mission cancelled: one read and one commit.\<close>

lemma demo_cancel_reachable:
  "\<exists>w. world_step\<^sup>*\<^sup>* (fresh_world demo_row) w \<and> rPhase (wRow w) = ''failed''"
proof -
  let ?w = "fresh_world demo_row"
  let ?t = "Step (toStepState demo_spend (wRow ?w)) (input InputCancel) DefaultConfig"
  have p: "phase (Next ?t) = PhaseFailed"
    by (simp add: Next_Step withPhaseFailed_def fresh_world_def scan_phase_def demo_row_def parsePhase_def)
  have "row_writable (wRow ?w)" by (simp add: row_writable_def fresh_world_def demo_row_def parsePhase_def)
  then obtain r where r: "ApplyTransition (wRow ?w) ?t = Inr r" using commit_exists by blast
  let ?u = "?w\<lparr>wPending := ?t # wPending ?w\<rparr>"
  let ?v = "?u\<lparr>wRow := r, wPending := remove1 ?t (wPending ?u)\<rparr>"
  have uv: "world_step ?u ?v" by (rule world_step.commit) (simp_all add: r)
  have wu: "world_step ?w ?u" by (rule world_step.observe)
  have "world_step\<^sup>*\<^sup>* ?w ?v"
    by (rule converse_rtranclp_into_rtranclp [of world_step, OF wu r_into_rtranclp [of world_step, OF uv]])
  moreover have "rPhase (wRow ?v) = ''failed''"
    by (simp add: ApplyTransition_names [OF r] p phase_name_def)
  ultimately show ?thesis by (rule exI [of _ ?v, OF conjI])
qed

section \<open>Endings\<close>

text \<open>C1. Under every interleaving of transitions, asks, answers, sweeps and cancels, a
  mission logs exactly one ending, of the kind its stored phase names, once it is terminal and
  none before, and commits exactly one terminal event to the outbox with it.\<close>

theorem one_ending_ever:
  assumes "\<not> row_terminal r" and "world_step\<^sup>*\<^sup>* (fresh_world r) w"
  shows "count_kind ''mission.done'' (rLog (wRow w)) = (if rPhase (wRow w) = ''done'' then 1 else 0)
    \<and> count_kind ''mission.failed'' (rLog (wRow w)) = (if rPhase (wRow w) = ''failed'' then 1 else 0)
    \<and> length (outbox_endings (rOutbox (wRow w))) = (if row_terminal (wRow w) then 1 else 0)"
  using reachable_one_ending [OF assms(2) fresh_one_ending [OF assms(1)]]
  unfolding one_ending_def by blast

theorem one_ending_ever_witness:
  "\<exists>w. world_step\<^sup>*\<^sup>* (fresh_world demo_row) w \<and> rPhase (wRow w) = ''failed'' \<and>
     count_kind ''mission.failed'' (rLog (wRow w)) = 1"
proof -
  from demo_cancel_reachable obtain w where
    w: "world_step\<^sup>*\<^sup>* (fresh_world demo_row) w" "rPhase (wRow w) = ''failed''" by blast
  have "\<not> row_terminal demo_row" using demo_writable by (rule writable_not_terminal)
  from one_ending_ever [OF this w(1)] w show ?thesis by auto
qed

text \<open>C2. A terminal phase is final: whatever is still in flight or lands later, the stored
  phase stays, no second ending is logged and no terminal event is committed again.\<close>

theorem terminal_is_final:
  assumes "row_terminal (wRow w)" and "world_step\<^sup>*\<^sup>* w w'"
  shows "rPhase (wRow w') = rPhase (wRow w) \<and> rOutbox (wRow w') = rOutbox (wRow w)
    \<and> ending_count (rLog (wRow w')) = ending_count (rLog (wRow w))"
  using terminal_frozen [OF assms(2,1)] .

theorem terminal_is_final_witness:
  "\<exists>(w::World) (w'::World). row_terminal (wRow w) \<and> rLog (wRow w') \<noteq> rLog (wRow w) \<and> rPhase (wRow w') = rPhase (wRow w)"
proof -
  from demo_cancel_reachable obtain w where
    "world_step\<^sup>*\<^sup>* (fresh_world demo_row) w" and w: "rPhase (wRow w) = ''failed''" by blast
  let ?v = "w\<lparr>wRow := AppendEvent (wRow w) ''mission.turn'' []\<rparr>"
  have "world_step\<^sup>*\<^sup>* w ?v" by (rule r_into_rtranclp, rule world_step.noted) simp
  moreover have t: "row_terminal (wRow w)" using w by (simp add: row_terminal_def)
  ultimately have "rPhase (wRow ?v) = rPhase (wRow w)" using terminal_is_final by blast
  moreover have "rLog (wRow ?v) \<noteq> rLog (wRow w)" by (simp add: AppendEvent_def)
  ultimately show ?thesis using t by - (rule exI [of _ w], rule exI [of _ ?v], intro conjI)
qed

section \<open>Delivery\<close>


definition demo_verified :: StepInput where
  "demo_verified = (input InputReviewApprove)
     \<lparr>inVerified := [\<lparr>vUnit = 0, vPassed = True, vCheck = ''check_cmd'', vExcerpt = []\<rparr>]\<rparr>"

lemma demo_approve:
  "phase (turn DefaultConfig demo_state (demo_spend, demo_verified)) = PhaseResult"
  by (simp add: turn_def Next_Step Next_stepInput brake_def demo_verified_def verify_units_def
      apply_one_def dispatch_def stepReviewApprove_def Let_def passHarnessVerified_map
      allPassed_def reviewSkippedOrProvePassTransition_def)


text \<open>A mission is done only through its result: a run enters \<open>done\<close> only by the
  input that says every delivery hook succeeded, never while the budget is spent.\<close>

theorem done_only_by_result:
  assumes "phase s \<noteq> PhaseDone" and "phase (turn cfg s x) = PhaseDone"
  shows "inInput (snd x) = InputResultComplete \<and> \<not> over_budget (with_spend (fst x) s)"
proof -
  let ?w = "with_spend (fst x) s"
  have t: "turn cfg s x = Next (Step ?w (snd x) cfg)" and nt: "\<not> Terminal (phase ?w)"
    using assms by (auto simp: turn_def split: if_splits)
  have "phase_edge ?w (snd x) PhaseDone" using Step_phase_edge [of ?w "snd x" cfg] assms(2) t by simp
  then have i: "inInput (snd x) = InputResultComplete"
    using assms(1) by (auto simp: phase_edge_done nextPhase_cases split: if_splits)
  moreover have "\<not> over_budget ?w"
    using Step_brake [of "snd x" ?w cfg] i nt assms t by (auto simp: withPause_def)
  ultimately show ?thesis by simp
qed

theorem done_only_by_result_witness:
  "inInput (snd (demo_spend, input InputResultComplete)) = InputResultComplete \<and>
     \<not> over_budget (with_spend (fst (demo_spend, input InputResultComplete)) demo_state)"
  by (rule done_only_by_result [of demo_state DefaultConfig])
     (simp_all add: turn_def Next_Step Next_stepInput brake_def dispatch_def stepResultComplete_def)

section \<open>Brakes\<close>

text \<open>C4. A worker that keeps failing or retrying is always stopped: with a positive harness
  retry cap, a run of worker inputs longer than the iterations and harness retries left holds a
  turn after which the mission is paused, terminal, or sent back to replan, whatever the spend,
  the causes and the fingerprints are.\<close>

theorem worker_loop_always_stops:
  assumes "0 < HarnessRetryCap cfg" and "\<forall>x \<in> set xs. worker_input (snd x)"
    and "nat (maxIterations s - iteration s) + nat (HarnessRetryCap cfg - harnessRetries s) < length xs"
  shows "\<exists>n < length xs. let t = foldl (turn cfg) s (take n xs); u = foldl (turn cfg) s (take (Suc n) xs) in
    status u = StatusPaused \<or> Terminal (phase u) \<or> (replanUsed u \<and> \<not> replanUsed t)"
  using worker_run_stops [OF assms(2,1), of s] assms(3)
  by (simp add: loop_fuel_def loop_stopped_def Let_def)

theorem worker_loop_always_stops_witness:
  "\<exists>n < length (replicate 7 (demo_spend, input InputWorkerRetry)).
     let t = foldl (turn DefaultConfig) demo_state (take n (replicate 7 (demo_spend, input InputWorkerRetry)));
         u = foldl (turn DefaultConfig) demo_state (take (Suc n) (replicate 7 (demo_spend, input InputWorkerRetry)))
     in status u = StatusPaused \<or> Terminal (phase u) \<or> (replanUsed u \<and> \<not> replanUsed t)"
  by (rule worker_loop_always_stops) (simp_all add: DefaultConfig_def worker_input_def)

text \<open>A mission is replanned at most once: over any run of a stored row whose log has no
  replan yet, the log gains at most one \<open>mission.replan\<close> event, and exactly one when the
  \<open>replan_used\<close> column is set.\<close>

theorem replan_at_most_once:
  assumes "replans r = 0" and "\<not> rReplanUsed r"
  shows "replans (foldl (row_turn cfg) r xs) = (if rReplanUsed (foldl (row_turn cfg) r xs) then 1 else 0)"
  using row_run_replans [of cfg r xs] assms by auto

theorem replan_at_most_once_witness:
  "replans (foldl (row_turn DefaultConfig) demo_row [(demo_spend, input InputPlanDefect)]) =
     (if rReplanUsed (foldl (row_turn DefaultConfig) demo_row [(demo_spend, input InputPlanDefect)]) then 1 else 0)"
  by (rule replan_at_most_once) (simp_all add: replans_def demo_row_def)

text \<open>The budget brake (D-024): with the spend at or over the budget no input but a
  cancel moves a running mission, the resume included. It stays in its phase, parked with the
  budget reason (or the mixed-currency one), its iteration and its findings untouched.\<close>

theorem budget_brake_parks:
  assumes "\<not> Terminal (phase s)" and "inInput (snd x) \<noteq> InputCancel"
    and "over_budget (with_spend (fst x) s)"
  shows "phase (turn cfg s x) = phase s \<and> status (turn cfg s x) = StatusPaused
    \<and> pauseReason (turn cfg s x) = Some (if spMixed (fst x) then PauseMixedCurrency else PauseBudget)
    \<and> iteration (turn cfg s x) = iteration s \<and> reviewFindings (turn cfg s x) = reviewFindings s"
  using assms Step_brake [of "snd x" "with_spend (fst x) s" cfg]
  by (simp add: turn_def withPause_def) (simp add: with_spend_def)

theorem budget_brake_parks_witness:
  "status (turn DefaultConfig (demo_state\<lparr>budget := Some 5\<rparr>) (demo_spend\<lparr>spSpent := 6\<rparr>, input InputResume))
     = StatusPaused"
  using budget_brake_parks [of "demo_state\<lparr>budget := Some 5\<rparr>" "(demo_spend\<lparr>spSpent := 6\<rparr>, input InputResume)"
      DefaultConfig]
  by (simp add: over_budget_def with_spend_def)

text \<open>Rework never fails a mission (D-092): a rework verdict keeps it in build, resolves or
  opens findings, and parks it exactly when blocking findings stayed untouched for
  \<open>StallRounds\<close> turns or the rework rounds reach \<open>MaxIterations\<close>; otherwise it costs one
  iteration.\<close>

theorem rework_never_fails:
  fixes s i cfg
  defines "t \<equiv> Next (Step s i cfg)"
  assumes "inInput i = InputReviewRework" and "\<not> Terminal (phase s)" and "budget s = None"
  shows "phase t = PhaseBuild \<and> reworkRounds t = reworkRounds s + 1
    \<and> (status t = StatusPaused \<longleftrightarrow>
         stalledFindings (OpenFindings (reviewFindings t)) (StallRounds cfg) \<noteq> []
         \<or> maxIterations s \<le> reworkRounds t)
    \<and> (status t \<noteq> StatusPaused \<longrightarrow> status t = StatusIdle \<and> iteration t = iteration s + 1)"
  using assms(2-4)
  by (simp add: t_def Next_Step Next_stepInput brake_def dispatch_def stepReviewRework_def Let_def
      withPause_def)

definition demo_rework :: StepInput where
  "demo_rework = (input InputReviewRework)\<lparr>inFindings := [demo_finding]\<rparr>"

theorem rework_never_fails_witness:
  "phase (Next (Step demo_state demo_rework DefaultConfig)) = PhaseBuild"
  using rework_never_fails [of demo_rework demo_state DefaultConfig]
  by (simp add: demo_rework_def)

text \<open>C5. A turn that errors is never the worker's fault: whatever combination of sentinels
  the error matches and in whatever phase, the input \<open>advance\<close> derives leaves the phase, the
  iteration count, the units, the findings and the rework rounds as they were; such an error can
  park or retry a mission but neither fail it nor spend an iteration (issue #718).\<close>

theorem turn_error_spends_nothing:
  "phase (turn cfg s (sp, error_input p route resolved err)) = phase s
   \<and> iteration (turn cfg s (sp, error_input p route resolved err)) = iteration s
   \<and> units (turn cfg s (sp, error_input p route resolved err)) = units s
   \<and> reviewFindings (turn cfg s (sp, error_input p route resolved err)) = reviewFindings s
   \<and> reworkRounds (turn cfg s (sp, error_input p route resolved err)) = reworkRounds s"
  using error_turn_same_work [of s cfg sp p route resolved err] unfolding same_work_def by blast

section \<open>The stored row\<close>

text \<open>C6. Storing loses nothing: driving the stored row through any sequence of reads, steps
  and commits, columns skipped when empty and units rewritten inside the plan document
  included, computes the state the pure machine computes.\<close>

theorem row_run_refines_state_run:
  "toStepState sp (foldl (row_turn cfg) r xs) =
     with_spend sp (foldl (turn cfg) (toStepState sp r) xs)"
  by (rule row_run_state)

text \<open>The ledger of findings is a history: over any run entries are never dropped or
  reordered, an entry keeps its identifier, title, file and severity, a closed entry never
  changes, identifiers stay \<open>F1, F2, \<dots>\<close>, and no two open entries describe the same
  file and title words.\<close>

theorem findings_are_a_history:
  assumes "ledger_ok (reviewFindings s)"
  shows "ledger_ok (reviewFindings (foldl (turn cfg) s xs))
    \<and> length (reviewFindings s) \<le> length (reviewFindings (foldl (turn cfg) s xs))
    \<and> (\<forall>n < length (reviewFindings s). same_identity (reviewFindings s ! n)
            (reviewFindings (foldl (turn cfg) s xs) ! n)
          \<and> (\<not> is_open (reviewFindings s ! n) \<longrightarrow>
               reviewFindings (foldl (turn cfg) s xs) ! n = reviewFindings s ! n))"
proof -
  have le: "ledger_le (reviewFindings s) (reviewFindings (foldl (turn cfg) s xs))"
    using history.run_le [of s cfg xs] by (simp add: any_state_def history_le_def)
  have "findings_ok (foldl (turn cfg) s xs)"
    using assms by (intro ledger.run_inv) (simp add: findings_ok_def)
  with ledger_le_length [OF le] ledger_le_nth [OF le] show ?thesis
    by (simp add: findings_ok_def evolves_def)
qed

theorem findings_are_a_history_witness:
  "ledger_ok (reviewFindings (foldl (turn DefaultConfig) demo_state [(demo_spend, demo_rework)]))"
  using findings_are_a_history [of demo_state DefaultConfig "[(demo_spend, demo_rework)]"]
  by (simp add: ledger_ok_def ledger_ids_def no_open_duplicates_def open_keys_def OpenFindings_def)

text \<open>A flow without a plan never plans: a light mission born in build never sees
  discover or plan, a discover-build mission never sees plan, whatever inputs arrive.\<close>

theorem planless_flows_never_plan:
  assumes "flow s = FlowLight \<and> phase s = PhaseBuild \<or> flow s = FlowDiscoverBuild \<and> phase s = PhaseDiscover"
  shows "phase (foldl (turn cfg) s xs) \<noteq> PhasePlan
    \<and> (flow s = FlowLight \<longrightarrow> phase (foldl (turn cfg) s xs) \<noteq> PhaseDiscover)"
proof -
  have "planless_ok (foldl (turn cfg) s xs)"
    using assms by (intro planless.run_inv) (auto simp: planless_ok_def)
  moreover have "flow (foldl (turn cfg) s xs) = flow s"
    using history.run_le [of s cfg xs] by (simp add: any_state_def history_le_def)
  ultimately show ?thesis using assms by (auto simp: planless_ok_def)
qed

theorem planless_flows_never_plan_witness:
  "phase (foldl (turn DefaultConfig) (demo_state\<lparr>flow := FlowLight\<rparr>) [(demo_spend, input InputPlanDefect)])
     \<noteq> PhasePlan"
  using planless_flows_never_plan [of "demo_state\<lparr>flow := FlowLight\<rparr>" DefaultConfig
      "[(demo_spend, input InputPlanDefect)]"]
  by simp

text \<open>The status column agrees with the phase over every run: done and error are exactly
  the terminal statuses of done and failed, and a paused mission always has a reason.\<close>

theorem status_agrees_with_phase:
  assumes "coherent s"
  shows "(phase (foldl (turn cfg) s xs) = PhaseDone \<longleftrightarrow> status (foldl (turn cfg) s xs) = StatusDone)
    \<and> (phase (foldl (turn cfg) s xs) = PhaseFailed \<longleftrightarrow> status (foldl (turn cfg) s xs) = StatusError)
    \<and> (status (foldl (turn cfg) s xs) = StatusPaused \<longrightarrow> pauseReason (foldl (turn cfg) s xs) \<noteq> None)"
  using status.run_inv [OF assms, of cfg xs] unfolding coherent_def by blast

lemma demo_result_failed:
  "status (turn DefaultConfig demo_state (demo_spend, input InputResultFailed)) = StatusPaused"
  by (simp add: turn_def Next_Step Next_stepInput brake_def dispatch_def stepResultFailed_def withPause_def)

theorem status_agrees_with_phase_witness:
  "status (turn DefaultConfig demo_state (demo_spend, input InputResultFailed)) = StatusPaused
   \<and> pauseReason (turn DefaultConfig demo_state (demo_spend, input InputResultFailed)) \<noteq> None"
  using status_agrees_with_phase [of demo_state DefaultConfig "[(demo_spend, input InputResultFailed)]"]
  by (simp add: coherent_def demo_result_failed)

section \<open>Parks and approval\<close>

text \<open>Every \<open>mission.paused\<close> event a step writes names the reason the status column
  takes in the same transaction and a non-empty cause (D-136).\<close>

theorem pauses_are_announced:
  assumes "e \<in> set (Events (Step s i cfg))" and "evKind e = ''mission.paused''"
  shows "status (Next (Step s i cfg)) = StatusPaused
    \<and> (\<exists>r c. pauseReason (Next (Step s i cfg)) = Some r \<and> c \<noteq> []
         \<and> map_of (evPayload e) ''reason'' = Some (JStr (pause_name r))
         \<and> map_of (evPayload e) ''cause'' = Some (JStr c))"
  using Step_pause_events [OF assms]
  by (auto simp: announces_pause_def split: option.splits json.splits)

theorem pauses_are_announced_witness:
  "\<exists>r. pauseReason (Next (Step demo_state (input InputResultFailed) DefaultConfig)) = Some r"
  using pauses_are_announced [of "paused_event PauseInfra ''result_failed'' [(''detail'', JStr [])]"
      demo_state "input InputResultFailed" DefaultConfig]
  by (auto simp: Step_def applyVerification_def stepInput_def brake_def dispatch_def
      stepResultFailed_def)



section \<open>The work-slot leak\<close>

text \<open>\<open>AnswerPendingInput\<close> does not look at the phase: a mission cancelled while its
  question is open keeps the question (\<open>ApplyTransition\<close> clears only the parked permission), and
  answering it, or letting it time out, makes the dead row idle. \<open>ClaimWorkSlot\<close> then claims it
  as working, \<open>advance\<close> returns at once for ever, and with one slot no other mission is
  claimed again.\<close>

theorem answered_after_cancel_leaks_slot:
  assumes "row_writable r" and "rPendingInput r = Some p"
    and "Signal sp cfg r InputCancel = Inr dead"
  shows "rPhase dead = ''failed'' \<and> rPendingInput dead = Some p
    \<and> (\<exists>ans. AnswerAskUser dead txt = Inr ans
         \<and> ClaimWorkSlot 1 [ans] = Some [ans\<lparr>rStatus := ''working''\<rparr>]
         \<and> \<not> advance_runs (ans\<lparr>rStatus := ''working''\<rparr>)
         \<and> ClaimWorkSlot 1 (ans\<lparr>rStatus := ''working''\<rparr> # others) = None)"
proof -
  let ?t = "Step (toStepState sp r) (input InputCancel) cfg"
  from assms(1) have nt: "\<not> Terminal (scan_phase r)" by (simp add: row_writable_scan)
  then have app: "ApplyTransition r ?t = Inr dead" using assms(3) by (simp add: Signal_def)
  have "phase (Next ?t) = PhaseFailed" using nt by (simp add: Next_Step withPhaseFailed_def)
  then have ph: "rPhase dead = ''failed''" using ApplyTransition_names [OF app] by (simp add: phase_name_def)
  have pend: "rPendingInput dead = Some p"
    using same_columns_sel(3) [OF ApplyTransition_same [OF app]] assms(2) by (simp add: write_columns_def)
  let ?ans = "AnswerPendingInput dead ''mission.input_answered'' [(''answer'', JStr txt)]"
  have ans: "rStatus ?ans = ''idle''" "rPhase ?ans = ''failed''"
    by (simp_all add: AnswerPendingInput_def ph)
  have "\<not> advance_runs (?ans\<lparr>rStatus := ''working''\<rparr>)"
    by (simp add: advance_runs_def scan_phase_def ans parsePhase_def)
  with ph pend ans show ?thesis by (simp add: AnswerAskUser_def ClaimWorkSlot_def)
qed

definition demo_question :: PendingInput where
  "demo_question = \<lparr>pQuestion = ''which?'', pKind = ''text'', pOptions = [],
     pProposedDefault = ''a'', pPhase = PhaseBuild\<rparr>"

theorem answered_after_cancel_leaks_slot_witness:
  "\<exists>dead. Signal demo_spend DefaultConfig (SetPendingInput demo_row demo_question) InputCancel = Inr dead
     \<and> rPhase dead = ''failed'' \<and> rPendingInput dead = Some demo_question"
proof -
  let ?r = "SetPendingInput demo_row demo_question"
  have w: "row_writable ?r" using demo_writable by (simp add: row_writable_def SetPendingInput_def)
  then have "\<not> Terminal (scan_phase ?r)" by (simp add: row_writable_scan)
  with commit_exists [OF w] obtain dead where
    d: "Signal demo_spend DefaultConfig ?r InputCancel = Inr dead" by (auto simp: Signal_def)
  from answered_after_cancel_leaks_slot [OF w _ d, of demo_question "[]" "[]"]
  have "rPhase dead = ''failed'' \<and> rPendingInput dead = Some demo_question"
    by (simp add: SetPendingInput_def)
  with d show ?thesis by blast
qed

end
