(* ===== verification/Shell_Words.thy ===== *)
theory Shell_Words
  imports Go_Path
begin

text \<open>
  The shell reading of the plan gate (\<open>internal/brain/missions/plangate.go\<close>): splitting a
  \<open>check_cmd\<close> into pipelines and stages, stages into words, recognising a grep that pipes
  into a grep, stripping comments, and whether a command names an artifact. The loops over
  byte indices are recursions over the text with the same quote and escape flags.
\<close>

definition newline_char :: char where "newline_char = CHR 0x0A"
definition tab_char :: char where "tab_char = CHR 0x09"

lemmas shell_chars = backslash_def squote_def dquote_def backtick_def
  newline_char_def tab_char_def

section \<open>Pipelines\<close>

definition flush_stage :: "string \<Rightarrow> string list \<Rightarrow> string list" where
  "flush_stage stage pl = (let t = trim_space stage in if t = [] then pl else pl @ [t])"

definition flush_pipeline :: "string \<Rightarrow> string list \<Rightarrow> string list list" where
  "flush_pipeline stage pl =
     (let q = flush_stage stage pl in if q = [] then [] else [q])"

definition next_is :: "char \<Rightarrow> string \<Rightarrow> bool" where
  "next_is c s = (case s of [] \<Rightarrow> False | d # _ \<Rightarrow> d = c)"

text \<open>The flags are \<open>inSingle\<close>, \<open>inDouble\<close> and \<open>escaped\<close>; \<open>stage\<close> is \<open>curStage\<close>, \<open>pl\<close>
  is \<open>curPipeline\<close>.\<close>

function pipe_loop ::
    "bool \<Rightarrow> bool \<Rightarrow> bool \<Rightarrow> string \<Rightarrow> string list \<Rightarrow> string \<Rightarrow> string list list" where
  "pipe_loop sq dq esc stage pl [] = flush_pipeline stage pl"
| "pipe_loop sq dq esc stage pl (c # s) =
     (if esc then pipe_loop sq dq False (stage @ [c]) pl s
      else if c = backslash \<and> \<not> sq then pipe_loop sq dq True (stage @ [c]) pl s
      else if c = squote \<and> \<not> dq then pipe_loop (\<not> sq) dq False (stage @ [c]) pl s
      else if c = dquote \<and> \<not> sq then pipe_loop sq (\<not> dq) False (stage @ [c]) pl s
      else if \<not> sq \<and> \<not> dq \<and> (c = newline_char \<or> c = CHR '';'') then
        flush_pipeline stage pl @ pipe_loop sq dq False [] [] s
      else if \<not> sq \<and> \<not> dq \<and> c = CHR ''&'' \<and> next_is (CHR ''&'') s then
        flush_pipeline stage pl @ pipe_loop sq dq False [] [] (tl s)
      else if \<not> sq \<and> \<not> dq \<and> c = CHR ''|'' then
        (if next_is (CHR ''|'') s then flush_pipeline stage pl @ pipe_loop sq dq False [] [] (tl s)
         else pipe_loop sq dq False [] (flush_stage stage pl) s)
      else pipe_loop sq dq False (stage @ [c]) pl s)"
  by pat_completeness auto
termination
  by (relation "measure (\<lambda>(_, _, _, _, _, s). length s)") auto

definition splitPipelines :: "string \<Rightarrow> string list list" where
  "splitPipelines cmd = pipe_loop False False False [] [] cmd"

section \<open>Words\<close>

definition flush_word :: "string \<Rightarrow> string list" where
  "flush_word cur = (if cur = [] then [] else [cur])"

fun word_loop :: "bool \<Rightarrow> bool \<Rightarrow> bool \<Rightarrow> string \<Rightarrow> string \<Rightarrow> string list" where
  "word_loop sq dq esc cur [] = flush_word cur"
| "word_loop sq dq esc cur (c # s) =
     (if esc then word_loop sq dq False (cur @ [c]) s
      else if c = backslash \<and> \<not> sq then word_loop sq dq True cur s
      else if c = squote \<and> \<not> dq then word_loop (\<not> sq) dq False cur s
      else if c = dquote \<and> \<not> sq then word_loop sq (\<not> dq) False cur s
      else if (c = CHR '' '' \<or> c = tab_char \<or> c = newline_char) \<and> \<not> sq \<and> \<not> dq then
        flush_word cur @ word_loop sq dq False [] s
      else word_loop sq dq False (cur @ [c]) s)"

definition splitWords :: "string \<Rightarrow> string list" where
  "splitWords s = word_loop False False False [] s"

definition is_assignment :: "string \<Rightarrow> bool" where
  "is_assignment w = (str_contains w ''='' \<and> \<not> has_prefix w ''-'')"

definition grepCommandName :: "string list \<Rightarrow> string" where
  "grepCommandName ws =
     (case dropWhile is_assignment ws of
        [] \<Rightarrow> []
      | w # _ \<Rightarrow> path_base (trim_left (\<lambda>c. c \<in> set ''()'') w))"

definition grepNames :: "string list" where
  "grepNames = [''grep'', ''egrep'', ''fgrep'']"

definition isGrepCommand :: "string \<Rightarrow> bool" where
  "isGrepCommand stage = (grepCommandName (splitWords stage) \<in> set grepNames)"

definition hasPatternFlag :: "string list \<Rightarrow> bool" where
  "hasPatternFlag ws =
     list_ex (\<lambda>w. w = ''-e'' \<or> w = ''-f'' \<or> has_prefix w ''-e'' \<or> has_prefix w ''-f'') ws"

text \<open>The words of a grep that are neither flags nor a flag's argument.\<close>

function non_flags :: "bool \<Rightarrow> string list \<Rightarrow> string list" where
  "non_flags endOfFlags [] = []"
| "non_flags endOfFlags (w # ws) =
     (if \<not> endOfFlags \<and> has_prefix w ''-'' then
        if w = ''--'' then non_flags True ws
        else if w \<in> {''-e'', ''-f'', ''-m'', ''-A'', ''-B'', ''-C''} \<and> ws \<noteq> []
        then non_flags endOfFlags (tl ws)
        else non_flags endOfFlags ws
      else w # non_flags endOfFlags ws)"
  by pat_completeness auto
termination
  by (relation "measure (\<lambda>(_, ws). length ws)") auto

definition isGrepWithFile :: "string \<Rightarrow> bool" where
  "isGrepWithFile stage =
     (let ws = splitWords stage in
      if grepCommandName ws \<notin> set grepNames then False
      else case dropWhile is_assignment ws of
        [] \<Rightarrow> False
      | _ # args \<Rightarrow>
          let n = length (non_flags False args)
          in 2 \<le> n \<or> 1 \<le> n \<and> hasPatternFlag args)"

function head_reads_file :: "string list \<Rightarrow> bool" where
  "head_reads_file [] = False"
| "head_reads_file (w # ws) =
     (if has_prefix w ''-'' then
        if (w = ''-n'' \<or> w = ''-c'') \<and> ws \<noteq> [] then head_reads_file (tl ws) else head_reads_file ws
      else True)"
  by pat_completeness auto
termination
  by (relation "measure length") auto

fun redirects_input :: "string list \<Rightarrow> bool" where
  "redirects_input [] = False"
| "redirects_input (w # ws) =
     (w = ''<'' \<and> ws \<noteq> [] \<or> has_prefix w ''<'' \<and> 1 < length w \<or> redirects_input ws)"

definition isFileReaderWithFile :: "string \<Rightarrow> bool" where
  "isFileReaderWithFile stage =
     (let ws = splitWords stage; base = grepCommandName ws in
      ws \<noteq> [] \<and>
      (base = ''cat'' \<and> list_ex (\<lambda>w. \<not> has_prefix w ''-'') (tl ws)
       \<or> (base = ''head'' \<or> base = ''tail'') \<and> head_reads_file (tl ws)
       \<or> redirects_input ws))"

definition grep_into_grep :: "string list \<Rightarrow> bool" where
  "grep_into_grep pl =
     (2 \<le> length pl \<and>
      (list_ex (\<lambda>i. isGrepWithFile (pl ! i) \<and> isGrepCommand (pl ! (i + 1))) [0..<length pl - 1]
       \<or> list_ex (\<lambda>i. isFileReaderWithFile (pl ! i) \<and> isGrepCommand (pl ! (i + 1))
                       \<and> isGrepCommand (pl ! (i + 2))) [0..<length pl - 2]))"

definition isGrepPipeline :: "string \<Rightarrow> bool" where
  "isGrepPipeline cmd = list_ex grep_into_grep (splitPipelines cmd)"

section \<open>Artifacts a command names\<close>

definition isShellWordSep :: "char \<Rightarrow> bool" where
  "isShellWordSep c =
     (c \<in> set '' ;&|()<>='' \<or> c = tab_char \<or> c = newline_char \<or> c = squote
      \<or> c = dquote \<or> c = backtick)"

text \<open>Unquoted comments removed; \<open>prev\<close> is the byte before, none at the start.\<close>

fun strip_comments :: "bool \<Rightarrow> bool \<Rightarrow> bool \<Rightarrow> bool \<Rightarrow> char option \<Rightarrow> string \<Rightarrow> string" where
  "strip_comments com sq dq esc prev [] = []"
| "strip_comments com sq dq esc prev (c # s) =
     (if com then
        if c = newline_char then c # strip_comments False sq dq False (Some c) s
        else strip_comments True sq dq False (Some c) s
      else if esc then c # strip_comments False sq dq False (Some c) s
      else if c = backslash \<and> \<not> sq then c # strip_comments False sq dq True (Some c) s
      else if c = squote \<and> \<not> dq then c # strip_comments False (\<not> sq) dq False (Some c) s
      else if c = dquote \<and> \<not> sq then c # strip_comments False sq (\<not> dq) False (Some c) s
      else if \<not> sq \<and> \<not> dq \<and> c = CHR ''#''
              \<and> (case prev of None \<Rightarrow> True | Some p \<Rightarrow> isShellWordSep p)
      then strip_comments True sq dq False (Some c) s
      else c # strip_comments False sq dq False (Some c) s)"

definition stripShellComments :: "string \<Rightarrow> string" where
  "stripShellComments s = strip_comments False False False False None s"

definition cleanArtifact :: "string \<Rightarrow> string" where
  "cleanArtifact a = path_clean (trim_space a)"

definition cmdNamesArtifact :: "string \<Rightarrow> string \<Rightarrow> bool" where
  "cmdNamesArtifact cmd artifact =
     (let target = cleanArtifact artifact in
      if target = [] \<or> target = dot then False
      else list_ex (\<lambda>word. let p = cleanArtifact word in
                       p \<noteq> dot \<and> (p = target \<or> has_prefix p (target @ ''/'')))
             (fields_func isShellWordSep (stripShellComments cmd)))"

section \<open>Quoting\<close>

text \<open>\<open>shQuote\<close> (\<open>delegated.go\<close>) and \<open>shellQuote\<close> (\<open>remoteauth.go\<close>): single quotes, an
  embedded one written as close, escaped quote, reopen.\<close>

definition quote_byte :: "char \<Rightarrow> string" where
  "quote_byte c = (if c = squote then [squote, backslash, squote, squote] else [c])"

definition shQuote :: "string \<Rightarrow> string" where
  "shQuote s = squote # concat (map quote_byte s) @ [squote]"

text \<open>\<open>renderArgv\<close>: the prompt file is the empty string when the invocation has none.\<close>

definition renderArgv :: "string \<Rightarrow> string list \<Rightarrow> string option" where
  "renderArgv promptFile argv =
     (if promptFile = [] then None
      else Some (str_join '' '' (map (\<lambda>a. if a = ''@PROMPT@''
             then dquote # ''$(cat '' @ shQuote promptFile @ '')'' @ [dquote]
             else shQuote a) argv)))"

lemma word_loop_quoted:
  "word_loop True False False cur (concat (map quote_byte s) @ squote # rest)
     = word_loop False False False (cur @ s) rest"
proof (induction s arbitrary: cur)
  case Nil
  show ?case by (simp add: shell_chars)
next
  case (Cons c s)
  show ?case
  proof (cases "c = squote")
    case True
    with Cons [of "cur @ [squote]"] show ?thesis by (simp add: quote_byte_def shell_chars)
  next
    case False
    with Cons [of "cur @ [c]"] show ?thesis by (simp add: quote_byte_def shell_chars)
  qed
qed

lemma word_loop_shQuote:
  "word_loop False False False [] (shQuote s @ rest) = word_loop False False False s rest"
  using word_loop_quoted [of "[]" s rest] by (simp add: shQuote_def shell_chars)

lemma splitWords_shQuotes:
  "[] \<notin> set args \<Longrightarrow> splitWords (str_join '' '' (map shQuote args)) = args"
proof (induction args)
  case Nil
  show ?case by (simp add: splitWords_def flush_word_def)
next
  case (Cons a args)
  show ?case
  proof (cases args)
    case Nil
    then show ?thesis
      using Cons.prems word_loop_shQuote [of a "[]"] by (simp add: splitWords_def flush_word_def)
  next
    case (Cons b bs)
    have "a \<noteq> []" using Cons.prems by auto
    with Cons show ?thesis
      using Cons.IH Cons.prems word_loop_shQuote [of a "'' '' @ str_join '' '' (map shQuote args)"]
      by (simp add: splitWords_def flush_word_def shell_chars)
  qed
qed

lemma renderArgv_words:
  assumes "promptFile \<noteq> []" and "[] \<notin> set argv" and "''@PROMPT@'' \<notin> set argv"
  shows "\<exists>cmd. renderArgv promptFile argv = Some cmd \<and> splitWords cmd = argv"
proof -
  have "renderArgv promptFile argv = Some (str_join '' '' (map shQuote argv))"
    using assms by (auto simp: renderArgv_def intro!: arg_cong [of _ _ "str_join '' ''"] map_cong)
  with splitWords_shQuotes [OF assms(2)] show ?thesis by simp
qed

end
