(* ===== verification/Go_Regexp.thy ===== *)
theory Go_Regexp
  imports Prelude
begin

text \<open>
  The part of Go's \<open>regexp\<close> package the modelled tables use: \<open>MatchString\<close>,
  \<open>ReplaceAllString\<close>, \<open>ReplaceAllStringFunc\<close>, \<open>FindAllString\<close> and \<open>Split\<close> on patterns of literals, classes, \<open>^\<close>,
  \<open>$\<close>, \<open>\b\<close>, alternatives and greedy repetition. A state is the character last read
  (none at the start of the text, the place \<open>^\<close> matches) and the unread rest; \<open>ends\<close> lists
  the states a pattern can reach, the one Go prefers first. The relation \<open>matches\<close> says what a pattern means, and the engine is proved sound and
  complete for it. Texts are bytes; the patterns only name ASCII characters.
\<close>

datatype rx =
    Eps
  | Cls "char \<Rightarrow> bool"
  | Bot
  | Eot
  | Wbd
  | Seq rx rx
  | Alt rx rx
  | Star rx

type_synonym rx_state = "char option \<times> string"

definition is_word :: "char \<Rightarrow> bool" where
  "is_word c = (is_upper c \<or> is_lower c \<or> is_digit c \<or> c = CHR ''_'')"

text \<open>\<open>\b\<close>: exactly one of the neighbouring characters is a word character.\<close>

definition word_boundary :: "rx_state \<Rightarrow> bool" where
  "word_boundary st =
     ((case fst st of None \<Rightarrow> False | Some c \<Rightarrow> is_word c)
      \<noteq> (case snd st of [] \<Rightarrow> False | c # _ \<Rightarrow> is_word c))"

fun ends :: "rx \<Rightarrow> rx_state \<Rightarrow> rx_state list" where
  "ends Eps st = [st]"
| "ends (Cls p) st = (case snd st of [] \<Rightarrow> [] | c # s \<Rightarrow> if p c then [(Some c, s)] else [])"
| "ends Bot st = (if fst st = None then [st] else [])"
| "ends Eot st = (if snd st = [] then [st] else [])"
| "ends Wbd st = (if word_boundary st then [st] else [])"
| "ends (Seq r q) st = concat (map (ends q) (ends r st))"
| "ends (Alt r q) st = ends r st @ ends q st"
| "ends (Star r) st =
     concat (map (\<lambda>u. if length (snd u) < length (snd st) then ends (Star r) u else []) (ends r st))
       @ [st]"

declare ends.simps(8) [simp del]

fun search :: "rx \<Rightarrow> char option \<Rightarrow> string \<Rightarrow> bool" where
  "search r b [] = (ends r (b, []) \<noteq> [])"
| "search r b (c # s) = (ends r (b, c # s) \<noteq> [] \<or> search r (Some c) s)"

definition MatchString :: "rx \<Rightarrow> string \<Rightarrow> bool" where
  "MatchString r s = search r None s"

text \<open>The leftmost match of a pattern that matches no empty text: what stands before it, the
  match, and the state behind it.\<close>

fun find_first :: "rx \<Rightarrow> char option \<Rightarrow> string \<Rightarrow> (string \<times> string \<times> rx_state) option" where
  "find_first r b [] = None"
| "find_first r b (c # s) =
     (case ends r (b, c # s) of
        u # _ \<Rightarrow>
          if length (snd u) < length (c # s)
          then Some ([], take (length (c # s) - length (snd u)) (c # s), u)
          else map_option (\<lambda>(pre, m, v). (c # pre, m, v)) (find_first r (Some c) s)
      | [] \<Rightarrow> map_option (\<lambda>(pre, m, v). (c # pre, m, v)) (find_first r (Some c) s))"

lemma find_first_shorter: "find_first r b s = Some (pre, m, u) \<Longrightarrow> length (snd u) < length s"
  by (induction r b s arbitrary: pre m u rule: find_first.induct)
     (fastforce split: list.splits if_splits)+

function replace_from :: "rx \<Rightarrow> (string \<Rightarrow> string) \<Rightarrow> char option \<Rightarrow> string \<Rightarrow> string" where
  "replace_from r f b s =
     (case find_first r b s of
        None \<Rightarrow> s
      | Some (pre, m, u) \<Rightarrow> pre @ f m @ replace_from r f (fst u) (snd u))"
  by pat_completeness auto
termination
  by (relation "measure (\<lambda>(r, f, b, s). length s)") (auto dest: find_first_shorter)

declare replace_from.simps [simp del]

definition ReplaceAllStringFunc :: "rx \<Rightarrow> string \<Rightarrow> (string \<Rightarrow> string) \<Rightarrow> string" where
  "ReplaceAllStringFunc r s f = replace_from r f None s"

definition ReplaceAllString :: "rx \<Rightarrow> string \<Rightarrow> string \<Rightarrow> string" where
  "ReplaceAllString r s rep = ReplaceAllStringFunc r s (\<lambda>_. rep)"

function find_all_from :: "rx \<Rightarrow> char option \<Rightarrow> string \<Rightarrow> string list" where
  "find_all_from r b s =
     (case find_first r b s of
        None \<Rightarrow> []
      | Some (pre, m, u) \<Rightarrow> m # find_all_from r (fst u) (snd u))"
  by pat_completeness auto
termination
  by (relation "measure (\<lambda>(r, b, s). length s)") (auto dest: find_first_shorter)

declare find_all_from.simps [simp del]

definition FindAllString :: "rx \<Rightarrow> string \<Rightarrow> string list" where
  "FindAllString r s = find_all_from r None s"

function split_from :: "rx \<Rightarrow> char option \<Rightarrow> string \<Rightarrow> string list" where
  "split_from r b s =
     (case find_first r b s of
        None \<Rightarrow> [s]
      | Some (pre, m, u) \<Rightarrow> pre # split_from r (fst u) (snd u))"
  by pat_completeness auto
termination
  by (relation "measure (\<lambda>(r, b, s). length s)") (auto dest: find_first_shorter)

declare split_from.simps [simp del]

text \<open>\<open>Split(s, -1)\<close>.\<close>

definition Split :: "rx \<Rightarrow> string \<Rightarrow> string list" where
  "Split r s = split_from r None s"

section \<open>Pattern notation\<close>

definition ch :: "char \<Rightarrow> rx" where
  "ch c = Cls (\<lambda>d. d = c)"

text \<open>\<open>(?i)\<close>: a letter in either case.\<close>

definition chi :: "char \<Rightarrow> rx" where
  "chi c = Cls (\<lambda>d. lower_char d = lower_char c)"

definition any_of :: "string \<Rightarrow> rx" where
  "any_of cs = Cls (\<lambda>d. d \<in> set cs)"

definition none_of :: "string \<Rightarrow> rx" where
  "none_of cs = Cls (\<lambda>d. d \<notin> set cs)"

fun seqs :: "rx list \<Rightarrow> rx" where
  "seqs [] = Eps"
| "seqs [r] = r"
| "seqs (r # q # rs) = Seq r (seqs (q # rs))"

fun alts :: "rx list \<Rightarrow> rx" where
  "alts [] = Cls (\<lambda>_. False)"
| "alts [r] = r"
| "alts (r # q # rs) = Alt r (alts (q # rs))"

definition lit :: "string \<Rightarrow> rx" where
  "lit w = seqs (map ch w)"

definition liti :: "string \<Rightarrow> rx" where
  "liti w = seqs (map chi w)"

definition opt :: "rx \<Rightarrow> rx" where
  "opt r = Alt r Eps"

definition plus_rx :: "rx \<Rightarrow> rx" where
  "plus_rx r = Seq r (Star r)"

definition is_rx_space :: "char \<Rightarrow> bool" where
  "is_rx_space c = (c \<in> {CHR '' '', CHR 0x09, CHR 0x0A, CHR 0x0C, CHR 0x0D})"

definition sp :: rx where "sp = Cls is_rx_space"
definition nonspace :: rx where "nonspace = Cls (\<lambda>c. \<not> is_rx_space c)"
definition rx_dot :: rx where "rx_dot = Cls (\<lambda>c. c \<noteq> CHR 0x0A)"

lemmas rx_defs = ch_def chi_def any_of_def none_of_def lit_def liti_def opt_def plus_rx_def
  sp_def nonspace_def rx_dot_def

section \<open>What a pattern means\<close>

inductive matches :: "rx \<Rightarrow> rx_state \<Rightarrow> rx_state \<Rightarrow> bool" where
  eps: "matches Eps st st"
| cls: "p c \<Longrightarrow> matches (Cls p) (b, c # s) (Some c, s)"
| bot: "matches Bot (None, s) (None, s)"
| eot: "matches Eot (b, []) (b, [])"
| wbd: "word_boundary st \<Longrightarrow> matches Wbd st st"
| seq: "matches r st u \<Longrightarrow> matches q u v \<Longrightarrow> matches (Seq r q) st v"
| altl: "matches r st u \<Longrightarrow> matches (Alt r q) st u"
| altr: "matches q st u \<Longrightarrow> matches (Alt r q) st u"
| star0: "matches (Star r) st st"
| star1: "matches r st u \<Longrightarrow> matches (Star r) u v \<Longrightarrow> matches (Star r) st v"

inductive_cases matches_SeqE: "matches (Seq r q) st u"
inductive_cases matches_AltE: "matches (Alt r q) st u"

inductive_simps matches_atoms:
  "matches Eps st u" "matches (Cls p) st u" "matches Bot st u" "matches Eot st u"
  "matches Wbd st u"

text \<open>A match either reads nothing and keeps the state, or moves to a proper suffix.\<close>

lemma matches_shorter:
  "matches r st u \<Longrightarrow> u = st \<or> length (snd u) < length (snd st)"
  by (induction rule: matches.induct) auto

lemma ends_star:
  "u \<in> set (ends (Star r) st) \<longleftrightarrow>
     u = st \<or> (\<exists>v \<in> set (ends r st). length (snd v) < length (snd st) \<and> u \<in> set (ends (Star r) v))"
  by (subst ends.simps(8)) auto

lemma ends_sound: "\<forall>u. u \<in> set (ends r st) \<longrightarrow> matches r st u"
proof (induction r arbitrary: st)
  case (Seq r q)
  show ?case
  proof (intro allI impI)
    fix u assume "u \<in> set (ends (Seq r q) st)"
    then obtain v where v: "v \<in> set (ends r st)" "u \<in> set (ends q v)" by auto
    from Seq.IH(1) v(1) have "matches r st v" by blast
    moreover from Seq.IH(2) v(2) have "matches q v u" by blast
    ultimately show "matches (Seq r q) st u" by (rule matches.seq)
  qed
next
  case (Alt r q)
  show ?case
  proof (intro allI impI)
    fix u assume "u \<in> set (ends (Alt r q) st)"
    then consider "u \<in> set (ends r st)" | "u \<in> set (ends q st)" by auto
    then show "matches (Alt r q) st u"
      using Alt.IH by cases (blast intro: matches.altl, blast intro: matches.altr)
  qed
next
  case (Star r)
  show ?case
  proof (intro allI impI)
    fix u show "u \<in> set (ends (Star r) st) \<Longrightarrow> matches (Star r) st u"
    proof (induction "length (snd st)" arbitrary: st rule: less_induct)
      case less
      from less.prems consider "u = st"
        | v where "v \<in> set (ends r st)" "length (snd v) < length (snd st)" "u \<in> set (ends (Star r) v)"
        unfolding ends_star [of u r st] by blast
      then show ?case
      proof cases
        case 1
        then show ?thesis by (simp add: matches.star0)
      next
        case 2
        from Star.IH 2(1) have "matches r st v" by blast
        moreover from less.hyps [OF 2(2,3)] have "matches (Star r) v u" .
        ultimately show ?thesis by (rule matches.star1)
      qed
    qed
  qed
qed (auto intro: matches.intros split: list.splits if_splits)

lemma star_complete:
  assumes "\<And>st u. matches r st u \<Longrightarrow> u \<in> set (ends r st)" and "matches (Star r) st v"
  shows "v \<in> set (ends (Star r) st)"
  using assms(2)
proof (induction "Star r" st v rule: matches.induct)
  case (star0 st)
  show ?case unfolding ends_star [of st r st] by blast
next
  case (star1 st u v)
  from matches_shorter [OF star1(1)] show ?case
  proof
    assume "u = st"
    with star1 show ?thesis by simp
  next
    assume l: "length (snd u) < length (snd st)"
    have "u \<in> set (ends r st)" by (rule assms(1) [OF star1(1)])
    with l star1(4) show ?thesis unfolding ends_star [of v r st] by blast
  qed
qed

lemma ends_complete: "\<forall>u. matches r st u \<longrightarrow> u \<in> set (ends r st)"
proof (induction r arbitrary: st)
  case (Seq r q)
  show ?case
  proof (intro allI impI)
    fix u assume "matches (Seq r q) st u"
    then obtain v where v: "matches r st v" "matches q v u" by (rule matches_SeqE)
    from Seq.IH(1) v(1) have "v \<in> set (ends r st)" by blast
    moreover from Seq.IH(2) v(2) have "u \<in> set (ends q v)" by blast
    ultimately show "u \<in> set (ends (Seq r q) st)" by auto
  qed
next
  case (Alt r q)
  show ?case
  proof (intro allI impI)
    fix u assume "matches (Alt r q) st u"
    then show "u \<in> set (ends (Alt r q) st)"
    proof (rule matches_AltE)
      assume "matches r st u"
      with Alt.IH(1) have "u \<in> set (ends r st)" by blast
      then show ?thesis by simp
    next
      assume "matches q st u"
      with Alt.IH(2) have "u \<in> set (ends q st)" by blast
      then show ?thesis by simp
    qed
  qed
next
  case (Star r)
  then show ?case by (blast intro: star_complete)
qed (auto simp: matches_atoms)

lemma ends_iff: "u \<in> set (ends r st) \<longleftrightarrow> matches r st u"
  using ends_sound ends_complete by blast

lemma ends_nonempty: "ends r st \<noteq> [] \<longleftrightarrow> (\<exists>u. matches r st u)"
  unfolding ends_iff [symmetric] by (cases "ends r st") auto

text \<open>The character read last after \<open>w\<close>.\<close>

definition last_of :: "char option \<Rightarrow> string \<Rightarrow> char option" where
  "last_of b w = (if w = [] then b else Some (last w))"

lemma last_of_simps [simp]: "last_of b [] = b" "last_of b (c # w) = last_of (Some c) w"
  by (simp_all add: last_of_def)

lemma last_of_snoc [simp]: "last_of b (w @ [c]) = Some c"
  by (simp add: last_of_def)

lemma search_iff:
  "search r b s \<longleftrightarrow> (\<exists>pre post u. s = pre @ post \<and> matches r (last_of b pre, post) u)"
proof (induction s arbitrary: b)
  case Nil
  show ?case by (simp add: ends_nonempty)
next
  case (Cons c s)
  have "(\<exists>pre post u. c # s = pre @ post \<and> matches r (last_of b pre, post) u) \<longleftrightarrow>
      (\<exists>u. matches r (b, c # s) u) \<or> (\<exists>pre post u. s = pre @ post \<and> matches r (last_of (Some c) pre, post) u)"
    (is "?l = ?r")
  proof
    assume ?l
    then obtain pre post u where p: "c # s = pre @ post" "matches r (last_of b pre, post) u" by blast
    show ?r
    proof (cases pre)
      case Nil
      with p have "matches r (b, c # s) u" by simp
      then show ?thesis by blast
    next
      case (Cons d pre')
      with p have "s = pre' @ post" "matches r (last_of (Some c) pre', post) u" by simp_all
      then show ?thesis by blast
    qed
  next
    assume ?r
    then show ?l
    proof
      assume "\<exists>u. matches r (b, c # s) u"
      then obtain u where "matches r (b, c # s) u" by blast
      then show ?l by (intro exI [of _ "[]"] exI [of _ "c # s"] exI [of _ u]) simp
    next
      assume "\<exists>pre post u. s = pre @ post \<and> matches r (last_of (Some c) pre, post) u"
      then obtain pre post u where "s = pre @ post" "matches r (last_of (Some c) pre, post) u" by blast
      then show ?l by (intro exI [of _ "c # pre"] exI [of _ post] exI [of _ u]) simp
    qed
  qed
  with Cons [of "Some c"] show ?case by (simp add: ends_nonempty)
qed

lemma MatchStringI: "matches r (last_of None pre, post) u \<Longrightarrow> MatchString r (pre @ post)"
  unfolding MatchString_def search_iff by blast

section \<open>Reading patterns\<close>

lemma matches_Seq [simp]: "matches (Seq r q) st v \<longleftrightarrow> (\<exists>u. matches r st u \<and> matches q u v)"
  by (blast elim: matches_SeqE intro: matches.seq)

lemma matches_Alt [simp]: "matches (Alt r q) st u \<longleftrightarrow> matches r st u \<or> matches q st u"
  by (auto elim: matches_AltE intro: matches.altl matches.altr)

lemma matches_Cls: "matches (Cls p) st u \<longleftrightarrow> (\<exists>c s. snd st = c # s \<and> p c \<and> u = (Some c, s))"
  by (cases st) (auto simp: matches_atoms)

lemma matches_Eps [simp]: "matches Eps st u \<longleftrightarrow> u = st"
  by (simp add: matches_atoms)

lemma matches_suffix: "matches r st u \<Longrightarrow> suffix (snd u) (snd st)"
  by (induction rule: matches.induct) (auto simp: suffix_Cons)

lemma matches_word:
  assumes "\<And>c. p c c"
  shows "matches (seqs (map (\<lambda>c. Cls (p c)) w)) (b, w @ s) (last_of b w, s)"
proof (induction w arbitrary: b)
  case (Cons c w)
  show ?case
  proof (cases w)
    case Nil
    then show ?thesis using assms by (simp add: matches_Cls)
  next
    case (Cons d v)
    with Cons.IH [of "Some c"] assms show ?thesis by (auto simp: matches_Cls)
  qed
qed simp

lemma matches_lit: "matches (lit w) (b, w @ s) (last_of b w, s)"
  using matches_word [of "\<lambda>c d. d = c"] by (simp add: lit_def ch_def [abs_def])

lemma matches_liti: "matches (liti w) (b, w @ s) (last_of b w, s)"
  using matches_word [of "\<lambda>c d. lower_char d = lower_char c"] by (simp add: liti_def chi_def [abs_def])

lemma find_first_none:
  "(\<And>t u. suffix (snd t) s \<Longrightarrow> \<not> matches r t u) \<Longrightarrow> find_first r b s = None"
proof (induction s arbitrary: b)
  case (Cons c s)
  have "\<not> (\<exists>u. matches r (b, c # s) u)" using Cons.prems [of "(b, c # s)"] by auto
  then have "ends r (b, c # s) = []" using ends_nonempty [of r "(b, c # s)"] by blast
  moreover have "find_first r (Some c) s = None"
    by (rule Cons.IH) (use Cons.prems in \<open>auto simp: suffix_Cons\<close>)
  ultimately show ?case by simp
qed simp

lemma replace_from_none:
  "(\<And>t u. suffix (snd t) s \<Longrightarrow> \<not> matches r t u) \<Longrightarrow> replace_from r f b s = s"
  by (simp add: replace_from.simps [of r f b s] find_first_none)

section \<open>Patterns that look at no context\<close>

text \<open>
  A pattern of classes alone means a language: what it reads does not depend on what stands
  before or behind it.
\<close>

fun plain_rx :: "rx \<Rightarrow> bool" where
  "plain_rx Eps = True"
| "plain_rx (Cls p) = True"
| "plain_rx Bot = False"
| "plain_rx Eot = False"
| "plain_rx Wbd = False"
| "plain_rx (Seq r q) = (plain_rx r \<and> plain_rx q)"
| "plain_rx (Alt r q) = (plain_rx r \<and> plain_rx q)"
| "plain_rx (Star r) = plain_rx r"

inductive lang :: "rx \<Rightarrow> string \<Rightarrow> bool" where
  "lang Eps []"
| "p c \<Longrightarrow> lang (Cls p) [c]"
| "lang r v \<Longrightarrow> lang q w \<Longrightarrow> lang (Seq r q) (v @ w)"
| "lang r w \<Longrightarrow> lang (Alt r q) w"
| "lang q w \<Longrightarrow> lang (Alt r q) w"
| "lang (Star r) []"
| "lang r v \<Longrightarrow> lang (Star r) w \<Longrightarrow> lang (Star r) (v @ w)"

inductive_simps lang_simps [simp]:
  "lang Eps w" "lang (Cls p) w" "lang (Seq r q) w" "lang (Alt r q) w"

lemma last_of_append: "last_of b (v @ w) = last_of (last_of b v) w"
  by (induction v arbitrary: b) auto

lemma lang_matches: "lang r w \<Longrightarrow> matches r (b, w @ s) (last_of b w, s)"
proof (induction arbitrary: b s rule: lang.induct)
  case (3 r v q w)
  from 3(3) [of b "w @ s"] 3(4) [of "last_of b v" s] show ?case
    by (auto simp: last_of_append)
next
  case (7 r v w)
  from matches.star1 [OF 7(3) [of b "w @ s"] 7(4) [of "last_of b v" s]] show ?case
    by (simp add: last_of_append)
qed (auto intro: matches.intros)

lemma matches_lang:
  "matches r st u \<Longrightarrow> plain_rx r \<Longrightarrow>
     \<exists>w. snd st = w @ snd u \<and> fst u = last_of (fst st) w \<and> lang r w"
proof (induction rule: matches.induct)
  case (seq r st u q v)
  then obtain x y where "snd st = x @ snd u" "fst u = last_of (fst st) x" "lang r x"
    "snd u = y @ snd v" "fst v = last_of (fst u) y" "lang q y" by auto
  then show ?case
    by (intro exI [of _ "x @ y"]) (auto simp: last_of_append)
next
  case (star1 r st u v)
  then obtain x y where "snd st = x @ snd u" "fst u = last_of (fst st) x" "lang r x"
    "snd u = y @ snd v" "fst v = last_of (fst u) y" "lang (Star r) y" by auto
  then show ?case
    by (intro exI [of _ "x @ y"]) (auto simp: last_of_append intro: lang.intros)
qed (auto intro: lang.intros)

lemma lang_Seq_Cls [simp]: "lang (Seq (Cls p) q) w \<longleftrightarrow> (\<exists>c v. w = c # v \<and> p c \<and> lang q v)"
  by (simp only: lang_simps) (metis append_Cons append_Nil)

lemma lang_seqs_word: "lang (seqs (map (\<lambda>c. Cls (p c)) w)) v \<longleftrightarrow> list_all2 p w v"
proof (induction w arbitrary: v)
  case (Cons c w)
  show ?case
    by (cases w) (use Cons.IH in \<open>auto simp: list_all2_Cons1 simp del: lang_simps(3)\<close>)
qed auto

lemma lang_star_cls: "lang (Star (Cls p)) w \<longleftrightarrow> list_all p w"
proof
  show "lang (Star (Cls p)) w \<Longrightarrow> list_all p w"
    by (induction "Star (Cls p)" w rule: lang.induct) auto
  show "list_all p w \<Longrightarrow> lang (Star (Cls p)) w"
  proof (induction w)
    case (Cons c w)
    then show ?case using lang.intros(7) [of "Cls p" "[c]" w] by simp
  qed (simp add: lang.intros)
qed

text \<open>The leftmost match has no match before it.\<close>

lemma find_first_leftmost:
  "find_first r b s = Some (pre, m, u) \<Longrightarrow> plain_rx r \<Longrightarrow> \<not> lang r [] \<Longrightarrow>
     lang r m \<and> s = pre @ m @ snd u
     \<and> (\<forall>x w y. s = x @ w @ y \<longrightarrow> lang r w \<longrightarrow> length pre \<le> length x)"
proof (induction r b s arbitrary: pre m u rule: find_first.induct)
  case (1 r b)
  then show ?case by simp
next
  case (2 r b c s)
  let ?st = "(b, c # s)"
  show ?case
  proof (cases "\<exists>v. matches r ?st v")
    case False
    then have none: "ends r ?st = []" using ends_nonempty [of r ?st] by blast
    with 2(3) obtain pre' where pre: "pre = c # pre'" "find_first r (Some c) s = Some (pre', m, u)" by auto
    note ih = 2(1) [OF none pre(2) 2(4,5)]
    have "length pre \<le> length x" if "c # s = x @ w @ y" "lang r w" for x w y
    proof (cases x)
      case Nil
      with that lang_matches [of r w b y] False show ?thesis by auto
    next
      case (Cons d x')
      with that ih have "length pre' \<le> length x'" by auto
      with Cons pre show ?thesis by simp
    qed
    with ih pre show ?thesis by auto
  next
    case True
    then have "ends r ?st \<noteq> []" using ends_nonempty [of r ?st] by blast
    then obtain v vs where ends: "ends r ?st = v # vs" by (cases "ends r ?st") auto
    then have "matches r ?st v" using ends_iff [of v r ?st] by simp
    from matches_lang [OF this 2(4)] obtain w where w: "c # s = w @ snd v" "lang r w" by auto
    with 2(5) have "w \<noteq> []" by auto
    with w have shorter: "length (snd v) < length (c # s)" by simp
    have "take (length (c # s) - length (snd v)) (c # s) = w" using w(1) by simp
    with 2(3) ends shorter have "pre = [] \<and> m = w \<and> u = v" by (simp add: Let_def del: take_Suc_Cons)
    with w show ?thesis by simp
  qed
qed

lemma find_first_None_lang:
  "find_first r b s = None \<Longrightarrow> plain_rx r \<Longrightarrow> \<not> lang r [] \<Longrightarrow> s = x @ w @ y \<Longrightarrow> \<not> lang r w"
proof (induction r b s arbitrary: x rule: find_first.induct)
  case (1 r b)
  then show ?case by auto
next
  case (2 r b c s)
  let ?st = "(b, c # s)"
  have none: "\<not> matches r ?st v" for v
  proof
    assume "matches r ?st v"
    then have "ends r ?st \<noteq> []" using ends_nonempty [of r ?st] by blast
    then obtain v vs where ends: "ends r ?st = v # vs" by (cases "ends r ?st") auto
    then have "matches r ?st v" using ends_iff [of v r ?st] by simp
    from matches_lang [OF this 2(4)] obtain w where w: "c # s = w @ snd v" "lang r w" by auto
    with 2(5) have "w \<noteq> []" by auto
    with w have "length (snd v) < length (c # s)" by simp
    with 2(3) ends show False by simp
  qed
  then have ends: "ends r ?st = []" using ends_nonempty [of r ?st] by blast
  with 2(3) have later: "find_first r (Some c) s = None" by simp
  show ?case
  proof (cases x)
    case Nil
    then show ?thesis using none lang_matches [of r w b y] 2(6) by auto
  next
    case (Cons d x')
    with 2(6) have "s = x' @ w @ y" by simp
    from 2(1) [OF ends later 2(4,5) this] show ?thesis .
  qed
qed

text \<open>
  What replacing a pattern removes: a word of its language that cannot overlap a replacement
  does not occur in the result.
\<close>

lemma replace_removes:
  assumes "plain_rx r" "\<not> lang r []" "lang r w"
    and overlap: "\<And>m p q x y. lang r m \<Longrightarrow> p @ f m @ q = x @ w @ y \<Longrightarrow>
           (\<exists>z. p = x @ w @ z) \<or> (\<exists>z. q = z @ w @ y)"
  shows "replace_from r f b s \<noteq> x @ w @ y"
proof (induction "length s" arbitrary: s b x y rule: less_induct)
  case less
  show ?case
  proof (cases "find_first r b s")
    case None
    with find_first_None_lang [OF None assms(1,2)] assms(3) show ?thesis
      by (auto simp: replace_from.simps [of r f b s])
  next
    case (Some t)
    then obtain pre m u where t: "find_first r b s = Some (pre, m, u)" by (cases t) auto
    let ?tail = "replace_from r f (fst u) (snd u)"
    note l = find_first_leftmost [OF t assms(1,2)]
    show ?thesis
    proof
      assume "replace_from r f b s = x @ w @ y"
      with t have eq: "pre @ f m @ ?tail = x @ w @ y" by (simp add: replace_from.simps [of r f b s])
      from l have m: "lang r m" by blast
      from overlap [OF m eq] show False
      proof
        assume "\<exists>z. pre = x @ w @ z"
        then obtain z where z: "pre = x @ w @ z" ..
        with l have "s = x @ w @ (z @ m @ snd u)" by simp
        with l assms(3) have "length pre \<le> length x" by blast
        with z assms(2,3) show False by auto
      next
        assume "\<exists>z. ?tail = z @ w @ y"
        with less [OF find_first_shorter [OF t]] show False by blast
      qed
    qed
  qed
qed

end
