(* ===== verification/Plan_Gate.thy ===== *)
theory Plan_Gate
  imports Shell_Words Go_Regexp Mission_State
begin

text \<open>
  The static plan gate (\<open>internal/brain/missions/plangate.go\<close>): the checks a submitted plan
  passes before any worker turn, as one function per Go function with the rejection as a
  value. The facts the gate reads from the outside (the goal, the work tree, git's index) are
  arguments. A rejection keeps the dynamic texts its message quotes; \<open>error_words\<close> lists
  them, since the driver later searches the message for the granularity marker.
\<close>

section \<open>Data\<close>

record PlanAssumption =
  paAssumption :: string
  paDefault :: string

record Plan =
  plUnits :: "PlanUnit list"
  plInfeasible :: bool
  plInfeasibleReason :: string
  plAssumptions :: "PlanAssumption list"
  plScopeDropped :: "string list"
  plGranularityWaived :: bool

record PlanGateState =
  pgGranularityRejected :: bool
  pgGranularityWaived :: bool
  pgLastRejection :: string
  pgRepoDestination :: bool

definition granularityWaivable :: "PlanGateState \<Rightarrow> bool" where
  "granularityWaivable g = (pgGranularityRejected g \<and> \<not> pgGranularityWaived g)"

text \<open>The fields of a mission the plan turn reads; \<open>pmRepoURL\<close> and \<open>pmWorkRoot\<close> are the values
  of \<open>RepoURL()\<close> and \<open>WorkRoot()\<close>.\<close>

record PlanMission =
  pmKind :: string
  pmGoal :: string
  pmRepoURL :: string
  pmWorkRoot :: string
  pmReplanUsed :: bool
  pmPlanGate :: PlanGateState

definition KindCoding :: string where "KindCoding = ''coding''"

datatype plan_error =
    BadPlanJSON string
  | InfeasibleNoReason
  | NoUnits
  | CommandSubstitution
  | RunsGit string
  | NoArtifact string
  | CriteriaCount string
  | ScopeOutside string string
  | NoCheckCmd string
  | NoOpCheckCmd string
  | NotShell string string
  | EmptyOutputIdiom string
  | GrepPipeline string string
  | BootstrapKind string
  | TwoBootstraps string string
  | BootstrapNotFirst string
  | BootstrapNoCheck string
  | NoOwnArtifact string
  | UntrackedPath string string string
  | UntrackedLockfile string string string
  | UnrequestedReport string string
  | HarnessDelivers string
  | GranularitySplit "string list" string
  | CodeFloor string
  | PassesAlready string string
  | MissingCommand string string string

fun error_words :: "plan_error \<Rightarrow> string list" where
  "error_words (BadPlanJSON e) = [e]"
| "error_words InfeasibleNoReason = []"
| "error_words NoUnits = []"
| "error_words CommandSubstitution = []"
| "error_words (RunsGit t) = [t]"
| "error_words (NoArtifact t) = [t]"
| "error_words (CriteriaCount t) = [t]"
| "error_words (ScopeOutside t sc) = [t, sc]"
| "error_words (NoCheckCmd t) = [t]"
| "error_words (NoOpCheckCmd t) = [t]"
| "error_words (NotShell t e) = [t, e]"
| "error_words (EmptyOutputIdiom t) = [t]"
| "error_words (GrepPipeline t c) = [t, c]"
| "error_words (BootstrapKind t) = [t]"
| "error_words (TwoBootstraps t u) = [t, u]"
| "error_words (BootstrapNotFirst t) = [t]"
| "error_words (BootstrapNoCheck t) = [t]"
| "error_words (NoOwnArtifact t) = [t]"
| "error_words (UntrackedPath a t p) = [a, t, p]"
| "error_words (UntrackedLockfile a t p) = [a, t, p]"
| "error_words (UnrequestedReport t p) = [t, p]"
| "error_words (HarnessDelivers t) = [t]"
| "error_words (GranularitySplit ts d) = ts @ [d]"
| "error_words (CodeFloor t) = [t]"
| "error_words (PassesAlready t c) = [t, c]"
| "error_words (MissingCommand t c l) = [t, c, l]"

definition granularityMarker :: string where
  "granularityMarker = ''they are one unit of work''"

text \<open>\<open>strings.Contains(err.Error(), granularityMarker)\<close>.\<close>

definition names_granularity :: "plan_error \<Rightarrow> bool" where
  "names_granularity e =
     ((case e of GranularitySplit _ _ \<Rightarrow> True | _ \<Rightarrow> False)
      \<or> list_ex (\<lambda>w. str_contains w granularityMarker) (error_words e))"

text \<open>The first rejection of a list of checks.\<close>

fun first_error :: "('a \<Rightarrow> plan_error option) \<Rightarrow> 'a list \<Rightarrow> plan_error option" where
  "first_error f [] = None"
| "first_error f (x # xs) = (case f x of Some e \<Rightarrow> Some e | None \<Rightarrow> first_error f xs)"

definition or_else :: "plan_error option \<Rightarrow> plan_error option \<Rightarrow> plan_error option" where
  "or_else a b = (case a of Some e \<Rightarrow> Some e | None \<Rightarrow> b)"

section \<open>Patterns\<close>

definition wordb :: rx where "wordb = Wbd"

definition spaces1 :: rx where "spaces1 = plus_rx sp"

definition word_char :: rx where "word_char = Cls is_word"

text \<open>\<open>(^|[\s;&|(])\<close>\<close>

definition tool_start :: rx where
  "tool_start = Alt Bot (Cls (\<lambda>c. is_rx_space c \<or> c \<in> set '';&|(''))"

definition emptyOutputIdiom :: rx where
  "emptyOutputIdiom = seqs [ch CHR ''|'', Star sp, lit ''grep'',
     Star (seqs [spaces1, ch CHR ''-'', plus_rx word_char]), spaces1,
     opt (any_of [squote, dquote]), ch CHR ''^'', ch CHR ''$'', opt (any_of [squote, dquote]), Alt sp Eot]"

definition checkCmdGitInvocation :: rx where
  "checkCmdGitInvocation = seqs [Alt Bot (Cls (\<lambda>c. \<not> is_word c)), lit ''git'', sp]"

definition codeExtensions :: "(string \<times> string) list" where
  "codeExtensions =
     [(''.go'', ''go''), (''.py'', ''python''),
      (''.js'', ''node''), (''.mjs'', ''node''), (''.cjs'', ''node''), (''.jsx'', ''node''),
      (''.ts'', ''node''), (''.tsx'', ''node''),
      (''.php'', ''php''), (''.rb'', ''ruby''), (''.java'', ''jvm''), (''.kt'', ''jvm''), (''.rs'', ''rust'')]"

definition opt_path :: rx where "opt_path = opt (seqs [Star nonspace, ch CHR ''/''])"

definition toolchainByLanguage :: "(string \<times> rx) list" where
  "toolchainByLanguage =
     [(''go'', seqs [tool_start, lit ''go'', spaces1,
         alts [lit ''test'', lit ''vet'', lit ''build'', lit ''run''], wordb]),
      (''python'', seqs [tool_start, alts [Seq (lit ''pytest'') wordb,
         seqs [lit ''python'', opt (ch CHR ''3''), spaces1,
           alts [seqs [lit ''-m'', spaces1, alts [lit ''pytest'', lit ''unittest''], wordb],
                 seqs [plus_rx nonspace, lit ''.py'', wordb]]]]]),
      (''node'', seqs [tool_start, alts [
         seqs [lit ''npm'', spaces1, opt (seqs [lit ''run'', spaces1]), lit ''test'', wordb],
         seqs [lit ''npx'', spaces1, alts [lit ''vitest'', lit ''jest'', lit ''mocha'', lit ''tsc''], wordb],
         seqs [lit ''node'', spaces1, alts [Seq (lit ''--test'') wordb,
           seqs [plus_rx nonspace, ch CHR ''.'', opt (any_of ''cm''), lit ''js'', wordb]]],
         seqs [alts [lit ''yarn'', lit ''pnpm''], spaces1, lit ''test'', wordb],
         Seq (lit ''tsc'') wordb]]),
      (''php'', seqs [tool_start, opt_path, alts [Seq (lit ''phpunit'') wordb, Seq (lit ''pest'') wordb,
         seqs [lit ''php'', spaces1, alts [seqs [lit ''artisan'', spaces1, lit ''test'', wordb],
                                         seqs [plus_rx nonspace, lit ''.php'', wordb]]],
         seqs [lit ''composer'', spaces1, opt (seqs [lit ''run'', opt (lit ''-script''), spaces1]),
               lit ''test'', wordb]]]),
      (''jvm'', seqs [tool_start, opt (lit ''./''),
         alts [Seq (lit ''mvn'') (opt (ch CHR ''w'')), Seq (lit ''gradle'') (opt (ch CHR ''w''))], Alt sp Eot]),
      (''ruby'', seqs [tool_start, opt_path, alts [Seq (lit ''rspec'') wordb,
         seqs [lit ''bundle'', spaces1, lit ''exec'', spaces1, nonspace],
         seqs [lit ''rake'', spaces1, alts [lit ''test'', lit ''spec''], wordb],
         seqs [lit ''rails'', spaces1, lit ''test'', wordb],
         seqs [lit ''ruby'', spaces1, plus_rx nonspace, lit ''.rb'', wordb]]]),
      (''rust'', seqs [tool_start, lit ''cargo'', spaces1,
         opt (seqs [ch CHR ''+'', plus_rx nonspace, spaces1]),
         alts [lit ''test'', lit ''build'', lit ''check'', lit ''run'', lit ''nextest''], wordb])]"

definition deliveryPattern :: rx where
  "deliveryPattern = alts [
     seqs [wordb, liti ''git'', spaces1, liti ''push'', wordb],
     seqs [wordb, liti ''gh'', spaces1, liti ''pr'', wordb],
     seqs [wordb, alts [liti ''open'', liti ''create'', liti ''raise'', liti ''submit''],
       opt (alts [liti ''s'', liti ''ing'']), spaces1, opt (alts [Seq (liti ''a'') spaces1, Seq (liti ''the'') spaces1]),
       alts [Seq (liti ''pr'') (opt (liti ''s'')),
             seqs [liti ''pull'', any_of '' -'', liti ''request'', opt (liti ''s'')]], wordb],
     seqs [wordb, liti ''push'', opt (alts [liti ''es'', liti ''ing'']), spaces1,
       opt (alts [Seq (liti ''the'') spaces1, Seq (liti ''a'') spaces1]),
       opt (alts [Seq (liti ''mission'') spaces1, Seq (liti ''feature'') spaces1]), liti ''branch'', wordb]]"

definition untrackedClaim :: rx where
  "untrackedClaim = alts [
     seqs [wordb, liti ''untracked'', wordb],
     seqs [wordb, liti ''not'', spaces1, opt (Seq (liti ''be'') spaces1),
       alts [liti ''tracked'', liti ''committed''], wordb],
     seqs [wordb, liti ''never'', spaces1, opt (Seq (liti ''be'') spaces1), liti ''committed'', wordb],
     seqs [wordb, liti ''uncommitted'', wordb]]"

definition path_char :: rx where "path_char = Cls (\<lambda>c. is_word c \<or> c \<in> set ''.-'')"

definition pathToken :: rx where
  "pathToken = alts [
     seqs [Star path_char, Cls (\<lambda>c. is_word c \<or> c = CHR ''-''), ch CHR ''.'',
       Cls (\<lambda>c. is_upper c \<or> is_lower c), Star (Cls (\<lambda>c. is_upper c \<or> is_lower c \<or> is_digit c)), wordb],
     seqs [plus_rx path_char, plus_rx (seqs [ch CHR ''/'', plus_rx path_char])]]"

definition clauseSep :: rx where
  "clauseSep = alts [ch CHR '';'', seqs [ch CHR ''.'', sp], seqs [ch CHR ''.'', Eot], ch newline_char]"

definition lockfileWord :: rx where
  "lockfileWord = seqs [wordb, liti ''lock'', opt sp, liti ''file'', opt (liti ''s''), wordb]"

definition knownLockfiles :: "string list" where
  "knownLockfiles =
     [''package-lock.json'', ''npm-shrinkwrap.json'', ''yarn.lock'', ''pnpm-lock.yaml'',
      ''bun.lock'', ''bun.lockb'', ''composer.lock'', ''poetry.lock'', ''uv.lock'',
      ''Pipfile.lock'', ''Gemfile.lock'', ''Cargo.lock'', ''go.sum'']"

section \<open>The checks\<close>

definition pushesOrOpensPR :: "string \<Rightarrow> string \<Rightarrow> bool" where
  "pushesOrOpensPR title checkCmd =
     (MatchString deliveryPattern title \<or> MatchString deliveryPattern checkCmd)"

definition checkHarnessDelivery :: "Plan \<Rightarrow> plan_error option" where
  "checkHarnessDelivery plan =
     first_error (\<lambda>u. if pushesOrOpensPR (uTitle u) (uCheckCmd u) then Some (HarnessDelivers (uTitle u))
                      else None) (plUnits plan)"

fun bootstrap_loop ::
    "PlanMission \<Rightarrow> nat \<Rightarrow> PlanUnit option \<Rightarrow> PlanUnit list \<Rightarrow> plan_error option" where
  "bootstrap_loop m i first [] = None"
| "bootstrap_loop m i first (u # us) =
     (if \<not> uBootstrap u then bootstrap_loop m (Suc i) first us
      else if pmKind m \<noteq> KindCoding then Some (BootstrapKind (uTitle u))
      else case first of
        Some f \<Rightarrow> Some (TwoBootstraps (uTitle f) (uTitle u))
      | None \<Rightarrow>
          if i \<noteq> 0 then Some (BootstrapNotFirst (uTitle u))
          else if trim_space (uCheckCmd u) = [] then Some (BootstrapNoCheck (uTitle u))
          else bootstrap_loop m (Suc i) (Some u) us)"

definition checkBootstrap :: "Plan \<Rightarrow> PlanMission \<Rightarrow> plan_error option" where
  "checkBootstrap plan m = bootstrap_loop m 0 None (plUnits plan)"

definition codeLanguage :: "string \<Rightarrow> string" where
  "codeLanguage artifact =
     (case map_of codeExtensions (to_lower (path_ext (trim_space artifact))) of
        Some l \<Rightarrow> l | None \<Rightarrow> [])"

definition codeLanguages :: "string list \<Rightarrow> string list" where
  "codeLanguages artifacts =
     fold (\<lambda>a out. let l = codeLanguage a in if l \<noteq> [] \<and> l \<notin> set out then out @ [l] else out) artifacts []"

definition invokesToolchain :: "string \<Rightarrow> string list \<Rightarrow> bool" where
  "invokesToolchain cmd langs =
     list_ex (\<lambda>l. case map_of toolchainByLanguage l of Some r \<Rightarrow> MatchString r cmd | None \<Rightarrow> False) langs"

definition checkCodeFloor :: "Plan \<Rightarrow> plan_error option" where
  "checkCodeFloor plan =
     first_error (\<lambda>u. let langs = codeLanguages (uArtifacts u) in
        if langs = [] \<or> invokesToolchain (uCheckCmd u) langs then None
        else Some (CodeFloor (uTitle u))) (plUnits plan)"

definition smallPlanArtifactCap :: nat where "smallPlanArtifactCap = 8"

text \<open>One unit's code artifacts against the directory seen so far (empty for none): \<^const>\<open>None\<close>
  when two directories meet, which ends the check.\<close>

fun code_dirs :: "string \<Rightarrow> nat \<Rightarrow> string list \<Rightarrow> (string \<times> nat) option" where
  "code_dirs dir n [] = Some (dir, n)"
| "code_dirs dir n (a # as) =
     (if codeLanguage a = [] then code_dirs dir n as
      else let d = path_dir (cleanArtifact a) in
        if dir = [] then code_dirs d (Suc n) as
        else if d \<noteq> dir then None
        else code_dirs dir (Suc n) as)"

fun granularity_loop ::
    "string \<Rightarrow> nat \<Rightarrow> string list \<Rightarrow> PlanUnit list \<Rightarrow> (string \<times> nat \<times> string list) option" where
  "granularity_loop dir count titles [] = Some (dir, count, titles)"
| "granularity_loop dir count titles (u # us) =
     (if uBootstrap u then granularity_loop dir count titles us
      else case code_dirs dir 0 (uArtifacts u) of
        None \<Rightarrow> None
      | Some (dir', code) \<Rightarrow>
          if 0 < code then granularity_loop dir' (count + code) (titles @ [uTitle u]) us
          else granularity_loop dir' count titles us)"

definition checkUnitGranularity :: "Plan \<Rightarrow> plan_error option" where
  "checkUnitGranularity plan =
     (case granularity_loop [] 0 [] (plUnits plan) of
        None \<Rightarrow> None
      | Some (dir, count, titles) \<Rightarrow>
          if length titles < 2 \<or> smallPlanArtifactCap < count then None
          else Some (GranularitySplit titles dir))"

fun own_loop :: "string list \<Rightarrow> PlanUnit list \<Rightarrow> plan_error option" where
  "own_loop seen [] = None"
| "own_loop seen (u # us) =
     (let as = map cleanArtifact (uArtifacts u) in
      if as \<noteq> [] \<and> set as \<subseteq> set seen then Some (NoOwnArtifact (uTitle u))
      else own_loop (seen @ as) us)"

definition checkOwnArtifacts :: "Plan \<Rightarrow> plan_error option" where
  "checkOwnArtifacts plan = own_loop [] (plUnits plan)"

definition reportExtensions :: "string list" where
  "reportExtensions = [''.md'', ''.markdown'', ''.txt'', ''.rst'']"

text \<open>The word-bounded match for a quoted top directory.\<close>

definition goal_dir_pattern :: "string \<Rightarrow> rx" where
  "goal_dir_pattern name =
     (let out = Cls (\<lambda>c. \<not> (is_word c \<or> c \<in> set ''.-'')) in
      seqs [Alt Bot out, lit name, alts [Eot, out, seqs [ch CHR ''.'', Alt sp Eot]]])"

definition goalNamesDir :: "string \<Rightarrow> string \<Rightarrow> bool" where
  "goalNamesDir goal p =
     (let head = takeWhile (\<lambda>c. c \<noteq> slash) p in
      slash \<in> set p \<and> MatchString (goal_dir_pattern (to_lower head)) goal)"

definition checkReportArtifacts ::
    "(string \<Rightarrow> bool) \<Rightarrow> Plan \<Rightarrow> PlanMission \<Rightarrow> plan_error option" where
  "checkReportArtifacts lstat plan m =
     (if pmKind m \<noteq> KindCoding \<or> pmRepoURL m = [] then None
      else let goal = to_lower (pmGoal m) in
        first_error (\<lambda>(u, a). let p = cleanArtifact a in
          if to_lower (path_ext p) \<notin> set reportExtensions \<or> \<not> is_local p then None
          else if str_contains goal (to_lower (path_base p)) \<or> goalNamesDir goal p then None
          else if lstat p then None
          else Some (UnrequestedReport (uTitle u) p))
          (concat (map (\<lambda>u. map (Pair u) (uArtifacts u)) (plUnits plan))))"

text \<open>The first entry of a unit's artifacts, scope or command words whose cleaned path is
  accepted: the unit's title and the path.\<close>

definition unit_entries :: "PlanUnit \<Rightarrow> string list" where
  "unit_entries u = uArtifacts u @ uScope u @ fields_func isShellWordSep (uCheckCmd u)"

fun find_use :: "(string \<Rightarrow> bool) \<Rightarrow> (PlanUnit \<times> string) list \<Rightarrow> (string \<times> string) option" where
  "find_use match [] = None"
| "find_use match ((u, e) # es) =
     (if trim_space e = [] then find_use match es
      else let c = cleanArtifact e in if match c then Some (uTitle u, c) else find_use match es)"

definition unitPathUse :: "Plan \<Rightarrow> (string \<Rightarrow> bool) \<Rightarrow> (string \<times> string) option" where
  "unitPathUse plan match =
     find_use match (concat (map (\<lambda>u. map (Pair u) (unit_entries u)) (plUnits plan)))"

definition clause_error ::
    "(string \<Rightarrow> bool) \<Rightarrow> Plan \<Rightarrow> PlanAssumption \<Rightarrow> string \<Rightarrow> plan_error option" where
  "clause_error tracked plan a clause =
     (let text = trim_space (paAssumption a @ ''; '' @ paDefault a); toks = FindAllString pathToken clause in
      if \<not> MatchString untrackedClaim clause then None
      else case first_error (\<lambda>tok. map_option (\<lambda>(u, p). UntrackedPath text u p)
                               (unitPathUse plan (\<lambda>p. p = cleanArtifact tok))) toks of
        Some e \<Rightarrow> Some e
      | None \<Rightarrow>
          if toks \<noteq> [] \<or> \<not> MatchString lockfileWord clause \<and> \<not> MatchString lockfileWord (paAssumption a)
          then None
          else map_option (\<lambda>(u, p). UntrackedLockfile text u p)
                 (unitPathUse plan (\<lambda>p. path_base p \<in> set knownLockfiles \<and> \<not> tracked p)))"

definition checkUntrackedAssumptions :: "Plan \<Rightarrow> (string \<Rightarrow> bool) \<Rightarrow> plan_error option" where
  "checkUntrackedAssumptions plan tracked =
     first_error (\<lambda>a. first_error (\<lambda>field. first_error (clause_error tracked plan a) (Split clauseSep field))
                        [paAssumption a, paDefault a]) (plAssumptions plan)"

definition check_cmd_shape :: "PlanUnit \<Rightarrow> plan_error option" where
  "check_cmd_shape u =
     (if MatchString emptyOutputIdiom (uCheckCmd u) then Some (EmptyOutputIdiom (uTitle u))
      else if isGrepPipeline (uCheckCmd u) then Some (GrepPipeline (uTitle u) (uCheckCmd u))
      else None)"

text \<open>\<open>lstat p\<close>: the work tree has \<open>p\<close>; \<open>tracked p\<close>: git's index has it.\<close>

definition checkPlanGates ::
    "(string \<Rightarrow> bool) \<Rightarrow> (string \<Rightarrow> bool) \<Rightarrow> Plan \<Rightarrow> PlanMission \<Rightarrow> plan_error option" where
  "checkPlanGates lstat tracked plan m =
     or_else (first_error check_cmd_shape (plUnits plan))
     (or_else (checkBootstrap plan m)
     (or_else (checkOwnArtifacts plan)
     (or_else (checkUntrackedAssumptions plan
                 (\<lambda>p. pmWorkRoot m \<noteq> [] \<and> is_local p \<and> tracked p))
     (or_else (checkReportArtifacts lstat plan m)
     (or_else (if pgRepoDestination (pmPlanGate m) then checkHarnessDelivery plan else None)
       (if pmKind m \<noteq> KindCoding then None
        else case checkUnitGranularity plan of
          Some e \<Rightarrow> if granularityWaivable (pmPlanGate m) then checkCodeFloor plan else Some e
        | None \<Rightarrow> checkCodeFloor plan))))))"

end
