(* ===== verification/Plan_Accept.thy ===== *)
theory Plan_Accept
  imports Plan_Gate
begin

text \<open>
  Plan acceptance (\<open>internal/brain/missions/runner.go\<close>: \<open>parsePlan\<close>, \<open>PlanSession\<close>;
  \<open>plangate.go\<close>: \<open>probeCheckCmds\<close>, \<open>acceptPlan\<close>; \<open>verify.go\<close>: \<open>runVerifyTimed\<close>;
  \<open>driver.go\<close>: \<open>planGateState\<close>, \<open>runPlan\<close>, \<open>restorePassedUnits\<close>). The strict JSON decoder,
  \<open>/bin/sh -n\<close>, the sandbox, the work tree and git are the fields of \<open>plan_env\<close>.
\<close>

section \<open>Running a check\<close>

text \<open>What a backend reports: it ran, it hung until its deadline, or it failed to run.\<close>

datatype exec_result = Exited int string | ExecTimedOut int string | ExecFailed

record VerifyResult =
  vrExitCode :: int
  vrExcerpt :: string
  vrPassed :: bool
  vrTimedOut :: bool

text \<open>\<open>tailBuffer\<close>: the last \<open>max\<close> bytes of what was written, chunk by chunk.\<close>

definition tail_write :: "nat \<Rightarrow> string \<Rightarrow> string \<Rightarrow> string" where
  "tail_write mx p buf = (let b = buf @ p in if mx < length b then drop (length b - mx) b else b)"

definition runVerifyTimed :: "exec_result \<Rightarrow> string \<Rightarrow> VerifyResult option" where
  "runVerifyTimed r timeoutText =
     (case r of
        Exited code out \<Rightarrow>
          Some \<lparr>vrExitCode = code, vrExcerpt = tail_write verifyExcerptCap out [], vrPassed = (code = 0),
                vrTimedOut = False\<rparr>
      | ExecTimedOut code out \<Rightarrow>
          Some \<lparr>vrExitCode = code,
                vrExcerpt = tail_write verifyExcerptCap out [] @ newline_char # ''check_cmd timed out after '' @ timeoutText,
                vrPassed = False, vrTimedOut = True\<rparr>
      | ExecFailed \<Rightarrow> None)"

section \<open>The environment of plan acceptance\<close>

text \<open>
  \<open>peDecode\<close>: the strict decoder on the unfenced text; \<open>peShell\<close>: the complaint of
  \<open>/bin/sh -n\<close>, none when it parses or no shell exists; \<open>peProbe parked cmd\<close>: the command run in
  the sandbox with the named artifact parked outside the tree, if any; \<open>peCanPark\<close>: whether
  it could be moved; \<open>peGitStatus\<close>: the porcelain status, none on an error.
\<close>

record plan_env =
  peDecode :: "string \<Rightarrow> string + Plan"
  peShell :: "string \<Rightarrow> string option"
  peLstat :: "string \<Rightarrow> bool"
  peTracked :: "string \<Rightarrow> bool"
  peSandbox :: bool
  peProbe :: "string option \<Rightarrow> string \<Rightarrow> exec_result"
  peCanPark :: "string \<Rightarrow> bool"
  peGitStatus :: "string option"

section \<open>Parsing a submitted plan\<close>

definition trim_suffix :: "string \<Rightarrow> string \<Rightarrow> string" where
  "trim_suffix s p = (if has_suffix s p then take (length s - length p) s else s)"

definition fence :: string where "fence = replicate 3 backtick"

definition strip_fences :: "string \<Rightarrow> string" where
  "strip_fences raw =
     (let t = trim_prefix (trim_prefix (trim_space raw) (fence @ ''json'')) fence
      in trim_space (trim_suffix t fence))"

definition minUnitCriteria :: nat where "minUnitCriteria = 2"
definition maxUnitCriteria :: nat where "maxUnitCriteria = 6"

definition trimNonEmpty :: "string list \<Rightarrow> string list" where
  "trimNonEmpty xs = filter (\<lambda>s. s \<noteq> []) (map trim_space xs)"

text \<open>\<open>cleanRelPath\<close>: \<^const>\<open>None\<close> is the error (absolute or climbing out); blank stays blank.\<close>

definition cleanRelPath :: "string \<Rightarrow> string option" where
  "cleanRelPath p =
     (let p = trim_space p in
      if p = [] then Some []
      else if rooted p then None
      else let c = path_clean p in
        if c = dotdot \<or> has_prefix c ''../'' then None else Some c)"

definition default_scope_entry :: "string \<Rightarrow> string" where
  "default_scope_entry a = (let dir = path_dir a in if dir \<noteq> dot then dir else a)"

definition defaultScope :: "string list \<Rightarrow> string list" where
  "defaultScope artifacts =
     fold (\<lambda>a out. let c = cleanArtifact a in
             if c = [] \<or> c = dot then out
             else let p = default_scope_entry c in if p \<in> set out then out else out @ [p])
       artifacts []"

text \<open>Criteria and scope of one unit, the error or the unit with both trimmed.\<close>

definition shape_unit :: "PlanUnit \<Rightarrow> plan_error + PlanUnit" where
  "shape_unit u =
     (let u = u\<lparr>uCriteria := trimNonEmpty (uCriteria u)\<rparr> in
      if length (uCriteria u) < minUnitCriteria \<or> maxUnitCriteria < length (uCriteria u)
      then Inl (CriteriaCount (uTitle u))
      else
        let u = u\<lparr>uScope := trimNonEmpty (uScope u)\<rparr> in
        case find (\<lambda>sc. cleanRelPath sc = None) (uScope u) of
          Some sc \<Rightarrow> Inl (ScopeOutside (uTitle u) sc)
        | None \<Rightarrow> Inr (if uScope u = [] then u\<lparr>uScope := defaultScope (uArtifacts u)\<rparr> else u))"

fun shape_units :: "PlanUnit list \<Rightarrow> plan_error + PlanUnit list" where
  "shape_units [] = Inr []"
| "shape_units (u # us) =
     (case shape_unit u of
        Inl e \<Rightarrow> Inl e
      | Inr v \<Rightarrow> (case shape_units us of Inl e \<Rightarrow> Inl e | Inr vs \<Rightarrow> Inr (v # vs)))"

definition first_shell_word :: "string \<Rightarrow> string" where
  "first_shell_word cmd = takeWhile (\<lambda>c. c \<noteq> CHR '' '' \<and> c \<noteq> tab_char) cmd"

definition noop_check :: "PlanUnit \<Rightarrow> plan_error option" where
  "noop_check u =
     (let cmd = trim_space (uCheckCmd u) in
      if cmd = [] then Some (NoCheckCmd (uTitle u))
      else if first_shell_word cmd \<in> {''echo'', ''true'', '':'', ''printf''}
      then Some (NoOpCheckCmd (uTitle u)) else None)"

definition substitution_check :: "PlanUnit \<Rightarrow> plan_error option" where
  "substitution_check u =
     (if str_contains (uCheckCmd u) ''$('' \<or> str_contains (uCheckCmd u) [backtick]
      then Some CommandSubstitution else None)"

definition git_check :: "PlanUnit \<Rightarrow> plan_error option" where
  "git_check u = (if MatchString checkCmdGitInvocation (uCheckCmd u) then Some (RunsGit (uTitle u)) else None)"

definition artifact_check :: "PlanUnit \<Rightarrow> plan_error option" where
  "artifact_check u =
     (if uArtifacts u = [] \<and> \<not> uEvidenceOnly u then Some (NoArtifact (uTitle u)) else None)"

definition shell_check :: "(string \<Rightarrow> string option) \<Rightarrow> PlanUnit \<Rightarrow> plan_error option" where
  "shell_check sh u =
     map_option (\<lambda>e. NotShell (uTitle u) (take 200 (trim_space e))) (sh (uCheckCmd u))"

definition fresh_unit :: "PlanUnit \<Rightarrow> PlanUnit" where
  "fresh_unit u = u\<lparr>uPasses := False, uHarnessPassed := False, uRegressed := False,
                    uVerifyCheck := [], uVerifyExcerpt := []\<rparr>"

definition infeasible_plan :: "string \<Rightarrow> Plan" where
  "infeasible_plan reason =
     \<lparr>plUnits = [], plInfeasible = True, plInfeasibleReason = reason, plAssumptions = [],
      plScopeDropped = [], plGranularityWaived = False\<rparr>"

text \<open>The decoder leaves a field tagged \<open>json:"-"\<close> at its zero value.\<close>

definition decodePlanStrict :: "plan_env \<Rightarrow> string \<Rightarrow> string + Plan" where
  "decodePlanStrict env txt =
     (case peDecode env txt of Inl e \<Rightarrow> Inl e | Inr p \<Rightarrow> Inr (p\<lparr>plGranularityWaived := False\<rparr>))"

definition parsePlan :: "plan_env \<Rightarrow> string \<Rightarrow> plan_error + Plan" where
  "parsePlan env raw =
     (case decodePlanStrict env (strip_fences raw) of
        Inl e \<Rightarrow> Inl (BadPlanJSON e)
      | Inr p \<Rightarrow>
          if plInfeasible p then
            (if plInfeasibleReason p = [] then Inl InfeasibleNoReason
             else Inr (infeasible_plan (plInfeasibleReason p)))
          else let us = normalize_plan (plUnits p) in
            if us = [] then Inl NoUnits
            else case or_else (first_error substitution_check us)
                      (or_else (first_error git_check us) (first_error artifact_check us)) of
              Some e \<Rightarrow> Inl e
            | None \<Rightarrow>
                (case shape_units us of
                   Inl e \<Rightarrow> Inl e
                 | Inr vs \<Rightarrow>
                     (case or_else (first_error noop_check vs) (first_error (shell_check (peShell env)) vs) of
                        Some e \<Rightarrow> Inl e
                      | None \<Rightarrow> Inr (p\<lparr>plUnits := map fresh_unit vs\<rparr>))))"

section \<open>Dirty artifacts\<close>

text \<open>\<open>strconv.Unquote\<close> on the text behind an opening double quote.\<close>

definition hex_value :: "char \<Rightarrow> nat option" where
  "hex_value c =
     (let n = of_char c :: nat in
      if is_digit c then Some (n - 48)
      else if 97 \<le> n \<and> n \<le> 102 then Some (n - 87)
      else if 65 \<le> n \<and> n \<le> 70 then Some (n - 55) else None)"

fun hex_number :: "nat \<Rightarrow> string \<Rightarrow> nat option" where
  "hex_number acc [] = Some acc"
| "hex_number acc (c # s) = (case hex_value c of None \<Rightarrow> None | Some d \<Rightarrow> hex_number (16 * acc + d) s)"

definition octal_digit :: "char \<Rightarrow> bool" where
  "octal_digit c = (is_digit c \<and> (of_char c :: nat) \<le> 55)"

definition utf8_encode :: "nat \<Rightarrow> string option" where
  "utf8_encode n =
     (if n < 128 then Some [char_of n]
      else if n < 2048 then Some [char_of (192 + n div 64), char_of (128 + n mod 64)]
      else if 55296 \<le> n \<and> n < 57344 \<or> 1114111 < n then None
      else if n < 65536 then
        Some [char_of (224 + n div 4096), char_of (128 + n div 64 mod 64), char_of (128 + n mod 64)]
      else Some [char_of (240 + n div 262144), char_of (128 + n div 4096 mod 64),
                 char_of (128 + n div 64 mod 64), char_of (128 + n mod 64)])"

text \<open>One escape sequence behind its backslash: the bytes it stands for and how many bytes it
  takes.\<close>

definition escape_value :: "string \<Rightarrow> (string \<times> nat) option" where
  "escape_value s =
     (case s of
        [] \<Rightarrow> None
      | c # r \<Rightarrow>
          if c = CHR ''a'' then Some ([CHR 0x07], 1)
          else if c = CHR ''b'' then Some ([CHR 0x08], 1)
          else if c = CHR ''f'' then Some ([CHR 0x0C], 1)
          else if c = CHR ''n'' then Some ([newline_char], 1)
          else if c = CHR ''r'' then Some ([CHR 0x0D], 1)
          else if c = CHR ''t'' then Some ([tab_char], 1)
          else if c = CHR ''v'' then Some ([CHR 0x0B], 1)
          else if c = backslash \<or> c = dquote then Some ([c], 1)
          else if c = CHR ''x'' \<and> 2 \<le> length r
          then map_option (\<lambda>n. ([char_of n], 3)) (hex_number 0 (take 2 r))
          else if c = CHR ''u'' \<and> 4 \<le> length r then
            Option.bind (hex_number 0 (take 4 r)) (\<lambda>n. map_option (\<lambda>b. (b, 5)) (utf8_encode n))
          else if c = CHR ''U'' \<and> 8 \<le> length r then
            Option.bind (hex_number 0 (take 8 r)) (\<lambda>n. map_option (\<lambda>b. (b, 9)) (utf8_encode n))
          else if octal_digit c \<and> 3 \<le> length s \<and> list_all octal_digit (take 3 s)
                  \<and> foldl (\<lambda>a d. 8 * a + (of_char d - 48)) 0 (take 3 s) < (256 :: nat)
          then Some ([char_of (foldl (\<lambda>a d. 8 * a + (of_char d - 48)) 0 (take 3 s) :: nat)], 3)
          else None)"

function unquote_body :: "string \<Rightarrow> string option" where
  "unquote_body [] = None"
| "unquote_body (c # s) =
     (if c = dquote then (if s = [] then Some [] else None)
      else if c = newline_char then None
      else if c \<noteq> backslash then map_option (Cons c) (unquote_body s)
      else case escape_value s of
        None \<Rightarrow> None
      | Some (b, n) \<Rightarrow> map_option (append b) (unquote_body (drop n s)))"
  by pat_completeness auto
termination by (relation "measure length") auto

definition Unquote :: "string \<Rightarrow> string option" where
  "Unquote s = (case s of c # r \<Rightarrow> if c = dquote then unquote_body r else None | [] \<Rightarrow> None)"

text \<open>\<open>strings.Cut(s, sep)\<close>: what follows the first separator, if there is one.\<close>

definition cut_after :: "string \<Rightarrow> string \<Rightarrow> string option" where
  "cut_after s sep = map_option (\<lambda>i. drop (i + length sep) s) (str_index s sep)"

definition dirty_path :: "string \<Rightarrow> string list" where
  "dirty_path line =
     (if length line < 4 then []
      else let raw = trim_space (drop 3 line) in
        if raw = [] then []
        else
          let raw = (case cut_after raw '' -> '' of Some n \<Rightarrow> n | None \<Rightarrow> raw);
              raw = (if has_prefix raw [dquote] \<and> has_suffix raw [dquote]
                     then (case Unquote raw of Some u \<Rightarrow> u | None \<Rightarrow> raw) else raw);
              p = cleanArtifact raw
          in if p = [] then []
             else p # (if has_suffix raw ''/'' then [trim_suffix p ''/''] else []))"

definition parseDirtyPaths :: "string \<Rightarrow> string list" where
  "parseDirtyPaths txt = concat (map dirty_path (split_on (\<lambda>c. c = newline_char) txt))"

text \<open>The walk up the directories; a path has fewer ancestors than bytes.\<close>

fun dir_dirty :: "nat \<Rightarrow> string list \<Rightarrow> string \<Rightarrow> bool" where
  "dir_dirty 0 dirty dir = False"
| "dir_dirty (Suc n) dirty dir =
     (if dir = dot \<or> dir = ''/'' then False
      else dir \<in> set dirty \<or> dir_dirty n dirty (path_dir dir))"

definition isPathDirty :: "string list \<Rightarrow> string \<Rightarrow> bool" where
  "isPathDirty dirty p = (p \<in> set dirty \<or> dir_dirty (length p + 1) dirty (path_dir p))"

definition dirtyArtifact :: "plan_env \<Rightarrow> PlanMission \<Rightarrow> string \<Rightarrow> string list \<Rightarrow> string option" where
  "dirtyArtifact env m checkCmd artifacts =
     (if pmWorkRoot m = [] \<or> artifacts = [] then None
      else case peGitStatus env of
        None \<Rightarrow> None
      | Some txt \<Rightarrow>
          find (\<lambda>p. is_local p \<and> isPathDirty (parseDirtyPaths txt) p
                    \<and> (checkCmd = [] \<or> cmdNamesArtifact checkCmd p) \<and> peLstat env p)
            (map cleanArtifact artifacts))"

section \<open>Probing the checks\<close>

definition probe_timeout_text :: string where "probe_timeout_text = ''1m0s''"

definition probe :: "plan_env \<Rightarrow> string option \<Rightarrow> string \<Rightarrow> VerifyResult option" where
  "probe env parked cmd = runVerifyTimed (peProbe env parked cmd) probe_timeout_text"

definition passesWithoutArtifact :: "plan_env \<Rightarrow> PlanMission \<Rightarrow> string \<Rightarrow> string \<Rightarrow> bool" where
  "passesWithoutArtifact env m checkCmd artifact =
     (if pmWorkRoot m = [] \<or> artifact = [] then True
      else if \<not> peCanPark env artifact then True
      else case probe env (Some artifact) checkCmd of None \<Rightarrow> False | Some r \<Rightarrow> vrPassed r)"

definition dependencyDirs :: "string list" where
  "dependencyDirs = [''vendor/'', ''node_modules/'', ''.venv/'', ''bin/'']"

definition installedByWork :: "string \<Rightarrow> bool" where
  "installedByWork cmd =
     (case fields_func is_space cmd of
        [] \<Rightarrow> False
      | w # _ \<Rightarrow> \<not> has_prefix w ''/'' \<and> list_ex (has_prefix (path_clean w)) dependencyDirs)"

definition shellNotFound :: rx where
  "shellNotFound = seqs [Bot, opt (lit ''/bin/''), alts [lit ''sh'', lit ''bash'', lit ''dash''], lit '': '',
     opt (seqs [plus_rx (Cls is_digit), lit '': '']), plus_rx (none_of '':''), lit '': '',
     opt (lit ''command ''), lit ''not found'', Eot]"

definition lastLine :: "string \<Rightarrow> string" where
  "lastLine s =
     (case filter (\<lambda>l. l \<noteq> []) (map trim_space (split_on (\<lambda>c. c = newline_char)
             (rev (dropWhile (\<lambda>c. c = newline_char) (rev s))))) of
        [] \<Rightarrow> []
      | ls \<Rightarrow> last ls)"

definition replan_waived :: "plan_env \<Rightarrow> PlanMission \<Rightarrow> PlanUnit \<Rightarrow> bool" where
  "replan_waived env m u =
     (pmReplanUsed m \<and>
      (case dirtyArtifact env m (uCheckCmd u) (uArtifacts u) of
         None \<Rightarrow> False
       | Some anchor \<Rightarrow> \<not> passesWithoutArtifact env m (uCheckCmd u) anchor))"

definition missing_command :: "VerifyResult \<Rightarrow> bool" where
  "missing_command r = (vrExitCode r = 127 \<or> MatchString shellNotFound (lastLine (vrExcerpt r)))"

definition probe_unit :: "plan_env \<Rightarrow> PlanMission \<Rightarrow> bool \<Rightarrow> PlanUnit \<Rightarrow> plan_error option" where
  "probe_unit env m bootstrapFirst u =
     (if trim_space (uCheckCmd u) = [] then None
      else case probe env None (uCheckCmd u) of
        None \<Rightarrow> None
      | Some r \<Rightarrow>
          if vrTimedOut r then None
          else if vrPassed r then
            (if replan_waived env m u then None else Some (PassesAlready (uTitle u) (uCheckCmd u)))
          else if missing_command r then
            (if bootstrapFirst \<or> installedByWork (uCheckCmd u) then None
             else Some (MissingCommand (uTitle u) (uCheckCmd u) (lastLine (vrExcerpt r))))
          else None)"

definition probeCheckCmds :: "plan_env \<Rightarrow> PlanMission \<Rightarrow> Plan \<Rightarrow> plan_error option" where
  "probeCheckCmds env m plan =
     (if \<not> peSandbox env then None
      else first_error (probe_unit env m (case plUnits plan of [] \<Rightarrow> False | u # _ \<Rightarrow> uBootstrap u))
             (plUnits plan))"

definition acceptPlan :: "plan_env \<Rightarrow> PlanMission \<Rightarrow> string \<Rightarrow> plan_error + Plan" where
  "acceptPlan env m raw =
     (case parsePlan env raw of
        Inl e \<Rightarrow> Inl e
      | Inr plan \<Rightarrow>
          if plInfeasible plan then Inr plan
          else case checkPlanGates (peLstat env) (peTracked env) plan m of
            Some e \<Rightarrow> Inl e
          | None \<Rightarrow>
              (case probeCheckCmds env m plan of
                 Some e \<Rightarrow> Inl e
               | None \<Rightarrow>
                   if pmKind m = KindCoding \<and> granularityWaivable (pmPlanGate m)
                      \<and> checkUnitGranularity plan \<noteq> None
                   then Inr (plan\<lparr>plGranularityWaived := True\<rparr>) else Inr plan))"

section \<open>The plan session and the plan turn\<close>

text \<open>What a model turn ended with: a failure, a recorded question, or the arguments of its
  sentinel call (empty when it made none).\<close>

datatype turn_end = TurnError string | TurnAsked | TurnSaid string

datatype session_error = SessionFailed string | SessionAsked | NoSentinel | PlanRejected plan_error

definition planUnitTitles :: "plan_env \<Rightarrow> string \<Rightarrow> string list" where
  "planUnitTitles env raw =
     (case decodePlanStrict env (strip_fences raw) of
        Inl _ \<Rightarrow> []
      | Inr p \<Rightarrow> if plInfeasible p then [] else map uTitle (plUnits p))"

definition droppedUnitTitles :: "string list \<Rightarrow> Plan \<Rightarrow> string list" where
  "droppedUnitTitles before plan = filter (\<lambda>t. t \<notin> set (map uTitle (plUnits plan))) before"

text \<open>The recovery turn runs against the gate state with an in-turn granularity rejection noted.
  A question asked in the recovery turn is not looked at.\<close>

definition recover_plan ::
    "plan_env \<Rightarrow> PlanMission \<Rightarrow> string list \<Rightarrow> turn_end \<Rightarrow> session_error + Plan" where
  "recover_plan env m firstTitles t =
     (case t of
        TurnError e \<Rightarrow> Inl (SessionFailed e)
      | TurnAsked \<Rightarrow> Inl NoSentinel
      | TurnSaid args \<Rightarrow>
          if args = [] then Inl NoSentinel
          else case acceptPlan env m args of
            Inl e \<Rightarrow> Inl (PlanRejected e)
          | Inr plan \<Rightarrow>
              let dropped = droppedUnitTitles firstTitles plan in
              Inr (plan\<lparr>plScopeDropped :=
                (if pgRepoDestination (pmPlanGate m)
                 then filter (\<lambda>t. \<not> pushesOrOpensPR t []) dropped else dropped)\<rparr>))"

definition PlanSession ::
    "plan_env \<Rightarrow> PlanMission \<Rightarrow> turn_end \<Rightarrow> turn_end \<Rightarrow> session_error + Plan" where
  "PlanSession env m t1 t2 =
     (case t1 of
        TurnError e \<Rightarrow> Inl (SessionFailed e)
      | TurnAsked \<Rightarrow> Inl SessionAsked
      | TurnSaid args \<Rightarrow>
          if args = [] then recover_plan env m [] t2
          else case acceptPlan env m args of
            Inr plan \<Rightarrow> Inr plan
          | Inl e \<Rightarrow>
              let m' = (if names_granularity e
                        then m\<lparr>pmPlanGate := (pmPlanGate m)\<lparr>pgGranularityRejected := True\<rparr>\<rparr> else m)
              in recover_plan env m' (planUnitTitles env args) t2)"

definition payload_str :: "payload \<Rightarrow> string \<Rightarrow> string option" where
  "payload_str p k = (case map_of p k of None \<Rightarrow> Some [] | Some (JStr s) \<Rightarrow> Some s | _ \<Rightarrow> None)"

definition payload_bool :: "payload \<Rightarrow> string \<Rightarrow> bool option" where
  "payload_bool p k = (case map_of p k of None \<Rightarrow> Some False | Some (JBool b) \<Rightarrow> Some b | _ \<Rightarrow> None)"

definition plan_turn_event :: "payload \<Rightarrow> PlanGateState \<Rightarrow> PlanGateState" where
  "plan_turn_event p g =
     (case (payload_str p ''phase'', payload_bool p ''ok'', payload_str p ''input'', payload_str p ''reason'') of
        (Some ph, Some ok, Some inp, Some reason) \<Rightarrow>
          if ph \<noteq> ''plan'' then g
          else if ok then g\<lparr>pgLastRejection := []\<rparr>
          else if inp = ''worker_failed'' then
            g\<lparr>pgLastRejection := reason,
              pgGranularityRejected := pgGranularityRejected g \<or> str_contains reason granularityMarker\<rparr>
          else g
      | _ \<Rightarrow> g)"

definition gate_event :: "EventDraft \<Rightarrow> PlanGateState \<Rightarrow> PlanGateState" where
  "gate_event e g =
     (if evKind e = ''mission.plan_granularity_waived'' then g\<lparr>pgGranularityWaived := True\<rparr>
      else if evKind e = ''mission.turn'' then plan_turn_event (evPayload e) g else g)"

definition planGateState :: "bool \<Rightarrow> EventDraft list \<Rightarrow> PlanGateState" where
  "planGateState repoDestination lg =
     fold gate_event lg
       \<lparr>pgGranularityRejected = False, pgGranularityWaived = False, pgLastRejection = [],
        pgRepoDestination = repoDestination\<rparr>"

definition artifactKey :: "string list \<Rightarrow> string" where
  "artifactKey artifacts =
     (if artifacts = [] then [] else str_join [CHR 0x00] (sort (map cleanArtifact artifacts)))"

definition unit_key :: "PlanUnit \<Rightarrow> string" where
  "unit_key u = uTitle u @ CHR 0x00 # uCheckCmd u"

text \<open>The last prior verified unit with the key, as the later write to a Go map wins.\<close>

definition prior_with :: "(PlanUnit \<Rightarrow> bool) \<Rightarrow> PlanUnit list \<Rightarrow> PlanUnit option" where
  "prior_with match prior = find (\<lambda>u. verified u \<and> match u) (rev prior)"

definition restore_unit :: "PlanUnit list \<Rightarrow> PlanUnit \<Rightarrow> PlanUnit" where
  "restore_unit prior u =
     (case prior_with (\<lambda>p. unit_key p = unit_key u) prior of
        Some prev \<Rightarrow> u\<lparr>uHarnessPassed := True, uPasses := uPasses prev\<rparr>
      | None \<Rightarrow>
          let k = artifactKey (uArtifacts u) in
          if k = [] then u
          else case prior_with (\<lambda>p. artifactKey (uArtifacts p) = k) prior of
            Some _ \<Rightarrow> u\<lparr>uHarnessPassed := True, uPasses := False\<rparr>
          | None \<Rightarrow> u)"

definition restorePassedUnits :: "PlanUnit list \<Rightarrow> PlanUnit list \<Rightarrow> PlanUnit list" where
  "restorePassedUnits us prior = map (restore_unit prior) us"

text \<open>\<open>runPlan\<close> on a log and the plan of the row: the events it appends, the plan it stores and
  the input it returns.\<close>

record plan_turn =
  ptLog :: "EventDraft list"
  ptPlan :: "PlanUnit list"
  ptInput :: "session_error + StepInput"

definition runPlan ::
    "plan_env \<Rightarrow> PlanMission \<Rightarrow> bool \<Rightarrow> EventDraft list \<Rightarrow> PlanUnit list \<Rightarrow> turn_end \<Rightarrow> turn_end \<Rightarrow> plan_turn"
  where
  "runPlan env m repoDestination lg prior t1 t2 =
     (case PlanSession env (m\<lparr>pmPlanGate := planGateState repoDestination lg\<rparr>) t1 t2 of
        Inl e \<Rightarrow> \<lparr>ptLog = lg, ptPlan = prior, ptInput = Inl e\<rparr>
      | Inr plan \<Rightarrow>
          let n = JInt (int (length (plUnits plan)));
              lg = (if plGranularityWaived plan
                     then lg @ [event ''mission.plan_granularity_waived'' [(''units'', n)]] else lg)
          in if plInfeasible plan then
               \<lparr>ptLog = lg @ [event ''mission.plan_infeasible'' [(''reason'', JStr (plInfeasibleReason plan))]],
                ptPlan = prior,
                ptInput = Inr ((input InputPlanInfeasible)\<lparr>inReason := plInfeasibleReason plan\<rparr>)\<rparr>
             else
               \<lparr>ptLog = lg @ [event ''mission.plan_created'' ((''units'', n) #
                    (if plAssumptions plan = [] then []
                     else [(''assumptions'', JStrs (concat (map (\<lambda>a. [paAssumption a, paDefault a])
                             (plAssumptions plan))))]))]
                  @ (if plScopeDropped plan = [] then []
                     else [event ''mission.plan_scope_dropped'' [(''titles'', JStrs (plScopeDropped plan))]]),
                ptPlan = (if pmReplanUsed m then restorePassedUnits (plUnits plan) prior else plUnits plan),
                ptInput = Inr (input InputPhaseComplete)\<rparr>)"

end
