(* ===== verification/Plan_Props.thy ===== *)
theory Plan_Props
  imports Plan_Accept Mission_Phases
begin

text \<open>
  What an accepted plan guarantees: every gate held for every unit, every check could fail
  on the tree it was probed on, the granularity waiver is spent at most once, and a replan
  keeps a unit's evidence only from a unit that had earned it.
\<close>

section \<open>Reading the gates\<close>

lemma first_error_None [simp]: "first_error f xs = None \<longleftrightarrow> (\<forall>x \<in> set xs. f x = None)"
  by (induction xs) (auto split: option.splits)

lemma or_else_None [simp]: "or_else a b = None \<longleftrightarrow> a = None \<and> b = None"
  by (simp add: or_else_def split: option.splits)

lemma shape_units_origin:
  "shape_units us = Inr vs \<Longrightarrow> v \<in> set vs \<Longrightarrow> \<exists>u \<in> set us. shape_unit u = Inr v"
  by (induction us arbitrary: vs) (auto split: sum.splits)

lemma trimNonEmpty_blank [simp]: "[] \<notin> set (trimNonEmpty xs)"
  by (auto simp: trimNonEmpty_def)

lemma shape_unit_sel:
  assumes "shape_unit u = Inr v"
  shows "uTitle v = uTitle u" "uCheckCmd v = uCheckCmd u" "uArtifacts v = uArtifacts u"
    "uEvidenceOnly v = uEvidenceOnly u" "uBootstrap v = uBootstrap u"
    "minUnitCriteria \<le> length (uCriteria v)" "length (uCriteria v) \<le> maxUnitCriteria"
    "[] \<notin> set (uCriteria v)"
  using assms by (auto simp: shape_unit_def Let_def split: if_splits option.splits)

lemma fresh_unit_sel [simp]:
  "uTitle (fresh_unit u) = uTitle u" "uCheckCmd (fresh_unit u) = uCheckCmd u"
  "uArtifacts (fresh_unit u) = uArtifacts u" "uEvidenceOnly (fresh_unit u) = uEvidenceOnly u"
  "uBootstrap (fresh_unit u) = uBootstrap u" "uCriteria (fresh_unit u) = uCriteria u"
  "uScope (fresh_unit u) = uScope u" "verified (fresh_unit u) = False"
  "uPasses (fresh_unit u) = False" "uHarnessPassed (fresh_unit u) = False"
  by (simp_all add: fresh_unit_def verified_def)

definition shaped_unit :: "PlanUnit \<Rightarrow> bool" where
  "shaped_unit u =
     (trim_space (uCheckCmd u) \<noteq> []
      \<and> first_shell_word (trim_space (uCheckCmd u)) \<notin> {''echo'', ''true'', '':'', ''printf''}
      \<and> \<not> str_contains (uCheckCmd u) ''$('' \<and> \<not> str_contains (uCheckCmd u) [backtick]
      \<and> \<not> MatchString checkCmdGitInvocation (uCheckCmd u)
      \<and> (uArtifacts u \<noteq> [] \<or> uEvidenceOnly u)
      \<and> 2 \<le> length (uCriteria u) \<and> length (uCriteria u) \<le> 6 \<and> [] \<notin> set (uCriteria u)
      \<and> \<not> verified u)"

lemma parsePlan_shaped:
  assumes "parsePlan env raw = Inr plan" and "\<not> plInfeasible plan" and "u \<in> set (plUnits plan)"
  shows "shaped_unit u"
proof -
  obtain p where d: "decodePlanStrict env (strip_fences raw) = Inr p"
    using assms(1) by (auto simp: parsePlan_def split: sum.splits)
  have np: "\<not> plInfeasible p"
    using assms(1,2) d by (auto simp: parsePlan_def infeasible_plan_def split: if_splits)
  let ?us = "normalize_plan (plUnits p)"
  have pre: "or_else (first_error substitution_check ?us)
      (or_else (first_error git_check ?us) (first_error artifact_check ?us)) = None"
    using assms(1) d np by (simp add: parsePlan_def Let_def split: if_splits option.splits)
  obtain vs where vs: "shape_units ?us = Inr vs"
    using assms(1) d np by (cases "shape_units ?us") (simp_all add: parsePlan_def Let_def pre split: if_splits)
  have post: "or_else (first_error noop_check vs) (first_error (shell_check (peShell env)) vs) = None"
    using assms(1) d np vs
    by (cases "or_else (first_error noop_check vs) (first_error (shell_check (peShell env)) vs)")
       (simp_all add: parsePlan_def Let_def pre split: if_splits)
  have p: "plan = p\<lparr>plUnits := map fresh_unit vs\<rparr>"
    using assms(1) d np vs by (simp add: parsePlan_def Let_def pre post split: if_splits)
  from assms(3) p obtain v where v: "v \<in> set vs" "u = fresh_unit v" by auto
  then obtain w where w: "w \<in> set (normalize_plan (plUnits p))" "shape_unit w = Inr v"
    using shape_units_origin [OF vs] by blast
  have "noop_check v = None" "substitution_check w = None" "git_check w = None" "artifact_check w = None"
    using pre post v(1) w(1) by simp_all
  with shape_unit_sel [OF w(2)] v(2) show ?thesis
    by (auto simp: shaped_unit_def noop_check_def substitution_check_def git_check_def artifact_check_def
        minUnitCriteria_def maxUnitCriteria_def Let_def split: if_splits)
qed

text \<open>A bootstrap unit stands first and only in a coding mission.\<close>

lemma bootstrap_loop_later:
  "bootstrap_loop m i first us = None \<Longrightarrow> i \<noteq> 0 \<or> first \<noteq> None \<Longrightarrow> u \<in> set us \<Longrightarrow> \<not> uBootstrap u"
  by (induction m i first us rule: bootstrap_loop.induct) (auto split: if_splits option.splits)

lemma checkBootstrap_first:
  assumes "checkBootstrap plan m = None" and "i < length (plUnits plan)" and "uBootstrap (plUnits plan ! i)"
  shows "i = 0 \<and> pmKind m = KindCoding"
proof (cases "plUnits plan")
  case Nil
  with assms(2) show ?thesis by simp
next
  case (Cons v vs)
  obtain first where "bootstrap_loop m (Suc 0) first vs = None"
    using assms(1) Cons by (auto simp: checkBootstrap_def split: if_splits)
  then have later: "\<not> uBootstrap u" if "u \<in> set vs" for u
    using bootstrap_loop_later that by blast
  have "i = 0"
  proof (rule ccontr)
    assume "i \<noteq> 0"
    then have "plUnits plan ! i \<in> set vs" using assms(2) Cons by (cases i) auto
    with later assms(3) show False by blast
  qed
  with assms(1,3) Cons show ?thesis by (auto simp: checkBootstrap_def split: if_splits)
qed

text \<open>A unit with artifacts has one no earlier unit lists.\<close>

definition own_artifact :: "PlanUnit list \<Rightarrow> nat \<Rightarrow> bool" where
  "own_artifact us i =
     (\<exists>a \<in> set (map cleanArtifact (uArtifacts (us ! i))).
        \<forall>j < i. a \<notin> set (map cleanArtifact (uArtifacts (us ! j))))"

lemma own_loop_None:
  "own_loop seen us = None \<Longrightarrow> i < length us \<Longrightarrow> uArtifacts (us ! i) \<noteq> [] \<Longrightarrow>
   \<exists>a \<in> set (map cleanArtifact (uArtifacts (us ! i))). a \<notin> set seen \<and>
     (\<forall>j < i. a \<notin> set (map cleanArtifact (uArtifacts (us ! j))))"
proof (induction us arbitrary: seen i)
  case (Cons u us)
  let ?as = "map cleanArtifact (uArtifacts u)"
  have rest: "own_loop (seen @ ?as) us = None" and own: "?as = [] \<or> \<not> set ?as \<subseteq> set seen"
    using Cons.prems(1) by (auto simp: Let_def split: if_splits)
  show ?case
  proof (cases i)
    case 0
    with own Cons.prems(3) show ?thesis by auto
  next
    case (Suc k)
    have "k < length us" "uArtifacts (us ! k) \<noteq> []" using Cons.prems(2,3) Suc by simp_all
    from Cons.IH [OF rest this] obtain a where a: "a \<in> set (map cleanArtifact (uArtifacts (us ! k)))"
      "a \<notin> set (seen @ ?as)" "\<forall>j < k. a \<notin> set (map cleanArtifact (uArtifacts (us ! j)))" by blast
    have "a \<notin> set (map cleanArtifact (uArtifacts ((u # us) ! j)))" if "j < Suc k" for j
      using that a by (cases j) simp_all
    with a Suc show ?thesis by (intro bexI [of _ a]) simp_all
  qed
qed simp

lemma checkOwnArtifacts_own:
  "checkOwnArtifacts plan = None \<Longrightarrow> i < length (plUnits plan) \<Longrightarrow> uArtifacts (plUnits plan ! i) \<noteq> [] \<Longrightarrow>
   own_artifact (plUnits plan) i"
  unfolding checkOwnArtifacts_def own_artifact_def using own_loop_None by blast

text \<open>What the mission-dependent gates leave of a unit.\<close>

definition gated_unit :: "PlanMission \<Rightarrow> PlanUnit \<Rightarrow> bool" where
  "gated_unit m u =
     (\<not> MatchString emptyOutputIdiom (uCheckCmd u) \<and> \<not> isGrepPipeline (uCheckCmd u)
      \<and> (pgRepoDestination (pmPlanGate m) \<longrightarrow> \<not> pushesOrOpensPR (uTitle u) (uCheckCmd u))
      \<and> (pmKind m = KindCoding \<and> codeLanguages (uArtifacts u) \<noteq> [] \<longrightarrow>
           invokesToolchain (uCheckCmd u) (codeLanguages (uArtifacts u))))"

lemma checkPlanGates_gated:
  assumes "checkPlanGates lstat tracked plan m = None" and "u \<in> set (plUnits plan)"
  shows "gated_unit m u"
  using assms
  by (auto simp: checkPlanGates_def gated_unit_def check_cmd_shape_def checkHarnessDelivery_def
      checkCodeFloor_def Let_def split: if_splits option.splits)

lemma checkPlanGates_parts:
  assumes "checkPlanGates lstat tracked plan m = None"
  shows "checkBootstrap plan m = None" "checkOwnArtifacts plan = None"
    "pmKind m = KindCoding \<Longrightarrow> \<not> granularityWaivable (pmPlanGate m) \<Longrightarrow> checkUnitGranularity plan = None"
  using assms by (auto simp: checkPlanGates_def split: if_splits option.splits)

lemma acceptPlan_cases:
  assumes "acceptPlan env m raw = Inr plan" and "\<not> plInfeasible plan"
  obtains p where "parsePlan env raw = Inr p" "\<not> plInfeasible p" "plUnits plan = plUnits p"
    "checkPlanGates (peLstat env) (peTracked env) p m = None" "probeCheckCmds env m p = None"
    "plGranularityWaived plan = (plGranularityWaived p \<or> pmKind m = KindCoding
       \<and> granularityWaivable (pmPlanGate m) \<and> checkUnitGranularity p \<noteq> None)"
  using assms
  by (auto simp: acceptPlan_def split: sum.splits if_splits option.splits)

section \<open>Probing\<close>

lemma find_Some_prop: "find P xs = Some x \<Longrightarrow> x \<in> set xs \<and> P x"
  by (induction xs) (auto split: if_splits)

lemma replan_waived_anchor:
  assumes "replan_waived env m u" and "uCheckCmd u \<noteq> []"
  shows "pmReplanUsed m \<and> (\<exists>a \<in> set (map cleanArtifact (uArtifacts u)).
    cmdNamesArtifact (uCheckCmd u) a \<and> peLstat env a \<and>
    (case probe env (Some a) (uCheckCmd u) of None \<Rightarrow> True | Some r \<Rightarrow> \<not> vrPassed r))"
proof -
  obtain a where a: "dirtyArtifact env m (uCheckCmd u) (uArtifacts u) = Some a"
    "\<not> passesWithoutArtifact env m (uCheckCmd u) a" and r: "pmReplanUsed m"
    using assms(1) by (auto simp: replan_waived_def split: option.splits)
  have "a \<in> set (map cleanArtifact (uArtifacts u)) \<and> cmdNamesArtifact (uCheckCmd u) a \<and> peLstat env a"
    using a(1) assms(2)
    by (auto simp: dirtyArtifact_def split: if_splits option.splits dest: find_Some_prop)
  moreover have "case probe env (Some a) (uCheckCmd u) of None \<Rightarrow> True | Some r \<Rightarrow> \<not> vrPassed r"
    using a(2) by (auto simp: passesWithoutArtifact_def split: if_splits option.splits)
  ultimately show ?thesis using r by blast
qed

lemma trim_space_Nil [simp]: "trim_space [] = []"
  by (simp add: trim_both_def)

text \<open>A probed check that passed on the untouched tree is one whose own dirty artifact, taken
  away, makes it fail.\<close>

definition can_fail :: "plan_env \<Rightarrow> PlanMission \<Rightarrow> PlanUnit \<Rightarrow> bool" where
  "can_fail env m u =
     (case probe env None (uCheckCmd u) of
        None \<Rightarrow> True
      | Some r \<Rightarrow> vrTimedOut r \<or> \<not> vrPassed r \<or>
          pmReplanUsed m \<and> (\<exists>a \<in> set (map cleanArtifact (uArtifacts u)).
            cmdNamesArtifact (uCheckCmd u) a \<and> peLstat env a \<and>
            (case probe env (Some a) (uCheckCmd u) of None \<Rightarrow> True | Some q \<Rightarrow> \<not> vrPassed q)))"

lemma probe_unit_can_fail:
  assumes "probe_unit env m b u = None" and "trim_space (uCheckCmd u) \<noteq> []"
  shows "can_fail env m u"
proof -
  have "uCheckCmd u \<noteq> []" using assms(2) by auto
  with assms replan_waived_anchor [of env m u] show ?thesis
    unfolding can_fail_def probe_unit_def by (auto split: if_splits option.splits)
qed

section \<open>The waiver\<close>

definition waived_kind :: string where "waived_kind = ''mission.plan_granularity_waived''"

lemma plan_turn_event_waived [simp]: "pgGranularityWaived (plan_turn_event p g) = pgGranularityWaived g"
  by (simp add: plan_turn_event_def split: option.splits)

lemma gate_event_waived:
  "pgGranularityWaived (gate_event e g) = (pgGranularityWaived g \<or> evKind e = waived_kind)"
  by (simp add: gate_event_def waived_kind_def)

lemma fold_gate_waived:
  "pgGranularityWaived (fold gate_event lg g) = (pgGranularityWaived g \<or> (\<exists>e \<in> set lg. evKind e = waived_kind))"
  by (induction lg arbitrary: g) (auto simp: gate_event_waived)

lemma planGateState_waived:
  "pgGranularityWaived (planGateState repo lg) = (\<exists>e \<in> set lg. evKind e = waived_kind)"
  by (simp add: planGateState_def fold_gate_waived)

lemma parsePlan_not_waived: "parsePlan env raw = Inr plan \<Longrightarrow> \<not> plGranularityWaived plan"
  by (auto simp: parsePlan_def decodePlanStrict_def infeasible_plan_def Let_def
      split: sum.splits if_splits option.splits)

lemma acceptPlan_waived:
  "acceptPlan env m raw = Inr plan \<Longrightarrow> plGranularityWaived plan \<Longrightarrow> \<not> pgGranularityWaived (pmPlanGate m)"
  using parsePlan_not_waived [of env raw]
  by (auto simp: acceptPlan_def granularityWaivable_def split: sum.splits if_splits option.splits)

lemma recover_plan_waived:
  "recover_plan env m ts t = Inr plan \<Longrightarrow> plGranularityWaived plan \<Longrightarrow> \<not> pgGranularityWaived (pmPlanGate m)"
  using acceptPlan_waived [of env m]
  by (auto simp: recover_plan_def Let_def split: turn_end.splits sum.splits if_splits)

lemma PlanSession_waived:
  assumes "PlanSession env m t1 t2 = Inr plan" and "plGranularityWaived plan"
  shows "\<not> pgGranularityWaived (pmPlanGate m)"
  using assms acceptPlan_waived [of env m _ plan] recover_plan_waived [OF _ assms(2), of env]
  by (fastforce simp: PlanSession_def Let_def split: turn_end.splits sum.splits if_splits)

text \<open>One plan turn of a mission whose log other writers extended meanwhile; only \<open>runPlan\<close>
  writes the waiver's event.\<close>

type_synonym plan_input =
  "EventDraft list \<times> plan_env \<times> PlanMission \<times> bool \<times> PlanUnit list \<times> turn_end \<times> turn_end"

definition plan_step :: "EventDraft list \<Rightarrow> plan_input \<Rightarrow> EventDraft list" where
  "plan_step lg x =
     (case x of (evs, env, m, repo, prior, t1, t2) \<Rightarrow>
        ptLog (runPlan env m repo (lg @ filter (\<lambda>e. evKind e \<noteq> waived_kind) evs) prior t1 t2))"

lemma count_kind_none: "count_kind k es = 0 \<longleftrightarrow> (\<forall>e \<in> set es. evKind e \<noteq> k)"
  by (induction es) (auto simp: count_kind_def)

lemma runPlan_waivers:
  "count_kind waived_kind (ptLog (runPlan env m repo lg prior t1 t2)) \<le> count_kind waived_kind lg +
     (if \<exists>e \<in> set lg. evKind e = waived_kind then 0 else 1)"
proof -
  let ?m = "m\<lparr>pmPlanGate := planGateState repo lg\<rparr>"
  have that_waived: "\<not> plGranularityWaived plan" if "PlanSession env ?m t1 t2 = Inr plan" "\<exists>e \<in> set lg. evKind e = waived_kind" for plan
    using PlanSession_waived [OF that(1)] that(2) by (auto simp: planGateState_waived)
  show ?thesis
  proof (cases "PlanSession env ?m t1 t2")
    case (Inl e)
    then show ?thesis by (simp add: runPlan_def)
  next
    case (Inr plan)
    have others: "count_kind waived_kind (ptLog (runPlan env m repo lg prior t1 t2))
        = count_kind waived_kind lg + (if plGranularityWaived plan then 1 else 0)"
      using Inr
      by (cases "plInfeasible plan"; cases "plGranularityWaived plan"; cases "plScopeDropped plan = []")
         (simp_all add: runPlan_def Let_def waived_kind_def)
    from Inr that_waived [of plan] others show ?thesis by auto
  qed
qed

lemma one_more: "(n::nat) \<le> 1 \<Longrightarrow> n = 0 \<longleftrightarrow> \<not> E \<Longrightarrow> n + (if E then 0 else 1) \<le> 1"
  by (cases E) simp_all

interpretation waiver: input_machine plan_step "\<lambda>lg. count_kind waived_kind lg \<le> 1"
proof
  fix lg :: "EventDraft list" and x :: plan_input
  assume le: "count_kind waived_kind lg \<le> 1"
  obtain evs env m repo prior t1 t2 where x: "x = (evs, env, m, repo, prior, t1, t2)"
    by (metis prod_cases7)
  let ?lg = "lg @ filter (\<lambda>e. evKind e \<noteq> waived_kind) evs"
  have c: "count_kind waived_kind ?lg = count_kind waived_kind lg"
    by (simp add: count_kind_def)
  have z: "count_kind waived_kind ?lg = 0 \<longleftrightarrow> \<not> (\<exists>e \<in> set ?lg. evKind e = waived_kind)"
    by (simp only: count_kind_none) blast
  have "count_kind waived_kind ?lg + (if \<exists>e \<in> set ?lg. evKind e = waived_kind then 0 else 1) \<le> 1"
    by (rule one_more [OF _ z]) (simp only: c le)
  with runPlan_waivers [of env m repo ?lg prior t1 t2]
  have "count_kind waived_kind (ptLog (runPlan env m repo ?lg prior t1 t2)) \<le> 1" by (rule le_trans)
  then show "count_kind waived_kind (plan_step lg x) \<le> 1" unfolding plan_step_def x prod.case .
qed

section \<open>Evidence across a replan\<close>

lemma prior_with_Some: "prior_with P prior = Some p \<Longrightarrow> p \<in> set prior \<and> verified p \<and> P p"
  using find_Some_prop [of "\<lambda>u. verified u \<and> P u" "rev prior" p] by (simp add: prior_with_def)

definition earned :: "PlanUnit list \<Rightarrow> PlanUnit \<Rightarrow> bool" where
  "earned prior u =
     ((uPasses u \<longrightarrow> uHarnessPassed u \<and> (\<exists>p \<in> set prior. uPasses p \<and> unit_key p = unit_key u))
      \<and> (uHarnessPassed u \<longrightarrow> (\<exists>p \<in> set prior. verified p
            \<and> (unit_key p = unit_key u \<or> uArtifacts u \<noteq> [] \<and> artifactKey (uArtifacts p) = artifactKey (uArtifacts u)))))"

lemma restore_unit_earned:
  assumes "\<not> verified u"
  shows "earned prior (restore_unit prior u)"
proof -
  have u: "\<not> uPasses u" "\<not> uHarnessPassed u" using assms by (auto simp: verified_def)
  show ?thesis
  proof (cases "prior_with (\<lambda>p. unit_key p = unit_key u) prior")
    case (Some p)
    from prior_with_Some [OF this] u Some show ?thesis
      by (auto simp: earned_def restore_unit_def unit_key_def)
  next
    case key: None
    show ?thesis
    proof (cases "artifactKey (uArtifacts u) = []
        \<or> prior_with (\<lambda>p. artifactKey (uArtifacts p) = artifactKey (uArtifacts u)) prior = None")
      case True
      with key u show ?thesis by (auto simp: earned_def restore_unit_def Let_def)
    next
      case False
      then obtain p where p: "prior_with (\<lambda>p. artifactKey (uArtifacts p) = artifactKey (uArtifacts u)) prior = Some p"
        and k: "artifactKey (uArtifacts u) \<noteq> []" by auto
      have "uArtifacts u \<noteq> []" using k by (auto simp: artifactKey_def)
      with prior_with_Some [OF p] key p k u show ?thesis
        by (auto simp: earned_def restore_unit_def Let_def)
    qed
  qed
qed

lemma acceptPlan_fresh:
  assumes "acceptPlan env m raw = Inr plan" and "u \<in> set (plUnits plan)"
  shows "\<not> verified u"
proof (cases "plInfeasible plan")
  case True
  have "plUnits plan = []"
  proof -
    obtain p where p: "parsePlan env raw = Inr p" "plUnits plan = plUnits p" "plInfeasible p"
      using assms(1) True by (auto simp: acceptPlan_def split: sum.splits if_splits option.splits)
    then show ?thesis
      by (auto simp: parsePlan_def decodePlanStrict_def infeasible_plan_def Let_def
          split: sum.splits if_splits option.splits)
  qed
  with assms(2) show ?thesis by simp
next
  case False
  from acceptPlan_cases [OF assms(1) False] obtain p where
    p: "parsePlan env raw = Inr p" "\<not> plInfeasible p" "plUnits plan = plUnits p" by metis
  with assms(2) parsePlan_shaped [OF p(1,2)] show ?thesis by (simp add: shaped_unit_def)
qed

lemma recover_plan_fresh:
  "recover_plan env m ts t = Inr plan \<Longrightarrow> u \<in> set (plUnits plan) \<Longrightarrow> \<not> verified u"
  using acceptPlan_fresh [of env m]
  by (fastforce simp: recover_plan_def Let_def split: turn_end.splits sum.splits if_splits)

lemma PlanSession_fresh:
  "PlanSession env m t1 t2 = Inr plan \<Longrightarrow> u \<in> set (plUnits plan) \<Longrightarrow> \<not> verified u"
  using acceptPlan_fresh [of env m _ plan u] recover_plan_fresh [of env _ _ t2 plan u]
  by (fastforce simp: PlanSession_def Let_def split: turn_end.splits sum.splits if_splits)

lemma earned_unverified: "\<not> verified u \<Longrightarrow> earned prior u"
  by (simp add: earned_def verified_def)

lemma runPlan_earned:
  assumes "ptInput (runPlan env m repo lg prior t1 t2) = Inr i" and "inInput i = InputPhaseComplete"
    and "u \<in> set (ptPlan (runPlan env m repo lg prior t1 t2))"
  shows "earned prior u"
proof -
  let ?m = "m\<lparr>pmPlanGate := planGateState repo lg\<rparr>"
  obtain plan where p: "PlanSession env ?m t1 t2 = Inr plan" "\<not> plInfeasible plan"
    using assms(1,2) by (auto simp: runPlan_def Let_def split: sum.splits if_splits)
  have "u \<in> set (if pmReplanUsed m then restorePassedUnits (plUnits plan) prior else plUnits plan)"
    using assms(3) p by (simp add: runPlan_def Let_def split: if_splits)
  then show ?thesis
    using PlanSession_fresh [OF p(1)] restore_unit_earned earned_unverified
    by (auto simp: restorePassedUnits_def split: if_splits)
qed

section \<open>Properties\<close>


text \<open>C13. An accepted check can tell done from not done (issue #718, #993): run in the sandbox on
  the tree as it stands it failed or was inconclusive, except on a replan, where it may pass
  when one of the unit's own artifacts that it names exists already and it does not pass with
  that artifact taken away.\<close>

theorem accepted_checks_can_fail:
  assumes "acceptPlan env m raw = Inr plan" and "\<not> plInfeasible plan" and "peSandbox env"
    and "u \<in> set (plUnits plan)"
  shows "can_fail env m u"
proof -
  from acceptPlan_cases [OF assms(1,2)] obtain p where
    p: "parsePlan env raw = Inr p" "\<not> plInfeasible p" "plUnits plan = plUnits p"
      "probeCheckCmds env m p = None" by metis
  with assms(3,4) obtain b where "probe_unit env m b u = None"
    unfolding probeCheckCmds_def by (auto simp only: first_error_None if_False not_True_eq_False)
  moreover have "trim_space (uCheckCmd u) \<noteq> []"
    using parsePlan_shaped [OF p(1,2)] assms(4) p(3) by (simp add: shaped_unit_def)
  ultimately show ?thesis by (rule probe_unit_can_fail)
qed

text \<open>The granularity waiver is spent at most once (issue #1007): over any sequence of plan
  turns, with any environment, any model output and any other events in between, a mission's
  log gains at most one waiver.\<close>

theorem one_granularity_waiver:
  "count_kind waived_kind (foldl plan_step [] xs) \<le> 1"
  by (rule waiver.run_inv) simp

text \<open>C14. A replan keeps evidence only where it was earned (issue #718): in the plan a completed
  plan turn stores, a unit passes only if it is backed by a harness pass and a unit of the old
  plan with the same title and check had passed, and it keeps a harness pass only from a
  verified unit of the old plan with that title and check or with exactly its artifacts.\<close>

theorem replanned_evidence_is_earned:
  assumes "ptInput (runPlan env m repo lg prior t1 t2) = Inr i" and "inInput i = InputPhaseComplete"
    and "u \<in> set (ptPlan (runPlan env m repo lg prior t1 t2))"
  shows "(uPasses u \<longrightarrow> uHarnessPassed u \<and> (\<exists>p \<in> set prior. uPasses p \<and> unit_key p = unit_key u))
    \<and> (uHarnessPassed u \<longrightarrow> (\<exists>p \<in> set prior. verified p
         \<and> (unit_key p = unit_key u \<or> uArtifacts u \<noteq> [] \<and> artifactKey (uArtifacts p) = artifactKey (uArtifacts u))))"
  using runPlan_earned [OF assms] unfolding earned_def .


section \<open>A sample plan turn\<close>

definition demo_plan_unit :: PlanUnit where
  "demo_plan_unit = \<lparr>uTitle = ''notes'', uCheckCmd = ''grep -q x a.md'', uLegacyVerifyCmd = [],
     uArtifacts = [''a.md''], uEvidenceOnly = False, uBootstrap = False, uCriteria = [''p'', ''q''],
     uScope = [], uPasses = True, uHarnessPassed = True, uVerifyCheck = [], uVerifyExcerpt = [],
     uRegressed = False\<rparr>"

definition demo_submitted :: Plan where
  "demo_submitted = \<lparr>plUnits = [demo_plan_unit], plInfeasible = False, plInfeasibleReason = [],
     plAssumptions = [], plScopeDropped = [], plGranularityWaived = True\<rparr>"

definition demo_env :: plan_env where
  "demo_env = \<lparr>peDecode = (\<lambda>_. Inr demo_submitted), peShell = (\<lambda>_. None), peLstat = (\<lambda>_. False),
     peTracked = (\<lambda>_. False), peSandbox = True, peProbe = (\<lambda>_ _. Exited 2 ''no such file''),
     peCanPark = (\<lambda>_. True), peGitStatus = None\<rparr>"

definition demo_gate :: PlanGateState where
  "demo_gate = \<lparr>pgGranularityRejected = False, pgGranularityWaived = False, pgLastRejection = [],
     pgRepoDestination = False\<rparr>"

definition demo_mission :: PlanMission where
  "demo_mission = \<lparr>pmKind = ''general'', pmGoal = ''notes'', pmRepoURL = [], pmWorkRoot = ''/ws'',
     pmReplanUsed = True, pmPlanGate = demo_gate\<rparr>"

definition demo_accepted :: Plan where
  "demo_accepted = demo_submitted\<lparr>plUnits := [fresh_unit (demo_plan_unit\<lparr>uScope := [''a.md'']\<rparr>)],
     plGranularityWaived := False\<rparr>"

lemma demo_accepts: "acceptPlan demo_env demo_mission ''plan'' = Inr demo_accepted"
  by code_simp

lemma demo_accepted_sel [simp]:
  "plInfeasible demo_accepted = False" "length (plUnits demo_accepted) = 1" "plUnits demo_accepted \<noteq> []"
  "peSandbox demo_env"
  by (simp_all add: demo_accepted_def demo_submitted_def demo_env_def)


theorem accepted_checks_can_fail_witness: "can_fail demo_env demo_mission (hd (plUnits demo_accepted))"
  using accepted_checks_can_fail [OF demo_accepts, of "hd (plUnits demo_accepted)"] by simp

lemma demo_turn:
  "ptInput (runPlan demo_env demo_mission False [] [demo_plan_unit] (TurnSaid ''plan'') TurnAsked)
     = Inr (input InputPhaseComplete)"
  "ptPlan (runPlan demo_env demo_mission False [] [demo_plan_unit] (TurnSaid ''plan'') TurnAsked)
     = [demo_plan_unit\<lparr>uScope := [''a.md'']\<rparr>]"
  by code_simp+

theorem replanned_evidence_is_earned_witness:
  "\<exists>p \<in> set [demo_plan_unit]. uPasses p \<and> unit_key p = unit_key (demo_plan_unit\<lparr>uScope := [''a.md'']\<rparr>)"
  using replanned_evidence_is_earned [OF demo_turn(1), of "demo_plan_unit\<lparr>uScope := [''a.md'']\<rparr>"]
  unfolding demo_turn(2) by (simp add: demo_plan_unit_def)


text \<open>A question asked in the recovery turn is lost: the session fails as if no plan had been
  submitted, though the question is stored and the operator will be asked.\<close>

lemma recovery_question_is_lost: "PlanSession env m (TurnSaid []) TurnAsked = Inl NoSentinel"
  by (simp add: PlanSession_def recover_plan_def)

end
