(* ===== verification/Trust_Fence.thy ===== *)
theory Trust_Fence
  imports Go_Regexp
begin

text \<open>
  How text of unknown origin enters a prompt: the data-trust fence
  (\<open>internal/platform/trustfence/trustfence.go\<close>) around fetched pages, memories, mail and
  search results, and \<open>NeutralizeSlot\<close> (\<open>internal/brain/missions/sentinel.go\<close>), which breaks
  the framing sequences of the prompt templates. A panic is \<^const>\<open>None\<close>. Case folding is
  that of ASCII.
\<close>

section \<open>The fence\<close>

definition TagMemory :: string where "TagMemory = ''memory''"
definition TagUntrust :: string where "TagUntrust = ''untrusted_content''"

definition Open :: "string \<Rightarrow> string \<Rightarrow> string \<Rightarrow> string" where
  "Open tag source preamble =
     ''<'' @ tag @ '' source='' @ dquote # source @ dquote # '' trust='' @ dquote # ''data'' @ dquote #
     ''>'' @ CHR 0x0A # preamble"

definition Close :: "string \<Rightarrow> string" where
  "Close tag = ''</'' @ tag @ ''>''"

definition close_rx :: "string \<Rightarrow> rx" where
  "close_rx tag = seqs [ch CHR ''<'', Star sp, ch CHR ''/'', Star sp, liti tag]"

definition closePattern :: "string \<Rightarrow> rx option" where
  "closePattern tag =
     (if tag = TagMemory \<or> tag = TagUntrust then Some (close_rx tag) else None)"

definition Escape :: "string \<Rightarrow> string \<Rightarrow> string option" where
  "Escape tag s = map_option (\<lambda>re. ReplaceAllString re s (''&lt;/'' @ tag)) (closePattern tag)"

definition Wrap :: "string \<Rightarrow> string \<Rightarrow> string \<Rightarrow> string \<Rightarrow> string option" where
  "Wrap tag source preamble content =
     map_option (\<lambda>escaped.
       Open tag source preamble @ escaped
         @ (if has_suffix content [CHR 0x0A] then [] else [CHR 0x0A]) @ Close tag)
       (Escape tag content)"

section \<open>Framing sequences\<close>

definition neutralizePattern :: rx where
  "neutralizePattern = alts [lit ''</system'', lit ''<system'', lit ''{{'']"

definition zero_width_space :: string where
  "zero_width_space = [CHR 0xE2, CHR 0x80, CHR 0x8B]"

fun spread :: "string \<Rightarrow> string" where
  "spread (c # d # s) = c # zero_width_space @ spread (d # s)"
| "spread s = s"

definition NeutralizeSlot :: "string \<Rightarrow> string" where
  "NeutralizeSlot s = ReplaceAllStringFunc neutralizePattern s spread"

section \<open>What counts as closing the fence\<close>

text \<open>Any spelling of a closing tag: blanks around the slash, either case.\<close>

definition closes :: "string \<Rightarrow> string \<Rightarrow> bool" where
  "closes tag m =
     (\<exists>s1 s2 t. m = ''<'' @ s1 @ ''/'' @ s2 @ t \<and> list_all is_rx_space s1
        \<and> list_all is_rx_space s2 \<and> to_lower t = to_lower tag)"

lemma lang_liti: "lang (liti tag) t \<longleftrightarrow> to_lower t = to_lower tag"
proof -
  have "to_lower t = to_lower tag \<longleftrightarrow> list_all2 (\<lambda>c d. lower_char d = lower_char c) tag t"
    by (auto simp: to_lower_def list_eq_iff_nth_eq list_all2_conv_all_nth)
  then show ?thesis using lang_seqs_word [of "\<lambda>c d. lower_char d = lower_char c" tag t]
    by (simp add: liti_def chi_def [abs_def])
qed

lemma lang_close_rx: "lang (close_rx tag) m \<longleftrightarrow> closes tag m"
  by (auto simp: close_rx_def closes_def ch_def sp_def lang_liti lang_star_cls
      simp flip: liti_def) metis+

lemma plain_word: "plain_rx (seqs (map (\<lambda>c. Cls (p c)) w))"
proof (induction w)
  case (Cons c w)
  then show ?case by (cases w) auto
qed simp

lemma plain_close_rx: "plain_rx (close_rx tag)"
  using plain_word [of "\<lambda>c d. lower_char d = lower_char c" tag]
  by (simp add: close_rx_def ch_def sp_def liti_def chi_def [abs_def])

text \<open>Where a word that starts with \<open>a\<close> can stand around a replacement.\<close>

lemma word_outside:
  assumes eq: "p @ (b # v) @ q = x @ (a # w) @ y"
    and "a \<notin> set v" "b \<notin> set w" "\<And>q' y'. (b # v) @ q' \<noteq> (a # w) @ y'"
  shows "(\<exists>z. p = x @ (a # w) @ z) \<or> (\<exists>z. q = z @ (a # w) @ y)"
proof -
  from eq consider us where "p = x @ us" "us @ (b # v) @ q = (a # w) @ y"
    | us where "x = p @ us" "(b # v) @ q = us @ (a # w) @ y"
    by (auto simp: append_eq_append_conv2)
  then show ?thesis
  proof cases
    case 1
    show ?thesis
    proof (cases us)
      case Nil
      with 1 assms(4) show ?thesis by auto
    next
      case (Cons c us')
      with 1 have "us' @ (b # v) @ q = w @ y" "c = a" by auto
      then consider z where "us' = w @ z" | z where "w = us' @ z" "z \<noteq> []" "(b # v) @ q = z @ y"
        using append_eq_append_conv2 [of us' "(b # v) @ q" w y] by (metis append_Nil2)
      then show ?thesis
      proof cases
        case 1
        with \<open>p = x @ us\<close> Cons \<open>c = a\<close> show ?thesis by auto
      next
        case 2
        then show ?thesis using assms(3) by (cases z) auto
      qed
    qed
  next
    case 2
    show ?thesis
    proof (cases us)
      case Nil
      with 2 assms(4) show ?thesis by auto
    next
      case (Cons c us')
      with 2 have "v @ q = us' @ (a # w) @ y" by auto
      then consider z where "v = us' @ z" "z @ q = (a # w) @ y" | z where "us' = v @ z" "q = z @ (a # w) @ y"
        by (auto simp: append_eq_append_conv2)
      then show ?thesis
      proof cases
        case 1
        then show ?thesis using assms(2) by (cases z) auto
      next
        case 2
        then show ?thesis by blast
      qed
    qed
  qed
qed

text \<open>The replacement of a closing tag cannot take part in one.\<close>

lemma lower_char_eq:
  "lower_char d = lower_char c \<Longrightarrow> \<not> is_upper c \<Longrightarrow> \<not> is_lower c \<Longrightarrow> d = c"
  by (auto simp: lower_char_def is_upper_def is_lower_def split: if_splits)

lemma closes_letters:
  assumes "closes tag m" "tag = TagMemory \<or> tag = TagUntrust"
  obtains w where "m = CHR ''<'' # w" "CHR ''<'' \<notin> set w" "CHR ''&'' \<notin> set w"
    "last m \<noteq> CHR 0x0A" "w \<noteq> []"
proof -
  from assms(1) obtain s1 s2 t where m: "m = ''<'' @ s1 @ ''/'' @ s2 @ t" "list_all is_rx_space s1"
    "list_all is_rx_space s2" "to_lower t = to_lower tag" by (auto simp: closes_def)
  have low: "c \<in> set t \<Longrightarrow> lower_char c \<in> set (to_lower tag)" for c
    using m(4) by (metis image_eqI list.set_map to_lower_def)
  have lowered: "to_lower tag = tag"
    using assms(2) by (elim disjE) (simp_all only: TagMemory_def TagUntrust_def, code_simp+)
  have "\<not> list_ex (\<lambda>c. c \<in> set ''<&'' \<or> c = CHR 0x0A) tag"
    using assms(2) by (elim disjE) (simp_all only: TagMemory_def TagUntrust_def, code_simp+)
  then have tag: "c \<notin> set tag" if "c \<in> {CHR ''<'', CHR ''&'', CHR 0x0A}" for c
    using that by (auto simp: list_ex_iff)
  have same: "lower_char c = c" if "c \<in> {CHR ''<'', CHR ''&'', CHR 0x0A}" for c
    using that by (elim insertE emptyE) (simp_all add: lower_char_def is_upper_def)
  have t: "c \<notin> set t" if c: "c \<in> {CHR ''<'', CHR ''&'', CHR 0x0A}" for c
    using low [of c] same [OF c] tag [OF c] lowered by auto
  have "length t = length tag" using m(4) by (metis length_map to_lower_def)
  then have "t \<noteq> []" using assms(2) by (auto simp: TagMemory_def TagUntrust_def)
  then have "last m = last t" "last t \<in> set t" using m(1) by auto
  with t have last: "last m \<noteq> CHR 0x0A" by auto
  have sp: "c \<notin> set s1 \<union> set s2" if "c \<in> {CHR ''<'', CHR ''&''}" for c
  proof -
    from that have "\<not> is_rx_space c" by (elim insertE emptyE) (simp_all add: is_rx_space_def)
    with m(2,3) show ?thesis by (auto simp: list_all_iff)
  qed
  show thesis
    by (rule that [of "s1 @ ''/'' @ s2 @ t"]) (use m(1) t sp last in auto)
qed

lemma escaped_has_no_closer:
  assumes "Escape tag s = Some e" "closes tag m"
  shows "e \<noteq> x @ m @ y"
proof -
  from assms(1) have tag: "tag = TagMemory \<or> tag = TagUntrust"
    and e: "e = replace_from (close_rx tag) (\<lambda>_. ''&lt;/'' @ tag) None s"
    by (auto simp: Escape_def closePattern_def ReplaceAllString_def ReplaceAllStringFunc_def split: if_splits)
  from closes_letters [OF assms(2) tag] obtain w where w: "m = CHR ''<'' # w"
    "CHR ''&'' \<notin> set w" "w \<noteq> []" by blast
  have nonempty: "\<not> lang (close_rx tag) []" by (simp add: lang_close_rx closes_def)
  have lt: "CHR ''<'' \<notin> set (''lt;/'' @ tag)"
    using tag by (auto simp: TagMemory_def TagUntrust_def)
  have heads: "(CHR ''&'' # (''lt;/'' @ tag)) @ q' \<noteq> (CHR ''<'' # w) @ y'" for q' y' by simp
  have m: "lang (close_rx tag) m" using assms(2) by (simp add: lang_close_rx)
  show ?thesis
    unfolding e
  proof (rule replace_removes [OF plain_close_rx nonempty m])
    fix m' p q x y
    assume "p @ (''&lt;/'' @ tag) @ q = x @ m @ y"
    then have "p @ (CHR ''&'' # (''lt;/'' @ tag)) @ q = x @ (CHR ''<'' # w) @ y" by (simp add: w(1))
    from word_outside [OF this lt w(2) heads]
    show "(\<exists>z. p = x @ m @ z) \<or> (\<exists>z. q = z @ m @ y)" by (simp add: w(1))
  qed
qed

text \<open>
  The words of \<open>close_rx\<close> that sit in the closer itself: only the closer.
\<close>

lemma close_only_itself:
  assumes "closes tag m" "Close tag = x @ m @ y" "tag = TagMemory \<or> tag = TagUntrust"
  shows "x = [] \<and> m = ''</'' @ tag \<and> y = ''>''"
proof -
  from closes_letters [OF assms(1,3)] obtain w where w: "m = CHR ''<'' # w" by blast
  have no_lt: "CHR ''<'' \<notin> set (''/'' @ tag @ ''>'')"
    using assms(3) by (auto simp: TagMemory_def TagUntrust_def)
  have x: "x = []"
  proof (cases x)
    case (Cons c x')
    with assms(2) w have "''/'' @ tag @ ''>'' = x' @ (CHR ''<'' # w) @ y" by (simp add: Close_def)
    with no_lt show ?thesis by (metis in_set_conv_decomp append_Cons)
  qed
  from assms(1) obtain s1 s2 t where m: "m = ''<'' @ s1 @ ''/'' @ s2 @ t" "list_all is_rx_space s1"
    "list_all is_rx_space s2" "to_lower t = to_lower tag" by (auto simp: closes_def)
  have "s1 = []" using assms(2) m(1,2) x by (cases s1) (auto simp: Close_def is_rx_space_def)
  with assms(2) m(1) x have tail: "tag @ ''>'' = s2 @ t @ y" by (simp add: Close_def)
  have "s2 = []"
    using tail m(3) assms(3) by (cases s2) (auto simp: is_rx_space_def TagMemory_def TagUntrust_def)
  with tail have "tag @ ''>'' = t @ y" by simp
  moreover have "length t = length tag" using m(4) by (metis length_map to_lower_def)
  ultimately have "t = tag" "y = ''>''" by auto
  with \<open>s1 = []\<close> \<open>s2 = []\<close> x m(1) show ?thesis by simp
qed

section \<open>Content cannot leave the fence\<close>

text \<open>A word that starts at its only \<open>a\<close> and a text cut before another \<open>a\<close>.\<close>

lemma word_before:
  assumes "u @ a # v = x @ (a # w) @ y" "a \<notin> set w"
  shows "(\<exists>z. u = x @ (a # w) @ z) \<or> (\<exists>z. a # v = z @ (a # w) @ y)"
proof -
  from assms(1) consider z where "u = x @ z" "z @ a # v = (a # w) @ y"
    | z where "x = u @ z" "a # v = z @ (a # w) @ y"
    by (auto simp: append_eq_append_conv2)
  then show ?thesis
  proof cases
    case 1
    show ?thesis
    proof (cases z)
      case Nil
      with 1 show ?thesis by (intro disjI2 exI [of _ "[]"]) auto
    next
      case (Cons c z')
      with 1 have "z' @ a # v = w @ y" "c = a" by auto
      then obtain t where "z' = w @ t \<or> w = z' @ t \<and> a # v = t @ y"
        by (auto simp: append_eq_append_conv2)
      with assms(2) show ?thesis using 1 Cons \<open>c = a\<close> by (cases t) auto
    qed
  next
    case 2
    then show ?thesis by blast
  qed
qed

text \<open>C16. The only closing tag in what \<open>Wrap\<close> puts behind the opener, in any spelling, is the
  fence's own at the very end: fenced content can never terminate its fence.\<close>

theorem fenced_content_stays_inside:
  assumes "Wrap tag source preamble content = Some t"
  shows "\<exists>body. t = Open tag source preamble @ body
    \<and> (\<forall>x m y. body = x @ m @ y \<and> closes tag m \<longrightarrow> m = ''</'' @ tag \<and> y = ''>'')
    \<and> has_suffix body (Close tag)"
proof -
  let ?nl = "if has_suffix content [CHR 0x0A] then [] else [CHR 0x0A]"
  from assms obtain e where e: "Escape tag content = Some e"
    and t: "t = Open tag source preamble @ e @ ?nl @ Close tag" by (auto simp: Wrap_def)
  from e have tag: "tag = TagMemory \<or> tag = TagUntrust" by (auto simp: Escape_def closePattern_def split: if_splits)
  have "m = ''</'' @ tag \<and> y = ''>''" if eq: "e @ ?nl @ Close tag = x @ m @ y" and m: "closes tag m" for x m y
  proof -
    obtain w where w: "m = CHR ''<'' # w" "CHR ''<'' \<notin> set w" "last m \<noteq> CHR 0x0A" "w \<noteq> []"
      by (rule closes_letters [OF m tag])
    obtain v where v: "Close tag = CHR ''<'' # v" by (simp add: Close_def)
    from eq have "(e @ ?nl) @ CHR ''<'' # v = x @ (CHR ''<'' # w) @ y" by (simp only: v w(1) append_assoc)
    from word_before [OF this w(2)] consider z where "e @ ?nl = x @ m @ z" | z where "Close tag = z @ m @ y"
      unfolding v w(1) by blast
    then show ?thesis
    proof cases
      case 1
      have "\<exists>z. e = x @ m @ z"
      proof (cases "?nl = []")
        case True
        with 1 show ?thesis by auto
      next
        case False
        then have nl: "?nl = [CHR 0x0A]" by (meson)
        show ?thesis
        proof (cases z rule: rev_cases)
          case Nil
          with 1 nl have "e @ [CHR 0x0A] = x @ m" by simp
          then have "last m = CHR 0x0A" using w(1) by (metis append_is_Nil_conv last_appendR last_snoc list.distinct(1))
          with w(3) show ?thesis by simp
        next
          case (snoc z' c)
          with 1 nl have "e = x @ m @ z'" by simp
          then show ?thesis by blast
        qed
      qed
      with escaped_has_no_closer [OF e m] show ?thesis by blast
    next
      case 2
      with close_only_itself [OF m 2 tag] show ?thesis by simp
    qed
  qed
  moreover have "has_suffix (e @ ?nl @ Close tag) (Close tag)"
    by (simp add: has_suffix_iff suffix_append)
  ultimately show ?thesis unfolding t by blast
qed

lemma fenced_content_stays_inside_witness:
  "\<exists>body. the (Wrap TagMemory ''m'' [] ''a< /MEMORY>b'') = Open TagMemory ''m'' [] @ body
     \<and> has_suffix body (Close TagMemory)"
proof -
  obtain t where t: "Wrap TagMemory ''m'' [] ''a< /MEMORY>b'' = Some t"
    by (auto simp: Wrap_def Escape_def closePattern_def)
  from fenced_content_stays_inside [OF t] t show ?thesis by auto
qed

section \<open>\<open>NeutralizeSlot\<close>\<close>

lemma lang_lit: "lang (lit w) v \<longleftrightarrow> v = w"
proof -
  have "list_all2 (\<lambda>c d. d = c) w v \<longleftrightarrow> v = w" by (auto simp: list_all2_conv_all_nth list_eq_iff_nth_eq)
  then show ?thesis using lang_seqs_word [of "\<lambda>c d. d = c" w v] by (simp add: lit_def ch_def [abs_def])
qed

lemma lang_neutralize:
  "lang neutralizePattern m \<longleftrightarrow> m = ''</system'' \<or> m = ''<system'' \<or> m = ''{{''"
  by (simp add: neutralizePattern_def lang_lit)

lemma plain_neutralize: "plain_rx neutralizePattern"
  using plain_word [of "\<lambda>c d. d = c"] by (simp add: neutralizePattern_def lit_def ch_def [abs_def])

lemma neutralized_no_tag:
  assumes tag: "CHR ''<'' # w = ''</system'' \<or> CHR ''<'' # w = ''<system''"
  shows "NeutralizeSlot s \<noteq> x @ (CHR ''<'' # w) @ y"
  unfolding NeutralizeSlot_def ReplaceAllStringFunc_def
proof (rule replace_removes [OF plain_neutralize])
  show "\<not> lang neutralizePattern []" by (simp add: lang_neutralize)
  show "lang neutralizePattern (CHR ''<'' # w)" using tag by (auto simp: lang_neutralize)
  fix m p q x y
  assume m: "lang neutralizePattern m" and eq: "p @ spread m @ q = x @ (CHR ''<'' # w) @ y"
  have "\<exists>b v. spread m = b # zero_width_space @ v \<and> CHR ''<'' \<notin> set v \<and> b \<in> {CHR ''<'', CHR ''{''}"
    using m unfolding lang_neutralize by (auto simp: zero_width_space_def)
  then obtain b v where b: "spread m = b # zero_width_space @ v" "CHR ''<'' \<notin> set v" "b \<in> {CHR ''<'', CHR ''{''}"
    by blast
  have lt: "CHR ''<'' \<notin> set (zero_width_space @ v)" using b(2) by (simp add: zero_width_space_def)
  have fresh: "b \<notin> set w" using tag b(3) by auto
  have heads: "(b # zero_width_space @ v) @ q' \<noteq> (CHR ''<'' # w) @ y'" for q' y'
    using tag by (auto simp: zero_width_space_def)
  from word_outside [OF eq [unfolded b(1)] lt fresh heads]
  show "(\<exists>z. p = x @ (CHR ''<'' # w) @ z) \<or> (\<exists>z. q = z @ (CHR ''<'' # w) @ y)" .
qed

text \<open>No text that went through \<open>NeutralizeSlot\<close> spells an opening or a closing
  \<open>system\<close> tag, whatever model output it was made from.\<close>

theorem system_tags_never_survive:
  "\<not> str_contains (NeutralizeSlot s) ''<system'' \<and> \<not> str_contains (NeutralizeSlot s) ''</system''"
  using neutralized_no_tag [of "''system''" s] neutralized_no_tag [of "''/system''" s]
  by (auto simp: str_contains_iff sublist_def)

text \<open>
  Three braces in a row: the pattern takes the first two, and the replacement leaves the second
  next to the third.
\<close>

lemma neutralized_slot_remains:
  "NeutralizeSlot ''{{{goal}}'' = CHR ''{'' # zero_width_space @ ''{{goal}}''"
  "str_contains (NeutralizeSlot ''{{{goal}}'') ''{{''"
  by code_simp+

end
