(* ===== verification/Lockfile_Evidence.thy ===== *)
theory Lockfile_Evidence
  imports Mission_State Go_Path Trust_Fence Findings
begin

text \<open>
  The evidence for a lockfile change (D-140,
  \<open>internal/brain/missions/lockfile_evidence.go\<close>): which units own the change, what the two
  harness criteria say about the measured tests and advisories, and when the measurement of an
  unchanged tree is reused. Running commands and parsing their reports are the fields of
  \<open>lock_env\<close>; absence (\<open>nil\<close>) is \<^const>\<open>None\<close>. The advisory list and the counts of the
  \<open>mission.lockfile_evidence\<close> event are those of the evidence record and left out of its payload.
\<close>

section \<open>The evidence\<close>

record TestSummary =
  tsPassed :: int
  tsFailed :: int
  tsWarnings :: int
  tsParsed :: bool

record LockfileCriterion =
  lcText :: string
  lcStatus :: string
  lcDetail :: string

record LockfileEvidence =
  leLockfiles :: "string list"
  leFingerprint :: string
  leTestCmd :: string
  leTestExit :: int
  leTestTail :: string
  leTestsBefore :: "TestSummary option"
  leTestsAfter :: "TestSummary option"
  leVulnsBefore :: "int option"
  leVulnsAfter :: "int option"
  leAuditError :: string
  leAdvisories :: "string list"
  leCriteria :: "LockfileCriterion list"

definition lockfileMet :: string where "lockfileMet = ''met''"
definition lockfileNotMet :: string where "lockfileNotMet = ''not_met''"
definition lockfileNotMeasured :: string where "lockfileNotMeasured = ''not_measured''"
definition lockfileCheck :: string where "lockfileCheck = ''lockfile_evidence''"
definition lockfileTailCap :: nat where "lockfileTailCap = 1500"
definition prepareFactTailCap :: nat where "prepareFactTailCap = 600"

definition Met :: "LockfileEvidence \<Rightarrow> bool" where
  "Met e = list_all (\<lambda>c. lcStatus c \<noteq> lockfileNotMet) (leCriteria e)"

definition describeTests :: "TestSummary option \<Rightarrow> int \<Rightarrow> string" where
  "describeTests s code =
     (case s of
        Some t \<Rightarrow>
          if tsParsed t then
            int_dec (tsPassed t) @ '' passed, '' @ int_dec (tsFailed t) @ '' failed, ''
              @ int_dec (tsWarnings t) @ '' warnings''
              @ (if code \<noteq> 0 then '' (exit '' @ int_dec code @ '')'' else [])
          else ''exit '' @ int_dec code
      | None \<Rightarrow> ''exit '' @ int_dec code)"

definition describeCount :: "int option \<Rightarrow> string \<Rightarrow> string" where
  "describeCount n failure =
     (if failure \<noteq> [] then ''audit failed''
      else case n of None \<Rightarrow> ''not measured'' | Some k \<Rightarrow> int_dec k)"

definition BeforeTests :: "LockfileEvidence \<Rightarrow> string" where
  "BeforeTests e = (if leTestCmd e = [] then ''not measured'' else describeTests (leTestsBefore e) 0)"

definition AfterTests :: "LockfileEvidence \<Rightarrow> string" where
  "AfterTests e =
     (if leTestCmd e = [] then ''not measured'' else describeTests (leTestsAfter e) (leTestExit e))"

definition BeforeVulns :: "LockfileEvidence \<Rightarrow> string" where
  "BeforeVulns e = describeCount (leVulnsBefore e) []"

definition AfterVulns :: "LockfileEvidence \<Rightarrow> string" where
  "AfterVulns e = describeCount (leVulnsAfter e) (leAuditError e)"

section \<open>Which files, which units\<close>

definition lockfileNames :: "string list" where
  "lockfileNames = [''composer.lock'', ''package-lock.json'', ''npm-shrinkwrap.json'',
     ''pnpm-lock.yaml'', ''yarn.lock'', ''bun.lock'', ''bun.lockb'',
     ''uv.lock'', ''poetry.lock'', ''Pipfile.lock'', ''pdm.lock'',
     ''go.sum'', ''Gemfile.lock'', ''Cargo.lock'', ''gradle.lockfile'',
     ''packages.lock.json'', ''mix.lock'', ''pubspec.lock'', ''Podfile.lock'', ''Package.resolved'']"

definition changedLockfiles :: "string list \<Rightarrow> string list" where
  "changedLockfiles files = sort (filter (\<lambda>f. path_base f \<in> set lockfileNames) files)"

definition inScope :: "string \<Rightarrow> string list \<Rightarrow> bool" where
  "inScope file scope =
     (let got = normalizeFindingPath file
      in list_ex (\<lambda>s. let want = normalizeFindingPath s
           in want = [] \<or> got = want \<or> has_prefix got (want @ ''/'')) scope)"

definition owns_lockfile :: "string list \<Rightarrow> PlanUnit \<Rightarrow> bool" where
  "owns_lockfile lockfiles u =
     list_ex (\<lambda>l. inScope l (uArtifacts u) \<or> uScope u \<noteq> [] \<and> inScope l (uScope u)) lockfiles"

definition lockfileOwners :: "PlanUnit list \<Rightarrow> string list \<Rightarrow> int \<Rightarrow> nat list" where
  "lockfileOwners us lockfiles current =
     (if lockfiles = [] then []
      else
        let owners = filter (\<lambda>i. owns_lockfile lockfiles (us ! i)) [0..<length us]
        in if owners = [] \<and> us \<noteq> [] then
             [if current < 0 \<or> int (length us) \<le> current then length us - 1 else nat current]
           else owners)"

section \<open>Judging\<close>

definition securityGoalWords :: "string list" where
  "securityGoalWords = [''security'', ''vulnerab'', ''cve'', ''advisor'', ''ghsa'', ''osv'']"

definition securityGoal :: "string \<Rightarrow> bool" where
  "securityGoal goal = list_ex (str_contains (to_lower goal)) securityGoalWords"

definition worse_tests :: "TestSummary option \<Rightarrow> TestSummary option \<Rightarrow> string list" where
  "worse_tests before after =
     (case (before, after) of
        (Some b, Some a) \<Rightarrow>
          if tsParsed b \<and> tsParsed a then
            (if tsPassed a < tsPassed b
             then [''passing tests fell from '' @ int_dec (tsPassed b) @ '' to '' @ int_dec (tsPassed a)] else [])
            @ (if tsFailed b < tsFailed a
               then [''failures rose from '' @ int_dec (tsFailed b) @ '' to '' @ int_dec (tsFailed a)] else [])
            @ (if tsWarnings b < tsWarnings a
               then [''warnings rose from '' @ int_dec (tsWarnings b) @ '' to '' @ int_dec (tsWarnings a)] else [])
          else []
      | _ \<Rightarrow> [])"

definition tests_criterion :: "LockfileEvidence \<Rightarrow> LockfileCriterion" where
  "tests_criterion e =
     (let text = ''The baseline test command still exits 0 with no fewer passing tests and no new failures or warnings'';
          detail = ''before: '' @ BeforeTests e @ ''; after: '' @ AfterTests e;
          worse = worse_tests (leTestsBefore e) (leTestsAfter e)
      in if leTestCmd e = [] then
           \<lparr>lcText = text, lcStatus = lockfileNotMeasured, lcDetail = ''prepare found no baseline test command''\<rparr>
         else if leTestExit e \<noteq> 0 then
           \<lparr>lcText = text, lcStatus = lockfileNotMet,
            lcDetail = [backtick] @ leTestCmd e @ [backtick] @ '' exited '' @ int_dec (leTestExit e)
              @ ''; after: '' @ AfterTests e\<rparr>
         else if worse \<noteq> [] then
           \<lparr>lcText = text, lcStatus = lockfileNotMet,
            lcDetail = str_join '', '' worse @ '' ('' @ detail @ '')''\<rparr>
         else \<lparr>lcText = text, lcStatus = lockfileMet, lcDetail = detail\<rparr>)"

definition audit_verdict :: "LockfileEvidence \<Rightarrow> string \<times> string" where
  "audit_verdict e =
     (case leVulnsBefore e of
        None \<Rightarrow> (lockfileNotMeasured, ''prepare recorded no baseline audit'')
      | Some b \<Rightarrow>
          if leAuditError e \<noteq> [] then (lockfileNotMet, ''the audit after the change failed: '' @ leAuditError e)
          else
            let met = (lockfileMet, ''before: '' @ BeforeVulns e @ ''; after: '' @ AfterVulns e)
            in case leVulnsAfter e of
                 None \<Rightarrow> met
               | Some a \<Rightarrow>
                   if b < a
                   then (lockfileNotMet, ''advisories rose from '' @ int_dec b @ '' to '' @ int_dec a)
                   else met)"

definition audit_criterion :: "LockfileEvidence \<Rightarrow> bool \<Rightarrow> LockfileCriterion" where
  "audit_criterion e security =
     (let v = audit_verdict e
      in \<lparr>lcText = ''The osv-scanner advisory count is not higher than the baseline''
            @ (if security then ''; for this security goal it reaches 0, or the report names each remaining advisory with the reason (such as no fixed version)'' else []),
          lcStatus = fst v,
          lcDetail = snd v @
            (if fst v \<noteq> lockfileNotMeasured \<and> leAdvisories e \<noteq> []
             then ''; remaining: '' @ str_join '', '' (leAdvisories e) else [])\<rparr>)"

definition lockfileCriteria :: "LockfileEvidence \<Rightarrow> bool \<Rightarrow> LockfileCriterion list" where
  "lockfileCriteria e security = [tests_criterion e, audit_criterion e security]"

fun render_criteria :: "nat \<Rightarrow> LockfileCriterion list \<Rightarrow> string" where
  "render_criteria n [] = []"
| "render_criteria n (c # cs) =
     nat_dec n @ ''. '' @ lcText c @ '': '' @ lcStatus c @ '' ('' @ NeutralizeSlot (lcDetail c) @ '')''
       @ CHR 0x0A # render_criteria (n + 1) cs"

definition renderLockfileEvidence :: "LockfileEvidence \<Rightarrow> string" where
  "renderLockfileEvidence e =
     ''Lockfiles changed: '' @ NeutralizeSlot (str_join '', '' (leLockfiles e))
       @ ''. Harness criteria (measured by the harness, D-140):'' @ CHR 0x0A # render_criteria 1 (leCriteria e)
       @ (if leTestTail e \<noteq> []
          then ''Test output tail:'' @ CHR 0x0A # NeutralizeSlot (leTestTail e) @ [CHR 0x0A] else [])"

section \<open>Measuring\<close>

record AuditFact =
  afPath :: string
  afVulnerabilities :: int

record PrepareFacts =
  pfSteps :: "(string \<times> bool) list"
  pfTestCmd :: string
  pfTests :: "TestSummary option"
  pfAudit :: "AuditFact list"

definition npmGeneratedLockLabel :: string where
  "npmGeneratedLockLabel = ''package.json (lockfile generated by the harness, not in the repo)''"

definition tailString :: "string \<Rightarrow> nat \<Rightarrow> string" where
  "tailString s n = (if length s \<le> n then s else ''...'' @ drop (length s - n) s)"

datatype command_run = RunError | RunHung int string | RunExit int string

text \<open>
  \<open>lvTest\<close> and \<open>lvAudit\<close>: the test and audit commands run in the worktree, escapes stripped;
  \<open>lvSummary\<close>: the runner's summary line parsed; \<open>lvLockfiles\<close>: the lockfiles found now;
  \<open>lvMkdir\<close>: the error of creating the report's directory; \<open>lvReport\<close>: the report read and
  parsed to its advisory counts and identifiers, or what failed; \<open>lvNodeLock\<close>: a root node
  lockfile exists; \<open>lvFingerprint\<close>: HEAD, status and diff hashed, empty when git cannot answer.
\<close>

record lock_env =
  lvTest :: "string \<Rightarrow> command_run"
  lvSummary :: "string \<Rightarrow> TestSummary"
  lvAudit :: "string list \<Rightarrow> command_run"
  lvLockfiles :: "string list"
  lvMkdir :: "string option"
  lvReport :: "string + int list \<times> string list"
  lvNodeLock :: bool
  lvFingerprint :: string

definition baselineVulns :: "PrepareFacts \<Rightarrow> bool \<Rightarrow> int option" where
  "baselineVulns prep nodeLock =
     (if \<not> list_ex (\<lambda>s. fst s = ''audit'' \<and> snd s) (pfSteps prep) then None
      else Some (sum_list (map afVulnerabilities
        (filter (\<lambda>a. \<not> (afPath a = npmGeneratedLockLabel \<and> \<not> nodeLock)) (pfAudit prep)))))"

definition osvExitAdvisories :: int where "osvExitAdvisories = 1"
definition osvExitNoPackages :: int where "osvExitNoPackages = 128"

text \<open>\<open>auditAfter\<close>: none when the command could not be run.\<close>

definition auditAfter :: "lock_env \<Rightarrow> LockfileEvidence \<Rightarrow> LockfileEvidence option" where
  "auditAfter env e =
     (if lvLockfiles env = [] then Some (e\<lparr>leVulnsAfter := Some 0\<rparr>)
      else case lvMkdir env of
        Some err \<Rightarrow> Some (e\<lparr>leAuditError := ''creating prepare: '' @ err\<rparr>)
      | None \<Rightarrow>
        (case lvAudit env (lvLockfiles env) of
           RunError \<Rightarrow> None
         | RunHung code out \<Rightarrow> Some (e\<lparr>leAuditError := ''timed out after 3m0s''\<rparr>)
         | RunExit code out \<Rightarrow>
             if code = osvExitNoPackages then Some (e\<lparr>leVulnsAfter := Some 0\<rparr>)
             else if code \<noteq> 0 \<and> code \<noteq> osvExitAdvisories then
               Some (e\<lparr>leAuditError := ''osv-scanner exited '' @ int_dec code @ '': ''
                       @ tailString (trim_space out) prepareFactTailCap\<rparr>)
             else case lvReport env of
               Inl err \<Rightarrow> Some (e\<lparr>leAuditError := err\<rparr>)
             | Inr (counts, ids) \<Rightarrow>
                 Some (e\<lparr>leVulnsAfter := Some (sum_list counts), leAdvisories := ids\<rparr>)))"

definition run_tests :: "lock_env \<Rightarrow> LockfileEvidence \<Rightarrow> LockfileEvidence option" where
  "run_tests env e =
     (if leTestCmd e = [] then Some e
      else
        let finish = (\<lambda>code out summary.
              let e1 = e\<lparr>leTestExit := code, leTestsAfter := Some summary\<rparr>
              in Some (if code \<noteq> 0 then e1\<lparr>leTestTail := tailString (trim_space out) lockfileTailCap\<rparr> else e1))
        in case lvTest env (leTestCmd e) of
             RunError \<Rightarrow> None
           | RunHung code out \<Rightarrow>
               finish (-1) (out @ CHR 0x0A # ''[timed out after 10m0s]'') (lvSummary env out)
           | RunExit code out \<Rightarrow> finish code out (lvSummary env out))"

datatype measured = MeasureFailed | NoBaseline | Reused LockfileEvidence | Fresh LockfileEvidence

definition lockfileEvidence ::
    "lock_env \<Rightarrow> string \<Rightarrow> PrepareFacts option \<Rightarrow> LockfileEvidence option \<Rightarrow> string list \<Rightarrow> measured" where
  "lockfileEvidence env goal prepare prev lockfiles =
     (case prepare of
        None \<Rightarrow> NoBaseline
      | Some prep \<Rightarrow>
        let fp = lvFingerprint env;
            start = \<lparr>leLockfiles = lockfiles, leFingerprint = fp, leTestCmd = pfTestCmd prep,
              leTestExit = 0, leTestTail = [], leTestsBefore = pfTests prep, leTestsAfter = None,
              leVulnsBefore = None, leVulnsAfter = None, leAuditError = [], leAdvisories = [],
              leCriteria = []\<rparr>;
            measure =
              (case run_tests env start of
                 None \<Rightarrow> MeasureFailed
               | Some e1 \<Rightarrow>
                 (case (case baselineVulns prep (lvNodeLock env) of
                          None \<Rightarrow> Some e1
                        | Some b \<Rightarrow> auditAfter env (e1\<lparr>leVulnsBefore := Some b\<rparr>)) of
                    None \<Rightarrow> MeasureFailed
                  | Some e2 \<Rightarrow> Fresh (e2\<lparr>leCriteria := lockfileCriteria e2 (securityGoal goal)\<rparr>)))
        in case prev of
             Some p \<Rightarrow>
               if fp \<noteq> [] \<and> leFingerprint p = fp \<and> leLockfiles p = lockfiles then Reused p else measure
           | None \<Rightarrow> measure)"

section \<open>What a met criterion means\<close>

lemma Met_criteria:
  assumes "leCriteria e = lockfileCriteria e' s" "Met e"
  shows "(leTestCmd e' \<noteq> [] \<longrightarrow> leTestExit e' = 0 \<and> worse_tests (leTestsBefore e') (leTestsAfter e') = [])
    \<and> (leVulnsBefore e' \<noteq> None \<longrightarrow> leAuditError e' = [])
    \<and> (\<forall>b a. leVulnsBefore e' = Some b \<longrightarrow> leVulnsAfter e' = Some a \<longrightarrow> a \<le> b)"
  using assms
  by (auto simp: Met_def lockfileCriteria_def tests_criterion_def audit_criterion_def audit_verdict_def
      lockfileNotMet_def Let_def split: if_splits option.splits)

lemma run_tests_frame:
  "run_tests env e = Some e' \<Longrightarrow> leTestCmd e' = leTestCmd e \<and> leTestsBefore e' = leTestsBefore e"
  by (auto simp: run_tests_def Let_def split: if_splits command_run.splits)

lemma owners_exist:
  "lockfiles \<noteq> [] \<Longrightarrow> us \<noteq> [] \<Longrightarrow> lockfileOwners us lockfiles current \<noteq> []"
  by (simp add: lockfileOwners_def Let_def)

lemma owners_are_units:
  assumes "i \<in> set (lockfileOwners us lockfiles current)"
  shows "i < length us"
proof -
  let ?owners = "filter (\<lambda>i. owns_lockfile lockfiles (us ! i)) [0..<length us]"
  have lockfiles: "lockfiles \<noteq> []" using assms by (auto simp: lockfileOwners_def)
  have last: "length us - 1 < length us" if "us \<noteq> []" using that by simp
  show ?thesis
  proof (cases "?owners = [] \<and> us \<noteq> []")
    case True
    then have "lockfileOwners us lockfiles current =
        [if current < 0 \<or> int (length us) \<le> current then length us - 1 else nat current]"
      using lockfiles by (simp only: lockfileOwners_def Let_def if_True if_False simp_thms)
    with assms last True show ?thesis by (auto split: if_splits)
  next
    case False
    then have "lockfileOwners us lockfiles current = ?owners"
      using lockfiles by (simp only: lockfileOwners_def Let_def if_False)
    with assms have "i \<in> set ?owners" by simp
    then show ?thesis by simp
  qed
qed

end
