(* ===== verification/Danger.thy ===== *)
theory Danger
  imports Go_Regexp
begin

text \<open>
  The shell-command danger classifier (\<open>internal/brain/tools/danger.go\<close>): the rule table,
  the opaque forms, the blanking of quoted text and the joining of quoted words, and
  \<open>ClassifyCommand\<close>. Every pattern of the source is one \<^typ>\<open>rx\<close> term below.
\<close>

datatype DangerLevel = DangerSafe | DangerDestructive

definition dangerThreshold :: int where
  "dangerThreshold = 3"

record dangerRule =
  drName :: string
  drScore :: int
  drPattern :: rx

definition rule :: "string \<Rightarrow> int \<Rightarrow> rx \<Rightarrow> dangerRule" where
  "rule n k p = \<lparr>drName = n, drScore = k, drPattern = p\<rparr>"

section \<open>Patterns\<close>

definition sep_start :: rx where
  "sep_start = Alt Bot (Cls (\<lambda>c. is_rx_space c \<or> c \<in> set '';|&(''))"

definition cmd_start :: rx where
  "cmd_start = Alt Bot (Cls (\<lambda>c. is_rx_space c \<or> c \<in> set '';|&('' \<or> c = backtick))"

definition line_start :: rx where
  "line_start = Alt Bot (Cls (\<lambda>c. c \<in> set '';|&('' \<or> c = CHR 0x0A))"

definition dir_prefix :: rx where
  "dir_prefix = opt (seqs [ch CHR ''/'', Star (Cls (\<lambda>c. is_word c \<or> c \<in> set ''./-'')), ch CHR ''/''])"

definition word_end :: rx where
  "word_end = Alt sp Eot"

definition spaces :: rx where
  "spaces = plus_rx sp"

definition cmdWord_rx :: "rx \<Rightarrow> rx" where
  "cmdWord_rx w = seqs [cmd_start, dir_prefix, w, word_end]"

definition cmdWord :: "string \<Rightarrow> rx" where
  "cmdWord w = cmdWord_rx (lit w)"

definition shell_name :: rx where
  "shell_name = Seq (opt (alts [lit ''ba'', lit ''z'', lit ''da''])) (lit ''sh'')"

definition dangerRules :: "dangerRule list" where
  "dangerRules =
    [rule ''rm'' 3 (cmdWord ''rm''),
     rule ''rmdir'' 3 (cmdWord ''rmdir''),
     rule ''git-push'' 3 (seqs [sep_start, lit ''git'', spaces, lit ''push'', word_end]),
     rule ''git-reset-hard'' 3 (seqs [lit ''git'', spaces, lit ''reset'', spaces, lit ''--hard'']),
     rule ''git-clean'' 3 (seqs [lit ''git'', spaces, lit ''clean'', word_end]),
     rule ''sudo'' 3 (cmdWord ''sudo''),
     rule ''docker'' 3 (cmdWord ''docker''),
     rule ''truncate'' 3 (cmdWord ''truncate''),
     rule ''dd'' 3 (cmdWord ''dd''),
     rule ''mkfs'' 3 (seqs [sep_start, dir_prefix, lit ''mkfs'']),
     rule ''shred'' 3 (cmdWord ''shred''),
     rule ''find-exec'' 3 (seqs [sep_start, lit ''find'', sp, Star rx_dot, ch CHR ''-'',
       alts [lit ''exec'', lit ''delete'']]),
     rule ''pipe-to-shell'' 3 (seqs [alts [lit ''curl'', lit ''wget'', lit ''fetch''],
       Star (none_of ''|;''), ch CHR ''|'', Star sp, dir_prefix, shell_name]),
     rule ''pkg-install'' 3 (alts [seqs [lit ''apk'', spaces, lit ''add''],
       seqs [lit ''apt'', opt (lit ''-get''), spaces, lit ''install''],
       seqs [lit ''yum'', spaces, lit ''install''],
       seqs [lit ''dnf'', spaces, lit ''install''],
       seqs [lit ''brew'', spaces, lit ''install'']]),
     rule ''lang-pkg-install'' 3 (alts [seqs [lit ''npm'', spaces, lit ''i'', opt (lit ''nstall''), spaces,
         alts [lit ''-g'', lit ''--global'']],
       seqs [lit ''pip'', opt (lit ''3''), spaces, lit ''install''],
       seqs [lit ''gem'', spaces, lit ''install''],
       seqs [lit ''cargo'', spaces, lit ''install'']]),
     rule ''redirect-overwrite'' 3 (seqs [Alt Bot (none_of ''>''), ch CHR ''>'', Alt (none_of ''>'') Eot]),
     rule ''chmod-recursive'' 2 (seqs [alts [lit ''chmod'', lit ''chown''], spaces,
       alts [seqs [ch CHR ''-'', Star (Cls (\<lambda>c. is_upper c \<or> is_lower c)), ch CHR ''R''],
             lit ''--recursive'']]),
     rule ''kill'' 2 (cmdWord_rx (Seq (lit ''kill'') (opt (lit ''all'')))),
     rule ''mv'' 2 (cmdWord ''mv''),
     rule ''append-redirect'' 2 (lit ''>>'')]"

definition opaqueForms :: "(string \<times> rx) list" where
  "opaqueForms =
    [(''command-substitution'', Alt (lit ''$('') (ch backtick)),
     (''process-substitution'', Alt (lit ''<('') (lit ''>('')),
     (''variable-command'', seqs [alts [line_start, lit ''&&'', lit ''||''], Star sp, ch CHR ''$'',
        opt (ch CHR ''{''), Cls (\<lambda>c. is_upper c \<or> is_lower c \<or> c = CHR ''_'')]),
     (''eval-exec'', seqs [sep_start, alts [lit ''eval'', lit ''exec'', lit ''source''], word_end]),
     (''dot-source'', seqs [line_start, Star sp, ch CHR ''.'', spaces, nonspace]),
     (''interpreter-c'', Alt
        (seqs [sep_start, dir_prefix, shell_name, spaces, lit ''-c'', word_end])
        (seqs [alts [Seq (lit ''python'') (opt (any_of ''23'')), lit ''perl'', lit ''ruby'', lit ''node''],
           spaces, ch CHR ''-'', any_of ''ce'', word_end]))]"

definition harmlessRedirects :: rx where
  "harmlessRedirects = Alt
     (seqs [opt (Cls is_digit), ch CHR ''>'', opt (ch CHR ''>''), Star sp, lit ''/dev/null''])
     (seqs [opt (Cls is_digit), lit ''>&'', Cls is_digit])"

definition ifsExpansion :: rx where
  "ifsExpansion = seqs [ch CHR ''$'', opt (ch CHR ''{''), lit ''IFS'', opt (ch CHR ''}'')]"

section \<open>Quoting\<close>

text \<open>The scan for the closing quote: the segment's text and what follows the quote.\<close>

fun close_quote :: "char \<Rightarrow> string \<Rightarrow> (string \<times> string) option" where
  "close_quote q [] = None"
| "close_quote q (c # s) =
     (if c = q then Some ([], s)
      else if q = dquote \<and> c = backslash then
        (case s of
           [] \<Rightarrow> None
         | d # s' \<Rightarrow> map_option (\<lambda>(w, r). (c # d # w, r)) (close_quote q s'))
      else map_option (\<lambda>(w, r). (c # w, r)) (close_quote q s))"

lemma close_quote_length: "close_quote q s = Some (w, r) \<Longrightarrow> length w + length r < length s"
proof (induction q s arbitrary: w rule: close_quote.induct)
  case (2 q c s)
  then show ?case by (fastforce split: if_splits list.splits)
qed simp

definition keep_quotes :: "string \<Rightarrow> bool" where
  "keep_quotes seg = list_ex (\<lambda>c. c \<in> {CHR '' '', CHR 0x09, CHR 0x0A, backtick} \<or> c \<in> set '';|&('') seg"

function dequote_from :: "string \<Rightarrow> string option" where
  "dequote_from [] = Some []"
| "dequote_from (c # s) =
     (if c = backslash then
        (case s of [] \<Rightarrow> Some [] | d # s' \<Rightarrow> map_option (Cons d) (dequote_from s'))
      else if c = squote \<or> c = dquote then
        (case close_quote c s of
           None \<Rightarrow> None
         | Some (w, r) \<Rightarrow>
             map_option (\<lambda>t. (if keep_quotes w then c # w @ [c] else w) @ t) (dequote_from r))
      else map_option (Cons c) (dequote_from s))"
  by pat_completeness auto
termination by (relation "measure length") (auto dest: close_quote_length)

definition dequote :: "string \<Rightarrow> string" where
  "dequote s = (case dequote_from s of None \<Rightarrow> s | Some t \<Rightarrow> t)"

text \<open>\<open>blank_from q n s\<close>: inside quote \<open>q\<close>, \<open>n\<close> bytes after its start, \<open>s\<close> unread.\<close>

fun blank_from :: "char option \<Rightarrow> nat \<Rightarrow> string \<Rightarrow> string option" where
  "blank_from None n [] = Some []"
| "blank_from (Some q) n [] = None"
| "blank_from None n (c # s) =
     (if c = backslash then
        (case s of [] \<Rightarrow> Some [c] | d # s' \<Rightarrow> map_option (\<lambda>t. c # d # t) (blank_from None 0 s'))
      else if c = squote \<or> c = dquote then blank_from (Some c) 1 s
      else map_option (Cons c) (blank_from None 0 s))"
| "blank_from (Some q) n (c # s) =
     (if c = backslash \<and> q \<noteq> squote then
        (case s of [] \<Rightarrow> None | d # s' \<Rightarrow> blank_from (Some q) (n + 2) s')
      else if c = q then map_option ((@) (replicate (n + 1) (CHR '' ''))) (blank_from None 0 s)
      else blank_from (Some q) (n + 1) s)"

definition blankQuoted :: "string \<Rightarrow> string" where
  "blankQuoted s = (case blank_from None 0 s of None \<Rightarrow> s | Some t \<Rightarrow> t)"

section \<open>\<open>ClassifyCommand\<close>\<close>

definition opaqueRulePrefix :: string where
  "opaqueRulePrefix = ''opaque command (''"

definition IsOpaqueRationale :: "string list \<Rightarrow> bool" where
  "IsOpaqueRationale rules = (length rules = 1 \<and> has_prefix (hd rules) opaqueRulePrefix)"

definition scored_text :: "string \<Rightarrow> string" where
  "scored_text command =
     ReplaceAllString harmlessRedirects (ReplaceAllString ifsExpansion command '' '') '' ''"

definition rule_hits :: "string \<Rightarrow> dangerRule \<Rightarrow> bool" where
  "rule_hits command r =
     (let scored = scored_text command in
      if drName r = ''redirect-overwrite'' \<or> drName r = ''append-redirect''
      then MatchString (drPattern r) (blankQuoted scored)
      else MatchString (drPattern r) scored \<or> MatchString (drPattern r) (dequote scored))"

definition ClassifyCommand :: "string \<Rightarrow> DangerLevel \<times> string list" where
  "ClassifyCommand command =
     (case find (\<lambda>f. MatchString (snd f) command) opaqueForms of
        Some f \<Rightarrow> (DangerDestructive,
          [opaqueRulePrefix @ fst f @ ''): cannot be classified, approval required''])
      | None \<Rightarrow>
          let hits = filter (rule_hits command) dangerRules
          in (if dangerThreshold \<le> sum_list (map drScore hits) then DangerDestructive else DangerSafe,
              map drName hits))"

end
