(* ===== verification/Danger_Props.thy ===== *)
theory Danger_Props
  imports Danger
begin

text \<open>
  What the danger classifier guarantees: a destructive command word in command position is
  never safe, a safe verdict means no opaque form and no severe rule, quoting helpers keep
  what they must keep, and the two blind spots the tables leave open.
\<close>

section \<open>Plain commands\<close>

text \<open>A pattern that must read a character needs it in the text.\<close>

lemma redirect_needs: "matches harmlessRedirects st u \<Longrightarrow> CHR ''>'' \<in> set (snd st)"
  unfolding harmlessRedirects_def rx_defs
  by (auto simp: matches_Cls dest!: matches_suffix set_mono_suffix)

lemma ifs_needs: "matches ifsExpansion st u \<Longrightarrow> CHR ''$'' \<in> set (snd st)"
  unfolding ifsExpansion_def rx_defs
  by (auto simp: matches_Cls)

lemma scored_plain:
  assumes "CHR ''>'' \<notin> set command" and "CHR ''$'' \<notin> set command"
  shows "scored_text command = command"
proof -
  have "ReplaceAllString ifsExpansion command '' '' = command"
    unfolding ReplaceAllString_def ReplaceAllStringFunc_def
    by (rule replace_from_none) (use assms(2) in \<open>auto dest: ifs_needs set_mono_suffix\<close>)
  moreover have "ReplaceAllString harmlessRedirects command '' '' = command"
    unfolding ReplaceAllString_def ReplaceAllStringFunc_def
    by (rule replace_from_none) (use assms(1) in \<open>auto dest: redirect_needs set_mono_suffix\<close>)
  ultimately show ?thesis by (simp add: scored_text_def)
qed

section \<open>Command words\<close>

definition command_position :: "string \<Rightarrow> string \<Rightarrow> bool" where
  "command_position pre post =
     ((pre = [] \<or> is_rx_space (last pre) \<or> last pre \<in> set '';|&('' \<or> last pre = backtick)
      \<and> (post = [] \<or> is_rx_space (hd post)))"

lemma word_end_matches: "post = [] \<or> is_rx_space (hd post) \<Longrightarrow> \<exists>v. matches word_end (b, post) v"
  by (cases post) (auto simp: word_end_def sp_def matches_Cls intro: matches.eot)

lemma cmdWord_found:
  assumes "command_position pre post"
  shows "MatchString (cmdWord w) (pre @ w @ post)"
proof -
  have rest: "\<exists>v. matches (seqs [dir_prefix, lit w, word_end]) (b, w @ post) v" for b
  proof -
    have "matches dir_prefix (b, w @ post) (b, w @ post)" by (simp add: dir_prefix_def opt_def)
    moreover obtain v where "matches word_end (last_of b w, post) v"
      using word_end_matches [of post "last_of b w"] assms by (auto simp: command_position_def)
    ultimately show ?thesis using matches_lit [of w b post]
      unfolding seqs.simps matches_Seq by blast
  qed
  have word: "\<exists>v. matches (cmdWord w) st v" if "matches cmd_start st (b, w @ post)" for st b
    using that rest [of b] unfolding cmdWord_def cmdWord_rx_def seqs.simps matches_Seq by blast
  show ?thesis
  proof (cases pre rule: rev_cases)
    case Nil
    have "matches cmd_start (None, w @ post) (None, w @ post)"
      by (simp add: cmd_start_def matches.bot)
    then obtain v where "matches (cmdWord w) (None, w @ post) v" using word by blast
    with Nil show ?thesis using MatchStringI [of "cmdWord w" "[]"] by simp
  next
    case (snoc p c)
    then have "is_rx_space c \<or> c \<in> set '';|&('' \<or> c = backtick"
      using assms by (auto simp: command_position_def)
    then have "matches cmd_start (last_of None p, c # w @ post) (Some c, w @ post)"
      by (simp add: cmd_start_def matches_Cls)
    then obtain v where "matches (cmdWord w) (last_of None p, c # w @ post) v" using word by blast
    from MatchStringI [OF this] snoc show ?thesis by simp
  qed
qed

lemma sum_list_member: "(x::int) \<in> set xs \<Longrightarrow> (\<And>y. y \<in> set xs \<Longrightarrow> 0 \<le> y) \<Longrightarrow> x \<le> sum_list xs"
proof (induction xs)
  case (Cons y ys)
  have "0 \<le> sum_list ys" using Cons.prems(2) by (intro sum_list_nonneg) auto
  moreover have "0 \<le> y" using Cons.prems(2) by simp
  moreover have "x \<in> set ys \<Longrightarrow> x \<le> sum_list ys" using Cons by simp
  ultimately show ?case using Cons.prems(1) by auto
qed simp

lemma dangerRules_scores: "r \<in> set dangerRules \<Longrightarrow> drScore r = 2 \<or> drScore r = 3"
  by (auto simp: dangerRules_def rule_def)

lemma severe_hit:
  assumes "r \<in> set dangerRules" and "drScore r = 3" and "rule_hits command r"
  shows "fst (ClassifyCommand command) = DangerDestructive"
proof -
  let ?hits = "filter (rule_hits command) dangerRules"
  have "3 \<le> sum_list (map drScore ?hits)"
    by (rule sum_list_member) (use assms dangerRules_scores in force)+
  then show ?thesis by (auto simp: ClassifyCommand_def dangerThreshold_def split: option.split)
qed

definition destructive_words :: "string list" where
  "destructive_words = [''rm'', ''rmdir'', ''sudo'', ''docker'', ''truncate'', ''dd'', ''shred'']"

lemma destructive_words_rules:
  "w \<in> set destructive_words \<Longrightarrow> rule w 3 (cmdWord w) \<in> set dangerRules"
  by (auto simp: destructive_words_def dangerRules_def)

lemma safe_score:
  assumes "fst (ClassifyCommand command) = DangerSafe" and "f \<in> set opaqueForms"
  shows "\<not> MatchString (snd f) command"
proof
  assume "MatchString (snd f) command"
  with assms(2) have "find (\<lambda>f. MatchString (snd f) command) opaqueForms \<noteq> None"
    unfolding find_None_iff by blast
  with assms(1) show False by (auto simp: ClassifyCommand_def)
qed

section \<open>Quoting\<close>

lemma blank_from_length: "blank_from q n s = Some t \<Longrightarrow> length t = length s + (if q = None then 0 else n)"
proof (induction q n s arbitrary: t rule: blank_from.induct)
  case (3 n c s)
  then show ?case by (fastforce split: if_splits list.splits)
next
  case (4 q n c s)
  then show ?case by (fastforce split: if_splits list.splits)
qed auto

lemma length_blankQuoted: "length (blankQuoted s) = length s"
  using blank_from_length [of None 0 s] by (auto simp: blankQuoted_def split: option.split)

definition unquoted :: "string \<Rightarrow> bool" where
  "unquoted s = (squote \<notin> set s \<and> dquote \<notin> set s \<and> backslash \<notin> set s)"

lemma dequote_unquoted: "unquoted s \<Longrightarrow> dequote_from s = Some s"
  by (induction s) (auto simp: unquoted_def)

lemma blank_unquoted: "unquoted s \<Longrightarrow> blank_from None n s = Some s"
  by (induction s arbitrary: n) (auto simp: unquoted_def)

lemma destructive_word_hit:
  assumes "w \<in> set destructive_words" and "command_position pre post"
    and "CHR ''>'' \<notin> set (pre @ w @ post)" and "CHR ''$'' \<notin> set (pre @ w @ post)"
  shows "fst (ClassifyCommand (pre @ w @ post)) = DangerDestructive"
proof (rule severe_hit [OF destructive_words_rules [OF assms(1)]])
  have "w \<noteq> ''redirect-overwrite'' \<and> w \<noteq> ''append-redirect''"
    using assms(1) by (auto simp: destructive_words_def)
  then show "rule_hits (pre @ w @ post) (rule w 3 (cmdWord w))"
    using cmdWord_found [OF assms(2)] scored_plain [OF assms(3,4)]
    by (simp add: rule_hits_def rule_def Let_def)
qed (simp add: rule_def)

section \<open>Properties\<close>

text \<open>A destructive command word in command position is never classified safe: any
  command holding \<open>rm\<close>, \<open>rmdir\<close>, \<open>sudo\<close>, \<open>docker\<close>, \<open>truncate\<close>, \<open>dd\<close> or \<open>shred\<close> at its
  start or after a blank, a separator or a backtick, and followed by a blank or the end, needs
  approval, whatever stands around it (commands without a redirect or a variable, which the
  classifier rewrites first).\<close>

theorem destructive_words_never_safe:
  assumes "w \<in> set destructive_words" and "command_position pre post"
    and "CHR ''>'' \<notin> set (pre @ w @ post)" and "CHR ''$'' \<notin> set (pre @ w @ post)"
  shows "fst (ClassifyCommand (pre @ w @ post)) = DangerDestructive"
  using assms by (rule destructive_word_hit)

theorem destructive_words_never_safe_witness:
  "fst (ClassifyCommand (''ls; '' @ ''rm'' @ '' -rf build'')) = DangerDestructive"
  by (rule destructive_words_never_safe)
     (simp_all add: destructive_words_def command_position_def is_rx_space_def)

text \<open>A safe verdict is a real one: no opaque form matches the command, no rule that is
  destructive on its own hits it, and at most one weaker rule does.\<close>

theorem safe_verdict_means_no_severe_hit:
  assumes "fst (ClassifyCommand command) = DangerSafe"
  shows "(\<forall>f \<in> set opaqueForms. \<not> MatchString (snd f) command)
    \<and> (\<forall>r \<in> set dangerRules. rule_hits command r \<longrightarrow> drScore r = 2)
    \<and> length (filter (rule_hits command) dangerRules) \<le> 1"
proof (intro conjI ballI impI)
  show "\<not> MatchString (snd f) command" if "f \<in> set opaqueForms" for f
    using safe_score [OF assms that] .
  show "drScore r = 2" if "r \<in> set dangerRules" "rule_hits command r" for r
    using that assms dangerRules_scores [of r] severe_hit [of r command] by auto
  let ?hits = "filter (rule_hits command) dangerRules"
  have "2 * int (length rs) \<le> sum_list (map drScore rs)" if "set rs \<subseteq> set dangerRules" for rs
    using that by (induction rs) (use dangerRules_scores in force)+
  then have "2 * int (length ?hits) \<le> sum_list (map drScore ?hits)" by simp
  moreover have "find (\<lambda>f. MatchString (snd f) command) opaqueForms = None"
    using safe_score [OF assms] unfolding find_None_iff by blast
  then have "sum_list (map drScore ?hits) < 3"
    using assms by (auto simp: ClassifyCommand_def dangerThreshold_def Let_def split: if_splits)
  ultimately show "length ?hits \<le> 1" by linarith
qed

theorem safe_verdict_means_no_severe_hit_witness:
  "list_all (\<lambda>f. \<not> MatchString (snd f) ''ls -la'') opaqueForms"
proof -
  have "fst (ClassifyCommand ''ls -la'') = DangerSafe" by code_simp
  from safe_verdict_means_no_severe_hit [OF this] show ?thesis unfolding list_all_iff by blast
qed

text \<open>Two blind spots: the inline-code rule wants the flag to be exactly \<open>-c\<close>, and no rule
  knows brace expansion, so \<open>bash -lc "rm -rf x"\<close> and \<open>{rm,-rf,x}\<close> are both safe with no rule
  matched, although both delete.\<close>

theorem classifier_blind_spots:
  "ClassifyCommand (''bash -lc '' @ dquote # ''rm -rf x'' @ [dquote]) = (DangerSafe, [])
   \<and> ClassifyCommand ''{rm,-rf,x}'' = (DangerSafe, [])"
  by code_simp

end
