(* ===== verification/Permissions.thy ===== *)
theory Permissions
  imports Danger_Props Go_Path
begin

text \<open>
  The permission chain of a tool call (\<open>internal/brain/tools/permissions.go\<close>): the policy
  guard on a shell command's tokens, the exemptions, the danger classifier with the sandbox
  relaxations, and the standing grants. The grant tables are the state: rows of
  \<open>project_allowlist\<close> and \<open>session_grants\<close>; the clock is a parameter. Denial and prompt
  texts are constructors carrying the parts the code formats.
\<close>

section \<open>Decisions\<close>

datatype Decision = DecisionAllow | DecisionDeny | DecisionAsk

datatype guard_reason =
    OffLimits string string
  | LeavesWorkspace string
  | OutsideWorkspace string

datatype rationale =
    PolicyGuard guard_reason
  | ExemptTool
  | DestructivePattern "string list"
  | StandingGrant string string
  | NoStandingGrant

record Resolution =
  rsDecision :: Decision
  rsSubject :: string
  rsDanger :: DangerLevel
  rsRationale :: rationale

definition resolution :: "Decision \<Rightarrow> string \<Rightarrow> DangerLevel \<Rightarrow> rationale \<Rightarrow> Resolution" where
  "resolution d s l r = \<lparr>rsDecision = d, rsSubject = s, rsDanger = l, rsRationale = r\<rparr>"

lemma resolution_sel [simp]:
  "rsDecision (resolution d s l r) = d" "rsSubject (resolution d s l r) = s"
  "rsDanger (resolution d s l r) = l" "rsRationale (resolution d s l r) = r"
  by (simp_all add: resolution_def)

section \<open>Tokens\<close>

record quotedToken =
  qText :: string
  qQuoted :: bool

definition is_quote :: "char \<Rightarrow> bool" where
  "is_quote c = (c = squote \<or> c = dquote)"

fun space_equals :: "char option \<Rightarrow> string \<Rightarrow> string" where
  "space_equals q [] = []"
| "space_equals (Some q) (c # s) = c # space_equals (if c = q then None else Some q) s"
| "space_equals None (c # s) =
     (if is_quote c then c # space_equals (Some c) s
      else if c = CHR ''='' then CHR '' '' # space_equals None s
      else c # space_equals None s)"

definition flush_token :: "string \<Rightarrow> bool \<Rightarrow> quotedToken list" where
  "flush_token cur quoted =
     (let t = trim_both (\<lambda>c. c \<in> set '';|&()'') cur;
          t = (if quoted then t else trim_left (\<lambda>c. c \<in> set ''<>0123456789'') t)
      in if t = [] then [] else [\<lparr>qText = t, qQuoted = quoted\<rparr>])"

fun token_loop :: "char option \<Rightarrow> string \<Rightarrow> bool \<Rightarrow> string \<Rightarrow> quotedToken list" where
  "token_loop q cur quoted [] = flush_token cur quoted"
| "token_loop (Some q) cur quoted (c # s) =
     (if c = q then token_loop None cur quoted s else token_loop (Some q) (cur @ [c]) quoted s)"
| "token_loop None cur quoted (c # s) =
     (if is_quote c then token_loop (Some c) cur True s
      else if c = CHR '' '' \<or> c = CHR 0x09 \<or> c = CHR 0x0A
      then flush_token cur quoted @ token_loop None [] False s
      else token_loop None (cur @ [c]) quoted s)"

definition commandTokensQuoted :: "string \<Rightarrow> quotedToken list" where
  "commandTokensQuoted command = token_loop None [] False (space_equals None command)"

definition CommandTokens :: "string \<Rightarrow> string list" where
  "CommandTokens command = map qText (commandTokensQuoted command)"

definition is_fragment_split :: "char \<Rightarrow> bool" where
  "is_fragment_split c =
     (c \<in> set ''()[]{},;:&|<>*?!$= '' \<or> is_quote c \<or> c = backtick \<or> c = CHR 0x09 \<or> c = CHR 0x0A)"

definition guardFragments :: "string \<Rightarrow> string list" where
  "guardFragments tok = fields_func is_fragment_split tok"

definition looksLikePath :: "string \<Rightarrow> bool" where
  "looksLikePath tok = (str_contains tok ''/'' \<or> has_prefix tok ''.'' \<or> has_prefix tok ''~'')"

definition pathWithin :: "string \<Rightarrow> string \<Rightarrow> bool" where
  "pathWithin root p = (path_clean p = root \<or> has_prefix (path_clean p) (root @ ''/''))"

section \<open>Read-only commands\<close>

fun segment_loop :: "char option \<Rightarrow> string \<Rightarrow> string \<Rightarrow> string list" where
  "segment_loop q cur [] = (if trim_space cur = [] then [] else [trim_space cur])"
| "segment_loop (Some q) cur (c # s) = segment_loop (if c = q then None else Some q) (cur @ [c]) s"
| "segment_loop None cur (c # s) =
     (if is_quote c then segment_loop (Some c) (cur @ [c]) s
      else if c \<in> set '';|&'' \<or> c = CHR 0x0A
      then (if trim_space cur = [] then [] else [trim_space cur]) @ segment_loop None [] s
      else segment_loop None (cur @ [c]) s)"

definition commandSegments :: "string \<Rightarrow> string list" where
  "commandSegments command = segment_loop None [] command"

definition readOnlyCommands :: "string list" where
  "readOnlyCommands =
    [''cat'', ''head'', ''tail'', ''ls'', ''stat'', ''file'', ''wc'', ''grep'', ''egrep'', ''fgrep'',
     ''du'', ''readlink'', ''realpath'', ''diff'', ''cmp'', ''md5sum'', ''sha1sum'', ''sha256sum'',
     ''sha512sum'', ''which'', ''test'', ''strings'', ''od'', ''hexdump'']"

definition readOnlyCommand :: "string \<Rightarrow> bool" where
  "readOnlyCommand command =
     (snd (ClassifyCommand command) = [] \<and> commandSegments command \<noteq> [] \<and>
      list_all (\<lambda>seg. case fields_func is_space seg of [] \<Rightarrow> False | w # _ \<Rightarrow> w \<in> set readOnlyCommands)
        (commandSegments command))"

section \<open>Sandbox paths\<close>

datatype sandboxRelax = RelaxNone | RelaxInRoot | RelaxInRootRead | RelaxSystemRead

definition under :: "string \<Rightarrow> string \<Rightarrow> bool" where
  "under cleaned p = (cleaned = p \<or> has_prefix cleaned (p @ ''/''))"

definition sandboxWritable :: "string \<Rightarrow> bool" where
  "sandboxWritable tok = under (path_clean tok) ''/tmp''"

definition sandboxReadPrefixes :: "string list" where
  "sandboxReadPrefixes = [''/usr'', ''/opt'', ''/tmp'', ''/home/sandbox/.mise'', ''/home/sandbox/.cache'',
     ''/home/sandbox/.local'']"

definition sandboxReadFiles :: "string list" where
  "sandboxReadFiles = [''/etc/os-release'']"

definition sandboxReadDenied :: "string list" where
  "sandboxReadDenied = [''/home/sandbox/.claude'']"

definition sandboxReadable :: "string \<Rightarrow> bool" where
  "sandboxReadable tok =
     (if \<not> has_prefix tok ''/'' then False
      else let cleaned = path_clean tok in
        if cleaned \<in> set sandboxReadFiles then True
        else if list_ex (under cleaned) sandboxReadDenied then False
        else list_ex (under cleaned) sandboxReadPrefixes)"

definition inSandboxRoot :: "string \<Rightarrow> string \<Rightarrow> string \<Rightarrow> bool" where
  "inSandboxRoot sandbox rawTok frag =
     (if sandbox = [] \<or> list_ex (\<lambda>c. c \<in> set ''$~'' \<or> c = backtick) rawTok then False
      else pathWithin (path_clean sandbox)
        (if has_prefix frag ''/'' then frag else path_join sandbox frag))"

definition sandboxRelaxes :: "sandboxRelax \<Rightarrow> string \<Rightarrow> string \<Rightarrow> string \<Rightarrow> bool \<Rightarrow> bool" where
  "sandboxRelaxes relax sandbox rawTok frag readOnly =
     (if sandbox = [] then False
      else case relax of
        RelaxNone \<Rightarrow> False
      | RelaxInRoot \<Rightarrow> inSandboxRoot sandbox rawTok frag
      | RelaxInRootRead \<Rightarrow> inSandboxRoot sandbox rawTok frag \<and> readOnly
      | RelaxSystemRead \<Rightarrow> path_clean frag \<in> set sandboxReadFiles \<and> readOnly)"

section \<open>The policy guard\<close>

definition path_start :: rx where
  "path_start = Alt Bot (ch CHR ''/'')"

definition path_end :: rx where
  "path_end = Alt (ch CHR ''/'') Eot"

definition alnum_rx :: rx where
  "alnum_rx = Cls (\<lambda>c. is_upper c \<or> is_lower c \<or> is_digit c)"

record guardPattern =
  gpName :: string
  gpPattern :: rx
  gpExempt :: "rx option"
  gpHint :: string
  gpSandbox :: sandboxRelax

definition env_hint :: string where
  "env_hint = '' (templates such as .env.example are readable; export variables in the command instead of writing an env file)''"

definition guardPatterns :: "guardPattern list" where
  "guardPatterns =
    [\<lparr>gpName = ''env files'',
      gpPattern = seqs [path_start, liti ''.env'', opt (Seq (ch CHR ''.'')
        (plus_rx (Cls (\<lambda>c. is_upper c \<or> is_lower c \<or> is_digit c \<or> c \<in> set ''._-'')))), Eot],
      gpExempt = Some (seqs [path_start, liti ''.env.'',
        alts [liti ''example'', liti ''sample'', liti ''dist'', liti ''template''], Eot]),
      gpHint = env_hint, gpSandbox = RelaxInRoot\<rparr>,
     \<lparr>gpName = ''ssh keys'',
      gpPattern = seqs [path_start, liti ''id_'',
        alts [liti ''rsa'', liti ''ed25519'', liti ''ecdsa'', liti ''dsa''], Eot],
      gpExempt = None, gpHint = [], gpSandbox = RelaxNone\<rparr>,
     \<lparr>gpName = ''key material'',
      gpPattern = seqs [ch CHR ''.'',
        alts [liti ''pem'', liti ''key'', liti ''p12'', liti ''pfx'', liti ''keystore''], Eot],
      gpExempt = None, gpHint = [], gpSandbox = RelaxInRootRead\<rparr>]"

definition guardPathPatterns :: "guardPattern list" where
  "guardPathPatterns =
    [\<lparr>gpName = ''ssh keys'', gpPattern = seqs [path_start, liti ''.ssh'', path_end],
      gpExempt = None, gpHint = [], gpSandbox = RelaxNone\<rparr>,
     \<lparr>gpName = ''credential stores'',
      gpPattern = alts
        [seqs [path_start, alts [Seq (liti ''credential'') (opt (chi CHR ''s'')),
                                 Seq (liti ''secret'') (opt (chi CHR ''s''))],
               opt (Alt (ch CHR ''/'') (Seq (ch CHR ''.'') (plus_rx alnum_rx))), Eot],
         seqs [path_start, ch CHR ''.'', alts [liti ''aws'', liti ''kube'', liti ''gnupg''], path_end],
         seqs [path_start, ch CHR ''.'', alts [liti ''netrc'', liti ''npmrc''], Eot]],
      gpExempt = None, gpHint = [], gpSandbox = RelaxInRootRead\<rparr>,
     \<lparr>gpName = ''home dotfiles'',
      gpPattern = seqs [Bot, lit ''~/.'', Cls (\<lambda>c. is_upper c \<or> is_lower c)],
      gpExempt = None, gpHint = [], gpSandbox = RelaxNone\<rparr>,
     \<lparr>gpName = ''system dirs'',
      gpPattern = seqs [Bot, ch CHR ''/'', alts [lit ''etc'', lit ''root'', lit ''proc'', lit ''sys'',
        lit ''dev'', lit ''boot'', Seq (lit ''var/'') (alts [lit ''run'', lit ''lib''])], path_end],
      gpExempt = None, gpHint = [], gpSandbox = RelaxSystemRead\<rparr>]"

definition sed_body :: rx where
  "sed_body = Star (Alt (Cls (\<lambda>c. c \<noteq> CHR ''/'' \<and> c \<noteq> backslash)) (Seq (ch backslash) rx_dot))"

definition sedRangeAddress :: rx where
  "sedRangeAddress = seqs [Bot, ch CHR ''/'', sed_body, lit ''/,/'', sed_body, ch CHR ''/'',
     opt (ch CHR ''!''), Star (Cls (\<lambda>c. is_upper c \<or> is_lower c)), Eot]"

definition AllowedAbsPrefixes :: "string list" where
  "AllowedAbsPrefixes = [''/dev/null'', ''/dev/stdin'', ''/dev/stdout'', ''/dev/stderr'']"

text \<open>\<open>strings.ReplaceAll\<close> with a non-empty old string.\<close>

function replace_str :: "string \<Rightarrow> string \<Rightarrow> string \<Rightarrow> string" where
  "replace_str s old new =
     (case s of [] \<Rightarrow> []
      | c # s' \<Rightarrow> if old \<noteq> [] \<and> has_prefix s old then new @ replace_str (drop (length old) s) old new
                  else c # replace_str s' old new)"
  by pat_completeness auto
termination by (relation "measure (\<lambda>(s, old, new). length s)") auto

declare replace_str.simps [simp del]

definition blank_plumbing :: "string \<Rightarrow> string" where
  "blank_plumbing subject = fold (\<lambda>p s. replace_str s p '' '') AllowedAbsPrefixes subject"

fun first_some :: "('a \<Rightarrow> 'b option) \<Rightarrow> 'a list \<Rightarrow> 'b option" where
  "first_some f [] = None"
| "first_some f (x # xs) = (case f x of Some y \<Rightarrow> Some y | None \<Rightarrow> first_some f xs)"

definition guard_rule :: "string \<Rightarrow> bool \<Rightarrow> string \<Rightarrow> string \<Rightarrow> guardPattern \<Rightarrow> guard_reason option" where
  "guard_rule sandbox readOnly rawTok tok g =
     (if MatchString (gpPattern g) tok
         \<and> (case gpExempt g of None \<Rightarrow> True | Some e \<Rightarrow> \<not> MatchString e tok)
         \<and> \<not> sandboxRelaxes (gpSandbox g) sandbox rawTok tok readOnly
      then Some (OffLimits (gpName g) (gpHint g)) else None)"

definition guard_fragment :: "string \<Rightarrow> bool \<Rightarrow> string \<Rightarrow> string \<Rightarrow> guard_reason option" where
  "guard_fragment sandbox readOnly rawTok tok =
     (case first_some (guard_rule sandbox readOnly rawTok tok) guardPatterns of
        Some r \<Rightarrow> Some r
      | None \<Rightarrow>
          if \<not> looksLikePath tok then None
          else first_some (guard_rule sandbox readOnly rawTok tok) guardPathPatterns)"

definition climbs :: "string \<Rightarrow> bool" where
  "climbs tok = (tok = ''..'' \<or> has_prefix tok ''../'' \<or> str_contains tok ''/../'' \<or> has_suffix tok ''/..'')"

definition pattern_argument :: "quotedToken \<Rightarrow> bool" where
  "pattern_argument qt =
     (qQuoted qt \<and> (list_ex (\<lambda>c. c \<in> set ''^$[]{}+|'' \<or> c = backslash) (qText qt)
                   \<or> MatchString sedRangeAddress (qText qt)))"

definition guard_root :: "string \<Rightarrow> string \<Rightarrow> bool \<Rightarrow> quotedToken \<Rightarrow> guard_reason option" where
  "guard_root root sandbox readOnly qt =
     (let tok = qText qt in
      if pattern_argument qt then None
      else if climbs tok then Some (LeavesWorkspace tok)
      else if \<not> has_prefix tok ''/'' then None
      else if pathWithin root tok then None
      else if sandbox \<noteq> [] \<and> (sandboxWritable tok \<or> sandboxReadable tok \<and> readOnly) then None
      else Some (OutsideWorkspace tok))"

definition guardSubject :: "string \<Rightarrow> string \<Rightarrow> string \<Rightarrow> string \<Rightarrow> guard_reason option" where
  "guardSubject root sandbox tool subject =
     (if tool \<noteq> ''shell'' then None
      else
        let readOnly = readOnlyCommand subject;
            tokens = commandTokensQuoted (blank_plumbing subject)
        in case first_some (\<lambda>qt. first_some (guard_fragment sandbox readOnly (qText qt))
                                   (guardFragments (qText qt))) tokens of
             Some r \<Rightarrow> Some r
           | None \<Rightarrow> if root = [] then None else first_some (guard_root root sandbox readOnly) tokens)"

section \<open>Standing grants\<close>

record GrantRow =
  gSession :: string
  gTool :: string
  gPattern :: string
  gExpires :: int

record GrantDB =
  allowlist :: "(string \<times> string) list"
  session_grants :: "GrantRow list"

definition SandboxGrantTool :: string where
  "SandboxGrantTool = ''__sandbox__''"

definition ToolMatches :: "string \<Rightarrow> string \<Rightarrow> bool" where
  "ToolMatches tool rowTool =
     (if tool = rowTool then True
      else if rowTool = SandboxGrantTool then False
      else has_suffix tool (''_'' @ rowTool))"

text \<open>
  \<open>path.Match\<close>: the pattern is read into items, \<^const>\<open>None\<close> for Go's \<open>ErrBadPattern\<close>, and
  matched against the whole name. A star and a question mark do not match a slash.
\<close>

datatype glob = GStar | GAny | GChar char | GClass bool "(char \<times> char) list"

fun class_char :: "string \<Rightarrow> (char \<times> string) option" where
  "class_char [] = None"
| "class_char (c # s) =
     (if c = CHR ''-'' \<or> c = CHR '']'' then None
      else if c = backslash then (case s of [] \<Rightarrow> None | d # s' \<Rightarrow> if s' = [] then None else Some (d, s'))
      else if s = [] then None else Some (c, s))"

lemma class_char_length: "class_char s = Some (c, t) \<Longrightarrow> length t < length s"
  by (induction s rule: class_char.induct) (auto split: if_splits list.splits)

function class_ranges :: "string \<Rightarrow> bool \<Rightarrow> ((char \<times> char) list \<times> string) option" where
  "class_ranges s any =
     (if any \<and> s \<noteq> [] \<and> hd s = CHR '']'' then Some ([], tl s)
      else case class_char s of
        None \<Rightarrow> None
      | Some (lo, t) \<Rightarrow>
          if t \<noteq> [] \<and> hd t = CHR ''-'' then
            (case class_char (tl t) of
               None \<Rightarrow> None
             | Some (hi, u) \<Rightarrow> map_option (\<lambda>(rs, v). ((lo, hi) # rs, v)) (class_ranges u True))
          else map_option (\<lambda>(rs, v). ((lo, lo) # rs, v)) (class_ranges t True))"
  by pat_completeness auto
termination
proof (relation "measure (\<lambda>(s, any). length s)", goal_cases)
  case (2 s any x lo t y hi u)
  then have "length t < length s" "length u < length (tl t)"
    by (auto dest: class_char_length)
  then show ?case by simp
qed (auto dest: class_char_length)

declare class_ranges.simps [simp del]

lemma class_ranges_length: "class_ranges s any = Some (rs, v) \<Longrightarrow> length v < length s"
proof (induction "length s" arbitrary: s any rs v rule: less_induct)
  case less
  note unf = class_ranges.simps [of s any]
  show ?case
  proof (cases "any \<and> s \<noteq> [] \<and> hd s = CHR '']''")
    case True
    have "v = tl s" using less.prems True unfolding unf by simp
    with True show ?thesis by (cases s) simp_all
  next
    case no: False
    with less.prems obtain lo t where c: "class_char s = Some (lo, t)"
      by (auto simp: unf split: option.splits)
    then have t: "length t < length s" by (rule class_char_length)
    show ?thesis
    proof (cases "t \<noteq> [] \<and> hd t = CHR ''-''")
      case True
      with no less.prems c obtain hi u where d: "class_char (tl t) = Some (hi, u)"
        by (auto simp: unf split: option.splits)
      with True no less.prems c obtain qs where r: "class_ranges u True = Some (qs, v)"
        by (auto simp: unf)
      have "length u < length t" using class_char_length [OF d] by simp
      with t have "length u < length s" by simp
      with less.hyps [OF _ r] \<open>length u < length s\<close> show ?thesis by simp
    next
      case False
      with no less.prems c obtain qs where r: "class_ranges t True = Some (qs, v)"
        by (auto simp: unf)
      with less.hyps [OF t r] t show ?thesis by simp
    qed
  qed
qed

function parse_glob :: "string \<Rightarrow> glob list option" where
  "parse_glob [] = Some []"
| "parse_glob (c # s) =
     (if c = CHR ''*'' then map_option (Cons GStar) (parse_glob s)
      else if c = CHR ''?'' then map_option (Cons GAny) (parse_glob s)
      else if c = CHR ''['' then
        (let neg = (s \<noteq> [] \<and> hd s = CHR ''^'') in
         case class_ranges (if neg then tl s else s) False of
           None \<Rightarrow> None
         | Some (rs, v) \<Rightarrow> map_option (Cons (GClass neg rs)) (parse_glob v))
      else if c = backslash then
        (case s of [] \<Rightarrow> None | d # s' \<Rightarrow> map_option (Cons (GChar d)) (parse_glob s'))
      else map_option (Cons (GChar c)) (parse_glob s))"
  by pat_completeness auto
termination
  by (relation "measure length") (auto dest!: class_ranges_length split: if_splits simp: less_Suc_eq)

fun glob_items :: "glob list \<Rightarrow> string \<Rightarrow> bool" where
  "glob_items [] s = (s = [])"
| "glob_items (GStar # gs) [] = glob_items gs []"
| "glob_items (GStar # gs) (c # s) =
     (glob_items gs (c # s) \<or> c \<noteq> CHR ''/'' \<and> glob_items (GStar # gs) s)"
| "glob_items (GAny # gs) s = (case s of [] \<Rightarrow> False | c # s' \<Rightarrow> c \<noteq> CHR ''/'' \<and> glob_items gs s')"
| "glob_items (GChar d # gs) s = (case s of [] \<Rightarrow> False | c # s' \<Rightarrow> c = d \<and> glob_items gs s')"
| "glob_items (GClass neg rs # gs) s =
     (case s of [] \<Rightarrow> False
      | c # s' \<Rightarrow> (list_ex (\<lambda>r. fst r \<le> c \<and> c \<le> snd r) rs \<noteq> neg) \<and> glob_items gs s')"

definition path_match :: "string \<Rightarrow> string \<Rightarrow> bool option" where
  "path_match pattern name = map_option (\<lambda>gs. glob_items gs name) (parse_glob pattern)"

definition globMatch :: "string \<Rightarrow> string \<Rightarrow> bool" where
  "globMatch pattern subject =
     (if path_match pattern subject = Some True then True
      else if has_suffix pattern ''*'' \<and> \<not> list_ex (\<lambda>c. c \<in> set ''*?['') (butlast pattern)
      then has_prefix subject (butlast pattern)
      else False)"

definition sandboxFor :: "GrantDB option \<Rightarrow> int \<Rightarrow> string \<Rightarrow> string" where
  "sandboxFor db now session =
     (case db of None \<Rightarrow> []
      | Some d \<Rightarrow>
          (case sort_key (\<lambda>g. - gExpires g)
              (filter (\<lambda>g. gSession g = session \<and> gTool g = SandboxGrantTool \<and> now < gExpires g)
                 (session_grants d)) of
             [] \<Rightarrow> []
           | g # _ \<Rightarrow> gPattern g))"

definition Grant :: "GrantDB \<Rightarrow> int \<Rightarrow> string \<Rightarrow> string \<Rightarrow> string \<Rightarrow> int \<Rightarrow> GrantDB" where
  "Grant d now session tool pattern ttl =
     d\<lparr>session_grants := session_grants d @
       [\<lparr>gSession = session, gTool = tool, gPattern = pattern, gExpires = now + ttl\<rparr>]\<rparr>"

definition grant_rows :: "GrantDB \<Rightarrow> int \<Rightarrow> string \<Rightarrow> (string \<times> string \<times> string) list" where
  "grant_rows d now session =
     map (\<lambda>(t, p). (t, p, ''project allowlist'')) (allowlist d) @
     map (\<lambda>g. (gTool g, gPattern g, ''session grant''))
       (filter (\<lambda>g. gSession g = session \<and> now < gExpires g) (session_grants d))"

definition matchGrant ::
    "GrantDB \<Rightarrow> int \<Rightarrow> string \<Rightarrow> string \<Rightarrow> string \<Rightarrow> (string \<times> string) option" where
  "matchGrant d now session tool subject =
     first_some (\<lambda>(rowTool, pattern, source).
       if ToolMatches tool rowTool \<and> globMatch pattern subject then Some (source, pattern) else None)
       (grant_rows d now session)"

section \<open>The chain\<close>

definition sandboxDowngradeable :: "string list" where
  "sandboxDowngradeable =
    [''lang-pkg-install'', ''redirect-overwrite'', ''append-redirect'', ''rm'', ''rmdir'', ''mv'',
     ''truncate'', ''shred'', ''find-exec'', ''chmod-recursive'']"

definition sandboxAllows :: "string \<Rightarrow> string \<Rightarrow> string list \<Rightarrow> bool" where
  "sandboxAllows sandbox subject matchedRules =
     (if \<not> set matchedRules \<subseteq> set sandboxDowngradeable then False
      else if sandbox = [] then False
      else list_all (\<lambda>tok. \<not> (has_prefix tok ''/'' \<and> \<not> pathWithin sandbox tok \<and> \<not> sandboxWritable tok))
        (CommandTokens subject))"

definition exemptTools :: "string list" where
  "exemptTools =
    [''get_current_time'', ''convert_time'', ''calculate'', ''fetch_url'', ''search_web'',
     ''retrieve_output'', ''load_skill'', ''remember'', ''mission_status'', ''review_verdict'',
     ''submit_plan'', ''discover_notes'', ''ask_user'', ''write_file'', ''list_missions'',
     ''read_mission'', ''list_automations'', ''read_automation'', ''search_kb'', ''read_kb'',
     ''writing_samples'', ''search_memory'', ''read_note'', ''timothy_help'']"

record Permissions =
  pDB :: "GrantDB option"
  pRoot :: string
  pLoadTools :: "string list"

definition isExempt :: "Permissions \<Rightarrow> string \<Rightarrow> bool" where
  "isExempt p tool = (tool \<in> set exemptTools \<or> tool \<in> set (pLoadTools p))"

text \<open>The call's arguments: the decoded JSON object, \<^const>\<open>None\<close> when they are none.\<close>

definition callSubject :: "string \<Rightarrow> payload option \<Rightarrow> string" where
  "callSubject tool args =
     (case args of None \<Rightarrow> tool
      | Some m \<Rightarrow>
          if tool = ''shell'' then (case map_of m ''command'' of Some (JStr c) \<Rightarrow> c | _ \<Rightarrow> tool)
          else if tool = ''fetch_url'' then (case map_of m ''url'' of Some (JStr u) \<Rightarrow> u | _ \<Rightarrow> tool)
          else tool)"

text \<open>Step three of the chain: the classifier's verdict with the sandbox opacity relaxation.\<close>

definition shell_danger :: "string \<Rightarrow> string \<Rightarrow> DangerLevel \<times> string list" where
  "shell_danger sandbox subject =
     (let r = ClassifyCommand subject in
      if fst r = DangerDestructive \<and> IsOpaqueRationale (snd r) \<and> sandbox \<noteq> []
      then (DangerSafe, []) else r)"

definition grant_step ::
    "Permissions \<Rightarrow> int \<Rightarrow> string \<Rightarrow> string \<Rightarrow> string \<Rightarrow> DangerLevel \<Rightarrow> Resolution option" where
  "grant_step p now session tool subject danger =
     (case pDB p of
        None \<Rightarrow> None
      | Some d \<Rightarrow>
          (case matchGrant d now session tool subject of
             Some (source, pattern) \<Rightarrow>
               Some (resolution DecisionAllow subject danger (StandingGrant source pattern))
           | None \<Rightarrow> Some (resolution DecisionAsk subject danger NoStandingGrant)))"

text \<open>\<^const>\<open>None\<close> is the error of an unreachable grant store.\<close>

definition Resolve ::
    "Permissions \<Rightarrow> int \<Rightarrow> string \<Rightarrow> string \<Rightarrow> payload option \<Rightarrow> Resolution option" where
  "Resolve p now session tool args =
     (let subject = callSubject tool args;
          sandbox = (if tool = ''shell'' then sandboxFor (pDB p) now session else []) in
      case guardSubject (pRoot p) sandbox tool subject of
        Some reason \<Rightarrow> Some (resolution DecisionDeny subject DangerSafe (PolicyGuard reason))
      | None \<Rightarrow>
        if isExempt p tool then Some (resolution DecisionAllow subject DangerSafe ExemptTool)
        else if tool = ''shell'' then
          let (danger, rules) = shell_danger sandbox subject in
          if danger = DangerDestructive \<and> \<not> sandboxAllows sandbox subject rules
          then Some (resolution DecisionAsk subject danger (DestructivePattern rules))
          else grant_step p now session tool subject danger
        else grant_step p now session tool subject DangerSafe)"

end
