(* ===== verification/Tool_Constraints.thy ===== *)
theory Tool_Constraints
  imports Permissions
begin

text \<open>
  The constraint chain around every tool call (\<open>internal/brain/tools/constraints.go\<close>): schema
  validation and clamps, containment with symlinks resolved, and the per-turn guards of the
  tool loop. The file system is the function that answers \<open>filepath.EvalSymlinks\<close>, none for an
  error; the compiled JSON schemas of \<open>jsonschema\<close> and the tools are the fields of
  \<open>Constrained\<close>. A path argument of a message is part of its constructor.
\<close>

section \<open>Containment with symlinks resolved\<close>

datatype within_error =
    NotAbsolute string string
  | RootUnresolved string
  | NoExistingAncestor string
  | OutsideRoot string string

datatype tool_error = Violation within_error | UnknownTool string | BadJSON string string
  | SchemaFailed string string | ClampFailed string string | ToolFailed string | PathFault within_error

text \<open>\<open>filepath.Rel\<close> by components: none when one path is rooted and the other not, or when the
  base would have to climb out of \<open>..\<close>.\<close>

fun strip_common :: "string list \<Rightarrow> string list \<Rightarrow> string list \<times> string list" where
  "strip_common (b # bs) (t # ts) = (if b = t then strip_common bs ts else (b # bs, t # ts))"
| "strip_common bs ts = (bs, ts)"

definition path_parts :: "string \<Rightarrow> string list" where
  "path_parts p = clean_components (rooted p) (components p)"

definition path_rel :: "string \<Rightarrow> string \<Rightarrow> string option" where
  "path_rel base targ =
     (if rooted base \<noteq> rooted targ then None
      else
        let r = strip_common (path_parts base) (path_parts targ); b = fst r; t = snd r
        in if b \<noteq> [] \<and> hd b = dotdot then None
           else Some (if b = [] \<and> t = [] then dot
                      else str_join ''/'' (replicate (length b) dotdot @ t)))"

text \<open>
  \<open>resolveExisting\<close>: the loop from the path up to its deepest existing ancestor. The fuel bounds
  the ancestors tried; \<open>resolve_up_ends\<close> below shows that the length of the path is enough.
\<close>

datatype 'a looped = Ended 'a | OutOfFuel

fun resolve_up ::
    "nat \<Rightarrow> (string \<Rightarrow> string option) \<Rightarrow> string \<Rightarrow> string \<Rightarrow> (string option) looped" where
  "resolve_up 0 eval cur sfx = OutOfFuel"
| "resolve_up (Suc n) eval cur sfx =
     (case eval cur of
        Some resolved \<Rightarrow> Ended (Some (path_join resolved sfx))
      | None \<Rightarrow>
          let parent = path_dir cur
          in if parent = cur then Ended None
             else resolve_up n eval parent (path_join (path_base cur) sfx))"

definition resolveExisting :: "(string \<Rightarrow> string option) \<Rightarrow> string \<Rightarrow> within_error + string" where
  "resolveExisting eval p =
     (case resolve_up (length p + 1) eval p [] of
        Ended (Some r) \<Rightarrow> Inr r
      | _ \<Rightarrow> Inl (NoExistingAncestor p))"

definition WithinRoot :: "(string \<Rightarrow> string option) \<Rightarrow> string \<Rightarrow> string \<Rightarrow> tool_error option" where
  "WithinRoot eval root p =
     (if \<not> rooted p then Some (Violation (NotAbsolute p root))
      else case eval root of
        None \<Rightarrow> Some (PathFault (RootUnresolved root))
      | Some resolvedRoot \<Rightarrow>
          case resolveExisting eval (path_clean p) of
            Inl e \<Rightarrow> Some (PathFault e)
          | Inr resolved \<Rightarrow>
              case path_rel resolvedRoot resolved of
                None \<Rightarrow> Some (Violation (OutsideRoot p root))
              | Some rel \<Rightarrow>
                  if rel = dotdot \<or> has_prefix rel ''../'' then Some (Violation (OutsideRoot p root))
                  else None)"

definition plumbing :: "string \<Rightarrow> bool" where
  "plumbing p = list_ex (under p) AllowedAbsPrefixes"

definition check_token ::
    "(string \<Rightarrow> string option) \<Rightarrow> string \<Rightarrow> bool \<Rightarrow> bool \<Rightarrow> string \<Rightarrow> tool_error option" where
  "check_token eval root sandbox sandboxRead tok =
     (if sandbox \<and> sandboxWritable tok \<or> sandboxRead \<and> sandboxReadable tok then None
      else
        let p = (if rooted tok then tok else path_join root tok)
        in if plumbing p then None else WithinRoot eval root p)"

definition checkCommandPaths ::
    "(string \<Rightarrow> string option) \<Rightarrow> string \<Rightarrow> string \<Rightarrow> bool \<Rightarrow> tool_error option" where
  "checkCommandPaths eval root command sandbox =
     (if root = [] then None
      else first_some (check_token eval root sandbox (sandbox \<and> readOnlyCommand command))
        (CommandTokens command))"

definition CheckCommandPaths :: "(string \<Rightarrow> string option) \<Rightarrow> string \<Rightarrow> string \<Rightarrow> tool_error option" where
  "CheckCommandPaths eval root command = checkCommandPaths eval root command False"

definition CheckSandboxCommandPaths :: "(string \<Rightarrow> string option) \<Rightarrow> string \<Rightarrow> string \<Rightarrow> tool_error option" where
  "CheckSandboxCommandPaths eval root command = checkCommandPaths eval root command True"

section \<open>The constraint chain\<close>

record Tool =
  tTrusted :: bool
  tTaintsTurn :: bool
  tExecute :: "string \<Rightarrow> tool_error + string"

record Constrained =
  cTools :: "string \<Rightarrow> Tool option"
  cParse :: "string \<Rightarrow> string option"
  cValidate :: "string \<Rightarrow> string \<Rightarrow> string option"
  cClamp :: "string \<Rightarrow> (string \<Rightarrow> string + string) option"

definition IsViolation :: "tool_error \<Rightarrow> bool" where
  "IsViolation e =
     (case e of PathFault _ \<Rightarrow> False | ClampFailed _ _ \<Rightarrow> False | ToolFailed _ \<Rightarrow> False | _ \<Rightarrow> True)"

definition outcomeFor :: "tool_error option \<Rightarrow> string" where
  "outcomeFor e =
     (case e of None \<Rightarrow> ''ok'' | Some e \<Rightarrow> if IsViolation e then ''violation'' else ''error'')"

definition Execute :: "Constrained \<Rightarrow> string \<Rightarrow> string \<Rightarrow> tool_error + string" where
  "Execute c name raw =
     (case cTools c name of
        None \<Rightarrow> Inl (UnknownTool name)
      | Some tool \<Rightarrow>
          let args = (if raw = [] then ''{}'' else raw)
          in case cParse c args of
               Some e \<Rightarrow> Inl (BadJSON name e)
             | None \<Rightarrow>
                 case cValidate c name args of
                   Some e \<Rightarrow> Inl (SchemaFailed name e)
                 | None \<Rightarrow>
                     case cClamp c name of
                       None \<Rightarrow> tExecute tool args
                     | Some clamp \<Rightarrow>
                         (case clamp args of
                            Inl e \<Rightarrow> Inl (ClampFailed name e)
                          | Inr clamped \<Rightarrow> tExecute tool clamped))"

definition Trusted :: "Constrained \<Rightarrow> string \<Rightarrow> bool" where
  "Trusted c name = (case cTools c name of None \<Rightarrow> False | Some t \<Rightarrow> tTrusted t)"

definition Taints :: "Constrained \<Rightarrow> string \<Rightarrow> bool" where
  "Taints c name = (case cTools c name of None \<Rightarrow> True | Some t \<Rightarrow> \<not> tTrusted t \<or> tTaintsTurn t)"

section \<open>Guards of the tool loop\<close>

datatype StepDirective = StepProceed | StepWarnFinalize | StepForceSynthesis

definition DefaultMaxSteps :: int where "DefaultMaxSteps = 16"

definition CeilingFor :: "int \<Rightarrow> int \<Rightarrow> StepDirective" where
  "CeilingFor step maxSteps =
     (let m = (if maxSteps \<le> 0 then DefaultMaxSteps else maxSteps)
      in if m \<le> step then StepForceSynthesis
         else if step = m - 1 then StepWarnFinalize
         else StepProceed)"

definition repeatThreshold :: nat where "repeatThreshold = 3"

record ToolCall =
  tcID :: string
  tcName :: string
  tcInput :: string

record RepeatGuard =
  lastSig :: string
  lastCount :: nat

definition call_sig :: "ToolCall \<Rightarrow> string" where
  "call_sig c = tcName c @ '':'' @ tcInput c"

definition record_call :: "ToolCall \<Rightarrow> RepeatGuard \<times> bool \<Rightarrow> RepeatGuard \<times> bool" where
  "record_call c st =
     (let g = fst st; sig = call_sig c;
          g' = (if sig = lastSig g then g\<lparr>lastCount := lastCount g + 1\<rparr>
                else g\<lparr>lastSig := sig, lastCount := 1\<rparr>)
      in (g', snd st \<or> repeatThreshold \<le> lastCount g'))"

definition Record :: "RepeatGuard \<Rightarrow> ToolCall list \<Rightarrow> RepeatGuard \<times> bool" where
  "Record g calls = fold record_call calls (g, False)"

definition new_guard :: RepeatGuard where
  "new_guard = \<lparr>lastSig = [], lastCount = 0\<rparr>"

definition MinToolCallsFor :: "(string \<times> int) list" where
  "MinToolCallsFor = [(''research'', 1)]"

definition NeedsRetrievalCoercion :: "string \<Rightarrow> int \<Rightarrow> bool \<Rightarrow> bool" where
  "NeedsRetrievalCoercion category toolCalls alreadyCoerced =
     (case map_of MinToolCallsFor category of
        None \<Rightarrow> False
      | Some minCalls \<Rightarrow> \<not> alreadyCoerced \<and> toolCalls < minCalls)"

end
