(* ===== verification/Mission_Verify.thy ===== *)
theory Mission_Verify
  imports Mission_Step Plan_Accept Lockfile_Evidence Tool_Constraints
begin

text \<open>
  The harness's own checks of a plan's units (\<open>internal/brain/missions/verifier.go\<close>,
  \<open>verify.go\<close>: \<open>CheckArtifacts\<close>) and the policy table (\<open>policy.go\<close>). The work tree, the
  sandbox and the citation scan are the fields of \<open>verify_env\<close>. The digest of a command's
  output, which no decision reads, is left out of the \<open>mission.unit_verified\<close> event.
\<close>

section \<open>Policy\<close>

definition KindGeneral :: string where "KindGeneral = ''general''"

definition OriginNames :: "string list" where
  "OriginNames = [''api'', ''automation'', ''workflow'', ''chat'', ''followup'']"

definition ValidOrigin :: "string \<Rightarrow> bool" where
  "ValidOrigin raw = (raw \<in> set OriginNames)"

definition ValidFlow :: "string \<Rightarrow> bool" where
  "ValidFlow raw = (raw \<in> set [''full'', ''discover_build'', ''no_prove'', ''light''])"

record missionPolicy =
  needsWorktree :: bool
  alwaysReview :: bool
  checksCitations :: bool
  canDelegate :: bool
  skipsPlanning :: bool
  canPush :: bool

definition policyFor :: "string \<Rightarrow> Flow \<Rightarrow> missionPolicy" where
  "policyFor kind fl =
     (if kind = KindCoding then
        \<lparr>needsWorktree = True, alwaysReview = True, checksCitations = False, canDelegate = True,
         skipsPlanning = False, canPush = True\<rparr>
      else if kind = KindGeneral then
        \<lparr>needsWorktree = False, alwaysReview = False, checksCitations = True, canDelegate = False,
         skipsPlanning = (fl = FlowLight), canPush = False\<rparr>
      else
        \<lparr>needsWorktree = False, alwaysReview = True, checksCitations = True, canDelegate = False,
         skipsPlanning = False, canPush = False\<rparr>)"

definition RunsPlanless :: "Flow \<Rightarrow> bool" where
  "RunsPlanless fl = (fl = FlowLight \<or> fl = FlowDiscoverBuild)"

definition initialPhase :: "string \<Rightarrow> Flow \<Rightarrow> Phase" where
  "initialPhase kind fl = (if skipsPlanning (policyFor kind fl) then PhaseBuild else PhaseDiscover)"

section \<open>The mission a turn sees\<close>

text \<open>\<open>tmWorktree\<close>, \<open>tmWorkRoot\<close>: \<open>WorktreePath()\<close> and \<open>WorkRoot()\<close>; \<open>tmPrepare\<close>, \<open>tmLockfile\<close>:
  the fields of the environment facts, present when \<open>tmEnvFacts\<close>.\<close>

record TurnMission =
  tmKind :: string
  tmFlow :: Flow
  tmGoal :: string
  tmUnits :: "PlanUnit list"
  tmFindings :: "Finding list"
  tmLastReviewCommit :: string
  tmWorktree :: string
  tmWorkRoot :: string
  tmBaseCommit :: string
  tmEnvFacts :: bool
  tmPrepare :: "PrepareFacts option"
  tmLockfile :: "LockfileEvidence option"

definition missionPolicyFor :: "TurnMission \<Rightarrow> missionPolicy" where
  "missionPolicyFor m = policyFor (tmKind m) (tmFlow m)"

section \<open>Artifacts\<close>

datatype file_info = Directory | FileSize nat

text \<open>
  \<open>veLinks\<close>: \<open>filepath.EvalSymlinks\<close>; \<open>veStat\<close>: \<open>os.Stat\<close>; \<open>veFault\<close>: the text of an error;
  \<open>veListing\<close>: \<open>ListWorkspace\<close>; \<open>veCitations\<close>: the problems \<open>CheckCitations\<close> finds in the
  artifacts against the URLs seen; \<open>veRun\<close>: the sandbox; \<open>veTouched\<close>: the paths \<open>git diff\<close> names
  against the base, none on an error; \<open>veLock\<close>: the lockfile measurement.
\<close>

record verify_env =
  veLinks :: "string \<Rightarrow> string option"
  veStat :: "string \<Rightarrow> file_info option"
  veFault :: "tool_error \<Rightarrow> string"
  veListing :: string
  veCitations :: "string list \<Rightarrow> string list \<Rightarrow> string list"
  veRun :: "string \<Rightarrow> exec_result"
  veTouched :: "string list"
  veLock :: lock_env

definition artifact_problem :: "verify_env \<Rightarrow> string \<Rightarrow> string \<Rightarrow> string option" where
  "artifact_problem env base a =
     (let rel = trim_space a; cleaned = path_clean rel; full = path_join base cleaned in
      if rel = [] then None
      else if rooted rel then Some (rel @ '': artifact paths must be relative to the workspace'')
      else if cleaned = dotdot \<or> has_prefix cleaned ''../'' then
        Some (rel @ '': artifact path escapes the workspace'')
      else case WithinRoot (veLinks env) base full of
        Some e \<Rightarrow>
          if IsViolation e then Some (rel @ '': artifact path escapes the workspace'')
          else Some (rel @ '': cannot verify workspace root: '' @ veFault env e)
      | None \<Rightarrow>
          (case veStat env full of
             None \<Rightarrow> Some (rel @ '': not found in the workspace'')
           | Some Directory \<Rightarrow> Some (rel @ '': is a directory, expected a file'')
           | Some (FileSize n) \<Rightarrow> if n = 0 then Some (rel @ '': exists but is empty'') else None))"

definition CheckArtifacts :: "verify_env \<Rightarrow> string \<Rightarrow> string list \<Rightarrow> string list" where
  "CheckArtifacts env base artifacts = List.map_filter (artifact_problem env base) artifacts"

definition artifactsExcerpt :: "verify_env \<Rightarrow> string list \<Rightarrow> string" where
  "artifactsExcerpt env problems =
     ''declared artifacts failed the harness check:'' @ CHR 0x0A # str_join [CHR 0x0A] problems
     @ (if veListing env \<noteq> []
        then CHR 0x0A # ''files currently in the workspace:'' @ CHR 0x0A # veListing env
        else CHR 0x0A # ''the workspace is currently empty'')"

section \<open>The batch pass\<close>

text \<open>The stages of one unit's pass: skipped, failed by a check, or clean so far.\<close>

datatype unit_stage = Skipped | FailedBy string string | Clean

record verify_run =
  vrMission :: TurnMission
  vrCurrent :: int
  vrSeen :: "string list"
  vrCitations :: bool
  vrLockfiles :: "string list"
  vrOwners :: "nat list"

definition artifact_stage :: "verify_env \<Rightarrow> verify_run \<Rightarrow> nat \<Rightarrow> PlanUnit \<Rightarrow> unit_stage" where
  "artifact_stage env run i u =
     (let problems = CheckArtifacts env (tmWorkRoot (vrMission run)) (uArtifacts u) in
      if problems \<noteq> [] then
        (if \<not> verified u \<and> int i \<noteq> vrCurrent run then Skipped
         else FailedBy ''artifacts'' (artifactsExcerpt env problems))
      else if vrCitations run \<and> \<not> verified u then
        (let cited = veCitations env (uArtifacts u) (vrSeen run) in
         if cited \<noteq> [] then FailedBy ''citations'' (''citation check failed:'' @ CHR 0x0A # str_join [CHR 0x0A] cited)
         else Clean)
      else Clean)"

definition unit_result :: "nat \<Rightarrow> bool \<Rightarrow> string \<Rightarrow> string \<Rightarrow> UnitVerification" where
  "unit_result i passed chk excerpt =
     \<lparr>vUnit = int i, vPassed = passed, vCheck = chk, vExcerpt = excerpt\<rparr>"

text \<open>The outcome of \<open>check_cmd\<close> with its exit code, none when the command could not be run.\<close>

definition run_check :: "verify_env \<Rightarrow> nat \<Rightarrow> PlanUnit \<Rightarrow> (UnitVerification \<times> payload) option" where
  "run_check env i u =
     (if uCheckCmd u = [] then Some (unit_result i True ''artifacts'' [], [])
      else map_option (\<lambda>r.
        (unit_result i (vrPassed r) (if vrTimedOut r then ''timeout'' else ''check_cmd'') (vrExcerpt r),
         [(''exit_code'', JInt (vrExitCode r))]))
        (runVerifyTimed (veRun env (uCheckCmd u)) ''10m0s''))"

definition staged_result :: "verify_env \<Rightarrow> unit_stage \<Rightarrow> nat \<Rightarrow> PlanUnit \<Rightarrow> (UnitVerification \<times> payload) option" where
  "staged_result env stage i u =
     (case stage of
        FailedBy chk excerpt \<Rightarrow> Some (unit_result i False chk excerpt, [])
      | _ \<Rightarrow> run_check env i u)"

definition lock_gate :: "measured \<Rightarrow> UnitVerification \<Rightarrow> UnitVerification option" where
  "lock_gate ev v =
     (let judge = (\<lambda>e. if Met e then v
        else v\<lparr>vPassed := False, vCheck := lockfileCheck, vExcerpt := renderLockfileEvidence e\<rparr>)
      in case ev of
           MeasureFailed \<Rightarrow> None
         | NoBaseline \<Rightarrow> Some v
         | Reused e \<Rightarrow> Some (judge e)
         | Fresh e \<Rightarrow> Some (judge e))"

definition evidence_event :: "measured \<Rightarrow> EventDraft list" where
  "evidence_event ev =
     (case ev of
        Fresh e \<Rightarrow> [event ''mission.lockfile_evidence''
          ([(''lockfiles'', JStrs (leLockfiles e)), (''met'', JBool (Met e)),
            (''test_cmd'', JStr (leTestCmd e)), (''test_exit'', JInt (leTestExit e))]
           @ (if leAuditError e \<noteq> [] then [(''audit_error'', JStr (leAuditError e))] else []))]
      | _ \<Rightarrow> [])"

definition verified_event :: "PlanUnit \<Rightarrow> payload \<Rightarrow> UnitVerification \<Rightarrow> EventDraft" where
  "verified_event u extra v =
     event ''mission.unit_verified''
       ([(''unit'', JInt (vUnit v)), (''regression'', JBool (verified u))] @ extra
        @ [(''passed'', JBool (vPassed v)), (''check'', JStr (vCheck v))]
        @ (if vPassed v then [] else [(''excerpt'', JStr (truncate_str (vExcerpt v) 500))]))"

text \<open>
  The loop over the units. \<open>seen\<close>: the lockfile evidence was already measured in this pass. The
  result is none when a command could not be run; the events stay.
\<close>

fun verify_loop ::
    "verify_env \<Rightarrow> verify_run \<Rightarrow> measured \<Rightarrow> bool \<Rightarrow> nat \<Rightarrow> PlanUnit list
       \<Rightarrow> UnitVerification list option \<times> EventDraft list" where
  "verify_loop env run ev seen i [] = (Some [], [])"
| "verify_loop env run ev seen i (u # us) =
     (let stage = artifact_stage env run i u in
      if stage = Skipped then verify_loop env run ev seen (Suc i) us
      else case staged_result env stage i u of
        None \<Rightarrow> (None, [])
      | Some (v, extra) \<Rightarrow>
          let gated = vPassed v \<and> i \<in> set (vrOwners run);
              measure = (if gated \<and> \<not> seen then evidence_event ev else [])
          in case (if gated then lock_gate ev v else Some v) of
               None \<Rightarrow> (None, measure)
             | Some v' \<Rightarrow>
                 let rest = verify_loop env run ev (seen \<or> gated) (Suc i) us
                 in (map_option (Cons v') (fst rest), measure @ verified_event u extra v' # snd rest))"

definition missionLockfiles :: "verify_env \<Rightarrow> TurnMission \<Rightarrow> string list" where
  "missionLockfiles env m =
     (if tmKind m \<noteq> KindCoding \<or> tmWorktree m = [] \<or> \<not> tmEnvFacts m
         \<or> tmBaseCommit m = [] \<or> tmBaseCommit m = ''(unavailable)'' then []
      else changedLockfiles (veTouched env))"

definition verify_setup :: "verify_env \<Rightarrow> TurnMission \<Rightarrow> string list \<Rightarrow> bool \<Rightarrow> verify_run" where
  "verify_setup env m seenURLs citations =
     (let current = firstUnverified (tmUnits m); lockfiles = missionLockfiles env m
      in \<lparr>vrMission = m, vrCurrent = current, vrSeen = seenURLs,
          vrCitations = (citations \<and> checksCitations (missionPolicyFor m)),
          vrLockfiles = lockfiles,
          vrOwners = lockfileOwners (tmUnits m) lockfiles current\<rparr>)"

definition mission_evidence :: "verify_env \<Rightarrow> TurnMission \<Rightarrow> string list \<Rightarrow> measured" where
  "mission_evidence env m lockfiles =
     lockfileEvidence (veLock env) (tmGoal m) (if tmEnvFacts m then tmPrepare m else None)
       (tmLockfile m) lockfiles"

definition verifyAll ::
    "verify_env \<Rightarrow> TurnMission \<Rightarrow> string list \<Rightarrow> bool
       \<Rightarrow> UnitVerification list option \<times> EventDraft list" where
  "verifyAll env m seenURLs citations =
     (let run = verify_setup env m seenURLs citations
      in verify_loop env run (mission_evidence env m (vrLockfiles run)) False 0 (tmUnits m))"

definition failedUnits :: "UnitVerification list \<Rightarrow> UnitVerification list" where
  "failedUnits vs = filter (\<lambda>v. \<not> vPassed v) vs"

section \<open>What a passing result rests on\<close>

text \<open>An artifact that is there: relative, inside the resolved work root, a file with content.\<close>

definition delivered :: "verify_env \<Rightarrow> string \<Rightarrow> string \<Rightarrow> bool" where
  "delivered env base a =
     (let rel = trim_space a; full = path_join base (path_clean rel)
      in rel = [] \<or> \<not> rooted rel \<and> WithinRoot (veLinks env) base full = None
           \<and> (\<exists>n. veStat env full = Some (FileSize (Suc n))))"

lemma artifact_problem_None: "artifact_problem env base a = None \<Longrightarrow> delivered env base a"
  by (auto simp: artifact_problem_def delivered_def Let_def gr0_conv_Suc split: if_splits option.splits file_info.splits)

lemma CheckArtifacts_Nil:
  "CheckArtifacts env base artifacts = [] \<longleftrightarrow> (\<forall>a \<in> set artifacts. artifact_problem env base a = None)"
  by (induction artifacts) (auto simp: CheckArtifacts_def List.map_filter_simps split: option.splits)

text \<open>The check passed: no command, or it ran to the end with exit code zero.\<close>

definition check_passed :: "verify_env \<Rightarrow> PlanUnit \<Rightarrow> bool" where
  "check_passed env u = (uCheckCmd u = [] \<or> (\<exists>out. veRun env (uCheckCmd u) = Exited 0 out))"

lemma run_check_passed:
  "run_check env i u = Some (v, extra) \<Longrightarrow> vPassed v \<Longrightarrow> check_passed env u"
  by (auto simp: run_check_def check_passed_def unit_result_def runVerifyTimed_def split: if_splits exec_result.splits)

lemma run_check_unit: "run_check env i u = Some (v, extra) \<Longrightarrow> vUnit v = int i"
  by (auto simp: run_check_def unit_result_def split: if_splits)

lemma staged_unit: "staged_result env stage i u = Some (v, extra) \<Longrightarrow> vUnit v = int i"
  by (auto simp: staged_result_def unit_result_def dest: run_check_unit split: unit_stage.splits)

lemma lock_gate_unit: "lock_gate ev v = Some v' \<Longrightarrow> vUnit v' = vUnit v \<and> (vPassed v' \<longrightarrow> vPassed v)"
  by (auto simp: lock_gate_def Let_def split: measured.splits if_splits)

definition evidence_met :: "measured \<Rightarrow> bool" where
  "evidence_met ev =
     (case ev of MeasureFailed \<Rightarrow> False | NoBaseline \<Rightarrow> True | Reused e \<Rightarrow> Met e | Fresh e \<Rightarrow> Met e)"

lemma lock_gate_met: "lock_gate ev v = Some v' \<Longrightarrow> vPassed v' \<Longrightarrow> evidence_met ev"
  by (auto simp: lock_gate_def evidence_met_def Let_def split: measured.splits if_splits)

text \<open>Everything a passing result of the loop says about its unit.\<close>

definition result_backed ::
    "verify_env \<Rightarrow> verify_run \<Rightarrow> measured \<Rightarrow> nat \<Rightarrow> PlanUnit \<Rightarrow> bool" where
  "result_backed env run ev i u =
     ((\<forall>a \<in> set (uArtifacts u). delivered env (tmWorkRoot (vrMission run)) a)
      \<and> check_passed env u
      \<and> (vrCitations run \<and> \<not> verified u \<longrightarrow> veCitations env (uArtifacts u) (vrSeen run) = [])
      \<and> (i \<in> set (vrOwners run) \<longrightarrow> evidence_met ev))"

lemma stage_clean:
  "artifact_stage env run i u = Clean \<Longrightarrow>
     (\<forall>a \<in> set (uArtifacts u). delivered env (tmWorkRoot (vrMission run)) a)
     \<and> (vrCitations run \<and> \<not> verified u \<longrightarrow> veCitations env (uArtifacts u) (vrSeen run) = [])"
  using artifact_problem_None
  by (fastforce simp: artifact_stage_def Let_def CheckArtifacts_Nil split: if_splits)

lemma staged_passed:
  assumes "staged_result env stage i u = Some (v, extra)" "vPassed v" "stage \<noteq> Skipped"
  shows "stage = Clean \<and> check_passed env u"
  using assms run_check_passed by (cases stage) (auto simp: staged_result_def unit_result_def)

lemma verify_loop_backed:
  "verify_loop env run ev seen i us = (Some out, evs) \<Longrightarrow> v \<in> set out \<Longrightarrow>
     \<exists>j < length us. vUnit v = int (i + j) \<and> (vPassed v \<longrightarrow> result_backed env run ev (i + j) (us ! j))"
proof (induction us arbitrary: seen i out evs)
  case Nil
  then show ?case by simp
next
  case (Cons u us)
  let ?stage = "artifact_stage env run i u"
  have shift: "\<exists>j < length (u # us). vUnit v = int (i + j)
        \<and> (vPassed v \<longrightarrow> result_backed env run ev (i + j) ((u # us) ! j))"
    if "\<exists>j < length us. vUnit v = int (Suc i + j)
        \<and> (vPassed v \<longrightarrow> result_backed env run ev (Suc i + j) (us ! j))"
  proof -
    from that obtain j where "j < length us" "vUnit v = int (Suc i + j)"
      "vPassed v \<longrightarrow> result_backed env run ev (Suc i + j) (us ! j)" by blast
    then show ?thesis by (intro exI [of _ "Suc j"]) simp
  qed
  show ?case
  proof (cases "?stage = Skipped")
    case True
    with Cons.prems have "verify_loop env run ev seen (Suc i) us = (Some out, evs)" by simp
    from shift [OF Cons.IH [OF this Cons.prems(2)]] show ?thesis .
  next
    case stage: False
    then obtain w extra where w: "staged_result env ?stage i u = Some (w, extra)"
      using Cons.prems(1) by (cases "staged_result env ?stage i u") (auto simp: Let_def)
    let ?gated = "vPassed w \<and> i \<in> set (vrOwners run)"
    from Cons.prems(1) stage w obtain w' where w': "(if ?gated then lock_gate ev w else Some w) = Some w'"
      by (cases "if ?gated then lock_gate ev w else Some w") (simp_all add: Let_def)
    obtain out' evs' where rest: "verify_loop env run ev (seen \<or> ?gated) (Suc i) us = (out', evs')" by fastforce
    from Cons.prems(1) stage w w' rest obtain tl where out: "out = w' # tl" "out' = Some tl"
      by (auto simp: Let_def)
    show ?thesis
    proof (cases "v = w'")
      case True
      have unit: "vUnit w' = int i" "vPassed w' \<Longrightarrow> vPassed w"
        using w' staged_unit [OF w] lock_gate_unit [of ev w w'] by (auto split: if_splits)
      have "result_backed env run ev i u" if p: "vPassed w'"
      proof -
        from staged_passed [OF w unit(2) [OF p] stage] have "?stage = Clean" "check_passed env u" by auto
        moreover have "i \<in> set (vrOwners run) \<longrightarrow> evidence_met ev"
          using w' unit(2) [OF p] lock_gate_met [of ev w w'] p by auto
        ultimately show ?thesis using stage_clean [of env run i u] by (simp add: result_backed_def)
      qed
      with unit(1) True show ?thesis by (intro exI [of _ 0]) simp
    next
      case False
      with Cons.prems(2) out have "v \<in> set tl" by simp
      with shift Cons.IH [OF rest [unfolded out(2)]] show ?thesis by blast
    qed
  qed
qed

text \<open>The units the pass reports: in order, each at most once, every verified and the current one.\<close>

lemma verify_loop_units:
  "verify_loop env run ev seen i us = (Some out, evs) \<Longrightarrow>
     sorted_wrt (<) (map vUnit out) \<and> (\<forall>v \<in> set out. int i \<le> vUnit v)
     \<and> (\<forall>j < length us. verified (us ! j) \<or> int (i + j) = vrCurrent run
          \<longrightarrow> int (i + j) \<in> vUnit ` set out)"
proof (induction us arbitrary: seen i out evs)
  case Nil
  then show ?case by simp
next
  case (Cons u us)
  let ?stage = "artifact_stage env run i u"
  show ?case
  proof (cases "?stage = Skipped")
    case True
    then have skip: "\<not> verified u" "int i \<noteq> vrCurrent run" by (auto simp: artifact_stage_def Let_def split: if_splits)
    from True Cons.prems have "verify_loop env run ev seen (Suc i) us = (Some out, evs)" by simp
    note ih = Cons.IH [OF this]
    have "int (i + j) \<in> vUnit ` set out"
      if "j < length (u # us)" "verified ((u # us) ! j) \<or> int (i + j) = vrCurrent run" for j
      using that skip ih by (cases j) auto
    with ih show ?thesis by fastforce
  next
    case stage: False
    then obtain w extra where w: "staged_result env ?stage i u = Some (w, extra)"
      using Cons.prems(1) by (cases "staged_result env ?stage i u") (auto simp: Let_def)
    let ?gated = "vPassed w \<and> i \<in> set (vrOwners run)"
    from Cons.prems(1) stage w obtain w' where w': "(if ?gated then lock_gate ev w else Some w) = Some w'"
      by (cases "if ?gated then lock_gate ev w else Some w") (simp_all add: Let_def)
    obtain out' evs' where rest: "verify_loop env run ev (seen \<or> ?gated) (Suc i) us = (out', evs')" by fastforce
    from Cons.prems(1) stage w w' rest obtain tl where out: "out = w' # tl" "out' = Some tl"
      by (auto simp: Let_def)
    have unit: "vUnit w' = int i"
      using w' staged_unit [OF w] lock_gate_unit [of ev w w'] by (auto split: if_splits)
    note ih = Cons.IH [OF rest [unfolded out(2)]]
    have "int (i + j) \<in> vUnit ` set out"
      if "j < length (u # us)" "verified ((u # us) ! j) \<or> int (i + j) = vrCurrent run" for j
      using that ih unit out by (cases j) auto
    with ih unit out show ?thesis by fastforce
  qed
qed

end
