(* ===== verification/Go_Text.thy ===== *)
theory Go_Text
  imports Prelude
begin

text \<open>
  UTF-8 as Go reads it (\<open>unicode/utf8\<close>, conversions to \<open>[]rune\<close>): where a rune ends, and what an
  invalid byte becomes.
\<close>

text \<open>\<open>[]rune(s)\<close>, each rune as the bytes it is encoded in again; an invalid byte becomes U+FFFD.\<close>

definition byte :: "char \<Rightarrow> nat" where "byte c = of_char c"

definition continues :: "char \<Rightarrow> bool" where
  "continues c = (128 \<le> byte c \<and> byte c < 192)"

definition second_ok :: "char \<Rightarrow> char \<Rightarrow> bool" where
  "second_ok c d =
     (let lo = (if byte c = 0xE0 then 0xA0 else if byte c = 0xF0 then 0x90 else 0x80);
          hi = (if byte c = 0xED then 0x9F else if byte c = 0xF4 then 0x8F else 0xBF)
      in lo \<le> byte d \<and> byte d \<le> hi)"

definition rune_length :: "string \<Rightarrow> nat" where
  "rune_length s =
     (case s of
        [] \<Rightarrow> 0
      | c # r \<Rightarrow>
          if byte c < 0x80 then 1
          else if 0xC2 \<le> byte c \<and> byte c \<le> 0xDF then
            (if r \<noteq> [] \<and> continues (r ! 0) then 2 else 0)
          else if 0xE0 \<le> byte c \<and> byte c \<le> 0xEF then
            (if 2 \<le> length r \<and> second_ok c (r ! 0) \<and> continues (r ! 1) then 3 else 0)
          else if 0xF0 \<le> byte c \<and> byte c \<le> 0xF4 then
            (if 3 \<le> length r \<and> second_ok c (r ! 0) \<and> continues (r ! 1) \<and> continues (r ! 2) then 4 else 0)
          else 0)"

definition replacement_rune :: string where
  "replacement_rune = [CHR 0xEF, CHR 0xBF, CHR 0xBD]"

function runes :: "string \<Rightarrow> string list" where
  "runes [] = []"
| "runes (c # s) =
     (let n = rune_length (c # s)
      in if n = 0 then replacement_rune # runes s
         else take n (c # s) # runes (drop n (c # s)))"
  by pat_completeness auto
termination by (relation "measure length") auto

section \<open>Quoting\<close>

text \<open>\<open>%q\<close>: \<open>strconv.Quote\<close>; bytes from 128 on belong to printable runes.\<close>

definition quote_rune :: "char \<Rightarrow> string" where
  "quote_rune c =
     (let n = of_char c :: nat; hex = (\<lambda>d. if d < 10 then char_of (48 + d) else char_of (87 + d)) in
      if c = dquote \<or> c = backslash then [backslash, c]
      else if c = CHR 0x07 then backslash # ''a''
      else if c = CHR 0x08 then backslash # ''b''
      else if c = CHR 0x0C then backslash # ''f''
      else if c = CHR 0x0A then backslash # ''n''
      else if c = CHR 0x0D then backslash # ''r''
      else if c = CHR 0x09 then backslash # ''t''
      else if c = CHR 0x0B then backslash # ''v''
      else if n < 32 \<or> n = 127 then [backslash, CHR ''x'', hex (n div 16), hex (n mod 16)]
      else [c])"

definition Quote :: "string \<Rightarrow> string" where
  "Quote s = dquote # concat (map quote_rune s) @ [dquote]"

section \<open>Facts about runes\<close>

lemma rune_length_le: "rune_length s \<le> 4"
  by (auto simp: rune_length_def split: list.split)

lemma runes_short: "r \<in> set (runes s) \<Longrightarrow> length r \<le> 4"
proof (induction s rule: runes.induct)
  case (2 c s)
  then show ?case using rune_length_le [of "c # s"]
    by (auto simp: Let_def replacement_rune_def split: if_splits)
qed simp

text \<open>Text without bytes beyond ASCII is cut at any byte.\<close>

lemma runes_ascii: "\<forall>c \<in> set s. byte c < 128 \<Longrightarrow> runes s = map (\<lambda>c. [c]) s"
  by (induction s) (auto simp: rune_length_def)

end
