(* ===== verification/Mission_Review.thy ===== *)
theory Mission_Review
  imports Mission_Verify Go_Text
begin

text \<open>
  The reviewer's verdict and what the harness makes of it (\<open>internal/brain/missions/review.go\<close>):
  scope tests, the normalisation of a verdict, the per-criterion rubric, the evidence gate and
  the artifacts a packet carries. A decoded verdict is a record; the JSON decoder is not modelled.
\<close>

section \<open>Scope\<close>

definition outsideScope :: "string list \<Rightarrow> string list \<Rightarrow> string list" where
  "outsideScope files scope = (if scope = [] then [] else filter (\<lambda>f. \<not> inScope f scope) files)"

definition insideScope :: "string list \<Rightarrow> string list \<Rightarrow> string list" where
  "insideScope files scope = filter (\<lambda>f. scope = [] \<or> inScope f scope) files"

text \<open>The loop that keeps the first occurrence of every key that is not excluded.\<close>

fun first_by :: "('a \<Rightarrow> string) \<Rightarrow> string list \<Rightarrow> 'a list \<Rightarrow> 'a list" where
  "first_by key seen [] = []"
| "first_by key seen (x # xs) =
     (if key x = [] \<or> key x \<in> set seen then first_by key seen xs
      else x # first_by key (key x # seen) xs)"

definition findingFiles :: "Finding list \<Rightarrow> string list" where
  "findingFiles fs = first_by normalizeFindingPath [] (map (\<lambda>f. trim_space (fFile f)) fs)"

definition criteriaMention :: "string list \<Rightarrow> string \<Rightarrow> bool" where
  "criteriaMention criteria artifact =
     (let rel = to_lower (trim_space artifact); base = to_lower (path_base rel)
      in list_ex (\<lambda>c. str_contains (to_lower c) rel \<or> str_contains (to_lower c) base) criteria)"

definition reviewArtifacts :: "PlanUnit list \<Rightarrow> bool \<Rightarrow> string list" where
  "reviewArtifacts us hasDiff =
     first_by (\<lambda>a. a) []
       (concat (map (\<lambda>u. map trim_space
          (filter (\<lambda>a. uCriteria u = [] \<or> \<not> hasDiff \<or> criteriaMention (uCriteria u) a) (uArtifacts u))) us))"

definition reviewScope :: "PlanUnit list \<Rightarrow> string list" where
  "reviewScope us = rev (remdups (rev (concat (map uScope us))))"

definition hasCriteria :: "PlanUnit list \<Rightarrow> bool" where
  "hasCriteria us = list_ex (\<lambda>u. uCriteria u \<noteq> []) us"

definition planArtifacts :: "PlanUnit list \<Rightarrow> string list" where
  "planArtifacts us = concat (map uArtifacts us)"

definition progressSince :: "(int \<times> string) list \<Rightarrow> int option \<Rightarrow> (int \<times> string) list" where
  "progressSince notes since =
     (case since of None \<Rightarrow> notes | Some t \<Rightarrow> filter (\<lambda>n. t < fst n) notes)"

section \<open>Verdicts\<close>

datatype CriterionStatus = CriterionMet | CriterionNotMet | CriterionCannotTell | CriterionOther string

record CriterionVerdict =
  cvUnit :: int
  cvCriterion :: int
  cvStatus :: CriterionStatus
  cvEvidence :: string

record RawVerdict =
  rawDecision :: string
  rawFindings :: "Finding list"
  rawResolved :: "string list"
  rawCriteria :: "CriterionVerdict list"

record ReviewVerdict =
  rvApproved :: bool
  rvFindings :: "Finding list"
  rvResolved :: "string list"
  rvCriteria :: "CriterionVerdict list"
  rvProvider :: string
  rvModel :: string

definition read_severity :: "Finding \<Rightarrow> Finding" where
  "read_severity f = (if fSeverity f \<noteq> SeverityMinor then f\<lparr>fSeverity := SeverityBlocking\<rparr> else f)"

definition read_status :: "CriterionVerdict \<Rightarrow> CriterionVerdict" where
  "read_status c =
     (case cvStatus c of CriterionOther _ \<Rightarrow> c\<lparr>cvStatus := CriterionCannotTell\<rparr> | _ \<Rightarrow> c)"

definition parseReviewVerdict :: "RawVerdict \<Rightarrow> ReviewVerdict" where
  "parseReviewVerdict raw =
     \<lparr>rvApproved = (rawDecision raw = ''approve''), rvFindings = map read_severity (rawFindings raw),
      rvResolved = rawResolved raw, rvCriteria = map read_status (rawCriteria raw),
      rvProvider = [], rvModel = []\<rparr>"

section \<open>The rubric\<close>

definition criterionText :: "PlanUnit list \<Rightarrow> CriterionVerdict \<Rightarrow> string" where
  "criterionText us c =
     (if cvUnit c < 0 \<or> int (length us) \<le> cvUnit c then []
      else
        let crit = uCriteria (us ! nat (cvUnit c))
        in if cvCriterion c < 0 \<or> int (length crit) \<le> cvCriterion c then []
           else crit ! nat (cvCriterion c))"

definition effective_status :: "CriterionVerdict \<Rightarrow> CriterionStatus" where
  "effective_status c =
     (if cvStatus c = CriterionNotMet \<and> trim_space (cvEvidence c) = [] then CriterionCannotTell
      else cvStatus c)"

definition rubric_finding :: "PlanUnit list \<Rightarrow> CriterionVerdict \<Rightarrow> string \<Rightarrow> Finding" where
  "rubric_finding us c title =
     (let unsure = (effective_status c = CriterionCannotTell); artifacts = uArtifacts (us ! nat (cvUnit c))
      in \<lparr>fID = [], fUnit = cvUnit c, fTitle = title,
          fFile = (if artifacts \<noteq> [] then hd artifacts else []),
          fDetail = (if unsure then ''reviewer could not tell'' else ''criterion not met''),
          fSeverity = (if unsure then SeverityMinor else SeverityBlocking),
          fEvidence = cvEvidence c, fStatus = None, fRoundOpened = 0, fUntouchedRounds = 0\<rparr>)"

text \<open>A criterion the rubric judges: answered other than met, under review, in the plan.\<close>

definition judged :: "PlanUnit list \<Rightarrow> nat list \<Rightarrow> CriterionVerdict \<Rightarrow> bool" where
  "judged us idx c =
     (cvStatus c \<noteq> CriterionMet \<and> cvUnit c \<in> int ` set idx \<and> criterionText us c \<noteq> [])"

definition rubric_step ::
    "PlanUnit list \<Rightarrow> nat list \<Rightarrow> Finding list \<Rightarrow> CriterionVerdict
       \<Rightarrow> Finding list \<times> bool \<Rightarrow> Finding list \<times> bool" where
  "rubric_step us idx opn c acc =
     (let out = fst acc; title = criterionText us c;
          notMet = (snd acc \<or> effective_status c = CriterionNotMet);
          isOpen = list_ex (\<lambda>f. is_open f \<and> fTitle f = title) opn
      in if \<not> judged us idx c then acc
         else if isOpen \<or> list_ex (\<lambda>f. fTitle f = title) out then (out, notMet)
         else (out @ [rubric_finding us c title], notMet))"

definition criteriaFindings ::
    "PlanUnit list \<Rightarrow> nat list \<Rightarrow> CriterionVerdict list \<Rightarrow> Finding list \<Rightarrow> Finding list \<times> bool" where
  "criteriaFindings us idx criteria opn = fold (rubric_step us idx opn) criteria ([], False)"

definition missingCriteria :: "PlanUnit list \<Rightarrow> nat list \<Rightarrow> CriterionVerdict list \<Rightarrow> nat" where
  "missingCriteria us idx criteria =
     (let answered = map (\<lambda>c. (cvUnit c, cvCriterion c)) criteria
      in sum_list (map (\<lambda>u. if length us \<le> u then 0
           else length (filter (\<lambda>i. (int u, int i) \<notin> set answered) [0..<length (uCriteria (us ! u))])) idx))"

section \<open>The evidence gate\<close>

definition demotion :: "string list \<Rightarrow> Finding \<Rightarrow> string option" where
  "demotion known f =
     (let keys = filter (\<lambda>n. n \<noteq> []) (map normalizeFindingPath known) in
      if \<not> Blocking f then None
      else if trim_space (fFile f) = [] then Some ''names no file''
      else if normalizeFindingPath (fFile f) \<notin> set keys then
        Some (''file '' @ Quote (fFile f) @ '' is not in the diff or the declared artifacts'')
      else if trim_space (fEvidence f) = [] then Some ''quotes no evidence''
      else None)"

definition demote :: "string list \<Rightarrow> Finding \<Rightarrow> Finding" where
  "demote known f = (case demotion known f of None \<Rightarrow> f | Some _ \<Rightarrow> f\<lparr>fSeverity := SeverityMinor\<rparr>)"

definition gateFindings :: "Finding list \<Rightarrow> string list \<Rightarrow> Finding list \<times> (Finding \<times> string) list" where
  "gateFindings fs known =
     (map (demote known) fs,
      List.map_filter (\<lambda>f. map_option (\<lambda>r. (demote known f, r)) (demotion known f)) fs)"

definition blockingRemain :: "Finding list \<Rightarrow> Finding list \<Rightarrow> string list \<Rightarrow> bool" where
  "blockingRemain gated opn resolved =
     (list_ex Blocking gated \<or> list_ex (\<lambda>f. Blocking f \<and> fID f \<notin> set resolved) opn)"

definition reviewReason :: "Finding list \<Rightarrow> string" where
  "reviewReason fs = str_join ''; '' (map fTitle fs)"

section \<open>Cutting a diff\<close>

definition lastNewlineBefore :: "string \<Rightarrow> nat \<Rightarrow> nat" where
  "lastNewlineBefore b lmt =
     (let n = min lmt (length b)
      in case filter (\<lambda>i. b ! i = CHR 0x0A) (rev [0..<n]) of [] \<Rightarrow> n | i # _ \<Rightarrow> i)"

definition diff_marker :: string where
  "diff_marker = CHR 0x0A # ''diff --git ''"

text \<open>\<open>strings.Split(diff, marker)\<close>, the marker kept in front of every piece but the first.\<close>

fun split_files :: "string \<Rightarrow> string list" where
  "split_files [] = [[]]"
| "split_files (c # s) =
     (let ps = split_files s
      in if has_prefix (c # s) diff_marker
         then [] # (case ps of p # rest \<Rightarrow> (c # p) # rest | [] \<Rightarrow> [[c]])
         else (case ps of p # rest \<Rightarrow> (c # p) # rest | [] \<Rightarrow> [[c]]))"

definition cut_note :: "nat \<Rightarrow> nat \<Rightarrow> string" where
  "cut_note k n =
     CHR 0x0A # ''[truncated at '' @ nat_dec k @ '' bytes: file diff is '' @ nat_dec n @ '' bytes]''"

text \<open>The loop over the files: what is written and how many files count as kept.\<close>

fun keep_files :: "nat \<Rightarrow> string \<Rightarrow> nat \<Rightarrow> string list \<Rightarrow> string \<times> nat" where
  "keep_files lmt b kept [] = (b, kept)"
| "keep_files lmt b kept (f # fs) =
     (if lmt < length b + length f then
        (if kept = 0 then
           let cut = lastNewlineBefore f lmt
           in (b @ take cut f @ cut_note cut (length f), 1)
         else (b, kept))
      else keep_files lmt (b @ f) (Suc kept) fs)"

definition truncateDiff :: "string \<Rightarrow> nat \<Rightarrow> string" where
  "truncateDiff diff lmt =
     (if length diff \<le> lmt then diff
      else
        let files = split_files diff; r = keep_files lmt [] 0 files
        in fst r @ CHR 0x0A # ''[diff truncated: '' @ nat_dec (length files - snd r) @ '' files omitted]'')"

section \<open>Facts\<close>

lemma read_severity_blocking: "Blocking (read_severity f) = Blocking f"
  by (simp add: read_severity_def Blocking_def)

text \<open>The gate changes nothing but a severity, and only from blocking to minor.\<close>

lemma demote_frame: "demote known f = f\<lparr>fSeverity := fSeverity (demote known f)\<rparr>"
  by (simp add: demote_def split: option.split)

lemma demote_blocking:
  "Blocking (demote known f) \<longleftrightarrow>
     Blocking f \<and> trim_space (fFile f) \<noteq> [] \<and> trim_space (fEvidence f) \<noteq> []
     \<and> normalizeFindingPath (fFile f) \<noteq> []
     \<and> normalizeFindingPath (fFile f) \<in> normalizeFindingPath ` set known"
proof -
  have minor: "\<not> Blocking (f\<lparr>fSeverity := SeverityMinor\<rparr>)" by (simp add: Blocking_def)
  have "Blocking (demote known f) \<longleftrightarrow> Blocking f \<and> demotion known f = None"
    using minor by (auto simp: demote_def demotion_def split: option.splits)
  also have "\<dots> \<longleftrightarrow> Blocking f \<and> trim_space (fFile f) \<noteq> [] \<and> trim_space (fEvidence f) \<noteq> []
     \<and> normalizeFindingPath (fFile f) \<noteq> []
     \<and> normalizeFindingPath (fFile f) \<in> normalizeFindingPath ` set known"
    by (auto simp: demotion_def Let_def)
  finally show ?thesis .
qed

lemma rubric_step_notMet:
  "snd (rubric_step us idx opn c acc) \<longleftrightarrow>
     snd acc \<or> judged us idx c \<and> effective_status c = CriterionNotMet"
  by (simp add: rubric_step_def Let_def)

lemma rubric_fold_notMet:
  "snd (fold (rubric_step us idx opn) cs acc) \<longleftrightarrow>
     snd acc \<or> list_ex (\<lambda>c. judged us idx c \<and> effective_status c = CriterionNotMet) cs"
  by (induction cs arbitrary: acc) (auto simp: rubric_step_notMet)

lemma criteriaFindings_notMet:
  "snd (criteriaFindings us idx cs opn) \<longleftrightarrow>
     list_ex (\<lambda>c. judged us idx c \<and> effective_status c = CriterionNotMet) cs"
  by (simp add: criteriaFindings_def rubric_fold_notMet)

text \<open>Every judged criterion has an entry: one already open, or one the rubric opens.\<close>

lemma rubric_step_mono: "set (fst acc) \<subseteq> set (fst (rubric_step us idx opn c acc))"
  by (auto simp: rubric_step_def Let_def)

lemma rubric_fold_mono: "set (fst acc) \<subseteq> set (fst (fold (rubric_step us idx opn) cs acc))"
proof (induction cs arbitrary: acc)
  case (Cons c cs)
  show ?case unfolding fold_simps by (rule subset_trans [OF rubric_step_mono Cons.IH])
qed simp

lemma rubric_covers:
  assumes "c \<in> set cs" "judged us idx c"
  shows "(\<exists>f \<in> set opn. is_open f \<and> fTitle f = criterionText us c)
     \<or> (\<exists>f \<in> set (fst (criteriaFindings us idx cs opn)). fTitle f = criterionText us c)"
proof -
  from assms(1) obtain as bs where cs: "cs = as @ c # bs" by (auto dest: split_list)
  let ?acc = "fold (rubric_step us idx opn) as ([], False)"
  let ?next = "rubric_step us idx opn c ?acc"
  have "(\<exists>f \<in> set opn. is_open f \<and> fTitle f = criterionText us c)
      \<or> (\<exists>f \<in> set (fst ?next). fTitle f = criterionText us c)"
    using assms(2) by (auto simp: rubric_step_def Let_def list_ex_iff rubric_finding_def)
  moreover have "set (fst ?next) \<subseteq> set (fst (criteriaFindings us idx cs opn))"
    using rubric_fold_mono [of ?next us idx opn bs] by (simp add: criteriaFindings_def cs)
  ultimately show ?thesis by blast
qed

lemma split_files_concat: "concat (split_files s) = s"
  by (induction s) (auto simp: Let_def split: list.splits)

lemma split_files_nonempty: "split_files s \<noteq> []"
  by (induction s) (auto simp: Let_def split: list.splits)

lemma keep_files_counted: "fst (keep_files lmt b kept fs) = fst (keep_files lmt b kept fs)
    \<and> kept \<le> snd (keep_files lmt b kept fs) \<and> snd (keep_files lmt b kept fs) \<le> kept + length fs"
  by (induction lmt b kept fs rule: keep_files.induct) (auto simp: Let_def)

lemma last_newline_le: "lastNewlineBefore b lmt \<le> lmt \<and> lastNewlineBefore b lmt \<le> length b"
proof -
  let ?n = "min lmt (length b)"
  have "x \<in> set (filter (\<lambda>i. b ! i = CHR 0x0A) (rev [0..<?n])) \<Longrightarrow> x < ?n" for x by auto
  then show ?thesis
    by (cases "filter (\<lambda>i. b ! i = CHR 0x0A) (rev [0..<?n])") (auto simp: lastNewlineBefore_def Let_def less_imp_le)
qed

text \<open>What is kept of the diff is a prefix of it within the limit.\<close>

lemma keep_files_prefix:
  "length b \<le> lmt \<Longrightarrow> (kept = 0 \<longrightarrow> b = []) \<Longrightarrow> \<exists>p tail. fst (keep_files lmt b kept fs) = p @ tail \<and> prefix p (b @ concat fs)
     \<and> length p \<le> lmt \<and> (tail = [] \<or> (\<exists>k n. tail = cut_note k n))"
proof (induction lmt b kept fs rule: keep_files.induct)
  case (1 lmt b kept)
  then show ?case by (intro exI [of _ b] exI [of _ "[]"]) simp
next
  case (2 lmt b kept f fs)
  show ?case
  proof (cases "lmt < length b + length f")
    case True
    show ?thesis
    proof (cases "kept = 0")
      case kept: True
      let ?cut = "lastNewlineBefore f lmt"
      have "prefix (take ?cut f) (f @ concat fs)"
        by (metis prefix_append take_is_prefix)
      with True kept 2(3) last_newline_le [of f lmt] show ?thesis
        by - (rule exI [of _ "take ?cut f"], rule exI [of _ "cut_note ?cut (length f)"], auto simp: Let_def)
    next
      case False
      with True 2(2,3) show ?thesis by (intro exI [of _ b] exI [of _ "[]"]) simp
    qed
  next
    case False
    with 2 show ?thesis by simp
  qed
qed

end
