(* ===== verification/Mission_Turns.thy ===== *)
theory Mission_Turns
  imports Mission_Review
begin

text \<open>
  What one build turn and one prove turn hand to \<open>Step\<close> (\<open>internal/brain/missions/driver.go\<close>:
  \<open>runExecute\<close>, \<open>routeVerified\<close>, \<open>runReview\<close> and their helpers). The worker's and the
  reviewer's model turns, git and the sandbox are the environment records; the state a turn
  writes besides its input is the list of its effects, in order. A turn that ends in an error
  has no input. The findings and criteria of the \<open>mission.review_verdict\<close> event are those of
  the returned input and left out of its payload; a write the store refuses is only logged by
  the code and the turn goes on, so the store accepts every write here.
\<close>

datatype effect =
    Append EventDraft
  | Progress string
  | LastEvidence string
  | FinalOutput string

type_synonym turn_result = "StepInput option \<times> effect list"

section \<open>After a batch pass\<close>

definition routeVerified :: "TurnMission \<Rightarrow> UnitVerification list \<Rightarrow> StepInput \<times> effect list" where
  "routeVerified m vs =
     (let i = (input InputPhaseComplete)\<lparr>inVerified := vs\<rparr>;
          us = (if vs = [] then tmUnits m else fst (fold apply_one vs (tmUnits m, [])));
          pending = unitsUnderReview us
      in if alwaysReview (missionPolicyFor m) \<or> OpenFindings (tmFindings m) \<noteq> [] then (i, [])
         else if list_ex (\<lambda>j. uArtifacts (us ! j) = []) pending then (i, [])
         else (i\<lparr>inInput := InputReviewApprove\<rparr>,
               [Append (event ''mission.review_skipped''
                 [(''units'', JInts (map int pending)),
                  (''reason'', JStr ''artifacts and check_cmd passed harness checks'')])]))"

definition was_verified :: "PlanUnit list \<Rightarrow> UnitVerification \<Rightarrow> bool" where
  "was_verified us v =
     (0 \<le> vUnit v \<and> vUnit v < int (length us) \<and> verified (us ! nat (vUnit v)))"

definition failure_label :: "PlanUnit list \<Rightarrow> UnitVerification \<Rightarrow> string" where
  "failure_label us v =
     (if was_verified us v
      then ''regression in unit '' @ int_dec (vUnit v + 1) @ '' '' @ Quote (uTitle (us ! nat (vUnit v)))
      else ''unit '' @ int_dec (vUnit v + 1))"

text \<open>The reason names every failing unit, the fingerprint the first.\<close>

definition harnessFailureReason :: "PlanUnit list \<Rightarrow> UnitVerification list \<Rightarrow> string \<times> string" where
  "harnessFailureReason us failing =
     (truncate_str (str_join ''; '' (map (\<lambda>v. failure_label us v @ '' failed the harness '' @ vCheck v @ '' check'') failing)) 500,
      case failing of
        [] \<Rightarrow> []
      | v # _ \<Rightarrow> (if was_verified us v then ''regression:unit_'' else ''verify_failed:unit_'') @ int_dec (vUnit v))"

section \<open>The build turn\<close>

record WorkerVerdict =
  wvOutcome :: string
  wvEvidence :: string
  wvAnalysis :: string
  wvQuestion :: string
  wvHandoff :: string
  wvNote :: string
  wvFinalOutput :: string
  wvFinalMessage :: string
  wvForced :: bool
  wvSeenURLs :: "string list"
  wvProvider :: string
  wvModel :: string

definition progressNoteCap :: nat where "progressNoteCap = 2000"

definition progressNote :: "WorkerVerdict \<Rightarrow> string \<Rightarrow> string" where
  "progressNote v text =
     (if wvHandoff v \<noteq> [] then wvHandoff v
      else if wvNote v \<noteq> [] then wvNote v
      else truncate_str text progressNoteCap)"

definition recordProgress :: "string \<Rightarrow> effect list" where
  "recordProgress text = (if text = [] then [] else [Progress (NeutralizeSlot (truncate_str text 2000))])"

definition commitSkippedReason :: "string list \<Rightarrow> string" where
  "commitSkippedReason paths = ''untracked files outside this unit's artifacts/scope: '' @ str_join '', '' paths"

definition skippedPathsNotePrefix :: string where
  "skippedPathsNotePrefix = ''Harness skipped untracked paths outside this unit's artifacts/scope: ''"

definition commitSkippedNote :: "string list \<Rightarrow> string" where
  "commitSkippedNote paths = skippedPathsNotePrefix @ str_join '', '' paths"

definition skippedPathsFingerprint :: "string list \<Rightarrow> string" where
  "skippedPathsFingerprint paths =
     (if paths = [] then [] else ''commit_skipped:'' @ str_join ''|'' (sort paths))"

definition forcedRetryFingerprint :: "string \<Rightarrow> string" where
  "forcedRetryFingerprint reason =
     (let says = (\<lambda>w. str_contains (to_lower reason) w) in
      if list_ex says [''without a status report'', ''did not report a status'', ''no sentinel''] then ''no_sentinel''
      else if list_ex says [''changed nothing in the worktree'', ''changed nothing''] then ''done_without_changes''
      else if list_ex says [''idle timeout'', ''run budget'', ''run was lost across a restart'',
                            ''process was lost'', ''without a result event''] then []
      else ''forced_retry'')"

definition planDefectMarkers :: "string list" where
  "planDefectMarkers = [
     ''check_cmd'', ''verify_cmd'', ''acceptance check'', ''acceptance criter'', ''criterion'', ''criteria'',
     ''cannot pass'', ''can never pass'', ''can't pass'', ''in isolation'', ''this unit cannot'', ''unit cannot'',
     ''later unit'', ''earlier unit'', ''another unit'', ''the gate'', ''verify command'', ''check command'']"

definition namesPlanDefect :: "string \<Rightarrow> PlanUnit list \<Rightarrow> bool" where
  "namesPlanDefect question us =
     (let q = to_lower question in
      list_ex (str_contains q) planDefectMarkers
      \<or> list_ex (\<lambda>a. trim_space a \<noteq> [] \<and> str_contains q (to_lower (trim_space a))) (concat (map uArtifacts us)))"

text \<open>
  \<open>xeWorker\<close>: the worker's verdict and text, none on an error; \<open>xeSkipped\<close>: the untracked paths
  the commit left out; \<open>xeTouched\<close>: the paths changed since the head before the turn, none without
  a head or when git fails; \<open>xeVerify\<close>: the work tree after the turn.
\<close>

record execute_env =
  xeWorker :: "(WorkerVerdict \<times> string) option"
  xeSkipped :: "string list"
  xeTouched :: "string list option"
  xeVerify :: verify_env

definition served_by :: "WorkerVerdict \<Rightarrow> StepInput \<Rightarrow> StepInput" where
  "served_by v i = i\<lparr>inProvider := wvProvider v, inModel := wvModel v\<rparr>"

definition commit_refused :: "WorkerVerdict \<Rightarrow> string list \<Rightarrow> turn_result" where
  "commit_refused v skipped =
     (Some (served_by v ((input InputWorkerRetry)
        \<lparr>inReason := truncate_str (commitSkippedReason skipped) 500,
         inGapFingerprint := skippedPathsFingerprint skipped\<rparr>)),
      [Append (event ''mission.commit_skipped_paths'' [(''paths'', JStrs skipped)]),
       Append (event ''mission.action_required''
         [(''kind'', JStr ''commit_skipped_paths''), (''message'', JStr (commitSkippedNote skipped)),
          (''paths'', JStrs skipped)]),
       Progress (commitSkippedNote skipped)])"

definition planless_done :: "TurnMission \<Rightarrow> WorkerVerdict \<Rightarrow> string \<Rightarrow> turn_result" where
  "planless_done m v text =
     (let out = (if wvFinalOutput v \<noteq> [] then wvFinalOutput v
                 else if wvFinalMessage v \<noteq> [] then wvFinalMessage v else text)
      in (Some (served_by v (input InputReviewApprove)),
          [FinalOutput out,
           Append (event ''mission.review_skipped''
             [(''reason'', JStr (if tmFlow m = FlowDiscoverBuild then ''discover_build'' else ''light'')),
              (''verified'', JBool False)])]))"

definition planned_done :: "execute_env \<Rightarrow> TurnMission \<Rightarrow> WorkerVerdict \<Rightarrow> turn_result" where
  "planned_done env m v =
     (let r = verifyAll (xeVerify env) m (wvSeenURLs v) True; evs = map Append (snd r) in
      case fst r of
        None \<Rightarrow> (None, evs)
      | Some vs \<Rightarrow>
          let failing = failedUnits vs in
          if failing \<noteq> [] then
            let why = harnessFailureReason (tmUnits m) failing
            in (Some (served_by v ((input InputWorkerRetry)
                  \<lparr>inVerified := vs, inReason := fst why, inGapFingerprint := snd why\<rparr>)), evs)
          else
            let rt = routeVerified m vs
            in (Some ((served_by v (fst rt))\<lparr>inTouchedFiles := xeTouched env\<rparr>), evs @ snd rt))"

definition worker_done :: "execute_env \<Rightarrow> TurnMission \<Rightarrow> WorkerVerdict \<Rightarrow> string \<Rightarrow> turn_result" where
  "worker_done env m v text =
     (if tmWorktree m \<noteq> [] \<and> xeSkipped env \<noteq> [] then commit_refused v (xeSkipped env)
      else
        let r = (if RunsPlanless (tmFlow m) then planless_done m v text else planned_done env m v)
        in (fst r,
            LastEvidence (wvEvidence v)
            # (if \<not> RunsPlanless (tmFlow m) \<and> trim_space (wvFinalOutput v) \<noteq> []
               then [FinalOutput (wvFinalOutput v)] else [])
            @ snd r))"

definition worker_blocked :: "TurnMission \<Rightarrow> WorkerVerdict \<Rightarrow> turn_result" where
  "worker_blocked m v =
     (let q = wvQuestion v in
      if namesPlanDefect q (tmUnits m) then
        (Some (served_by v ((input InputPlanDefect)\<lparr>inReason := truncate_str q 500, inMessage := q\<rparr>)),
         [Progress (''Worker blocked on a plan defect: '' @ truncate_str q 500)])
      else (Some (served_by v ((input InputWorkerBlocked)\<lparr>inMessage := q\<rparr>)), []))"

definition worker_retry :: "WorkerVerdict \<Rightarrow> turn_result" where
  "worker_retry v =
     (let i = (input InputWorkerRetry)\<lparr>inReason := truncate_str (wvAnalysis v) 500\<rparr>
      in (Some (served_by v (if wvForced v
            then i\<lparr>inGapFingerprint := forcedRetryFingerprint (inReason i), inHarnessCaused := True\<rparr>
            else i)), []))"

definition nothing_to_build :: "TurnMission \<Rightarrow> bool" where
  "nothing_to_build m =
     (\<not> RunsPlanless (tmFlow m) \<and> tmUnits m \<noteq> [] \<and> firstUnverified (tmUnits m) = -1
      \<and> OpenFindings (tmFindings m) = [])"

definition runExecute :: "execute_env \<Rightarrow> TurnMission \<Rightarrow> turn_result" where
  "runExecute env m =
     (if nothing_to_build m then
        let rt = routeVerified m []
        in (Some (fst rt),
            Append (event ''mission.generate_skipped''
              [(''reason'', JStr ''every unit is harness-verified and no review finding is open'')]) # snd rt)
      else case xeWorker env of
        None \<Rightarrow> (None, [])
      | Some (v, text) \<Rightarrow>
          let r = (if wvOutcome v = ''done'' then worker_done env m v text
                   else if wvOutcome v = ''blocked'' then worker_blocked m v
                   else worker_retry v)
          in (fst r, recordProgress (progressNote v text) @ snd r))"

section \<open>The prove turn\<close>

definition reviewUnits :: "PlanUnit list \<Rightarrow> nat list" where
  "reviewUnits us =
     (case unitsUnderReview us of
        [] \<Rightarrow> (case filter (\<lambda>i. \<not> uPasses (us ! i)) [0..<length us] of [] \<Rightarrow> [] | i # _ \<Rightarrow> [i])
      | idx \<Rightarrow> idx)"

definition reviewTokensExceeded :: "int \<Rightarrow> int \<Rightarrow> bool" where
  "reviewTokensExceeded used cap = (0 < cap \<and> cap \<le> used)"

datatype review_answer = Answered ReviewVerdict | PromptTooLong | ReviewError

text \<open>
  \<open>reCeiling\<close>, \<open>reUsed\<close>: the token ceiling (zero: none) and the ledger's sum, none on an error;
  \<open>reChanged\<close>: the paths changed since the base commit or the last review, none when git fails;
  \<open>reShrink\<close>: the event of a packet cut to the model's window; \<open>reAnswer\<close>: the reviewer on the
  full and on the trimmed packet; \<open>reTrim\<close>: the trimmed diff could be made; \<open>reHead\<close>: the head
  after the rollback; \<open>reNow\<close>: the round's time; \<open>reVerify\<close>: the work tree after it.
\<close>

record review_env =
  reCeiling :: int
  reUsed :: "int option"
  reChanged :: "bool \<Rightarrow> string list option"
  reShrink :: "payload option"
  reAnswer :: "bool \<Rightarrow> review_answer"
  reTrim :: bool
  reHead :: string
  reNow :: int
  reVerify :: verify_env

definition shrunk_event :: effect where
  "shrunk_event = Append (event ''mission.review_prompt_shrunk''
     [(''action'', JStr ''trimmed_packet''), (''diff_cap'', JInt 65536), (''artifacts_cap'', JInt 16384)])"

definition reviewWithShrink :: "review_env \<Rightarrow> TurnMission \<Rightarrow> ReviewVerdict option \<times> effect list" where
  "reviewWithShrink env m =
     (case reAnswer env False of
        Answered v \<Rightarrow> (Some v, [])
      | ReviewError \<Rightarrow> (None, [])
      | PromptTooLong \<Rightarrow>
          if tmWorktree m \<noteq> [] \<and> \<not> reTrim env then (None, [])
          else ((case reAnswer env True of Answered v \<Rightarrow> Some v | _ \<Rightarrow> None), [shrunk_event]))"

definition findings_only :: "TurnMission \<Rightarrow> bool" where
  "findings_only m =
     (OpenFindings (tmFindings m) \<noteq> [] \<and> tmLastReviewCommit m \<noteq> [] \<and> tmWorktree m \<noteq> [])"

text \<open>The files the evidence gate knows of from the packet, none when git fails.\<close>

definition packet_files :: "review_env \<Rightarrow> TurnMission \<Rightarrow> string list option" where
  "packet_files env m =
     (if findings_only m then
        map_option (\<lambda>changed. changed @ findingFiles (OpenFindings (tmFindings m))) (reChanged env True)
      else if tmWorktree m \<noteq> [] then reChanged env False
      else Some [])"

record Ruling =
  rlApproved :: bool
  rlFindings :: "Finding list"
  rlDemoted :: "(Finding \<times> string) list"

text \<open>The decision on a verdict: rubric first, then the evidence gate unless it stands approved.\<close>

definition rule_verdict :: "TurnMission \<Rightarrow> nat list \<Rightarrow> string list \<Rightarrow> ReviewVerdict \<Rightarrow> Ruling" where
  "rule_verdict m idx changed v =
     (let opn = OpenFindings (tmFindings m);
          rubric = criteriaFindings (tmUnits m) idx (rvCriteria v) opn;
          notMet = snd rubric;
          fs = rvFindings v @ fst rubric
      in if rvApproved v \<and> \<not> notMet then \<lparr>rlApproved = True, rlFindings = fs, rlDemoted = []\<rparr>
         else
           let gate = gateFindings fs (changed @ planArtifacts (tmUnits m))
           in \<lparr>rlApproved = (\<not> notMet \<and> \<not> blockingRemain (fst gate) opn (rvResolved v)),
               rlFindings = fst gate, rlDemoted = snd gate\<rparr>)"

definition failure_finding :: "UnitVerification \<Rightarrow> Finding" where
  "failure_finding v =
     \<lparr>fID = [], fUnit = 0,
      fTitle = ''harness '' @ vCheck v @ '' check failed for unit '' @ int_dec (vUnit v + 1),
      fFile = [], fDetail = truncate_str (vExcerpt v) 500, fSeverity = SeverityBlocking, fEvidence = [],
      fStatus = None, fRoundOpened = 0, fUntouchedRounds = 0\<rparr>"

definition reviewed_by :: "ReviewVerdict \<Rightarrow> StepInput \<Rightarrow> StepInput" where
  "reviewed_by v i = i\<lparr>inProvider := rvProvider v, inModel := rvModel v\<rparr>"

definition rework_input :: "review_env \<Rightarrow> TurnMission \<Rightarrow> Finding list \<Rightarrow> int \<Rightarrow> string \<Rightarrow> StepInput" where
  "rework_input env m fs unit reason =
     (input InputReviewRework)
       \<lparr>inFindings := fs, inUnit := unit, inReason := reason,
        inReviewCommit := (if tmWorktree m \<noteq> [] then reHead env else []), inReviewAt := Some (reNow env)\<rparr>"

text \<open>An approval lands only on a batch pass without failures.\<close>

definition land_approval :: "review_env \<Rightarrow> TurnMission \<Rightarrow> ReviewVerdict \<Rightarrow> turn_result" where
  "land_approval env m v =
     (let r = verifyAll (reVerify env) m [] False; evs = map Append (snd r) in
      case fst r of
        None \<Rightarrow> (None, evs)
      | Some vs \<Rightarrow>
          let failing = failedUnits vs; fs = map failure_finding failing in
          if failing \<noteq> [] then
            (Some (reviewed_by v ((rework_input env m fs (vUnit (hd failing)) (reviewReason fs))
               \<lparr>inVerified := vs\<rparr>)), evs)
          else (Some (reviewed_by v ((input InputReviewApprove)\<lparr>inVerified := vs\<rparr>)), evs))"

definition verdict_events :: "TurnMission \<Rightarrow> ReviewVerdict \<Rightarrow> Ruling \<Rightarrow> effect list" where
  "verdict_events m v rl =
     map (\<lambda>d. Append (event ''mission.finding_demoted''
       [(''title'', JStr (fTitle (fst d))), (''file'', JStr (fFile (fst d))), (''reason'', JStr (snd d))]))
       (rlDemoted rl)
     @ [Append (event ''mission.review_verdict''
         [(''decision'', JStr (if rlApproved rl then ''approved'' else ''rework'')),
          (''resolved'', JStrs (rvResolved v)), (''findings_only'', JBool (findings_only m))])]"

definition conclude_review :: "review_env \<Rightarrow> TurnMission \<Rightarrow> string list \<Rightarrow> ReviewVerdict \<Rightarrow> turn_result" where
  "conclude_review env m changed v =
     (let idx = reviewUnits (tmUnits m);
          unit = (case idx of [] \<Rightarrow> -1 | i # _ \<Rightarrow> int i);
          rl = rule_verdict m idx changed v;
          r = (if rlApproved rl then land_approval env m v
               else (Some (reviewed_by v ((rework_input env m (rlFindings rl) unit
                        (truncate_str (reviewReason (rlFindings rl)) 500))\<lparr>inResolved := rvResolved v\<rparr>)), []))
      in (fst r, verdict_events m v rl @ snd r))"

definition review_round :: "review_env \<Rightarrow> TurnMission \<Rightarrow> turn_result" where
  "review_round env m =
     (case packet_files env m of
        None \<Rightarrow> (None, [])
      | Some changed \<Rightarrow>
          let cut = (case reShrink env of
                       None \<Rightarrow> [] | Some p \<Rightarrow> [Append (event ''mission.review_prompt_shrunk'' p)]);
              r = reviewWithShrink env m
          in case fst r of
               None \<Rightarrow> (None, cut @ snd r)
             | Some v \<Rightarrow>
                 let c = conclude_review env m changed v in (fst c, cut @ snd r @ snd c))"

definition runReview :: "review_env \<Rightarrow> TurnMission \<Rightarrow> turn_result" where
  "runReview env m =
     (if 0 < reCeiling env \<and> reUsed env = None then (None, [])
      else case (if 0 < reCeiling env then reUsed env else None) of
        Some used \<Rightarrow>
          if reviewTokensExceeded used (reCeiling env) then
            (Some ((input InputReviewBudget)\<lparr>inReason := ''review input tokens '' @ int_dec used
               @ '' reached the ceiling '' @ int_dec (reCeiling env)\<rparr>), [])
          else review_round env m
      | None \<Rightarrow> review_round env m)"

end
