(* ===== verification/Review_Props.thy ===== *)
theory Review_Props
  imports Mission_Turns Mission_Run
begin

text \<open>
  What the build and prove turns guarantee: a unit passes only on evidence, the evidence gate
  only lowers severities, an approval is earned, and a mission that must be reviewed is.
\<close>

section \<open>A tree to evaluate on\<close>

definition demo_unit :: PlanUnit where
  "demo_unit = \<lparr>uTitle = ''write it'', uCheckCmd = ''go test ./...'', uLegacyVerifyCmd = [],
     uArtifacts = [''a.go''], uEvidenceOnly = False, uBootstrap = False,
     uCriteria = [''parses input'', ''has a test''], uScope = [''.''], uPasses = False,
     uHarnessPassed = True, uVerifyCheck = [], uVerifyExcerpt = [], uRegressed = False\<rparr>"

definition second_unit :: PlanUnit where
  "second_unit = demo_unit\<lparr>uTitle := ''document it'', uArtifacts := [''doc.md''], uCheckCmd := [],
     uCriteria := [''names every flag'', ''has an example'']\<rparr>"

definition demo_turn_mission :: TurnMission where
  "demo_turn_mission = \<lparr>tmKind = KindCoding, tmFlow = FlowFull, tmGoal = ''g'',
     tmUnits = [demo_unit, second_unit], tmFindings = [], tmLastReviewCommit = [],
     tmWorktree = ''/ws/wt'', tmWorkRoot = ''/ws/wt'', tmBaseCommit = ''c0'', tmEnvFacts = False,
     tmPrepare = None, tmLockfile = None\<rparr>"

definition demo_tree :: verify_env where
  "demo_tree = \<lparr>veLinks = Some, veStat = (\<lambda>p. if p \<in> {''/ws/wt/a.go'', ''/ws/wt/doc.md''} then Some (FileSize 7) else None),
     veFault = (\<lambda>_. []), veListing = [], veCitations = (\<lambda>_ _. []), veRun = (\<lambda>_. Exited 0 ''ok''),
     veTouched = [''a.go''],
     veLock = \<lparr>lvTest = (\<lambda>_. RunError), lvSummary = (\<lambda>_. \<lparr>tsPassed = 0, tsFailed = 0, tsWarnings = 0, tsParsed = False\<rparr>),
       lvAudit = (\<lambda>_. RunError), lvLockfiles = [], lvMkdir = None, lvReport = Inl [], lvNodeLock = False,
       lvFingerprint = []\<rparr>\<rparr>"

definition demo_verdict :: ReviewVerdict where
  "demo_verdict = \<lparr>rvApproved = True, rvFindings = [], rvResolved = [], rvCriteria = [],
     rvProvider = ''p'', rvModel = ''m''\<rparr>"

definition demo_review :: "ReviewVerdict \<Rightarrow> review_env" where
  "demo_review v = \<lparr>reCeiling = 0, reUsed = None, reChanged = (\<lambda>_. Some [''a.go'']), reShrink = None,
     reAnswer = (\<lambda>_. Answered v), reTrim = True, reHead = ''c1'', reNow = 5, reVerify = demo_tree\<rparr>"

lemma demo_verified:
  "fst (verifyAll demo_tree demo_turn_mission [] False) =
     Some [unit_result 0 True ''check_cmd'' ''ok'', unit_result 1 True ''artifacts'' []]"
  by code_simp

section \<open>Units pass on evidence\<close>

text \<open>C18. In a batch pass a unit is reported once at most, in plan order, the first unit without
  evidence and every verified unit always; and a passing report means that each declared
  artifact is a relative path to a non-empty file inside the resolved work root, that the
  unit's command, if any, exited with zero before its deadline, that a mission whose policy
  checks citations cites nothing unseen, and that a changed lockfile the unit owns met its
  criteria.\<close>

theorem passing_units_are_backed:
  assumes "verifyAll env m seen cit = (Some out, evs)"
  shows "sorted_wrt (<) (map vUnit out)
    \<and> (\<forall>j < length (tmUnits m). verified (tmUnits m ! j) \<or> int j = firstUnverified (tmUnits m)
         \<longrightarrow> int j \<in> vUnit ` set out)
    \<and> (\<forall>v \<in> set out. \<exists>i < length (tmUnits m). vUnit v = int i
         \<and> (vPassed v \<longrightarrow> result_backed env (verify_setup env m seen cit)
              (mission_evidence env m (missionLockfiles env m)) i (tmUnits m ! i)))"
proof -
  let ?run = "verify_setup env m seen cit"
  have run: "vrLockfiles ?run = missionLockfiles env m" "vrCurrent ?run = firstUnverified (tmUnits m)"
    by (simp_all add: verify_setup_def Let_def)
  from assms have loop: "verify_loop env ?run (mission_evidence env m (missionLockfiles env m)) False 0 (tmUnits m)
      = (Some out, evs)" by (simp add: verifyAll_def Let_def run(1))
  from verify_loop_units [OF loop] verify_loop_backed [OF loop] run(2) show ?thesis by simp
qed

lemma passing_units_are_backed_witness:
  "delivered demo_tree ''/ws/wt'' ''doc.md'' \<and> check_passed demo_tree demo_unit"
proof -
  obtain evs where v: "verifyAll demo_tree demo_turn_mission [] False =
      (Some [unit_result 0 True ''check_cmd'' ''ok'', unit_result 1 True ''artifacts'' []], evs)"
    using demo_verified by (metis fst_conv surj_pair)
  have u: "tmUnits demo_turn_mission = [demo_unit, second_unit]" "tmWorkRoot demo_turn_mission = ''/ws/wt''"
    "uArtifacts second_unit = [''doc.md'']"
    by (simp_all add: demo_turn_mission_def second_unit_def)
  note backed = passing_units_are_backed [OF v, THEN conjunct2, THEN conjunct2, rule_format]
  from backed [of "unit_result 1 True ''artifacts'' []"] backed [of "unit_result 0 True ''check_cmd'' ''ok''"]
  show ?thesis
    by (auto simp: u unit_result_def result_backed_def verify_setup_def Let_def)
qed

section \<open>The evidence gate\<close>

text \<open>The evidence gate only lowers severities: it keeps the findings in number and order and
  changes no other field, and a finding blocks after it exactly if it blocked before, names a
  file that is changed or declared, and quotes evidence.\<close>

theorem evidence_gate_only_demotes:
  "length (fst (gateFindings fs known)) = length fs
   \<and> (\<forall>i < length fs.
        fst (gateFindings fs known) ! i = (fs ! i)\<lparr>fSeverity := fSeverity (fst (gateFindings fs known) ! i)\<rparr>
        \<and> (Blocking (fst (gateFindings fs known) ! i) \<longleftrightarrow>
             Blocking (fs ! i) \<and> trim_space (fFile (fs ! i)) \<noteq> [] \<and> trim_space (fEvidence (fs ! i)) \<noteq> []
             \<and> normalizeFindingPath (fFile (fs ! i)) \<noteq> []
             \<and> normalizeFindingPath (fFile (fs ! i)) \<in> normalizeFindingPath ` set known))"
  using demote_frame [of known] demote_blocking [of known] by (simp add: gateFindings_def)

definition demo_finding :: Finding where
  "demo_finding = \<lparr>fID = [], fUnit = 0, fTitle = ''no test'', fFile = ''./a.go'', fDetail = [],
     fSeverity = SeverityBlocking, fEvidence = ''+func f()'', fStatus = None, fRoundOpened = 0, fUntouchedRounds = 0\<rparr>"

lemma evidence_gate_only_demotes_witness:
  "Blocking (fst (gateFindings [demo_finding, demo_finding\<lparr>fFile := ''b.go''\<rparr>] [''a.go'']) ! 0)
   \<and> \<not> Blocking (fst (gateFindings [demo_finding, demo_finding\<lparr>fFile := ''b.go''\<rparr>] [''a.go'']) ! 1)"
proof -
  have n: "normalizeFindingPath ''./a.go'' = ''a.go''" "normalizeFindingPath ''a.go'' = ''a.go''"
    "normalizeFindingPath ''b.go'' = ''b.go''" "trim_space ''./a.go'' = ''./a.go''" "trim_space ''+func f()'' = ''+func f()''"
    by code_simp+
  let ?fs = "[demo_finding, demo_finding\<lparr>fFile := ''b.go''\<rparr>]"
  note g = evidence_gate_only_demotes [of ?fs "[''a.go'']", THEN conjunct2, rule_format]
  show ?thesis using g [of 0] g [of 1] by (simp add: demo_finding_def n Blocking_def)
qed

section \<open>Approval\<close>

lemma conclude_inputs:
  "conclude_review env m changed v = (Some i, effs) \<Longrightarrow>
     (inInput i = InputReviewApprove \<and> rlApproved (rule_verdict m (reviewUnits (tmUnits m)) changed v)
        \<and> fst (verifyAll (reVerify env) m [] False) = Some (inVerified i) \<and> failedUnits (inVerified i) = [])
     \<or> inInput i = InputReviewRework"
  by (auto simp: conclude_review_def land_approval_def rework_input_def reviewed_by_def Let_def
      split: if_splits option.splits)

lemma rule_approved:
  "rlApproved (rule_verdict m idx changed v) \<longleftrightarrow>
     \<not> list_ex (\<lambda>c. judged (tmUnits m) idx c \<and> effective_status c = CriterionNotMet) (rvCriteria v)
     \<and> (rvApproved v
        \<or> \<not> blockingRemain
             (fst (gateFindings (rvFindings v @ fst (criteriaFindings (tmUnits m) idx (rvCriteria v) (OpenFindings (tmFindings m))))
                (changed @ planArtifacts (tmUnits m))))
             (OpenFindings (tmFindings m)) (rvResolved v))"
  by (auto simp: rule_verdict_def Let_def criteriaFindings_notMet)

lemma runReview_round:
  "runReview env m = (Some i, effs) \<Longrightarrow> inInput i \<noteq> InputReviewBudget \<Longrightarrow>
     \<exists>changed v pre post. packet_files env m = Some changed \<and> reAnswer env pre = Answered v
       \<and> conclude_review env m changed v = (Some i, post)"
proof -
  assume r: "runReview env m = (Some i, effs)" and n: "inInput i \<noteq> InputReviewBudget"
  have "\<exists>effs'. review_round env m = (Some i, effs')"
    using r n by (auto simp: runReview_def split: if_splits option.splits)
  then obtain effs' where "review_round env m = (Some i, effs')" ..
  then obtain changed v post where c: "packet_files env m = Some changed" "fst (reviewWithShrink env m) = Some v"
      "conclude_review env m changed v = (Some i, post)"
    by (auto simp: review_round_def Let_def split: option.splits) (metis prod.collapse)+
  then have "\<exists>pre. reAnswer env pre = Answered v"
    by (auto simp: reviewWithShrink_def split: review_answer.splits if_splits)
  with c show ?thesis by blast
qed


lemma demo_review_approves:
  "map_option inInput (fst (runReview (demo_review demo_verdict) demo_turn_mission)) = Some InputReviewApprove"
  by code_simp


section \<open>The inputs of a turn\<close>

lemma routeVerified_inputs:
  "inInput (fst (routeVerified m vs)) = InputPhaseComplete
   \<or> inInput (fst (routeVerified m vs)) = InputReviewApprove \<and> \<not> alwaysReview (missionPolicyFor m)"
  by (simp add: routeVerified_def Let_def)

lemma planned_done_inputs:
  "planned_done env m v = (Some i, effs) \<Longrightarrow>
     inInput i \<in> {InputWorkerRetry, InputPhaseComplete}
     \<or> inInput i = InputReviewApprove \<and> \<not> alwaysReview (missionPolicyFor m)"
  using routeVerified_inputs [of m]
  by (fastforce simp: planned_done_def served_by_def Let_def split: option.splits if_splits)

lemma worker_done_inputs:
  "worker_done env m v text = (Some i, effs) \<Longrightarrow> \<not> RunsPlanless (tmFlow m) \<Longrightarrow>
     inInput i \<in> {InputWorkerRetry, InputPhaseComplete}
     \<or> inInput i = InputReviewApprove \<and> \<not> alwaysReview (missionPolicyFor m)"
  using planned_done_inputs [of env m v i]
  by (auto simp: worker_done_def commit_refused_def served_by_def Let_def prod_eq_iff split: if_splits)

text \<open>A mission whose policy always reviews, which every coding mission is, never skips its
  reviewer: outside the planless flows no build turn ends in an approval, whatever the worker
  claims and whatever the tree holds; it ends in a retry, a question, a plan defect or the step
  to the prove phase, or in an error.\<close>

theorem reviewed_missions_are_reviewed:
  assumes "runExecute env m = (Some i, effs)" and "\<not> RunsPlanless (tmFlow m)"
    and "tmKind m = KindCoding \<or> alwaysReview (missionPolicyFor m)"
  shows "inInput i \<in> {InputWorkerRetry, InputPhaseComplete, InputPlanDefect, InputWorkerBlocked}"
proof -
  have always: "alwaysReview (missionPolicyFor m)"
  proof -
    have "alwaysReview (missionPolicyFor m)" if "tmKind m = KindCoding"
      using that by (simp add: missionPolicyFor_def policyFor_def)
    with assms(3) show ?thesis by blast
  qed
  show ?thesis
  proof (cases "nothing_to_build m")
    case True
    with assms(1) always routeVerified_inputs [of m "[]"] show ?thesis
      by (auto simp: runExecute_def Let_def)
  next
    case False
    with assms(1) obtain v said where w: "xeWorker env = Some (v, said)"
      by (auto simp: runExecute_def split: option.splits)
    consider "wvOutcome v = ''done''" | "wvOutcome v = ''blocked''" | "wvOutcome v \<noteq> ''done''" "wvOutcome v \<noteq> ''blocked''"
      by blast
    then show ?thesis
    proof cases
      case 1
      with assms(1) False w obtain effs' where "worker_done env m v said = (Some i, effs')"
        by (auto simp: runExecute_def Let_def) (metis prod.collapse)
      from worker_done_inputs [OF this assms(2)] always show ?thesis by auto
    next
      case 2
      with assms(1) False w show ?thesis
        by (auto simp: runExecute_def worker_blocked_def served_by_def Let_def split: if_splits)
    next
      case 3
      with assms(1) False w show ?thesis
        by (auto simp: runExecute_def worker_retry_def served_by_def Let_def split: if_splits)
    qed
  qed
qed

definition demo_worker :: WorkerVerdict where
  "demo_worker = \<lparr>wvOutcome = ''done'', wvEvidence = ''tests pass'', wvAnalysis = [], wvQuestion = [],
     wvHandoff = ''done'', wvNote = [], wvFinalOutput = [], wvFinalMessage = [], wvForced = False,
     wvSeenURLs = [], wvProvider = ''p'', wvModel = ''m''\<rparr>"

definition demo_build :: execute_env where
  "demo_build = \<lparr>xeWorker = Some (demo_worker, ''text''), xeSkipped = [], xeTouched = Some [''a.go''],
     xeVerify = demo_tree\<rparr>"

definition unbuilt_mission :: TurnMission where
  "unbuilt_mission = demo_turn_mission\<lparr>tmUnits := [demo_unit\<lparr>uHarnessPassed := False\<rparr>]\<rparr>"

lemma demo_build_completes:
  "map_option inInput (fst (runExecute demo_build unbuilt_mission)) = Some InputPhaseComplete"
  by code_simp

lemma reviewed_missions_are_reviewed_witness:
  "\<exists>i. fst (runExecute demo_build unbuilt_mission) = Some i \<and> inInput i \<noteq> InputReviewApprove"
proof -
  obtain i effs where r: "runExecute demo_build unbuilt_mission = (Some i, effs)"
    using demo_build_completes by (metis (no_types, lifting) map_option_eq_Some prod.collapse)
  have "\<not> RunsPlanless (tmFlow unbuilt_mission)" "tmKind unbuilt_mission = KindCoding"
    by (simp_all add: RunsPlanless_def unbuilt_mission_def demo_turn_mission_def)
  with reviewed_missions_are_reviewed [OF r] r show ?thesis by auto
qed

section \<open>Where the rubric loses a criterion\<close>

text \<open>
  A criterion of the second reviewed unit: its finding names that unit, and the merge stamps the
  round's first unit on it.
\<close>

definition second_unit_verdict :: ReviewVerdict where
  "second_unit_verdict = demo_verdict\<lparr>rvCriteria :=
     [\<lparr>cvUnit = 1, cvCriterion = 0, cvStatus = CriterionNotMet, cvEvidence = ''doc.md: -v missing''\<rparr>]\<rparr>"

lemma rubric_unit_is_overwritten:
  "map_option (\<lambda>i. (inInput i, inUnit i, map fUnit (inFindings i),
       map fUnit (mergeFindings [] (inFindings i) (inResolved i) (inUnit i) 1)))
     (fst (runReview (demo_review second_unit_verdict) demo_turn_mission))
   = Some (InputReviewRework, 0, [1], [0])"
  by code_simp

text \<open>
  A criterion answered not met whose finding is open, and that finding resolved in the same
  verdict: the round is a rework, yet no finding stays open, and the next build turn has
  nothing to build.
\<close>

definition open_criterion :: Finding where
  "open_criterion = demo_finding\<lparr>fID := ''F1'', fTitle := ''parses input'', fStatus := Some FindingOpen\<rparr>"

definition contradicting_verdict :: ReviewVerdict where
  "contradicting_verdict = demo_verdict\<lparr>rvApproved := False, rvResolved := [''F1''], rvCriteria :=
     [\<lparr>cvUnit = 0, cvCriterion = 0, cvStatus = CriterionNotMet, cvEvidence = ''a.go: +f()''\<rparr>]\<rparr>"

lemma resolved_criterion_is_lost:
  "map_option (\<lambda>i. (inInput i, inFindings i,
       OpenFindings (mergeFindings [open_criterion] (inFindings i) (inResolved i) (inUnit i) 2)))
     (fst (runReview (demo_review contradicting_verdict) (demo_turn_mission\<lparr>tmFindings := [open_criterion]\<rparr>)))
   = Some (InputReviewRework, [], [])"
  "nothing_to_build demo_turn_mission"
  by code_simp+

end
