(* ===== verification/Permissions_Props.thy ===== *)
theory Permissions_Props
  imports Permissions
begin

text \<open>
  What the permission chain guarantees. The grant tables are an interface: what a lookup
  returns after a grant, and that a grant is invisible to other sessions and after its expiry;
  the chain's facts about grants are proved from those laws and rest on the interpretation
  for the model's tables.
\<close>

section \<open>The grant store\<close>

locale grant_store =
  fixes rows :: "'d \<Rightarrow> int \<Rightarrow> string \<Rightarrow> (string \<times> string \<times> string) list"
    and root :: "'d \<Rightarrow> int \<Rightarrow> string \<Rightarrow> string"
    and grant :: "'d \<Rightarrow> int \<Rightarrow> string \<Rightarrow> string \<Rightarrow> string \<Rightarrow> int \<Rightarrow> 'd"
  assumes granted: "t < now + ttl \<Longrightarrow> \<exists>src. (tool, pat, src) \<in> set (rows (grant d now s tool pat ttl) t s)"
    and other: "s' \<noteq> s \<or> now + ttl \<le> t \<Longrightarrow> rows (grant d now s tool pat ttl) t s' = rows d t s'"
    and other_root: "s' \<noteq> s \<or> now + ttl \<le> t \<Longrightarrow> root (grant d now s tool pat ttl) t s' = root d t s'"
    and tool_root: "tool \<noteq> SandboxGrantTool \<Longrightarrow> root (grant d now s tool pat ttl) t s' = root d t s'"
begin

definition lookup :: "'d \<Rightarrow> int \<Rightarrow> string \<Rightarrow> string \<Rightarrow> string \<Rightarrow> (string \<times> string) option" where
  "lookup d now session tool subject =
     first_some (\<lambda>(rowTool, pattern, source).
       if ToolMatches tool rowTool \<and> globMatch pattern subject then Some (source, pattern) else None)
       (rows d now session)"

lemma first_some_hit: "x \<in> set xs \<Longrightarrow> f x \<noteq> None \<Longrightarrow> first_some f xs \<noteq> None"
  by (induction xs) (auto split: option.split)

lemma lookup_granted:
  assumes "t < now + ttl" and "ToolMatches tool rowTool" and "globMatch pat subject"
  shows "lookup (grant d now s rowTool pat ttl) t s tool subject \<noteq> None"
proof -
  obtain src where "(rowTool, pat, src) \<in> set (rows (grant d now s rowTool pat ttl) t s)"
    using granted [OF assms(1)] by blast
  then show ?thesis unfolding lookup_def by (rule first_some_hit) (simp add: assms(2,3))
qed

lemma lookup_other:
  "s' \<noteq> s \<or> now + ttl \<le> t \<Longrightarrow> lookup (grant d now s rowTool pat ttl) t s' tool subject = lookup d t s' tool subject"
  by (simp add: lookup_def other)

end

definition sandbox_row :: "GrantDB \<Rightarrow> int \<Rightarrow> string \<Rightarrow> string" where
  "sandbox_row d now session = sandboxFor (Some d) now session"

interpretation tables: grant_store grant_rows sandbox_row Grant
  by unfold_locales (auto simp: grant_rows_def Grant_def sandbox_row_def sandboxFor_def)

lemma matchGrant_lookup: "matchGrant d now s tool subject = tables.lookup d now s tool subject"
  by (simp add: matchGrant_def tables.lookup_def)

section \<open>Taking the chain apart\<close>

lemma first_some_None: "first_some f xs = None \<longleftrightarrow> (\<forall>x \<in> set xs. f x = None)"
  by (induction xs) (auto split: option.split)

lemma grant_step_allow:
  "grant_step p now session tool subject danger = Some r \<Longrightarrow> rsDecision r = DecisionAllow \<Longrightarrow>
     \<exists>d. pDB p = Some d \<and> matchGrant d now session tool subject \<noteq> None"
  by (auto simp: grant_step_def split: option.splits)

lemma shell_allow:
  assumes "Resolve p now session ''shell'' args = Some r" and "rsDecision r = DecisionAllow"
    and "''shell'' \<notin> set (pLoadTools p)"
  defines "subject \<equiv> callSubject ''shell'' args" and "sandbox \<equiv> sandboxFor (pDB p) now session"
  shows "guardSubject (pRoot p) sandbox ''shell'' subject = None"
    "\<exists>d. pDB p = Some d \<and> matchGrant d now session ''shell'' subject \<noteq> None"
    "fst (shell_danger sandbox subject) = DangerSafe \<or> sandboxAllows sandbox subject (snd (shell_danger sandbox subject))"
proof -
  show g: "guardSubject (pRoot p) sandbox ''shell'' subject = None"
    using assms(1,2) by (auto simp: Resolve_def subject_def sandbox_def Let_def split: option.splits)
  have e: "\<not> isExempt p ''shell''" using assms(3) by (simp add: isExempt_def exemptTools_def)
  obtain danger rules where sd: "shell_danger sandbox subject = (danger, rules)" by fastforce
  have res: "(if danger = DangerDestructive \<and> \<not> sandboxAllows sandbox subject rules
      then Some (resolution DecisionAsk subject danger (DestructivePattern rules))
      else grant_step p now session ''shell'' subject danger) = Some r"
    using assms(1) g e sd
    by (auto simp: Resolve_def subject_def sandbox_def Let_def)
  then have ok: "\<not> (danger = DangerDestructive \<and> \<not> sandboxAllows sandbox subject rules)"
    using assms(2) by (auto split: if_splits)
  with res have "grant_step p now session ''shell'' subject danger = Some r" by simp
  then show "\<exists>d. pDB p = Some d \<and> matchGrant d now session ''shell'' subject \<noteq> None"
    using assms(2) by (rule grant_step_allow)
  show "fst (shell_danger sandbox subject) = DangerSafe \<or>
      sandboxAllows sandbox subject (snd (shell_danger sandbox subject))"
    using ok sd by (cases danger) auto
qed

lemma guard_clear:
  assumes "guardSubject root sandbox ''shell'' subject = None"
  shows "root \<noteq> [] \<Longrightarrow> qt \<in> set (commandTokensQuoted (blank_plumbing subject)) \<Longrightarrow>
      guard_root root sandbox (readOnlyCommand subject) qt = None"
    "qt \<in> set (commandTokensQuoted (blank_plumbing subject)) \<Longrightarrow> tok \<in> set (guardFragments (qText qt)) \<Longrightarrow>
      guard_fragment sandbox (readOnlyCommand subject) (qText qt) tok = None"
  using assms by (auto simp: guardSubject_def Let_def first_some_None split: option.splits if_splits)

lemma guard_fragment_clear:
  assumes "guard_fragment sandbox ro rawTok tok = None" and "g \<in> set guardPatterns"
    and "gpExempt g = None" and "gpSandbox g = RelaxNone"
  shows "\<not> MatchString (gpPattern g) tok"
proof -
  have "guard_rule sandbox ro rawTok tok g = None"
    using assms(1,2) by (auto simp: guard_fragment_def first_some_None split: option.splits)
  with assms(3,4) show ?thesis by (auto simp: guard_rule_def sandboxRelaxes_def split: if_splits)
qed

definition ssh_key_names :: "string list" where
  "ssh_key_names = [''id_rsa'', ''id_ed25519'', ''id_ecdsa'', ''id_dsa'']"

definition ssh_pattern :: rx where
  "ssh_pattern = seqs [path_start, liti ''id_'',
     alts [liti ''rsa'', liti ''ed25519'', liti ''ecdsa'', liti ''dsa''], Eot]"

lemma ssh_rule:
  "\<lparr>gpName = ''ssh keys'', gpPattern = ssh_pattern, gpExempt = None, gpHint = [], gpSandbox = RelaxNone\<rparr>
     \<in> set guardPatterns"
  by (simp add: guardPatterns_def ssh_pattern_def)

lemma ssh_name_matches:
  assumes "name \<in> set ssh_key_names"
  shows "\<exists>u. matches (seqs [liti ''id_'', alts [liti ''rsa'', liti ''ed25519'', liti ''ecdsa'', liti ''dsa''], Eot])
    (b, name) u"
proof -
  obtain k where k: "name = ''id_'' @ k" "k \<in> {''rsa'', ''ed25519'', ''ecdsa'', ''dsa''}"
    using assms by (auto simp: ssh_key_names_def)
  let ?c = "last_of b ''id_''"
  have "matches (liti k) (?c, k) (last_of ?c k, [])" using matches_liti [of k ?c "[]"] by simp
  with k(2) have "matches (alts [liti ''rsa'', liti ''ed25519'', liti ''ecdsa'', liti ''dsa'']) (?c, k) (last_of ?c k, [])"
    by (elim insertE emptyE) simp_all
  moreover have "matches (liti ''id_'') (b, ''id_'' @ k) (?c, k)" by (rule matches_liti)
  moreover have "matches Eot (last_of ?c k, []) (last_of ?c k, [])" by (rule matches.eot)
  ultimately show ?thesis unfolding k(1) seqs.simps matches_Seq by blast
qed

lemma ssh_name_guarded:
  assumes "name \<in> set ssh_key_names" and "tok = name \<or> has_suffix tok (''/'' @ name)"
  shows "MatchString ssh_pattern tok"
proof -
  let ?rest = "seqs [liti ''id_'', alts [liti ''rsa'', liti ''ed25519'', liti ''ecdsa'', liti ''dsa''], Eot]"
  have whole: "\<exists>u. matches ssh_pattern st u" if "matches path_start st (b, name)" for st b
    using that ssh_name_matches [OF assms(1), of b] unfolding ssh_pattern_def seqs.simps matches_Seq by blast
  from assms(2) show ?thesis
  proof
    assume "tok = name"
    have p: "matches path_start (None, name) (None, name)" by (simp add: path_start_def matches.bot)
    from whole [OF p] obtain u where "matches ssh_pattern (last_of None [], name) u"
      unfolding last_of_simps by blast
    from MatchStringI [OF this] show ?thesis unfolding \<open>tok = name\<close> by simp
  next
    assume "has_suffix tok (''/'' @ name)"
    then obtain pre where t: "tok = pre @ CHR ''/'' # name" by (auto simp: has_suffix_iff suffix_def)
    have "matches path_start (last_of None pre, CHR ''/'' # name) (Some (CHR ''/''), name)"
      by (simp add: path_start_def ch_def matches_Cls)
    with whole obtain u where "matches ssh_pattern (last_of None pre, CHR ''/'' # name) u" by blast
    from MatchStringI [OF this] t show ?thesis by simp
  qed
qed

lemma shell_danger_no_sandbox: "shell_danger [] subject = ClassifyCommand subject"
  by (simp add: shell_danger_def Let_def)

section \<open>Properties\<close>


definition demo_perms :: Permissions where
  "demo_perms = \<lparr>pDB = Some \<lparr>allowlist = [(''shell'', ''ls*'')], session_grants = []\<rparr>,
     pRoot = ''/ws'', pLoadTools = []\<rparr>"

definition demo_args :: "payload option" where
  "demo_args = Some [(''command'', JStr ''ls /ws/src'')]"

lemma demo_resolve:
  "map_option rsDecision (Resolve demo_perms 0 ''s'' ''shell'' demo_args) = Some DecisionAllow"
  by code_simp

lemma demo_tokens:
  "commandTokensQuoted (blank_plumbing (callSubject ''shell'' demo_args)) =
     [\<lparr>qText = ''ls'', qQuoted = False\<rparr>, \<lparr>qText = ''/ws/src'', qQuoted = False\<rparr>]"
  by code_simp


text \<open>A destructive command is allowed only inside a sandbox: if the chain allows a shell
  command the classifier calls destructive, the session has a registered sandbox root, and
  either the verdict was only that the command is opaque, or every matched rule is file-scoped
  and every absolute path the command names lies under the sandbox root or \<open>/tmp\<close>.\<close>

theorem destructive_only_in_sandbox:
  assumes "Resolve p now session ''shell'' args = Some r" and "rsDecision r = DecisionAllow"
    and "''shell'' \<notin> set (pLoadTools p)"
    and "ClassifyCommand (callSubject ''shell'' args) = (DangerDestructive, rules)"
  shows "sandboxFor (pDB p) now session \<noteq> []
    \<and> (IsOpaqueRationale rules
       \<or> set rules \<subseteq> set sandboxDowngradeable
         \<and> (\<forall>tok \<in> set (CommandTokens (callSubject ''shell'' args)). has_prefix tok ''/'' \<longrightarrow>
              pathWithin (sandboxFor (pDB p) now session) tok \<or> sandboxWritable tok))"
  using shell_allow(3) [OF assms(1-3)] assms(4)
  by (auto simp: shell_danger_def sandboxAllows_def list_all_iff Let_def split: if_splits)

text \<open>SSH keys are out of reach of every session: whatever the grants, the exemptions and
  the sandbox, no allowed shell command has a token with a fragment that is a private key's file
  name or a path ending in one.\<close>

theorem ssh_keys_never_allowed:
  assumes "Resolve p now session ''shell'' args = Some r" and "rsDecision r = DecisionAllow"
    and "''shell'' \<notin> set (pLoadTools p)" and "name \<in> set ssh_key_names"
    and "qt \<in> set (commandTokensQuoted (blank_plumbing (callSubject ''shell'' args)))"
    and "tok \<in> set (guardFragments (qText qt))"
  shows "tok \<noteq> name \<and> \<not> has_suffix tok (''/'' @ name)"
  using guard_fragment_clear [OF guard_clear(2) [OF shell_allow(1) [OF assms(1-3)] assms(5,6)] ssh_rule]
    ssh_name_guarded [OF assms(4), of tok]
  by auto

theorem ssh_keys_never_allowed_witness:
  "\<not> has_suffix ''/ws/src'' ''/id_rsa''"
proof -
  obtain r where r: "Resolve demo_perms 0 ''s'' ''shell'' demo_args = Some r"
    "rsDecision r = DecisionAllow" using demo_resolve by auto
  have l: "''shell'' \<notin> set (pLoadTools demo_perms)" by (simp add: demo_perms_def)
  have n: "''id_rsa'' \<in> set ssh_key_names" by (simp add: ssh_key_names_def)
  have t: "\<lparr>qText = ''/ws/src'', qQuoted = False\<rparr>
      \<in> set (commandTokensQuoted (blank_plumbing (callSubject ''shell'' demo_args)))"
    unfolding demo_tokens by simp
  have f: "guardFragments ''/ws/src'' = [''/ws/src'']" by code_simp
  from ssh_keys_never_allowed [OF r l n t, of "''/ws/src''"] show ?thesis by (simp add: f)
qed

text \<open>Grants do not leak: a grant recorded for one session changes no decision of any other
  session, and none of its own session's once it has expired.\<close>

theorem grants_do_not_leak:
  assumes "session' \<noteq> session \<or> now + ttl \<le> t"
  shows "Resolve (p\<lparr>pDB := Some (Grant d now session gtool pattern ttl)\<rparr>) t session' tool args
    = Resolve (p\<lparr>pDB := Some d\<rparr>) t session' tool args"
proof -
  have "sandboxFor (Some (Grant d now session gtool pattern ttl)) t session' = sandboxFor (Some d) t session'"
    using tables.other_root [OF assms] by (simp add: sandbox_row_def)
  moreover have "matchGrant (Grant d now session gtool pattern ttl) t session' tl sb
      = matchGrant d t session' tl sb" for tl sb
    using tables.lookup_other [OF assms] by (simp add: matchGrant_lookup)
  ultimately show ?thesis
    by (simp add: Resolve_def Let_def isExempt_def grant_step_def split: option.split prod.split)
qed

theorem grants_do_not_leak_witness:
  "Resolve (demo_perms\<lparr>pDB := Some (Grant \<lparr>allowlist = [], session_grants = []\<rparr> 0 ''a'' ''shell'' ''*'' 60)\<rparr>)
     5 ''b'' ''shell'' demo_args
   = Resolve (demo_perms\<lparr>pDB := Some \<lparr>allowlist = [], session_grants = []\<rparr>\<rparr>) 5 ''b'' ''shell'' demo_args"
  by (rule grants_do_not_leak) simp

text \<open>A grant does what the operator meant: until it expires, a call of the granted tool
  whose subject its pattern matches is allowed in the session without another prompt, provided
  the policy guard passes it and, for the shell, the classifier calls it safe.\<close>

theorem grant_allows_until_expiry:
  assumes "t < now + ttl" and "ToolMatches tool gtool" and "gtool \<noteq> SandboxGrantTool"
    and "globMatch pattern (callSubject tool args)"
    and "guardSubject (pRoot p) (if tool = ''shell'' then sandboxFor (Some d) t session else []) tool
           (callSubject tool args) = None"
    and "tool = ''shell'' \<longrightarrow> fst (ClassifyCommand (callSubject tool args)) = DangerSafe"
  shows "\<exists>r. Resolve (p\<lparr>pDB := Some (Grant d now session gtool pattern ttl)\<rparr>) t session tool args = Some r
    \<and> rsDecision r = DecisionAllow"
proof -
  let ?g = "Grant d now session gtool pattern ttl"
  have sb: "sandboxFor (Some ?g) t session = sandboxFor (Some d) t session"
    using tables.tool_root [OF assms(3), of d now session pattern ttl t session] by (simp add: sandbox_row_def)
  obtain src pat where m: "matchGrant ?g t session tool (callSubject tool args) = Some (src, pat)"
    using tables.lookup_granted [OF assms(1,2,4), of d session] by (auto simp: matchGrant_lookup)
  have "shell_danger sb (callSubject tool args) = ClassifyCommand (callSubject tool args)"
    if "tool = ''shell''" for sb using that assms(6) by (simp add: shell_danger_def Let_def)
  with m sb assms(5,6) show ?thesis
    by (cases "isExempt p tool"; cases "tool = ''shell''")
       (auto simp: Resolve_def Let_def isExempt_def grant_step_def split: prod.splits)
qed

theorem grant_allows_until_expiry_witness:
  "\<exists>r. Resolve (demo_perms\<lparr>pDB := Some (Grant \<lparr>allowlist = [], session_grants = []\<rparr> 0 ''a''
      ''list_events'' ''*'' 60)\<rparr>) 5 ''a'' ''google_list_events'' None = Some r
    \<and> rsDecision r = DecisionAllow"
proof (rule grant_allows_until_expiry)
  show "ToolMatches ''google_list_events'' ''list_events''" by code_simp
  show "globMatch ''*'' (callSubject ''google_list_events'' None)" by code_simp
qed (simp_all add: SandboxGrantTool_def guardSubject_def)

end
