(* ===== verification/Tool_Props.thy ===== *)
theory Tool_Props
  imports Tool_Constraints
begin

text \<open>
  Facts about the constraint chain: the walk to an existing ancestor ends, a path the check
  passes resolves inside the resolved root, and the repeat guard recognises exactly three equal
  calls in a row over a whole turn.
\<close>

section \<open>The ancestors of a cleaned path\<close>

lemma str_join_snoc:
  "str_join sep (ws @ [w]) = (if ws = [] then w else str_join sep ws @ sep @ w)"
  by (induction sep ws rule: str_join.induct) auto

lemma components_snoc_slash: "components (p @ [slash]) = components p @ [[]]"
  unfolding components_def by (induction p) (auto split: list.splits)

lemma dropWhile_plain: "slash \<notin> set c \<Longrightarrow>
    rev (dropWhile (\<lambda>c. c \<noteq> slash) (rev (s @ slash # c))) = s @ [slash]"
proof -
  assume "slash \<notin> set c"
  then have "dropWhile (\<lambda>c. c \<noteq> slash) (rev c @ slash # rev s) = dropWhile (\<lambda>c. c \<noteq> slash) (slash # rev s)"
    by (intro dropWhile_append2) auto
  then show ?thesis by simp
qed

lemma path_dir_last:
  assumes "\<forall>d \<in> set (cs @ [c]). plain_component d"
  shows "path_dir (slash # str_join ''/'' (cs @ [c])) = slash # str_join ''/'' cs"
proof -
  have c: "slash \<notin> set c" using assms by (simp add: plain_component_def)
  have cs: "\<forall>d \<in> set cs. plain_component d" using assms by simp
  show ?thesis
  proof (cases "cs = []")
    case True
    have "rev (dropWhile (\<lambda>c. c \<noteq> slash) (rev (slash # c))) = [slash]"
      using dropWhile_plain [OF c, of "[]"] by simp
    with True show ?thesis by (simp add: path_dir_def path_clean_def Let_def components_def clean_components_def push_component_def)
  next
    case False
    let ?s = "slash # str_join ''/'' cs"
    have "rev (dropWhile (\<lambda>c. c \<noteq> slash) (rev (?s @ slash # c))) = ?s @ [slash]"
      by (rule dropWhile_plain [OF c])
    moreover have "components (?s @ [slash]) = [] # cs @ [[]]"
      using components_snoc_slash [of ?s] components_join [of cs] cs False
      by (simp add: components_root plain_component_def)
    moreover have "clean_components True ([] # cs @ [[]]) = cs"
      using clean_components_plain [OF cs, of True]
      by (simp add: clean_components_def push_component_def)
    ultimately show ?thesis using False by (simp add: path_dir_def path_clean_def str_join_snoc)
  qed
qed

lemma path_dir_root: "path_dir ''/'' = ''/''"
  by code_simp

lemma rooted_join_inj:
  "\<forall>d \<in> set (cs @ [c]). plain_component d \<Longrightarrow> slash # str_join ''/'' cs \<noteq> slash # str_join ''/'' (cs @ [c])"
  by (auto simp: str_join_snoc plain_component_def)

lemma resolve_up_ends:
  "\<forall>d \<in> set cs. plain_component d \<Longrightarrow> length cs < n \<Longrightarrow>
     resolve_up n eval (slash # str_join ''/'' cs) sfx \<noteq> OutOfFuel"
proof (induction cs arbitrary: n sfx rule: rev_induct)
  case Nil
  then show ?case by (cases n) (auto simp: Let_def path_dir_root split: option.splits)
next
  case (snoc c cs)
  then obtain m where n: "n = Suc m" "length cs < m" by (cases n) auto
  with snoc show ?case
    by (auto simp: Let_def path_dir_last rooted_join_inj split: option.splits)
qed

lemma length_components_le: "\<forall>d \<in> set cs. plain_component d \<Longrightarrow> length cs \<le> length (str_join ''/'' cs)"
proof (induction cs rule: rev_induct)
  case (snoc c cs)
  then have "c \<noteq> []" by (simp add: plain_component_def)
  with snoc show ?case by (cases c) (auto simp: str_join_snoc)
qed simp

text \<open>The fuel of \<open>resolveExisting\<close> is never what stops it.\<close>

lemma resolveExisting_ends:
  assumes "rooted p"
  shows "resolve_up (length (path_clean p) + 1) eval (path_clean p) [] \<noteq> OutOfFuel"
proof -
  from components_clean_rooted [OF assms] obtain cs where
    cs: "path_clean p = slash # str_join ''/'' cs" "\<forall>c \<in> set cs. plain_component c" by blast
  then have "length cs < length (path_clean p) + 1" using length_components_le [OF cs(2)] by simp
  then show ?thesis unfolding cs(1) by (rule resolve_up_ends [OF cs(2)])
qed

section \<open>Containment\<close>

definition inside :: "string \<Rightarrow> string \<Rightarrow> bool" where
  "inside root p = (rooted root = rooted p \<and> prefix (path_parts root) (path_parts p))"

lemma strip_common_split:
  "strip_common bs ts = (b, t) \<Longrightarrow> \<exists>cs. bs = cs @ b \<and> ts = cs @ t"
proof (induction bs ts rule: strip_common.induct)
  case (1 b' bs t' ts)
  show ?case
  proof (cases "b' = t'")
    case True
    with 1 obtain cs where "bs = cs @ b" "ts = cs @ t" by auto
    with True show ?thesis by (intro exI [of _ "t' # cs"]) simp
  next
    case False
    with 1 show ?thesis by auto
  qed
qed auto

lemma path_rel_inside:
  assumes "path_rel a b = Some rel" "rel \<noteq> dotdot" "\<not> has_prefix rel ''../''"
  shows "inside a b"
proof -
  obtain x t where s: "strip_common (path_parts a) (path_parts b) = (x, t)" by fastforce
  from strip_common_split [OF s] obtain cs where cs: "path_parts a = cs @ x" "path_parts b = cs @ t" by blast
  have "x = []"
  proof (cases x)
    case (Cons y ys)
    with assms(1) s have "rel = str_join ''/'' (dotdot # replicate (length ys) dotdot @ t)"
      by (auto simp: path_rel_def Let_def split: if_splits)
    moreover have "str_join ''/'' (dotdot # ws) = dotdot \<or> has_prefix (str_join ''/'' (dotdot # ws)) ''../''" for ws
      by (cases ws) (auto simp: dotdot_def)
    ultimately show ?thesis using assms(2,3) by blast
  qed
  with cs assms(1) show ?thesis by (auto simp: inside_def path_rel_def split: if_splits)
qed

lemma WithinRoot_inside:
  assumes "WithinRoot eval root p = None"
  obtains rr res where "eval root = Some rr" "resolveExisting eval (path_clean p) = Inr res" "inside rr res"
  using assms path_rel_inside
  by (fastforce simp: WithinRoot_def split: if_splits option.splits sum.splits)

lemma first_some_none: "first_some f xs = None \<longleftrightarrow> (\<forall>x \<in> set xs. f x = None)"
  by (induction xs) (auto split: option.splits)


definition demo_links :: "string \<Rightarrow> string option" where
  "demo_links p = (if p = ''/ws'' then Some ''/data/ws'' else if p = ''/ws/src'' then Some ''/data/ws/src'' else None)"


text \<open>
  The plumbing exemption reads the path as written: a token that climbs out through
  \<open>/dev/stdin\<close> is exempt, and the lexical guard skips it when it is quoted and holds a
  metacharacter.
\<close>

definition climbing_command :: string where
  "climbing_command = ''cat '' @ dquote # ''/dev/stdin/../../x$'' @ [dquote]"

lemma plumbing_prefix_is_lexical:
  "guardSubject ''/ws'' [] ''shell'' climbing_command = None"
  "''/dev/stdin/../../x$'' \<in> set (CommandTokens climbing_command)"
  "path_clean ''/dev/stdin/../../x$'' = ''/x$''"
  "check_token eval ''/ws'' False False ''/dev/stdin/../../x$'' = None"
proof -
  show "guardSubject ''/ws'' [] ''shell'' climbing_command = None" by code_simp
  show "''/dev/stdin/../../x$'' \<in> set (CommandTokens climbing_command)" by code_simp
  show "path_clean ''/dev/stdin/../../x$'' = ''/x$''" by code_simp
  have "plumbing ''/dev/stdin/../../x$''" by code_simp
  then show "check_token eval ''/ws'' False False ''/dev/stdin/../../x$'' = None"
    by (simp add: check_token_def rooted_def)
qed

section \<open>The repeat guard\<close>

definition trail :: "ToolCall list \<Rightarrow> nat" where
  "trail cs = length (takeWhile (\<lambda>c. call_sig c = call_sig (last cs)) (rev cs))"

definition guards :: "RepeatGuard \<Rightarrow> ToolCall list \<Rightarrow> bool" where
  "guards g cs =
     (if cs = [] then g = new_guard
      else lastSig g = call_sig (last cs) \<and> lastCount g = trail cs)"

lemma trail_snoc:
  "trail (cs @ [c]) = (if cs \<noteq> [] \<and> call_sig (last cs) = call_sig c then trail cs + 1 else 1)"
proof (cases cs rule: rev_cases)
  case (snoc ds d)
  then show ?thesis by (auto simp: trail_def)
qed (simp add: trail_def)

lemma trail_short: "trail [c] = 1" "trail [c, d] = (if call_sig c = call_sig d then 2 else 1)"
  using trail_snoc [of "[c]" d] by (simp_all add: trail_def)

lemma trail_triple:
  "trail (ds @ [x, y, z]) =
     (if call_sig y = call_sig z then if call_sig x = call_sig y then trail (ds @ [x]) + 2 else 2 else 1)"
  using trail_snoc [of "ds @ [x, y]" z] trail_snoc [of "ds @ [x]" y] by simp

lemma call_sig_nonempty: "call_sig c \<noteq> []"
  by (simp add: call_sig_def)

lemma record_call_guards:
  "guards g cs \<Longrightarrow> guards (fst (record_call c (g, b))) (cs @ [c])
     \<and> snd (record_call c (g, b)) = (b \<or> 3 \<le> trail (cs @ [c]))"
  using call_sig_nonempty [of c]
  by (cases "cs = []")
     (auto simp: guards_def record_call_def Let_def trail_short trail_snoc repeatThreshold_def new_guard_def)

lemma fold_record:
  "guards g cs \<Longrightarrow>
     guards (fst (fold record_call ds (g, b))) (cs @ ds)
     \<and> snd (fold record_call ds (g, b)) =
         (b \<or> (\<exists>k \<in> {1..length ds}. 3 \<le> trail (cs @ take k ds)))"
proof (induction ds arbitrary: g b cs)
  case Nil
  then show ?case by simp
next
  case (Cons d ds)
  obtain g' b' where r: "record_call d (g, b) = (g', b')" by fastforce
  with record_call_guards [OF Cons.prems, of d b] have g': "guards g' (cs @ [d])"
    and b': "b' = (b \<or> 3 \<le> trail (cs @ [d]))" by auto
  have "(\<exists>k \<in> {1..length (d # ds)}. 3 \<le> trail (cs @ take k (d # ds))) \<longleftrightarrow>
      3 \<le> trail (cs @ [d]) \<or> (\<exists>k \<in> {1..length ds}. 3 \<le> trail ((cs @ [d]) @ take k ds))"
    (is "?l \<longleftrightarrow> ?r")
  proof
    assume ?l
    then obtain k where k: "1 \<le> k" "k \<le> length (d # ds)" "3 \<le> trail (cs @ take k (d # ds))" by auto
    then obtain j where "k = Suc j" by (cases k) auto
    with k show ?r by (cases "j = 0") (auto intro: bexI [of _ j])
  next
    assume ?r
    then show ?l
    proof
      assume "3 \<le> trail (cs @ [d])"
      then show ?l by (intro bexI [of _ 1]) auto
    next
      assume "\<exists>k \<in> {1..length ds}. 3 \<le> trail ((cs @ [d]) @ take k ds)"
      then obtain k where "1 \<le> k" "k \<le> length ds" "3 \<le> trail ((cs @ [d]) @ take k ds)" by auto
      then show ?l by (intro bexI [of _ "Suc k"]) auto
    qed
  qed
  with Cons.IH [OF g', of b'] r b' show ?case by auto
qed

text \<open>Three equal calls in a row end a history.\<close>

definition stuck_at_end :: "ToolCall list \<Rightarrow> bool" where
  "stuck_at_end cs = (\<exists>ds x y z. cs = ds @ [x, y, z] \<and> call_sig x = call_sig z \<and> call_sig y = call_sig z)"

lemma trail_pos: "cs \<noteq> [] \<Longrightarrow> 1 \<le> trail cs"
  by (cases cs rule: rev_cases) (auto simp: trail_snoc)

lemma trail_three: "3 \<le> trail cs \<longleftrightarrow> stuck_at_end cs"
proof (cases cs rule: rev_cases)
  case Nil
  then show ?thesis by (simp add: trail_def stuck_at_end_def)
next
  case 1: (snoc bs z)
  show ?thesis
  proof (cases bs rule: rev_cases)
    case Nil
    with 1 show ?thesis by (auto simp: trail_short stuck_at_end_def)
  next
    case 2: (snoc as y)
    show ?thesis
    proof (cases as rule: rev_cases)
      case Nil
      with 1 2 show ?thesis by (auto simp: trail_short stuck_at_end_def split: if_splits)
    next
      case 3: (snoc ds x)
      with 1 2 trail_pos [of "ds @ [x]"] show ?thesis
        by (auto simp: trail_triple stuck_at_end_def split: if_splits)
    qed
  qed
qed

text \<open>Over a turn of any number of steps the repeat guard stops exactly in the step in which
  some call is the third of three consecutive calls with the same tool and arguments, counted
  across the steps before.\<close>

theorem repeat_guard_counts_across_steps:
  "snd (Record (fst (Record new_guard earlier)) calls) \<longleftrightarrow>
     (\<exists>k. 0 < k \<and> k \<le> length calls \<and> stuck_at_end (earlier @ take k calls))"
proof -
  have "guards new_guard []" by (simp add: guards_def)
  from fold_record [OF this, of earlier False] have "guards (fst (Record new_guard earlier)) earlier"
    by (simp add: Record_def)
  from fold_record [OF this, of calls False] show ?thesis
    by (auto simp: Record_def trail_three Suc_le_eq intro!: bexI)
qed

end
