(* ===== verification/Router.thy ===== *)
theory Router
  imports Prelude Complex_Main "HOL-Library.AList"
begin

text \<open>
  The gateway's routing table (\<open>internal/gateway/router/router.go\<close>): a snapshot built from
  provider and route rows, the usability gate, hints and pins, the scored chain order, and the
  two resolutions (chat attempts, executor entries). Maps are association lists. The synced
  catalog, the live price listings, driver construction, the secret store and the OpenAI host
  test are parameters of the snapshot. Amounts and scores are reals; skip reasons are
  constructors carrying what the code formats.
\<close>

section \<open>Rows\<close>

type_synonym 'a smap = "(string \<times> 'a) list"

record ModelPrices =
  InputPerMTok :: real
  OutputPerMTok :: real
  CacheReadPerMTok :: real
  CacheWritePerMTok :: real
  CacheWrite1hPerMTok :: real
  Currency :: string

record ProviderRow =
  pvID :: string
  pvName :: string
  pvKind :: string
  pvDriver :: string
  pvBaseURL :: string
  pvDefaultModel :: string
  pvCredentialRef :: string
  pvEnabled :: bool
  pvReasoningEffort :: string
  pvAnthropicBaseURL :: string
  pvOpenAIResponses :: "bool option"
  pvReasoningEffortByModel :: "string smap"
  pvPricesByModel :: "ModelPrices smap"
  pvListingPricesOff :: bool

definition reasoningEffortFor :: "ProviderRow \<Rightarrow> string \<Rightarrow> string" where
  "reasoningEffortFor r model =
     (case map_of (pvReasoningEffortByModel r) model of Some v \<Rightarrow> v | None \<Rightarrow> pvReasoningEffort r)"

record ChainEntry =
  ceProvider :: string
  ceModel :: string

definition KnownHarnesses :: "string list" where
  "KnownHarnesses = [''claude-cli'', ''pi'', ''codex-cli'', ''opencode'', ''cursor-cli'']"

definition harnessDrivers :: "string \<Rightarrow> string list" where
  "harnessDrivers h =
     (if h = ''claude-cli'' then [''anthropic'']
      else if h = ''pi'' then [''anthropic'', ''openaicompat'']
      else if h = ''codex-cli'' then [''openaicompat'']
      else if h = ''opencode'' then [''openaicompat'']
      else [])"

definition harnessNeedsResponses :: "string \<Rightarrow> bool" where
  "harnessNeedsResponses h = (h = ''codex-cli'')"

definition harnessChatOnly :: "string \<Rightarrow> bool" where
  "harnessChatOnly h = (h = ''pi'')"

record RouteRow =
  rtName :: string
  rtDescription :: string
  rtChain :: "ChainEntry list"
  rtStrategy :: string
  rtEnabled :: bool
  rtCapability :: string
  rtRole :: string

datatype Capability = CapChat | CapStreaming | CapTools | CapEmbeddings | CapVision | CapDecide

text \<open>A built driver, as far as routing sees it: what it can do.\<close>

type_synonym driver = "Capability list"

record CatalogModel =
  cmMode :: string
  cmSupportsVision :: "bool option"
  cmInput :: "real option"
  cmOutput :: "real option"
  cmCacheRead :: "real option"
  cmCacheWrite :: "real option"

record ModelStats =
  Uptime :: real
  LatencyMS :: real
  TokensPerS :: real

datatype skip =
    UnknownProvider
  | Disabled
  | Unhealthy string
  | NotInRegistry
  | LacksCapability Capability
  | UnknownHarness
  | ServesOtherHarness string
  | OnlyOwnRow
  | WireIncompatible
  | NoCredentialRef
  | NoResponsesEndpoint
  | ResponsesOnlyModel
  | EmptyModel
  | HintUnmatched

record Snapshot =
  snRows :: "ProviderRow smap"
  snByName :: "ProviderRow smap"
  snRoutes :: "ChainEntry list smap"
  snStrategy :: "string smap"
  snCapability :: "string smap"
  snRoleRoute :: "string smap"
  snDescription :: "string smap"
  snStats :: "ModelStats smap"
  snRegistry :: "driver smap"
  snHealthy :: "bool smap"
  snUnhealthy :: "string smap"
  snCatalog :: "ProviderRow \<Rightarrow> string \<Rightarrow> CatalogModel option"
  snLive :: "string \<Rightarrow> string \<Rightarrow> ModelPrices option"
  snOpenAIHost :: "string \<Rightarrow> bool"

section \<open>Building a snapshot\<close>

definition credential_missing :: "(string \<Rightarrow> string) \<Rightarrow> ProviderRow \<Rightarrow> bool" where
  "credential_missing lookup row = (pvCredentialRef row \<noteq> [] \<and> lookup (pvCredentialRef row) = [])"

definition judge_health :: "(string \<Rightarrow> string) \<Rightarrow> ProviderRow \<Rightarrow> Snapshot \<Rightarrow> Snapshot" where
  "judge_health lookup row s =
     (if \<not> pvEnabled row then s\<lparr>snUnhealthy := AList.update (pvName row) ''disabled'' (snUnhealthy s)\<rparr>
      else if credential_missing lookup row
      then s\<lparr>snUnhealthy := AList.update (pvName row)
               (''credential '' @ pvCredentialRef row @ '' unresolved'') (snUnhealthy s)\<rparr>
      else s\<lparr>snHealthy := AList.update (pvName row) True (snHealthy s)\<rparr>)"

text \<open>\<open>build row\<close> is the driver \<open>provider.Build\<close> makes of the row, or its error.\<close>

definition add_provider ::
    "(string \<Rightarrow> string) \<Rightarrow> (ProviderRow \<Rightarrow> string + driver) \<Rightarrow> ProviderRow
       \<Rightarrow> Snapshot \<times> (string \<times> string) list \<Rightarrow> Snapshot \<times> (string \<times> string) list" where
  "add_provider lookup build row acc =
     (let s = (fst acc)\<lparr>snRows := AList.update (pvID row) row (snRows (fst acc)),
                       snByName := AList.update (pvName row) row (snByName (fst acc))\<rparr>;
          s = judge_health lookup row s
      in if pvKind row = ''cli'' then (s, snd acc)
         else case build row of
           Inl err \<Rightarrow>
             (s\<lparr>snHealthy := AList.update (pvName row) False (snHealthy s),
                snUnhealthy := AList.update (pvName row) err (snUnhealthy s)\<rparr>,
              snd acc @ [(pvName row, err)])
         | Inr p \<Rightarrow> (s\<lparr>snRegistry := AList.update (pvName row) p (snRegistry s)\<rparr>, snd acc))"

definition add_route :: "RouteRow \<Rightarrow> Snapshot \<Rightarrow> Snapshot" where
  "add_route r s =
     (let s = s\<lparr>snCapability := AList.update (rtName r) (rtCapability r) (snCapability s),
               snDescription := AList.update (rtName r) (rtDescription r) (snDescription s)\<rparr>;
          s = (if rtRole r \<noteq> [] then s\<lparr>snRoleRoute := AList.update (rtRole r) (rtName r) (snRoleRoute s)\<rparr> else s)
      in if rtEnabled r
         then s\<lparr>snRoutes := AList.update (rtName r) (rtChain r) (snRoutes s),
               snStrategy := AList.update (rtName r) (rtStrategy r) (snStrategy s)\<rparr>
         else s)"

definition empty_snapshot ::
    "(ProviderRow \<Rightarrow> string \<Rightarrow> CatalogModel option) \<Rightarrow> (string \<Rightarrow> bool) \<Rightarrow> Snapshot" where
  "empty_snapshot cat host =
     \<lparr>snRows = [], snByName = [], snRoutes = [], snStrategy = [], snCapability = [], snRoleRoute = [],
      snDescription = [], snStats = [], snRegistry = [], snHealthy = [], snUnhealthy = [],
      snCatalog = cat, snLive = (\<lambda>_ _. None), snOpenAIHost = host\<rparr>"

definition BuildSnapshot ::
    "ProviderRow list \<Rightarrow> RouteRow list \<Rightarrow> (string \<Rightarrow> string) \<Rightarrow> (ProviderRow \<Rightarrow> string + driver)
       \<Rightarrow> (ProviderRow \<Rightarrow> string \<Rightarrow> CatalogModel option) \<Rightarrow> (string \<Rightarrow> bool)
       \<Rightarrow> Snapshot \<times> (string \<times> string) list" where
  "BuildSnapshot provRows routeRows lookup build cat host =
     (let r = fold (add_provider lookup build) provRows (empty_snapshot cat host, [])
      in (fold add_route routeRows (fst r), snd r))"

section \<open>Gates\<close>

definition RouteForRole :: "Snapshot \<Rightarrow> string \<Rightarrow> string option" where
  "RouteForRole s role = map_of (snRoleRoute s) role"

definition requiredCapability :: "Snapshot \<Rightarrow> string \<Rightarrow> Capability" where
  "requiredCapability s route =
     (case map_of (snCapability s) route of
        Some c \<Rightarrow> if c = ''embeddings'' then CapEmbeddings
                  else if c = ''vision'' then CapVision
                  else if c = ''decide'' then CapDecide else CapChat
      | None \<Rightarrow> CapChat)"

definition hasCapability :: "driver \<Rightarrow> Capability \<Rightarrow> bool" where
  "hasCapability p want = (want \<in> set p)"

definition attemptCapable :: "Snapshot \<Rightarrow> driver \<Rightarrow> ProviderRow \<Rightarrow> string \<Rightarrow> Capability \<Rightarrow> bool" where
  "attemptCapable s p row model want0 =
     (let want = (if want0 = CapDecide \<and> \<not> hasCapability p want0 then CapChat else want0) in
      if \<not> hasCapability p want then False
      else if want \<noteq> CapEmbeddings \<and> want \<noteq> CapVision then True
      else case snCatalog s row model of
        None \<Rightarrow> True
      | Some m \<Rightarrow> if want = CapEmbeddings then cmMode m = ''embedding''
                  else cmSupportsVision m = Some True)"

definition entryGate ::
    "Snapshot \<Rightarrow> ProviderRow \<Rightarrow> string \<Rightarrow> Capability list \<Rightarrow> skip + driver" where
  "entryGate s row model required =
     (if \<not> pvEnabled row then Inl Disabled
      else if map_of (snHealthy s) (pvName row) \<noteq> Some True
      then Inl (Unhealthy (case map_of (snUnhealthy s) (pvName row) of Some e \<Rightarrow> e | None \<Rightarrow> []))
      else case map_of (snRegistry s) (pvName row) of
        None \<Rightarrow> Inl NotInRegistry
      | Some p \<Rightarrow>
          (case find (\<lambda>want. \<not> attemptCapable s p row model want) required of
             Some want \<Rightarrow> Inl (LacksCapability want)
           | None \<Rightarrow> Inr p))"

definition responsesOnly :: "Snapshot \<Rightarrow> ProviderRow \<Rightarrow> string \<Rightarrow> bool" where
  "responsesOnly s row model =
     (if pvDriver row \<noteq> ''openaicompat'' \<or> \<not> snOpenAIHost s (pvBaseURL row) then False
      else case snCatalog s row model of
        Some m \<Rightarrow> cmMode m = ''responses''
      | None \<Rightarrow> str_contains (to_lower model) ''codex'')"

definition ResponsesMode :: "Snapshot \<Rightarrow> string \<Rightarrow> string \<Rightarrow> bool" where
  "ResponsesMode s providerName model =
     (case map_of (snByName s) providerName of None \<Rightarrow> False | Some row \<Rightarrow> responsesOnly s row model)"

definition statesPrices :: "ProviderRow \<Rightarrow> bool" where
  "statesPrices row = (pvDriver row = ''openaicompat'' \<and> \<not> pvListingPricesOff row)"

definition or_zero :: "real option \<Rightarrow> real" where
  "or_zero x = (case x of Some v \<Rightarrow> v | None \<Rightarrow> 0)"

definition catalog_prices :: "CatalogModel \<Rightarrow> ModelPrices option" where
  "catalog_prices m =
     (if cmInput m = None \<and> cmOutput m = None then None
      else Some \<lparr>InputPerMTok = or_zero (cmInput m), OutputPerMTok = or_zero (cmOutput m),
        CacheReadPerMTok = or_zero (cmCacheRead m), CacheWritePerMTok = or_zero (cmCacheWrite m),
        CacheWrite1hPerMTok = 0, Currency = []\<rparr>)"

definition Prices :: "Snapshot \<Rightarrow> string \<Rightarrow> string \<Rightarrow> ModelPrices option" where
  "Prices s providerName model =
     (case map_of (snByName s) providerName of
        None \<Rightarrow> None
      | Some row \<Rightarrow>
          (case map_of (pvPricesByModel row) model of
             Some p \<Rightarrow> Some p
           | None \<Rightarrow>
               (case (if statesPrices row then snLive s (pvName row) model else None) of
                  Some p \<Rightarrow> Some p
                | None \<Rightarrow>
                    (case snCatalog s row model of None \<Rightarrow> None | Some m \<Rightarrow> catalog_prices m))))"

section \<open>Hints\<close>

text \<open>The candidate splits of a pin, longest provider name first; the name is never empty.\<close>

definition pin_splits :: "string \<Rightarrow> nat list" where
  "pin_splits hint = filter (\<lambda>i. 0 < i \<and> hint ! i = CHR ''/'') (rev [0..<length hint])"

definition splitPin :: "Snapshot \<Rightarrow> string \<Rightarrow> (ProviderRow \<times> string) option" where
  "splitPin s hint =
     (case find (\<lambda>i. map_of (snByName s) (take i hint) \<noteq> None) (pin_splits hint) of
        None \<Rightarrow> None
      | Some i \<Rightarrow> Some (the (map_of (snByName s) (take i hint)), drop (i + 1) hint))"

definition provider_names :: "Snapshot \<Rightarrow> string list" where
  "provider_names s = sort (map fst (snByName s))"

definition findModel :: "Snapshot \<Rightarrow> string \<Rightarrow> (ProviderRow \<times> string) option" where
  "findModel s model =
     (case find (\<lambda>name. case map_of (snByName s) name of
                     None \<Rightarrow> False
                   | Some row \<Rightarrow> pvEnabled row \<and> snCatalog s row model \<noteq> None) (provider_names s) of
        None \<Rightarrow> None
      | Some name \<Rightarrow> Some (the (map_of (snByName s) name), model))"

definition resolveHint :: "Snapshot \<Rightarrow> string \<Rightarrow> (ProviderRow \<times> string) option" where
  "resolveHint s hint =
     (case splitPin s hint of
        Some r \<Rightarrow> Some r
      | None \<Rightarrow>
          (case map_of (snByName s) hint of
             Some row \<Rightarrow> if pvDefaultModel row \<noteq> [] then Some (row, pvDefaultModel row)
                         else findModel s hint
           | None \<Rightarrow> findModel s hint))"

section \<open>Scored chains\<close>

record ResolvedEntry =
  reEntry :: ChainEntry
  reProviderName :: string
  reProviderKind :: string
  reModel :: string
  reUsable :: bool
  reSkipReason :: "skip option"
  reScored :: bool
  reScore :: real
  reNormPrice :: real
  reNormLatency :: real
  reNormTPS :: real
  reUptime :: real
  reLatencyMS :: real
  reTokensPerS :: real
  reInput :: real
  reOutput :: real

definition strategyWeights :: "string \<Rightarrow> (real \<times> real \<times> real) option" where
  "strategyWeights st =
     (if st = ''auto'' then Some (6/10, 1/10, 5/100)
      else if st = ''price'' then Some (9/10, 2/100, 2/100)
      else if st = ''latency'' then Some (1/10, 6/10, 1/10)
      else None)"

definition route_weights :: "Snapshot \<Rightarrow> string \<Rightarrow> (real \<times> real \<times> real) option" where
  "route_weights s route =
     (case map_of (snStrategy s) route of None \<Rightarrow> None | Some st \<Rightarrow> strategyWeights st)"

definition entry_model :: "ChainEntry \<Rightarrow> ProviderRow \<Rightarrow> string" where
  "entry_model e row = (if ceModel e = [] then pvDefaultModel row else ceModel e)"

definition blank_entry :: "bool \<Rightarrow> ChainEntry \<Rightarrow> ResolvedEntry" where
  "blank_entry sc e =
     \<lparr>reEntry = e, reProviderName = [], reProviderKind = [], reModel = ceModel e, reUsable = False,
      reSkipReason = None, reScored = sc, reScore = 0, reNormPrice = -1, reNormLatency = -1,
      reNormTPS = -1, reUptime = -1, reLatencyMS = 0, reTokensPerS = 0, reInput = 0, reOutput = 0\<rparr>"

definition with_prices :: "ModelPrices option \<Rightarrow> ResolvedEntry \<Rightarrow> ResolvedEntry" where
  "with_prices ps d =
     (case ps of None \<Rightarrow> d
      | Some p \<Rightarrow> d\<lparr>reInput := (if 0 < InputPerMTok p then InputPerMTok p else reInput d),
                    reOutput := (if 0 < OutputPerMTok p then OutputPerMTok p else reOutput d)\<rparr>)"

definition with_stats :: "ModelStats option \<Rightarrow> ResolvedEntry \<Rightarrow> ResolvedEntry" where
  "with_stats st d =
     (case st of None \<Rightarrow> d
      | Some x \<Rightarrow> d\<lparr>reUptime := Uptime x, reLatencyMS := LatencyMS x, reTokensPerS := TokensPerS x\<rparr>)"

definition gather :: "Snapshot \<Rightarrow> Capability list \<Rightarrow> bool \<Rightarrow> ChainEntry \<Rightarrow> ResolvedEntry" where
  "gather s required sc e =
     (case map_of (snRows s) (ceProvider e) of
        None \<Rightarrow> (blank_entry sc e)\<lparr>reSkipReason := Some UnknownProvider\<rparr>
      | Some row \<Rightarrow>
          let model = entry_model e row;
              d = (blank_entry sc e)\<lparr>reProviderName := pvName row, reProviderKind := pvKind row, reModel := model\<rparr>;
              d = with_prices (Prices s (pvName row) model) d;
              d = with_stats (map_of (snStats s) (pvName row @ ''/'' @ model)) d
          in case entryGate s row model required of
               Inl reason \<Rightarrow> d\<lparr>reSkipReason := Some reason\<rparr>
             | Inr _ \<Rightarrow> d\<lparr>reUsable := True\<rparr>)"

text \<open>The running minima and maximum of the gather loop, 0 for none yet.\<close>

definition min_pos :: "real \<Rightarrow> real \<Rightarrow> real" where
  "min_pos x acc = (if 0 < x \<and> (acc = 0 \<or> x < acc) then x else acc)"

definition factor :: "real \<Rightarrow> bool \<Rightarrow> real \<Rightarrow> real" where
  "factor w known nv = (if known then w * nv else w * (1/2))"

definition score_entry :: "real \<times> real \<times> real \<Rightarrow> real \<Rightarrow> real \<Rightarrow> real \<Rightarrow> ResolvedEntry \<Rightarrow> ResolvedEntry" where
  "score_entry w minPrice minLatency maxTPS d =
     (let kp = (0 < reOutput d \<and> 0 < minPrice); kl = (0 < reLatencyMS d \<and> 0 < minLatency);
          kt = (0 < reTokensPerS d \<and> 0 < maxTPS);
          np = (if kp then minPrice / reOutput d else reNormPrice d);
          nl = (if kl then minLatency / reLatencyMS d else reNormLatency d);
          nt = (if kt then reTokensPerS d / maxTPS else reNormTPS d);
          total = factor (fst w) kp np + factor (fst (snd w)) kl nl + factor (snd (snd w)) kt nt
      in d\<lparr>reNormPrice := np, reNormLatency := nl, reNormTPS := nt,
           reScore := (if 0 \<le> reUptime d then total * max (reUptime d) (5/100) else total)\<rparr>)"

definition ResolveDetail :: "Snapshot \<Rightarrow> string \<Rightarrow> ResolvedEntry list" where
  "ResolveDetail s route =
     (let chain = (case map_of (snRoutes s) route of Some c \<Rightarrow> c | None \<Rightarrow> []);
          w = route_weights s route;
          out = map (gather s [requiredCapability s route] (w \<noteq> None)) chain
      in case w of
           None \<Rightarrow> out
         | Some ws \<Rightarrow>
             let minPrice = fold (\<lambda>d. min_pos (reOutput d)) out 0;
                 minLatency = fold (\<lambda>d. min_pos (reLatencyMS d)) out 0;
                 maxTPS = fold (\<lambda>d acc. if acc < reTokensPerS d then reTokensPerS d else acc) out 0;
                 scored = map (score_entry ws minPrice minLatency maxTPS) out
             in if 2 \<le> length chain then sort_key (\<lambda>d. - reScore d) scored else scored)"

definition orderedChain :: "Snapshot \<Rightarrow> string \<Rightarrow> ChainEntry list" where
  "orderedChain s route = map reEntry (ResolveDetail s route)"

section \<open>Chat attempts\<close>

record Attempt =
  atDriver :: driver
  atProvider :: string
  atModel :: string
  atReasoningEffort :: string
  atResponsesMode :: bool

text \<open>A rejected candidate: the hint, sticky or chain entry it came from and why.\<close>

record Skipped =
  skSubject :: string
  skReason :: skip
  skSource :: string

definition attempt_key :: "Attempt \<Rightarrow> string" where
  "attempt_key a = atProvider a @ ''/'' @ atModel a"

definition try_add ::
    "Snapshot \<Rightarrow> Capability list \<Rightarrow> ProviderRow \<Rightarrow> string \<Rightarrow> string
       \<Rightarrow> Attempt list \<times> Skipped list \<Rightarrow> Attempt list \<times> Skipped list" where
  "try_add s required row model source acc =
     (case entryGate s row model required of
        Inl reason \<Rightarrow>
          (fst acc, snd acc @ [\<lparr>skSubject = pvName row, skReason = reason, skSource = source\<rparr>])
      | Inr p \<Rightarrow>
          if pvName row @ ''/'' @ model \<in> set (map attempt_key (fst acc)) then acc
          else (fst acc @ [\<lparr>atDriver = p, atProvider = pvName row, atModel = model,
                            atReasoningEffort = reasoningEffortFor row model,
                            atResponsesMode = responsesOnly s row model\<rparr>], snd acc))"

record Sticky =
  stProvider :: string
  stModel :: string

definition chain_of :: "Snapshot \<Rightarrow> string \<Rightarrow> ChainEntry list" where
  "chain_of s route = (case map_of (snRoutes s) route of Some c \<Rightarrow> c | None \<Rightarrow> [])"

definition sticky_entry :: "Snapshot \<Rightarrow> string \<Rightarrow> Sticky \<Rightarrow> (ProviderRow \<times> string) option" where
  "sticky_entry s route sticky =
     (if stProvider sticky = [] then None
      else case find (\<lambda>e. case map_of (snRows s) (ceProvider e) of
                        None \<Rightarrow> False
                      | Some row \<Rightarrow> pvName row = stProvider sticky \<and> ceModel e = stModel sticky)
                (chain_of s route) of
             None \<Rightarrow> None
           | Some e \<Rightarrow> Some (the (map_of (snRows s) (ceProvider e)), ceModel e))"

definition add_hint where
  "add_hint s required hint acc =
     (if hint = [] then acc
      else case resolveHint s hint of
        Some (row, model) \<Rightarrow> try_add s required row model ''hint'' acc
      | None \<Rightarrow> (fst acc, snd acc @ [\<lparr>skSubject = hint, skReason = HintUnmatched, skSource = ''hint''\<rparr>]))"

definition add_sticky where
  "add_sticky s required route sticky acc =
     (case sticky_entry s route sticky of
        None \<Rightarrow> acc
      | Some (row, model) \<Rightarrow> try_add s required row model ''sticky'' acc)"

definition add_chain_entry where
  "add_chain_entry s required e acc =
     (case map_of (snRows s) (ceProvider e) of
        None \<Rightarrow> (fst acc, snd acc @ [\<lparr>skSubject = ceProvider e, skReason = UnknownProvider, skSource = ''chain''\<rparr>])
      | Some row \<Rightarrow> try_add s required row (entry_model e row) ''chain'' acc)"

definition resolve_all ::
    "Snapshot \<Rightarrow> string \<Rightarrow> string \<Rightarrow> Sticky \<Rightarrow> Capability list \<Rightarrow> Attempt list \<times> Skipped list" where
  "resolve_all s route hint sticky extra =
     (let required = requiredCapability s route # extra in
      fold (add_chain_entry s required) (orderedChain s route)
        (add_sticky s required route sticky (add_hint s required hint ([], []))))"

text \<open>\<open>Inl\<close> is \<open>NoRouteError\<close> with the skipped candidates.\<close>

definition Resolve ::
    "Snapshot \<Rightarrow> string \<Rightarrow> string \<Rightarrow> Sticky \<Rightarrow> Capability list \<Rightarrow> Skipped list + Attempt list" where
  "Resolve s route hint sticky extra =
     (let r = resolve_all s route hint sticky extra
      in if fst r = [] then Inl (snd r) else Inr (fst r))"

section \<open>Executor entries\<close>

record ResolvedRouteEntry =
  rrProviderID :: string
  rrProviderName :: string
  rrDriver :: string
  rrKind :: string
  rrModel :: string
  rrCredentialRef :: string
  rrBaseURL :: string
  rrUsable :: bool
  rrSkipReason :: "skip option"
  rrPrices :: "ModelPrices option"
  rrWire :: string

definition selfPaired :: "string \<Rightarrow> bool" where
  "selfPaired harness = (harnessDrivers harness = [])"

definition executorUsable :: "ProviderRow \<Rightarrow> string \<Rightarrow> skip option" where
  "executorUsable row harness =
     (if \<not> pvEnabled row then Some Disabled
      else if harness \<notin> set KnownHarnesses then Some UnknownHarness
      else if pvKind row = ''cli'' \<and> pvDriver row \<noteq> harness then Some (ServesOtherHarness (pvDriver row))
      else if pvKind row \<noteq> ''cli'' \<and> harnessDrivers harness = [] then Some OnlyOwnRow
      else if pvKind row \<noteq> ''cli'' \<and> \<not> (pvDriver row \<in> set (harnessDrivers harness)
                \<or> pvAnthropicBaseURL row \<noteq> [] \<and> ''anthropic'' \<in> set (harnessDrivers harness))
      then Some WireIncompatible
      else if pvCredentialRef row = [] then Some NoCredentialRef
      else if harnessNeedsResponses harness \<and> pvOpenAIResponses row = Some False
      then Some NoResponsesEndpoint
      else None)"

definition harnessWire :: "string \<Rightarrow> bool \<Rightarrow> string" where
  "harnessWire drv overrideApplied =
     (if overrideApplied then ''anthropic''
      else if drv = ''anthropic'' then ''anthropic''
      else if drv = ''openaicompat'' then ''openai''
      else [])"

definition base_entry :: "Snapshot \<Rightarrow> ProviderRow \<Rightarrow> string \<Rightarrow> ResolvedRouteEntry" where
  "base_entry s row model =
     \<lparr>rrProviderID = pvID row, rrProviderName = pvName row, rrDriver = pvDriver row,
      rrKind = pvKind row, rrModel = model, rrCredentialRef = pvCredentialRef row,
      rrBaseURL = pvBaseURL row, rrUsable = False, rrSkipReason = None,
      rrPrices = Prices s (pvName row) model, rrWire = []\<rparr>"

definition with_verdict :: "skip option \<Rightarrow> ResolvedRouteEntry \<Rightarrow> ResolvedRouteEntry" where
  "with_verdict v e = e\<lparr>rrUsable := (v = None), rrSkipReason := v\<rparr>"

definition override_applied :: "ProviderRow \<Rightarrow> string \<Rightarrow> bool" where
  "override_applied row harness =
     (pvKind row \<noteq> ''cli'' \<and> pvDriver row \<noteq> ''anthropic'' \<and> pvAnthropicBaseURL row \<noteq> []
      \<and> ''anthropic'' \<in> set (harnessDrivers harness))"

definition executor_verdict :: "Snapshot \<Rightarrow> ProviderRow \<Rightarrow> string \<Rightarrow> string \<Rightarrow> skip option" where
  "executor_verdict s row model harness =
     (case executorUsable row harness of
        Some r \<Rightarrow> Some r
      | None \<Rightarrow>
          if harnessChatOnly harness \<and> responsesOnly s row model then Some ResponsesOnlyModel
          else if model = [] then Some EmptyModel
          else None)"

definition annotateResolvedEntry ::
    "Snapshot \<Rightarrow> ProviderRow \<Rightarrow> string \<Rightarrow> string \<Rightarrow> Capability list \<Rightarrow> ResolvedRouteEntry" where
  "annotateResolvedEntry s row model0 harness required =
     (let model = (if model0 = [] then pvDefaultModel row else model0);
          re = base_entry s row model
      in if harness = []
         then with_verdict (case entryGate s row model required of Inl r \<Rightarrow> Some r | Inr _ \<Rightarrow> None) re
         else
           let ov = override_applied row harness;
               re = (if ov then re\<lparr>rrBaseURL := pvAnthropicBaseURL row\<rparr> else re);
               re = with_verdict (executor_verdict s row model harness) re
           in if pvKind row \<noteq> ''cli'' then re\<lparr>rrWire := harnessWire (pvDriver row) ov\<rparr> else re)"

definition entry_key :: "ResolvedRouteEntry \<Rightarrow> string" where
  "entry_key e = rrProviderName e @ ''/'' @ rrModel e"

definition withRouteHint ::
    "Snapshot \<Rightarrow> ResolvedRouteEntry list \<Rightarrow> string \<Rightarrow> string \<Rightarrow> Capability list \<Rightarrow> ResolvedRouteEntry list" where
  "withRouteHint s out hint harness required =
     (if hint = [] then out
      else case resolveHint s hint of
        None \<Rightarrow> out
      | Some (row, model) \<Rightarrow>
          let h = annotateResolvedEntry s row model harness required
          in h # filter (\<lambda>e. entry_key e \<noteq> entry_key h) out)"

definition resolveSelfPaired :: "Snapshot \<Rightarrow> string \<Rightarrow> ResolvedRouteEntry list" where
  "resolveSelfPaired s harness =
     map (\<lambda>row. with_verdict
            (case executorUsable row harness of
               Some r \<Rightarrow> Some r
             | None \<Rightarrow> if pvDefaultModel row = [] then Some EmptyModel else None)
            (base_entry s row (pvDefaultModel row)))
       (filter (\<lambda>row. pvKind row = ''cli'' \<and> pvDriver row = harness)
          (map (\<lambda>n. the (map_of (snByName s) n)) (provider_names s)))"

definition unknown_entry :: "ChainEntry \<Rightarrow> ResolvedRouteEntry" where
  "unknown_entry e =
     \<lparr>rrProviderID = ceProvider e, rrProviderName = [], rrDriver = [], rrKind = [], rrModel = ceModel e,
      rrCredentialRef = [], rrBaseURL = [], rrUsable = False, rrSkipReason = Some UnknownProvider,
      rrPrices = None, rrWire = []\<rparr>"

definition ResolveRoute ::
    "Snapshot \<Rightarrow> string \<Rightarrow> string \<Rightarrow> string \<Rightarrow> ResolvedRouteEntry list option" where
  "ResolveRoute s route harness hint =
     (case map_of (snRoutes s) route of
        None \<Rightarrow> None
      | Some chain \<Rightarrow>
          if harness \<noteq> [] \<and> harness \<notin> set KnownHarnesses then None
          else
            let required = [requiredCapability s route] in
            if harness \<noteq> [] \<and> selfPaired harness
            then Some (withRouteHint s (resolveSelfPaired s harness) hint harness required)
            else Some (withRouteHint s
              (map (\<lambda>e. case map_of (snRows s) (ceProvider e) of
                       None \<Rightarrow> unknown_entry e
                     | Some row \<Rightarrow> annotateResolvedEntry s row (ceModel e) harness required) chain)
              hint harness required))"

end
