(* ===== verification/Router_Props.thy ===== *)
theory Router_Props
  imports Router "HOL-Library.Multiset"
begin

text \<open>
  What routing guarantees: the attempts are the usable candidates in hint, sticky, chain order
  with repeats dropped; each passes every gate; scoring permutes the chain and is bounded; a
  snapshot built from the rows never attempts a disabled provider or one whose credential does
  not resolve.
\<close>

section \<open>The reference: first usable occurrence\<close>

type_synonym candidate = "ProviderRow \<times> string"

definition hint_candidates :: "Snapshot \<Rightarrow> string \<Rightarrow> candidate list" where
  "hint_candidates s hint =
     (if hint = [] then [] else case resolveHint s hint of None \<Rightarrow> [] | Some c \<Rightarrow> [c])"

definition sticky_candidates :: "Snapshot \<Rightarrow> string \<Rightarrow> Sticky \<Rightarrow> candidate list" where
  "sticky_candidates s route sticky = (case sticky_entry s route sticky of None \<Rightarrow> [] | Some c \<Rightarrow> [c])"

definition chain_candidates :: "Snapshot \<Rightarrow> ChainEntry list \<Rightarrow> candidate list" where
  "chain_candidates s es =
     List.map_filter (\<lambda>e. map_option (\<lambda>row. (row, entry_model e row)) (map_of (snRows s) (ceProvider e))) es"

definition candidates :: "Snapshot \<Rightarrow> string \<Rightarrow> string \<Rightarrow> Sticky \<Rightarrow> candidate list" where
  "candidates s route hint sticky =
     hint_candidates s hint @ sticky_candidates s route sticky @ chain_candidates s (orderedChain s route)"

definition attempt_of :: "Snapshot \<Rightarrow> Capability list \<Rightarrow> candidate \<Rightarrow> Attempt option" where
  "attempt_of s required c =
     (case entryGate s (fst c) (snd c) required of
        Inl _ \<Rightarrow> None
      | Inr p \<Rightarrow> Some \<lparr>atDriver = p, atProvider = pvName (fst c), atModel = snd c,
          atReasoningEffort = reasoningEffortFor (fst c) (snd c),
          atResponsesMode = responsesOnly s (fst c) (snd c)\<rparr>)"

fun first_keys :: "string set \<Rightarrow> Attempt list \<Rightarrow> Attempt list" where
  "first_keys seen [] = []"
| "first_keys seen (a # as) =
     (if attempt_key a \<in> seen then first_keys seen as
      else a # first_keys (insert (attempt_key a) seen) as)"

lemma first_keys_append:
  "first_keys seen (as @ bs) =
     first_keys seen as @ first_keys (seen \<union> attempt_key ` set as) bs"
  by (induction seen as rule: first_keys.induct) (auto simp: insert_absorb Un_commute)

lemma first_keys_keys: "seen \<union> attempt_key ` set (first_keys seen as) = seen \<union> attempt_key ` set as"
  by (induction seen as rule: first_keys.induct) auto

lemma first_keys_distinct:
  "distinct (map attempt_key (first_keys seen as)) \<and>
     attempt_key ` set (first_keys seen as) \<inter> seen = {}"
  by (induction seen as rule: first_keys.induct) auto

lemma first_keys_subset: "set (first_keys seen as) \<subseteq> set as"
  by (induction seen as rule: first_keys.induct) auto

lemma attempt_of_key: "attempt_of s req c = Some a \<Longrightarrow> attempt_key a = pvName (fst c) @ ''/'' @ snd c"
  by (auto simp: attempt_of_def attempt_key_def split: sum.splits)

text \<open>The accumulator's attempts are the first keys of what it has seen.\<close>

definition collects :: "Snapshot \<Rightarrow> Capability list \<Rightarrow> candidate list \<Rightarrow> Attempt list \<times> Skipped list \<Rightarrow> bool" where
  "collects s req cs acc = (fst acc = first_keys {} (List.map_filter (attempt_of s req) cs))"

lemma map_filter_append: "List.map_filter f (xs @ ys) = List.map_filter f xs @ List.map_filter f ys"
  by (simp add: List.map_filter_def)

lemma map_filter_single: "List.map_filter f [x] = (case f x of None \<Rightarrow> [] | Some y \<Rightarrow> [y])"
  by (simp add: List.map_filter_def split: option.split)

lemma try_add_collects:
  assumes "collects s req cs acc"
  shows "collects s req (cs @ [(row, model)]) (try_add s req row model src acc)"
proof (cases "entryGate s row model req")
  case (Inl r)
  then have "attempt_of s req (row, model) = None" by (simp add: attempt_of_def)
  with Inl assms show ?thesis
    by (simp add: collects_def try_add_def map_filter_append map_filter_single)
next
  case (Inr p)
  then obtain a where a: "attempt_of s req (row, model) = Some a"
    "a = \<lparr>atDriver = p, atProvider = pvName row, atModel = model,
      atReasoningEffort = reasoningEffortFor row model, atResponsesMode = responsesOnly s row model\<rparr>"
    by (simp add: attempt_of_def)
  have k: "attempt_key a = pvName row @ ''/'' @ model" by (simp add: a(2) attempt_key_def)
  have seen: "attempt_key ` set (first_keys {} (List.map_filter (attempt_of s req) cs)) =
      attempt_key ` set (List.map_filter (attempt_of s req) cs)"
    using first_keys_keys [of "{}"] by simp
  show ?thesis
    using assms Inr a(1) k seen
    by (auto simp: collects_def try_add_def map_filter_append map_filter_single first_keys_append a(2))
qed

lemma add_hint_collects: "collects s req (hint_candidates s hint) (add_hint s req hint ([], []))"
proof -
  have nil: "collects s req [] ([], [])" by (simp add: collects_def List.map_filter_def)
  show ?thesis
    using try_add_collects [OF nil]
    by (auto simp: add_hint_def hint_candidates_def collects_def List.map_filter_def split: option.split)
qed

lemma add_sticky_collects:
  "collects s req cs acc \<Longrightarrow> collects s req (cs @ sticky_candidates s route sticky) (add_sticky s req route sticky acc)"
  using try_add_collects [of s req cs acc]
  by (auto simp: add_sticky_def sticky_candidates_def split: option.split)

lemma add_chain_collects:
  "collects s req cs acc \<Longrightarrow>
     collects s req (cs @ chain_candidates s es) (fold (add_chain_entry s req) es acc)"
proof (induction es arbitrary: cs acc)
  case Nil
  then show ?case by (simp add: chain_candidates_def List.map_filter_def)
next
  case (Cons e es)
  show ?case
  proof (cases "map_of (snRows s) (ceProvider e)")
    case None
    then have "collects s req cs (add_chain_entry s req e acc)"
      using Cons.prems by (simp add: add_chain_entry_def collects_def)
    from Cons.IH [OF this] None show ?thesis
      by (simp add: chain_candidates_def List.map_filter_def)
  next
    case (Some row)
    then have "collects s req (cs @ [(row, entry_model e row)]) (add_chain_entry s req e acc)"
      using try_add_collects [OF Cons.prems] by (simp add: add_chain_entry_def)
    from Cons.IH [OF this] Some show ?thesis
      by (simp add: chain_candidates_def List.map_filter_def)
  qed
qed

lemma resolve_all_attempts:
  "fst (resolve_all s route hint sticky extra) =
     first_keys {} (List.map_filter (attempt_of s (requiredCapability s route # extra))
       (candidates s route hint sticky))"
proof -
  let ?req = "requiredCapability s route # extra"
  have "collects s ?req (candidates s route hint sticky) (resolve_all s route hint sticky extra)"
    unfolding candidates_def resolve_all_def Let_def append.assoc [symmetric]
    by (intro add_chain_collects add_sticky_collects add_hint_collects)
  then show ?thesis by (simp add: collects_def)
qed

section \<open>What passes the gate\<close>

definition gate_passed :: "Snapshot \<Rightarrow> Capability list \<Rightarrow> ProviderRow \<Rightarrow> string \<Rightarrow> driver \<Rightarrow> bool" where
  "gate_passed s required row model p =
     (pvEnabled row \<and> map_of (snHealthy s) (pvName row) = Some True
      \<and> map_of (snRegistry s) (pvName row) = Some p
      \<and> (\<forall>want \<in> set required. attemptCapable s p row model want))"

lemma entryGate_Inr: "entryGate s row model required = Inr p \<longleftrightarrow> gate_passed s required row model p"
  by (auto simp: entryGate_def gate_passed_def find_None_iff find_Some_iff split: option.split)

lemma Resolve_attempts:
  assumes "Resolve s route hint sticky extra = Inr as" and "a \<in> set as"
  shows "\<exists>row model. (row, model) \<in> set (candidates s route hint sticky) \<and> atProvider a = pvName row
    \<and> atModel a = model \<and> gate_passed s (requiredCapability s route # extra) row model (atDriver a)"
proof -
  have "as = fst (resolve_all s route hint sticky extra)"
    using assms(1) by (auto simp: Resolve_def Let_def split: if_splits)
  with assms(2) first_keys_subset have
    "a \<in> set (List.map_filter (attempt_of s (requiredCapability s route # extra)) (candidates s route hint sticky))"
    unfolding resolve_all_attempts by blast
  then obtain c where "c \<in> set (candidates s route hint sticky)"
    "attempt_of s (requiredCapability s route # extra) c = Some a"
    by (auto simp: List.map_filter_def)
  then show ?thesis
    by (intro exI [of _ "fst c"] exI [of _ "snd c"])
       (auto simp: attempt_of_def entryGate_Inr split: sum.splits)
qed

section \<open>Scored chains\<close>

lemma score_entry_entry [simp]: "reEntry (score_entry w p l t d) = reEntry d"
  by (simp add: score_entry_def Let_def)

lemma gather_entry [simp]: "reEntry (gather s req sc e) = e"
  by (simp add: gather_def blank_entry_def with_prices_def with_stats_def Let_def
      split: option.split sum.split)

lemma mset_sort_key_map: "mset (map f (sort_key k xs)) = mset (map f xs)"
  by simp

definition gathered :: "Snapshot \<Rightarrow> string \<Rightarrow> ResolvedEntry list" where
  "gathered s route =
     map (gather s [requiredCapability s route] (route_weights s route \<noteq> None)) (chain_of s route)"

definition min_price :: "ResolvedEntry list \<Rightarrow> real" where
  "min_price out = fold (\<lambda>d. min_pos (reOutput d)) out 0"

definition min_latency :: "ResolvedEntry list \<Rightarrow> real" where
  "min_latency out = fold (\<lambda>d. min_pos (reLatencyMS d)) out 0"

definition max_tps :: "ResolvedEntry list \<Rightarrow> real" where
  "max_tps out = fold (\<lambda>d acc. if acc < reTokensPerS d then reTokensPerS d else acc) out 0"

definition scored_chain :: "Snapshot \<Rightarrow> string \<Rightarrow> real \<times> real \<times> real \<Rightarrow> ResolvedEntry list" where
  "scored_chain s route ws =
     (let out = gathered s route in map (score_entry ws (min_price out) (min_latency out) (max_tps out)) out)"

lemma ResolveDetail_eq:
  "ResolveDetail s route =
     (case route_weights s route of
        None \<Rightarrow> gathered s route
      | Some ws \<Rightarrow> if 2 \<le> length (chain_of s route)
                    then sort_key (\<lambda>d. - reScore d) (scored_chain s route ws) else scored_chain s route ws)"
  unfolding ResolveDetail_def Let_def scored_chain_def gathered_def min_price_def min_latency_def
    max_tps_def chain_of_def
  by (cases "route_weights s route") simp_all

lemma gathered_entries [simp]: "map reEntry (gathered s route) = chain_of s route"
  by (simp add: gathered_def comp_def)

lemma scored_entries [simp]: "map reEntry (scored_chain s route ws) = chain_of s route"
proof -
  have "map reEntry (scored_chain s route ws) = map reEntry (gathered s route)"
    by (simp add: scored_chain_def Let_def comp_def)
  then show ?thesis by (simp only: gathered_entries)
qed

lemma mset_map_sort: "mset (map f (sort_key k xs)) = mset (map f xs)"
  by simp

lemma ResolveDetail_mset: "mset (map reEntry (ResolveDetail s route)) = mset (chain_of s route)"
  unfolding ResolveDetail_eq
  by (auto simp del: mset_map simp: mset_map_sort split: option.split)

lemma ResolveDetail_unscored:
  "route_weights s route = None \<Longrightarrow> map reEntry (ResolveDetail s route) = chain_of s route"
  by (simp add: ResolveDetail_eq)

lemma short_sorted: "length xs < 2 \<Longrightarrow> sorted (map f xs)"
  by (cases xs; cases "tl xs") auto

lemma scored_length [simp]: "length (scored_chain s route ws) = length (chain_of s route)"
  by (simp add: scored_chain_def Let_def gathered_def)

lemma ResolveDetail_sorted:
  "route_weights s route = Some ws \<Longrightarrow> sorted (map (\<lambda>d. - reScore d) (ResolveDetail s route))"
  by (simp add: ResolveDetail_eq short_sorted)

text \<open>Normalised factors lie between 0 and 1.\<close>

lemma fold_min_pos_le:
  "0 \<le> a \<Longrightarrow> 0 \<le> fold (\<lambda>d. min_pos (f d)) ds a
     \<and> (0 < a \<longrightarrow> 0 < fold (\<lambda>d. min_pos (f d)) ds a \<and> fold (\<lambda>d. min_pos (f d)) ds a \<le> a)
     \<and> (\<forall>d \<in> set ds. 0 < f d \<longrightarrow> fold (\<lambda>d. min_pos (f d)) ds a \<le> f d)"
proof (induction ds arbitrary: a)
  case (Cons d ds)
  have "0 \<le> min_pos (f d) a" using Cons.prems by (simp add: min_pos_def)
  from Cons.IH [OF this] Cons.prems show ?case
    by (auto simp: min_pos_def split: if_splits)
qed simp

lemma fold_max_ge:
  "(a::real) \<le> fold (\<lambda>d acc. if acc < f d then f d else acc) ds a
     \<and> (\<forall>d \<in> set ds. f d \<le> fold (\<lambda>d acc. if acc < f d then f d else acc) ds a)"
proof (induction ds arbitrary: a)
  case (Cons d ds)
  show ?case using Cons.IH [of "if a < f d then f d else a"] by (auto split: if_splits)
qed simp

lemma factor_bounds:
  assumes "0 \<le> w" and "known \<Longrightarrow> 0 \<le> nv \<and> nv \<le> 1"
  shows "0 \<le> factor w known nv" "factor w known nv \<le> w"
  using assms mult_left_mono [of nv 1 w] by (auto simp: factor_def)

lemma score_bounds:
  assumes "d \<in> set out" and w: "0 \<le> wp" "0 \<le> wl" "0 \<le> wt" and up: "reUptime d \<le> 1"
  shows "0 \<le> reScore (score_entry (wp, wl, wt) (min_price out) (min_latency out) (max_tps out) d)"
    "reScore (score_entry (wp, wl, wt) (min_price out) (min_latency out) (max_tps out) d) \<le> wp + wl + wt"
proof -
  let ?p = "min_price out" and ?l = "min_latency out" and ?t = "max_tps out"
  let ?kp = "0 < reOutput d \<and> 0 < ?p" and ?kl = "0 < reLatencyMS d \<and> 0 < ?l"
    and ?kt = "0 < reTokensPerS d \<and> 0 < ?t"
  define a where "a = factor wp ?kp (if ?kp then ?p / reOutput d else reNormPrice d)"
  define b where "b = factor wl ?kl (if ?kl then ?l / reLatencyMS d else reNormLatency d)"
  define c where "c = factor wt ?kt (if ?kt then reTokensPerS d / ?t else reNormTPS d)"
  have A: "0 \<le> a \<and> a \<le> wp" unfolding a_def
    using factor_bounds [OF w(1)] fold_min_pos_le [of 0 reOutput out] assms(1)
    by (auto simp: min_price_def)
  have B: "0 \<le> b \<and> b \<le> wl" unfolding b_def
    using factor_bounds [OF w(2)] fold_min_pos_le [of 0 reLatencyMS out] assms(1)
    by (auto simp: min_latency_def)
  have C: "0 \<le> c \<and> c \<le> wt" unfolding c_def
    using factor_bounds [OF w(3)] fold_max_ge [of 0 reTokensPerS out] assms(1)
    by (auto simp: max_tps_def)
  let ?u = "if 0 \<le> reUptime d then max (reUptime d) (5/100) else 1"
  have sc: "reScore (score_entry (wp, wl, wt) ?p ?l ?t d) = (a + b + c) * ?u"
    by (simp add: score_entry_def Let_def a_def b_def c_def)
  have u: "0 \<le> ?u" "?u \<le> 1" using up by auto
  have "0 \<le> a + b + c" "a + b + c \<le> wp + wl + wt" using A B C by auto
  then show "0 \<le> reScore (score_entry (wp, wl, wt) ?p ?l ?t d)"
    "reScore (score_entry (wp, wl, wt) ?p ?l ?t d) \<le> wp + wl + wt"
    unfolding sc using u mult_left_le [of ?u "a + b + c"] by auto
qed

lemma gather_uptime:
  assumes "\<forall>k st. map_of (snStats s) k = Some st \<longrightarrow> Uptime st \<le> 1"
  shows "reUptime (gather s req sc e) \<le> 1"
proof -
  have "reUptime (with_stats (map_of (snStats s) k) (with_prices ps (blank_entry b c)
      \<lparr>reProviderName := n, reProviderKind := kd, reModel := m\<rparr>)) \<le> 1" for k ps b c n kd m
    using assms by (cases "map_of (snStats s) k"; cases ps)
      (auto simp: with_stats_def with_prices_def blank_entry_def)
  moreover have "reUptime (with_stats (map_of (snStats s) k) (with_prices ps d)) \<le> 1"
    if "reUptime d = -1" for k ps d
    using assms that by (cases "map_of (snStats s) k"; cases ps) (auto simp: with_stats_def with_prices_def)
  ultimately show ?thesis
    by (simp add: gather_def Let_def blank_entry_def split: option.split sum.split)
qed

section \<open>Snapshots built from rows\<close>

text \<open>Everything a built snapshot says about a name comes from a row of that name.\<close>

definition built_from ::
    "ProviderRow list \<Rightarrow> (string \<Rightarrow> string) \<Rightarrow> (ProviderRow \<Rightarrow> string + driver) \<Rightarrow> Snapshot \<Rightarrow> bool" where
  "built_from rows lookup build s =
     ((\<forall>k row. map_of (snRows s) k = Some row \<longrightarrow> row \<in> set rows)
      \<and> (\<forall>k row. map_of (snByName s) k = Some row \<longrightarrow> row \<in> set rows)
      \<and> (\<forall>n. map_of (snHealthy s) n = Some True \<longrightarrow>
           (\<exists>row \<in> set rows. pvName row = n \<and> pvEnabled row \<and> \<not> credential_missing lookup row))
      \<and> (\<forall>n p. map_of (snRegistry s) n = Some p \<longrightarrow>
           (\<exists>row \<in> set rows. pvName row = n \<and> pvKind row \<noteq> ''cli'' \<and> build row = Inr p)))"

lemma add_provider_built:
  assumes "built_from rows lookup build (fst acc)" and "row \<in> set rows"
  shows "built_from rows lookup build (fst (add_provider lookup build row acc))"
proof -
  define s0 where "s0 = (fst acc)\<lparr>snRows := AList.update (pvID row) row (snRows (fst acc)),
                       snByName := AList.update (pvName row) row (snByName (fst acc))\<rparr>"
  define s1 where "s1 = judge_health lookup row s0"
  have "built_from rows lookup build s0"
    using assms by (auto simp: built_from_def s0_def update_Some_unfold)
  then have "built_from rows lookup build s1"
    using assms(2) unfolding s1_def judge_health_def built_from_def
    by (auto simp: update_Some_unfold)
  then show ?thesis
    using assms(2) unfolding add_provider_def Let_def s0_def [symmetric] s1_def [symmetric]
    by (auto simp: built_from_def update_Some_unfold split: sum.split)
qed

lemma add_route_built: "built_from rows lookup build (add_route r s) = built_from rows lookup build s"
  by (simp add: built_from_def add_route_def Let_def)

lemma BuildSnapshot_built:
  "built_from rows lookup build (fst (BuildSnapshot rows routes lookup build cat host))"
proof -
  have e: "built_from rows lookup build (empty_snapshot cat host)"
    by (simp add: built_from_def empty_snapshot_def)
  have "built_from rows lookup build (fst (fold (add_provider lookup build) rows (empty_snapshot cat host, [])))"
    by (rule fold_invariant [where P = "\<lambda>acc. built_from rows lookup build (fst acc)"])
       (use e add_provider_built in auto)
  moreover have "built_from rows lookup build s \<Longrightarrow> built_from rows lookup build (fold add_route routes s)" for s
    by (induction routes arbitrary: s) (simp_all add: add_route_built)
  ultimately show ?thesis by (simp add: BuildSnapshot_def Let_def)
qed

lemma built_stats: "built_from rows lookup build (s\<lparr>snStats := st, snLive := lv\<rparr>) = built_from rows lookup build s"
  by (simp add: built_from_def)

lemma candidate_rows:
  assumes "built_from rows lookup build s" and "(row, model) \<in> set (candidates s route hint sticky)"
  shows "row \<in> set rows"
proof -
  have r: "map_of (snRows s) k = Some row' \<Longrightarrow> row' \<in> set rows" for k row'
    using assms(1) by (simp add: built_from_def)
  have n: "map_of (snByName s) k = Some row' \<Longrightarrow> row' \<in> set rows" for k row'
    using assms(1) by (simp add: built_from_def)
  have f: "find P xs = Some x \<Longrightarrow> P x" for P and xs :: "'c list" and x
    by (auto simp: find_Some_iff)
  have model: "findModel s m = Some (row', m') \<Longrightarrow> row' \<in> set rows" for m row' m'
    by (auto simp: findModel_def split: option.splits dest!: f intro: n)
  have pin: "splitPin s h = Some (row', m') \<Longrightarrow> row' \<in> set rows" for h row' m'
    by (auto simp: splitPin_def split: option.splits dest!: f intro: n)
  have "resolveHint s h = Some (row', m') \<Longrightarrow> row' \<in> set rows" for h row' m'
    using model pin n by (auto simp: resolveHint_def split: option.splits if_splits)
  moreover have "c \<in> set (sticky_candidates s route sticky) \<Longrightarrow> fst c \<in> set rows" for c
    by (auto simp: sticky_candidates_def sticky_entry_def split: option.splits if_splits dest!: f intro: r)
  moreover have "(row', m') \<in> set (chain_candidates s es) \<Longrightarrow> row' \<in> set rows" for row' m' es
    by (auto simp: chain_candidates_def List.map_filter_def intro: r)
  ultimately show ?thesis
    using assms(2)
    by (fastforce simp: candidates_def hint_candidates_def split: option.splits if_splits)
qed

section \<open>Properties\<close>

text \<open>C9. Resolution is exactly its reference: the attempts are the hint's candidate, the
  sticky one and the chain in try order, those that fail the gate left out and repeats of a
  provider and model dropped after the first; the error is returned precisely when none is left.\<close>

theorem resolve_is_first_usable:
  "Resolve s route hint sticky extra =
     (let as = first_keys {} (List.map_filter (attempt_of s (requiredCapability s route # extra))
                  (candidates s route hint sticky))
      in if as = [] then Inl (snd (resolve_all s route hint sticky extra)) else Inr as)"
  by (simp add: Resolve_def Let_def resolve_all_attempts)

text \<open>C10. Every attempt passes every gate: its provider row is enabled, healthy and has a built
  driver that serves the route's capability and every extra one for that model, and no provider
  and model is tried twice.\<close>

theorem attempts_pass_every_gate:
  assumes "Resolve s route hint sticky extra = Inr as"
  shows "as \<noteq> [] \<and> distinct (map attempt_key as)
    \<and> (\<forall>a \<in> set as. \<exists>row. atProvider a = pvName row \<and> pvEnabled row
         \<and> map_of (snHealthy s) (pvName row) = Some True
         \<and> map_of (snRegistry s) (pvName row) = Some (atDriver a)
         \<and> (\<forall>want \<in> set (requiredCapability s route # extra).
              attemptCapable s (atDriver a) row (atModel a) want))"
proof -
  have as: "as = fst (resolve_all s route hint sticky extra)" "as \<noteq> []"
    using assms by (auto simp: Resolve_def Let_def split: if_splits)
  have "distinct (map attempt_key as)"
    using first_keys_distinct [of "{}"] unfolding as(1) resolve_all_attempts by blast
  with as(2) show ?thesis
    using Resolve_attempts [OF assms] unfolding gate_passed_def by metis
qed

definition demo_provider :: ProviderRow where
  "demo_provider = \<lparr>pvID = ''p1'', pvName = ''acme'', pvKind = ''api'', pvDriver = ''openaicompat'',
     pvBaseURL = [], pvDefaultModel = ''m1'', pvCredentialRef = ''KEY'', pvEnabled = True,
     pvReasoningEffort = [], pvAnthropicBaseURL = [], pvOpenAIResponses = None,
     pvReasoningEffortByModel = [], pvPricesByModel = [], pvListingPricesOff = False\<rparr>"

definition demo_route :: RouteRow where
  "demo_route = \<lparr>rtName = ''coding'', rtDescription = [], rtChain = [\<lparr>ceProvider = ''p1'', ceModel = []\<rparr>],
     rtStrategy = ''ordered'', rtEnabled = True, rtCapability = ''chat'', rtRole = []\<rparr>"

definition demo_lookup :: "string \<Rightarrow> string" where
  "demo_lookup ref = (if ref = ''KEY'' then ''secret'' else [])"

definition demo_build :: "ProviderRow \<Rightarrow> string + driver" where
  "demo_build row = Inr [CapChat, CapTools]"

definition demo_snapshot :: Snapshot where
  "demo_snapshot = (fst (BuildSnapshot [demo_provider] [demo_route] demo_lookup demo_build
     (\<lambda>_ _. None) (\<lambda>_. False)))\<lparr>snStats := [], snLive := (\<lambda>_ _. None)\<rparr>"

definition no_sticky :: Sticky where
  "no_sticky = \<lparr>stProvider = [], stModel = []\<rparr>"

definition demo_attempt :: Attempt where
  "demo_attempt = \<lparr>atDriver = [CapChat, CapTools], atProvider = ''acme'', atModel = ''m1'',
     atReasoningEffort = [], atResponsesMode = False\<rparr>"

lemma demo_resolves: "Resolve demo_snapshot ''coding'' [] no_sticky [] = Inr [demo_attempt]"
  by code_simp

theorem attempts_pass_every_gate_witness:
  "\<exists>row :: ProviderRow. atProvider demo_attempt = pvName row \<and> pvEnabled row"
  using attempts_pass_every_gate [OF demo_resolves] by fastforce

text \<open>A snapshot built from the tables never attempts a disabled provider, one whose
  credential does not resolve, or one whose driver did not build, whatever the hint, the sticky
  preference, the statistics and the prices: each attempt's provider is a row of the table that
  is enabled, not CLI-only, with a resolving credential and the driver its build returned.\<close>

theorem attempts_have_credentials:
  assumes "distinct (map pvName rows)"
    and "s = (fst (BuildSnapshot rows routes lookup build cat host))\<lparr>snStats := stats, snLive := live\<rparr>"
    and "Resolve s route hint sticky extra = Inr as" and "a \<in> set as"
  shows "\<exists>row \<in> set rows. pvName row = atProvider a \<and> pvEnabled row \<and> pvKind row \<noteq> ''cli''
    \<and> (pvCredentialRef row = [] \<or> lookup (pvCredentialRef row) \<noteq> []) \<and> build row = Inr (atDriver a)"
proof -
  have b: "built_from rows lookup build s"
    using assms(2) BuildSnapshot_built by (simp add: built_stats)
  obtain row model where row: "(row, model) \<in> set (candidates s route hint sticky)"
    "atProvider a = pvName row" "gate_passed s (requiredCapability s route # extra) row model (atDriver a)"
    using Resolve_attempts [OF assms(3,4)] by blast
  have "row \<in> set rows" by (rule candidate_rows [OF b row(1)])
  have uniq: "r = row" if "r \<in> set rows" "pvName r = pvName row" for r
    using that \<open>row \<in> set rows\<close> assms(1) by (auto simp: distinct_map inj_on_def)
  from row(3) b obtain h where "h \<in> set rows" "pvName h = pvName row" "pvEnabled h" "\<not> credential_missing lookup h"
    by (auto simp: gate_passed_def built_from_def)
  moreover have "map_of (snRegistry s) (pvName row) = Some (atDriver a)"
    using row(3) by (simp add: gate_passed_def)
  with b obtain g where "g \<in> set rows" "pvName g = pvName row" "pvKind g \<noteq> ''cli''"
    "build g = Inr (atDriver a)"
    unfolding built_from_def by blast
  ultimately have "pvEnabled row" "\<not> credential_missing lookup row" "pvKind row \<noteq> ''cli''"
    "build row = Inr (atDriver a)" using uniq by blast+
  with \<open>row \<in> set rows\<close> row(2) show ?thesis by (auto simp: credential_missing_def)
qed

theorem attempts_have_credentials_witness:
  "pvName demo_provider = atProvider demo_attempt \<and> pvEnabled demo_provider
     \<and> demo_build demo_provider = Inr (atDriver demo_attempt)"
  using attempts_have_credentials [OF _ demo_snapshot_def demo_resolves, of demo_attempt] by simp

text \<open>Scoring only reorders: the scored chain is a permutation of the written one; the
  written order is kept under an ordered or unknown strategy, and under a scored one the entries
  come in descending score.\<close>

theorem scoring_permutes_the_chain:
  "mset (orderedChain s route) = mset (chain_of s route)
   \<and> (if route_weights s route = None then orderedChain s route = chain_of s route
      else sorted (map (\<lambda>d. - reScore d) (ResolveDetail s route)))"
  unfolding orderedChain_def
  using ResolveDetail_mset ResolveDetail_unscored ResolveDetail_sorted by auto

text \<open>Scores are bounded: with success rates of at most one, every score of a scored route
  lies between 0 and the sum of its strategy's weights, so no price or latency outlier can push
  an entry past a perfect one.\<close>

theorem scores_are_bounded:
  assumes "route_weights s route = Some (wp, wl, wt)" and "\<forall>k st. map_of (snStats s) k = Some st \<longrightarrow> Uptime st \<le> 1"
    and "d \<in> set (ResolveDetail s route)"
  shows "0 \<le> reScore d \<and> reScore d \<le> wp + wl + wt"
proof -
  have w: "0 \<le> wp" "0 \<le> wl" "0 \<le> wt"
    using assms(1) by (auto simp: route_weights_def strategyWeights_def split: option.splits if_splits)
  from assms(1,3) obtain e where e: "e \<in> set (gathered s route)"
    "d = score_entry (wp, wl, wt) (min_price (gathered s route)) (min_latency (gathered s route))
       (max_tps (gathered s route)) e"
    by (auto simp: ResolveDetail_eq scored_chain_def Let_def split: if_splits)
  have "reUptime e \<le> 1"
    using e(1) gather_uptime [OF assms(2)] by (auto simp: gathered_def)
  with score_bounds [OF e(1) w] e(2) show ?thesis by simp
qed

definition demo_scored :: Snapshot where
  "demo_scored = fst (BuildSnapshot [demo_provider] [demo_route\<lparr>rtStrategy := ''price''\<rparr>] demo_lookup demo_build
     (\<lambda>_ _. None) (\<lambda>_. False))"

theorem scores_are_bounded_witness:
  "list_all (\<lambda>d. reScore d \<le> 9/10 + 2/100 + 2/100) (ResolveDetail demo_scored ''coding'')"
proof -
  have w: "route_weights demo_scored ''coding'' = Some (9/10, 2/100, 2/100)" by code_simp
  have st: "snStats demo_scored = []" by code_simp
  show ?thesis using scores_are_bounded [OF w] by (simp add: st list_all_iff)
qed

text \<open>A pinned model is listed once and first: when a hint resolves, the executor
  resolution of an existing route starts with the hinted provider and model and no later entry
  has the same provider and model.\<close>

theorem hint_listed_first_and_once:
  assumes "ResolveRoute s route harness hint = Some out" and "hint \<noteq> []" and "resolveHint s hint = Some (row, model)"
  shows "\<exists>rest. out = annotateResolvedEntry s row model harness [requiredCapability s route] # rest
    \<and> entry_key (hd out) \<notin> set (map entry_key rest)"
  using assms
  by (auto simp: ResolveRoute_def withRouteHint_def Let_def split: option.splits if_splits)

theorem hint_listed_first_and_once_witness:
  "\<exists>rest out. ResolveRoute demo_snapshot ''coding'' [] ''acme'' = Some out \<and> out = hd out # rest"
proof -
  have h: "resolveHint demo_snapshot ''acme'' = Some (demo_provider, ''m1'')" by code_simp
  have "ResolveRoute demo_snapshot ''coding'' [] ''acme'' \<noteq> None" by code_simp
  then obtain out where out: "ResolveRoute demo_snapshot ''coding'' [] ''acme'' = Some out" by blast
  from hint_listed_first_and_once [OF out _ h] out show ?thesis by force
qed

text \<open>The sticky preference misses entries that use their provider's default model: the
  ledger records the model that served, the chain entry has a blank one, and the two are
  compared as they are, so a session served by such an entry is resolved as if it had no
  sticky preference and its prompt cache is not kept warm.\<close>

theorem sticky_misses_default_models:
  assumes "stModel sticky \<noteq> []"
    and "\<forall>e \<in> set (chain_of s route). \<forall>row. map_of (snRows s) (ceProvider e) = Some row
           \<longrightarrow> pvName row = stProvider sticky \<longrightarrow> ceModel e = []"
  shows "Resolve s route hint sticky extra = Resolve s route hint no_sticky extra"
proof -
  have "find (\<lambda>e. case map_of (snRows s) (ceProvider e) of None \<Rightarrow> False
      | Some row \<Rightarrow> pvName row = stProvider sticky \<and> ceModel e = stModel sticky) (chain_of s route) = None"
    unfolding find_None_iff using assms by (auto split: option.splits)
  then have "sticky_entry s route sticky = sticky_entry s route no_sticky"
    by (simp add: sticky_entry_def no_sticky_def)
  then show ?thesis by (simp add: Resolve_def resolve_all_def add_sticky_def)
qed

theorem sticky_misses_default_models_witness:
  "Resolve demo_snapshot ''coding'' [] \<lparr>stProvider = atProvider demo_attempt, stModel = atModel demo_attempt\<rparr> []
     = Resolve demo_snapshot ''coding'' [] no_sticky []"
proof (rule sticky_misses_default_models)
  have "chain_of demo_snapshot ''coding'' = [\<lparr>ceProvider = ''p1'', ceModel = []\<rparr>]" by code_simp
  then show "\<forall>e \<in> set (chain_of demo_snapshot ''coding''). \<forall>row. map_of (snRows demo_snapshot) (ceProvider e) = Some row
      \<longrightarrow> pvName row = stProvider \<lparr>stProvider = atProvider demo_attempt, stModel = atModel demo_attempt\<rparr>
      \<longrightarrow> ceModel e = []" by simp
qed (simp add: demo_attempt_def)

end
