(* ===== verification/Think_Tag.thy ===== *)
theory Think_Tag
  imports Prelude
begin

text \<open>
  The thinking-tag splitter of \<open>internal/gateway/provider/thinktag.go\<close>: some models write
  their chain of thought as literal \<open><thinking>\<dots></thinking>\<close> spans inside the text stream,
  and the splitter turns them into reasoning events while the stream arrives in arbitrary
  pieces. A piece of state is the tail that may still become a tag (\<open>carry\<close>) and whether a
  span is open. \<open>span_text\<close> says what the whole text means, read at once; the splitter is
  proved to say the same under every way of cutting the text into deltas.
\<close>

datatype SplitEvent = EventReasoningChunk string | EventChunk string

record thinkTagSplitter =
  carry :: string
  thinking :: bool

definition thinkOpen :: string where "thinkOpen = ''<thinking>''"
definition thinkClose :: string where "thinkClose = ''</thinking>''"

definition span_event :: "bool \<Rightarrow> string \<Rightarrow> SplitEvent" where
  "span_event th text = (if th then EventReasoningChunk text else EventChunk text)"

definition current_tag :: "bool \<Rightarrow> string" where
  "current_tag th = (if th then thinkClose else thinkOpen)"

definition emit_span :: "bool \<Rightarrow> string \<Rightarrow> SplitEvent list" where
  "emit_span th seg = (if seg = [] then [] else [span_event th seg])"

text \<open>How many trailing bytes of \<open>s\<close> are a proper prefix of \<open>tag\<close>: the loop counts down.\<close>

fun longest_tail :: "string \<Rightarrow> string \<Rightarrow> nat \<Rightarrow> nat" where
  "longest_tail s tag 0 = 0"
| "longest_tail s tag (Suc n) =
     (if has_suffix s (take (Suc n) tag) then Suc n else longest_tail s tag n)"

definition partialTagSuffix :: "string \<Rightarrow> string \<Rightarrow> nat" where
  "partialTagSuffix s tag = longest_tail s tag (min (length tag - 1) (length s))"

lemma current_tag_nonempty [simp]: "current_tag th \<noteq> []"
  by (simp add: current_tag_def thinkOpen_def thinkClose_def)

lemma current_tag_length: "0 < length (current_tag th)"
  by simp

function feed_loop :: "string \<Rightarrow> bool \<Rightarrow> SplitEvent list \<times> thinkTagSplitter" where
  "feed_loop c th =
     (case str_index c (current_tag th) of
        Some i \<Rightarrow>
          (let r = feed_loop (drop (i + length (current_tag th)) c) (\<not> th)
           in (emit_span th (take i c) @ fst r, snd r))
      | None \<Rightarrow>
          (let keep = partialTagSuffix c (current_tag th)
           in (emit_span th (take (length c - keep) c),
               \<lparr>carry = drop (length c - keep) c, thinking = th\<rparr>)))"
  by pat_completeness auto
termination
proof (relation "measure (\<lambda>(c, th). length c)", goal_cases)
  case (2 c th i)
  have "length c - (i + length (current_tag th)) < length c"
    using str_index_bound [OF 2] current_tag_length [of th] by linarith
  then show ?case by simp
qed simp

declare feed_loop.simps [simp del]

definition Feed :: "thinkTagSplitter \<Rightarrow> string \<Rightarrow> SplitEvent list \<times> thinkTagSplitter" where
  "Feed s text = feed_loop (carry s @ text) (thinking s)"

definition Flush :: "thinkTagSplitter \<Rightarrow> SplitEvent list \<times> thinkTagSplitter" where
  "Flush s = (if carry s = [] then ([], s)
              else ([span_event (thinking s) (carry s)], s\<lparr>carry := []\<rparr>))"

text \<open>A stream: every delta fed in turn, then the flush.\<close>

fun feed_all :: "thinkTagSplitter \<Rightarrow> string list \<Rightarrow> SplitEvent list \<times> thinkTagSplitter" where
  "feed_all s [] = ([], s)"
| "feed_all s (d # ds) =
     (let r = Feed s d; q = feed_all (snd r) ds in (fst r @ fst q, snd q))"

definition split_stream :: "string list \<Rightarrow> SplitEvent list" where
  "split_stream ds =
     (let r = feed_all \<lparr>carry = [], thinking = False\<rparr> ds in fst r @ fst (Flush (snd r)))"

section \<open>What the whole text means\<close>

text \<open>Each byte with whether it is reasoning, the tags left out.\<close>

function span_text :: "bool \<Rightarrow> string \<Rightarrow> (bool \<times> char) list" where
  "span_text th s =
     (case str_index s (current_tag th) of
        Some i \<Rightarrow> map (Pair th) (take i s) @ span_text (\<not> th) (drop (i + length (current_tag th)) s)
      | None \<Rightarrow> map (Pair th) s)"
  by pat_completeness auto
termination
proof (relation "measure (\<lambda>(th, s). length s)", goal_cases)
  case (2 th s i)
  have "length s - (i + length (current_tag th)) < length s"
    using str_index_bound [OF 2] current_tag_length [of th] by linarith
  then show ?case by simp
qed simp

declare span_text.simps [simp del]

fun event_text :: "SplitEvent \<Rightarrow> (bool \<times> char) list" where
  "event_text (EventReasoningChunk t) = map (Pair True) t"
| "event_text (EventChunk t) = map (Pair False) t"

definition events_text :: "SplitEvent list \<Rightarrow> (bool \<times> char) list" where
  "events_text evs = concat (map event_text evs)"

lemma events_text_append [simp]: "events_text (a @ b) = events_text a @ events_text b"
  by (simp add: events_text_def)

lemma events_text_emit [simp]: "events_text (emit_span th seg) = map (Pair th) seg"
  by (simp add: events_text_def emit_span_def span_event_def)

section \<open>Where a tag can start\<close>

lemma str_index_Some_iff:
  "str_index s tag = Some i \<longleftrightarrow>
     has_prefix (drop i s) tag \<and> i \<le> length s \<and> (\<forall>j < i. \<not> has_prefix (drop j s) tag)"
proof (induction s arbitrary: i)
  case Nil
  show ?case by (cases tag) auto
next
  case (Cons c s)
  show ?case
  proof (cases i)
    case 0
    then show ?thesis by auto
  next
    case (Suc k)
    then show ?thesis
      using Cons [of k] by (auto simp: less_Suc_eq_0_disj)
  qed
qed

lemma str_index_None_iff:
  "str_index s tag = None \<longleftrightarrow> (\<forall>j \<le> length s. \<not> has_prefix (drop j s) tag)"
proof (induction s)
  case Nil
  show ?case by (cases tag) auto
next
  case (Cons c s)
  have "(\<forall>j \<le> length (c # s). \<not> has_prefix (drop j (c # s)) tag) \<longleftrightarrow>
      \<not> has_prefix (c # s) tag \<and> (\<forall>j \<le> length s. \<not> has_prefix (drop j s) tag)"
    by (metis drop0 drop_Suc_Cons le0 length_Cons not_less_eq_eq old.nat.exhaust)
  with Cons show ?case by auto
qed

text \<open>An occurrence found stays the first one when more text arrives.\<close>

lemma str_index_extend:
  assumes "str_index s tag = Some i"
  shows "str_index (s @ t) tag = Some i"
proof -
  have b: "i + length tag \<le> length s" by (rule str_index_bound [OF assms])
  have h: "has_prefix (drop i s) tag" "\<forall>j < i. \<not> has_prefix (drop j s) tag"
    using assms unfolding str_index_Some_iff by blast+
  have "\<not> has_prefix (drop j (s @ t)) tag" if "j < i" for j
  proof
    assume "has_prefix (drop j (s @ t)) tag"
    then have "prefix tag (drop j s @ t)" using that b by (simp add: has_prefix_iff)
    moreover have "length tag \<le> length (drop j s)" using that b by simp
    ultimately have "prefix tag (drop j s)" by (metis prefix_length_prefix prefixI)
    with h(2) that show False by (simp add: has_prefix_iff)
  qed
  moreover have "has_prefix (drop i (s @ t)) tag"
    using h(1) b by (auto simp: has_prefix_iff prefix_def)
  ultimately show ?thesis unfolding str_index_Some_iff using b by simp
qed

text \<open>Text before any possible occurrence is emitted as it is.\<close>

lemma span_text_skip:
  assumes "\<forall>j < k. \<not> has_prefix (drop j s) (current_tag th)" and "k \<le> length s"
  shows "span_text th s = map (Pair th) (take k s) @ span_text th (drop k s)"
proof (cases "str_index (drop k s) (current_tag th)")
  case None
  have "\<not> has_prefix (drop j s) (current_tag th)" if "j \<le> length s" for j
  proof (cases "j < k")
    case True
    with assms show ?thesis by blast
  next
    case False
    with None that assms(2) show ?thesis
      unfolding str_index_None_iff by (metis add_diff_inverse_nat add.commute diff_le_mono drop_drop length_drop)
  qed
  then have "str_index s (current_tag th) = None" by (simp add: str_index_None_iff)
  with None show ?thesis
    by (simp add: span_text.simps [of th s] span_text.simps [of th "drop k s"] flip: map_append)
next
  case (Some i)
  have "\<not> has_prefix (drop j s) (current_tag th)" if "j < k + i" for j
  proof (cases "j < k")
    case True
    with assms show ?thesis by blast
  next
    case False
    with that have "j - k < i" by simp
    then have "\<not> has_prefix (drop (j - k) (drop k s)) (current_tag th)"
      using Some unfolding str_index_Some_iff by blast
    with False show ?thesis by simp
  qed
  moreover have "has_prefix (drop i (drop k s)) (current_tag th)" "i \<le> length (drop k s)"
    using Some unfolding str_index_Some_iff by blast+
  ultimately have "str_index s (current_tag th) = Some (k + i)"
    using assms(2) unfolding str_index_Some_iff by (simp add: add.commute)
  moreover have "take (k + i) s = take k s @ take i (drop k s)" by (rule take_add)
  ultimately show ?thesis
    using Some by (simp add: span_text.simps [of th s] span_text.simps [of th "drop k s"] add_ac flip: map_append)
qed

section \<open>The tail kept back\<close>

lemma longest_tail_le: "longest_tail s tag n \<le> n"
  by (induction n) auto

lemma longest_tail_max:
  "longest_tail s tag n < m \<Longrightarrow> m \<le> n \<Longrightarrow> \<not> has_suffix s (take m tag)"
  by (induction n) (auto simp: le_Suc_eq split: if_splits)

lemma partialTagSuffix_le: "partialTagSuffix s tag \<le> length s"
  using longest_tail_le [of s tag] unfolding partialTagSuffix_def by (meson min.cobounded2 le_trans)

lemma partialTagSuffix_lt: "tag \<noteq> [] \<Longrightarrow> partialTagSuffix s tag < length tag"
  using longest_tail_le [of s tag "min (length tag - 1) (length s)"]
  unfolding partialTagSuffix_def by (cases tag) auto

lemma no_early_start:
  assumes "str_index s tag = None" and "j < length s - partialTagSuffix s tag"
  shows "\<not> has_prefix (drop j (s @ t)) tag"
proof
  assume h: "has_prefix (drop j (s @ t)) tag"
  have j: "j \<le> length s" using assms(2) by simp
  from h j have p: "prefix tag (drop j s @ t)" by (simp add: has_prefix_iff)
  show False
  proof (cases "length tag \<le> length (drop j s)")
    case True
    with p have "prefix tag (drop j s)" by (metis prefix_length_prefix prefixI)
    with assms(1) j show False by (simp add: str_index_None_iff has_prefix_iff)
  next
    case False
    let ?m = "length s - j"
    from p False have "prefix (drop j s) tag" by (metis nat_le_linear prefix_length_prefix prefixI)
    then have "drop j s = take ?m tag" by (auto simp: prefix_def)
    then have "has_suffix s (take ?m tag)" by (metis has_suffix_iff suffix_drop)
    moreover have "partialTagSuffix s tag < ?m" using assms(2) j by simp
    moreover have "?m \<le> min (length tag - 1) (length s)" using False by simp
    ultimately show False
      unfolding partialTagSuffix_def using longest_tail_max by blast
  qed
qed

section \<open>One delta\<close>

text \<open>What has been emitted and what is kept, followed by any further text, mean the same as the
  text they came from.\<close>

lemma feed_loop_text:
  "events_text (fst (feed_loop c th)) @ span_text (thinking (snd (feed_loop c th))) (carry (snd (feed_loop c th)) @ t)
     = span_text th (c @ t)"
proof (induction c th rule: feed_loop.induct)
  case (1 c th)
  show ?case
  proof (cases "str_index c (current_tag th)")
    case None
    let ?k = "length c - partialTagSuffix c (current_tag th)"
    have "span_text th (c @ t) = map (Pair th) (take ?k (c @ t)) @ span_text th (drop ?k (c @ t))"
      using no_early_start [OF None] by (intro span_text_skip) auto
    with None show ?thesis by (simp add: feed_loop.simps [of c th] Let_def)
  next
    case (Some i)
    have i: "i + length (current_tag th) \<le> length c" by (rule str_index_bound [OF Some])
    have "span_text th (c @ t) =
        map (Pair th) (take i c) @ span_text (\<not> th) (drop (i + length (current_tag th)) c @ t)"
      using str_index_extend [OF Some, of t] i by (simp add: span_text.simps [of th "c @ t"])
    with 1(1) [OF Some] Some show ?thesis
      by (simp add: feed_loop.simps [of c th] Let_def)
  qed
qed

lemma feed_loop_carry: "length (carry (snd (feed_loop c th))) < length thinkClose"
proof (induction c th rule: feed_loop.induct)
  case (1 c th)
  show ?case
  proof (cases "str_index c (current_tag th)")
    case None
    have "partialTagSuffix c (current_tag th) < length thinkClose"
      using partialTagSuffix_lt [of "current_tag th" c]
      by (auto simp: current_tag_def thinkOpen_def thinkClose_def split: if_splits)
    with None partialTagSuffix_le [of c "current_tag th"] show ?thesis
      by (simp add: feed_loop.simps [of c th] Let_def)
  next
    case (Some i)
    with 1(1) [OF Some] show ?thesis by (simp add: feed_loop.simps [of c th] Let_def)
  qed
qed

text \<open>The kept tail alone means itself: it is too short to hold a tag, or holds none.\<close>

lemma feed_loop_rest:
  "str_index (carry (snd (feed_loop c th))) (current_tag (thinking (snd (feed_loop c th)))) = None"
proof (induction c th rule: feed_loop.induct)
  case (1 c th)
  show ?case
  proof (cases "str_index c (current_tag th)")
    case None
    let ?k = "length c - partialTagSuffix c (current_tag th)"
    have "\<not> str_contains (drop ?k c) (current_tag th)"
      using None sublist_order.order_trans [OF _ sublist_drop]
      by (auto simp: str_index_None str_contains_iff)
    with None show ?thesis by (simp add: feed_loop.simps [of c th] Let_def flip: str_index_None)
  next
    case (Some i)
    with 1(1) [OF Some] show ?thesis by (simp add: feed_loop.simps [of c th] Let_def)
  qed
qed

section \<open>The stream\<close>

lemma feed_all_text:
  "events_text (fst (feed_all s ds)) @ span_text (thinking (snd (feed_all s ds))) (carry (snd (feed_all s ds)) @ t)
     = span_text (thinking s) (carry s @ concat ds @ t)"
proof (induction ds arbitrary: s)
  case Nil
  show ?case by (simp add: events_text_def)
next
  case (Cons d ds)
  show ?case
    using Cons [of "snd (Feed s d)"] feed_loop_text [of "carry s @ d" "thinking s" "concat ds @ t"]
    by (simp add: Feed_def Let_def)
qed

lemma feed_all_rest:
  "str_index (carry s) (current_tag (thinking s)) = None \<Longrightarrow>
   str_index (carry (snd (feed_all s ds))) (current_tag (thinking (snd (feed_all s ds)))) = None"
proof (induction ds arbitrary: s)
  case Nil
  then show ?case by simp
next
  case (Cons d ds)
  then show ?case using feed_loop_rest by (simp add: Feed_def Let_def)
qed

lemma feed_all_carry:
  "length (carry s) < length thinkClose \<Longrightarrow> length (carry (snd (feed_all s ds))) < length thinkClose"
  by (induction ds arbitrary: s) (simp_all add: Feed_def Let_def feed_loop_carry)

lemma Flush_text:
  "str_index (carry s) (current_tag (thinking s)) = None \<Longrightarrow>
   events_text (fst (Flush s)) = span_text (thinking s) (carry s)"
  by (simp add: Flush_def span_text.simps [of "thinking s" "carry s"] events_text_def span_event_def)

text \<open>C11. Cutting does not matter: whatever pieces the text arrives in, tags cut in two
  included, the events of the stream carry exactly the bytes of the whole text outside the tags,
  in order, each marked reasoning exactly when it stands inside a span; and between deltas fewer
  bytes than a closing tag are held back.\<close>

theorem splitting_ignores_chunking:
  "events_text (split_stream ds) = span_text False (concat ds)
   \<and> length (carry (snd (feed_all \<lparr>carry = [], thinking = False\<rparr> ds))) < 11"
proof
  let ?s = "\<lparr>carry = [], thinking = False\<rparr>"
  have none: "str_index (carry ?s) (current_tag (thinking ?s)) = None"
    by (simp add: current_tag_def thinkOpen_def)
  show "events_text (split_stream ds) = span_text False (concat ds)"
    using feed_all_text [of ?s ds "[]"] Flush_text [OF feed_all_rest [OF none, of ds]]
    by (simp add: split_stream_def Let_def)
  show "length (carry (snd (feed_all ?s ds))) < 11"
    using feed_all_carry [of ?s ds] by (simp add: thinkClose_def)
qed

end
