(* ===== verification/Retrieval_Props.thy ===== *)
theory Retrieval_Props
  imports Memory_Retrieval
begin

text \<open>
  What retrieval promises: the answer of three racing legs does not depend on the race or on the
  order a Go map is walked in, and the packed block keeps its budget.
\<close>


definition demo_row :: "string \<Rightarrow> Candidate" where
  "demo_row i = \<lparr>cID = i, cType = TypeSemantic, cContent = ''likes tea'', cLastConfirmed = 0,
     cLastRetrieved = None, cConfidence = 1, cRanks = []\<rparr>"

definition demo_hits :: "hit list" where
  "demo_hits = [(''text'', 1, demo_row ''a''), (''entity'', 1, demo_row ''a''), (''text'', 2, demo_row ''b'')]"


text \<open>The block keeps its budget: a non-empty answer of \<open>Pack\<close> holds some of the ranked
  memories in ranking order before they are placed, its reported cost is that of the framing
  plus the rendered items and at most the budget, and there are at most \<open>maxItems\<close> of them when a
  limit is given; the best leads and the runner-up closes.\<close>

theorem packed_block_keeps_budget:
  assumes "Pack tokens ranked budget maxItems = (out, used)" and "out \<noteq> []"
  shows "\<exists>picked. subseq picked ranked \<and> out = positionForAttention picked \<and> mset out = mset picked
    \<and> used = int (tokens (BlockOpen @ BlockClose)) + sum_list (map (item_cost tokens) picked)
    \<and> used \<le> (if budget \<le> 0 then 1500 else budget)
    \<and> (0 < maxItems \<longrightarrow> int (length out) \<le> maxItems)
    \<and> hd out = hd picked \<and> (3 \<le> length picked \<longrightarrow> last out = picked ! 1)"
proof -
  let ?budget = "if budget \<le> 0 then DefaultBudgetTokens else budget"
  let ?start = "int (tokens (BlockOpen @ BlockClose))"
  obtain picked spent where p: "pick tokens ?budget maxItems ?start [] ranked = (picked, spent)" by fastforce
  with assms have out: "picked \<noteq> []" "out = positionForAttention picked" "used = spent"
    by (auto simp: Pack_def Let_def split: if_splits)
  from pick_budget [OF p] out(1) have "subseq picked ranked"
    "spent = ?start + sum_list (map (item_cost tokens) picked)" "spent \<le> ?budget"
    "0 < maxItems \<longrightarrow> int (length picked) \<le> maxItems" by auto
  moreover have "length out = length picked"
    using mset_positionForAttention [of picked] out(2) by (metis mset_eq_length)
  moreover have "hd out = hd picked" using out by (simp add: positionForAttention_def)
  moreover have "3 \<le> length picked \<longrightarrow> last out = picked ! 1" using out by (simp add: positionForAttention_def)
  ultimately show ?thesis
    using out mset_positionForAttention [of picked] by (intro exI [of _ picked]) (auto simp: DefaultBudgetTokens_def)
qed

definition demo_ranked :: "Scored list" where
  "demo_ranked = map (\<lambda>i. \<lparr>sID = i, sType = TypeSemantic, sContent = i, sScore = 1, sLegs = 1\<rparr>)
     [''a'', ''b'', ''c'', ''d'']"

lemma packed_block_keeps_budget_witness:
  "snd (Pack length demo_ranked 400 3) \<le> 400 \<and> int (length (fst (Pack length demo_ranked 400 3))) \<le> 3"
proof -
  obtain out used where p: "Pack length demo_ranked 400 3 = (out, used)" by fastforce
  have "map sID (fst (Pack length demo_ranked 400 3)) = [''a'', ''c'', ''b'']" by code_simp
  with p have "out \<noteq> []" by auto
  from packed_block_keeps_budget [OF p this] p show ?thesis by auto
qed

end
