(* ===== verification/Memory_Chunk.thy ===== *)
theory Memory_Chunk
  imports Go_Text
begin

text \<open>
  Splitting a markdown document into chunks (\<open>internal/memory/chunk/chunk.go\<close>): headings, then
  paragraphs, then sentences, lines of a fence and runes. Token counts are \<^typ>\<open>int\<close> because the
  room left for an overlap can be negative.
\<close>

definition targetTokens :: int where "targetTokens = 500"
definition maxTokens :: int where "maxTokens = 600"

text \<open>\<open>int(float64(targetTokens) * overlapRatio)\<close>, a constant expression.\<close>

definition overlapTokens :: int where "overlapTokens = 75"

definition estimateTokens :: "string \<Rightarrow> int" where
  "estimateTokens s = int (length s div 4)"

definition eol :: char where "eol = CHR 0x0A"

definition lines_of :: "string \<Rightarrow> string list" where
  "lines_of s = split_on (\<lambda>c. c = eol) s"

record Chunk =
  chSeq :: nat
  chBreadcrumb :: string
  chContent :: string

section \<open>Headings and sections\<close>

definition parseHeading :: "string \<Rightarrow> (nat \<times> string) option" where
  "parseHeading line =
     (let trimmed = rev (dropWhile (\<lambda>c. c = CHR '' '' \<or> c = CHR 0x09) (rev line));
          level = length (takeWhile (\<lambda>c. c = CHR ''#'') trimmed)
      in if level = 0 \<or> 6 < level then None
         else if level = length trimmed then Some (level, [])
         else if trimmed ! level \<noteq> CHR '' '' \<and> trimmed ! level \<noteq> CHR 0x09 then None
         else Some (level, trim_space (drop level trimmed)))"

record heading_section =
  hsPath :: "string list"
  hsBody :: string

definition fence_line :: "string \<Rightarrow> bool" where
  "fence_line line =
     (has_prefix (trim_space line) [backtick, backtick, backtick] \<or> has_prefix (trim_space line) ''~~~'')"

definition enter_heading :: "nat \<Rightarrow> string \<Rightarrow> string list \<Rightarrow> string list" where
  "enter_heading level txt path =
     (if length path < level then path @ replicate (level - 1 - length path) [] @ [txt]
      else take (level - 1) path @ [txt])"

definition flush_section :: "string list \<Rightarrow> string \<Rightarrow> heading_section list" where
  "flush_section path body = (if trim_space body \<noteq> [] then [\<lparr>hsPath = path, hsBody = body\<rparr>] else [])"

fun split_loop :: "string list \<Rightarrow> string \<Rightarrow> bool \<Rightarrow> string list \<Rightarrow> heading_section list" where
  "split_loop path body inFence [] = flush_section path body"
| "split_loop path body inFence (line # ls) =
     (if fence_line line then split_loop path (body @ line @ [eol]) (\<not> inFence) ls
      else case (if inFence then None else parseHeading line) of
        Some (level, txt) \<Rightarrow> flush_section path body @ split_loop (enter_heading level txt path) [] inFence ls
      | None \<Rightarrow> split_loop path (body @ line @ [eol]) inFence ls)"

definition split_doc :: "string \<Rightarrow> heading_section list" where
  "split_doc markdown = split_loop [] [] False (lines_of markdown)"

definition breadcrumb :: "string \<Rightarrow> string list \<Rightarrow> string" where
  "breadcrumb title path =
     str_join '' > '' ((if title \<noteq> [] then [title] else []) @ filter (\<lambda>p. p \<noteq> []) path)"

section \<open>Paragraphs\<close>

definition flush_paragraph :: "string \<Rightarrow> string list" where
  "flush_paragraph cur = (if trim_space cur \<noteq> [] then [trim_space cur] else [])"

fun paragraph_loop :: "string \<Rightarrow> bool \<Rightarrow> string list \<Rightarrow> string list" where
  "paragraph_loop cur inFence [] = flush_paragraph cur"
| "paragraph_loop cur inFence (line # ls) =
     (if fence_line line then paragraph_loop (cur @ line @ [eol]) (\<not> inFence) ls
      else if \<not> inFence \<and> trim_space line = [] then flush_paragraph cur @ paragraph_loop [] inFence ls
      else paragraph_loop (cur @ line @ [eol]) inFence ls)"

definition paragraphs :: "string \<Rightarrow> string list" where
  "paragraphs body = paragraph_loop [] False (lines_of body)"

section \<open>Packing\<close>

text \<open>The tail of a closed piece carried into the next; the first argument is what is left.\<close>

fun carry_tail :: "int \<Rightarrow> string list \<Rightarrow> string list" where
  "carry_tail room [] = []"
| "carry_tail room (x # xs) =
     (if room < estimateTokens x then [] else carry_tail (room - estimateTokens x) xs @ [x])"

definition carry :: "int \<Rightarrow> string list \<Rightarrow> string list" where
  "carry pt cur = carry_tail (min overlapTokens (maxTokens - pt)) (rev cur)"

definition cost :: "string list \<Rightarrow> int" where
  "cost items = sum_list (map estimateTokens items)"

text \<open>The state of the loop: the closed pieces and the open one, items not yet joined.\<close>

type_synonym packing = "string list list \<times> string list"

definition pack_step :: "string \<Rightarrow> packing \<Rightarrow> packing" where
  "pack_step p st =
     (let pieces = fst st; cur = snd st; pt = estimateTokens p;
          close = (0 < cost cur \<and> targetTokens < cost cur + pt);
          pieces1 = (if close then pieces @ [cur] else pieces);
          cur1 = (if close then carry pt cur else cur) @ [p]
      in if maxTokens < cost cur1 then (pieces1 @ [cur1], []) else (pieces1, cur1))"

definition pack_items :: "string list \<Rightarrow> string list list" where
  "pack_items items =
     (let st = fold pack_step items ([], []) in if snd st = [] then fst st else fst st @ [snd st])"

definition packPieces :: "string list \<Rightarrow> string \<Rightarrow> string list" where
  "packPieces items sep = map (str_join sep) (pack_items items)"

section \<open>Sentences, runes, fences\<close>

fun sentence_loop :: "string \<Rightarrow> string \<Rightarrow> string list" where
  "sentence_loop cur [] = (if cur = [] then [] else [cur])"
| "sentence_loop cur (c # s) =
     (if c = eol then (cur @ [c]) # sentence_loop [] s
      else case s of
        d # s' \<Rightarrow>
          if c \<in> set ''.!?;'' \<and> d = CHR '' '' then (cur @ [c, d]) # sentence_loop [] s'
          else sentence_loop (cur @ [c]) s
      | [] \<Rightarrow> sentence_loop (cur @ [c]) s)"

definition splitIntoSentences :: "string \<Rightarrow> string list" where
  "splitIntoSentences s = sentence_loop [] s"

definition maxBytes :: nat where "maxBytes = 2400"

fun rune_loop :: "string \<Rightarrow> string list \<Rightarrow> string list" where
  "rune_loop cur [] = (if cur = [] then [] else [cur])"
| "rune_loop cur (r # rs) =
     (if cur \<noteq> [] \<and> maxBytes < length cur + length r then cur # rune_loop r rs
      else rune_loop (cur @ r) rs)"

definition splitByRunes :: "string \<Rightarrow> string list" where
  "splitByRunes s = rune_loop [] (runes s)"

definition splitSentences :: "string \<Rightarrow> string list" where
  "splitSentences p =
     packPieces (concat (map (\<lambda>s. if maxTokens < estimateTokens s then splitByRunes s else [s])
       (splitIntoSentences p))) []"

definition isFence :: "string \<Rightarrow> bool" where
  "isFence p = fence_line p"

definition splitFence :: "string \<Rightarrow> string list" where
  "splitFence p =
     (let ls = lines_of (rev (dropWhile (\<lambda>c. c = eol) (rev p)))
      in if length ls < 2 then splitByRunes p
         else
           let marker = trim_space (hd ls); inner = butlast (tl ls);
               wrap = (\<lambda>piece. marker @ [eol] @ piece @ [eol] @ marker)
           in concat (map (\<lambda>piece.
                if maxTokens < estimateTokens piece + estimateTokens marker * 2 then splitByRunes (wrap piece)
                else [wrap piece]) (packPieces inner [eol])))"

definition splitOversizedParagraph :: "string \<Rightarrow> string list" where
  "splitOversizedParagraph p = (if isFence p then splitFence p else splitSentences p)"

definition splitOversized :: "string \<Rightarrow> string list" where
  "splitOversized body =
     (if estimateTokens body \<le> maxTokens then [body]
      else packPieces (concat (map (\<lambda>p. if maxTokens < estimateTokens p then splitOversizedParagraph p else [p])
             (paragraphs body))) [eol, eol])"

definition number_chunks :: "(string \<times> string) list \<Rightarrow> Chunk list" where
  "number_chunks cs =
     map (\<lambda>i. \<lparr>chSeq = i, chBreadcrumb = fst (cs ! i), chContent = snd (cs ! i)\<rparr>) [0..<length cs]"

definition Split_document :: "string \<Rightarrow> string \<Rightarrow> Chunk list" where
  "Split_document title markdown =
     number_chunks (concat (map (\<lambda>sec.
        let body = trim_space (hsBody sec)
        in if body = [] then []
           else map (\<lambda>piece. (breadcrumb title (hsPath sec), piece)) (splitOversized body))
        (split_doc markdown)))"

section \<open>What packing keeps\<close>

lemma cost_simps [simp]:
  "cost [] = 0" "cost (x # xs) = estimateTokens x + cost xs" "cost (xs @ ys) = cost xs + cost ys"
  by (simp_all add: cost_def)

lemma estimate_nonneg [simp]: "0 \<le> estimateTokens s"
  by (simp add: estimateTokens_def)

lemma cost_nonneg [simp]: "0 \<le> cost xs"
  by (induction xs) (simp_all add: add_nonneg_nonneg)

lemma carry_tail_fits: "cost (carry_tail room xs) \<le> max 0 room"
proof (induction room xs rule: carry_tail.induct)
  case (2 room x xs)
  then show ?case using estimate_nonneg [of x] by (auto simp: max_def split: if_splits)
qed simp

lemma carry_tail_suffix: "suffix (carry_tail room xs) (rev xs)"
proof (induction room xs rule: carry_tail.induct)
  case (2 room x xs)
  then show ?case by (auto simp: suffix_def)
qed simp

lemma carry_fits: "cost (carry pt cur) \<le> max 0 (min overlapTokens (maxTokens - pt))"
  unfolding carry_def by (rule carry_tail_fits)

lemma carry_suffix: "suffix (carry pt cur) cur"
  using carry_tail_suffix [of _ "rev cur"] by (simp add: carry_def)

lemma carry_none:
  assumes "maxTokens < pt"
  shows "carry pt cur = []"
proof -
  have "min overlapTokens (maxTokens - pt) < 0" using assms by simp
  then show ?thesis
    by (cases "rev cur") (auto simp: carry_def intro: less_le_trans)
qed

text \<open>
  A packing of items: pieces made of an overlap and new items, the new items together are the
  items, an overlap is a tail of the piece before it and small.
\<close>

fun overlaps_ok :: "string list \<Rightarrow> (string list \<times> string list) list \<Rightarrow> bool" where
  "overlaps_ok prev [] = True"
| "overlaps_ok prev ((ov, new) # ps) =
     (suffix ov prev \<and> cost ov \<le> overlapTokens \<and> new \<noteq> [] \<and> overlaps_ok (ov @ new) ps)"

definition piece_fits :: "string list \<Rightarrow> bool" where
  "piece_fits ps = (cost ps \<le> maxTokens \<or> (maxTokens < estimateTokens (last ps) \<and> cost (butlast ps) = 0))"

definition packs :: "string list \<Rightarrow> (string list \<times> string list) list \<Rightarrow> string list list \<Rightarrow> bool" where
  "packs items ps pieces =
     (pieces = map (\<lambda>p. fst p @ snd p) ps \<and> concat (map snd ps) = items \<and> overlaps_ok [] ps
      \<and> (\<forall>q \<in> set pieces. piece_fits q))"

lemma overlaps_ok_snoc:
  "overlaps_ok prev (ps @ [(ov, new)]) \<longleftrightarrow>
     overlaps_ok prev ps \<and> suffix ov (if ps = [] then prev else fst (last ps) @ snd (last ps))
       \<and> cost ov \<le> overlapTokens \<and> new \<noteq> []"
  by (induction prev ps rule: overlaps_ok.induct) auto

text \<open>The invariant of the loop: closed pieces pack a prefix, the open piece the rest.\<close>

definition packing_inv :: "string list \<Rightarrow> packing \<Rightarrow> bool" where
  "packing_inv items st =
     (\<exists>ps. if snd st = [] then packs items ps (fst st)
           else packs items ps (fst st @ [snd st]) \<and> cost (snd st) \<le> maxTokens)"

lemma piece_fits_cost: "cost q \<le> maxTokens \<Longrightarrow> piece_fits q"
  by (simp add: piece_fits_def)

text \<open>The two ways an item joins: a new piece behind the closed ones, or the open piece grows.\<close>

lemma packs_open:
  assumes "packs items ps pieces" "suffix ov (if pieces = [] then [] else last pieces)"
    "cost ov \<le> overlapTokens" "piece_fits (ov @ [p])"
  shows "\<exists>qs. packs (items @ [p]) qs (pieces @ [ov @ [p]])"
proof (intro exI [of _ "ps @ [(ov, [p])]"])
  have "(if pieces = [] then [] else last pieces) = (if ps = [] then [] else fst (last ps) @ snd (last ps))"
    using assms(1) by (auto simp: packs_def last_map)
  with assms show "packs (items @ [p]) (ps @ [(ov, [p])]) (pieces @ [ov @ [p]])"
    by (auto simp: packs_def overlaps_ok_snoc)
qed

lemma packs_grow:
  assumes "packs items ps (pieces @ [cur])" "piece_fits (cur @ [p])"
  shows "\<exists>qs. packs (items @ [p]) qs (pieces @ [cur @ [p]])"
proof -
  from assms(1) have "map (\<lambda>p. fst p @ snd p) ps = pieces @ [cur]" by (simp add: packs_def)
  then obtain rs ov new where ps: "ps = rs @ [(ov, new)]" "cur = ov @ new" "pieces = map (\<lambda>p. fst p @ snd p) rs"
    by (cases ps rule: rev_cases) auto
  with assms have "packs (items @ [p]) (rs @ [(ov, new @ [p])]) (pieces @ [cur @ [p]])"
    by (auto simp: packs_def overlaps_ok_snoc)
  then show ?thesis by blast
qed

lemma pack_step_inv:
  assumes "packing_inv items st"
  shows "packing_inv (items @ [p]) (pack_step p st)"
proof -
  obtain pieces cur where st: "st = (pieces, cur)" by fastforce
  let ?pt = "estimateTokens p"
  let ?close = "0 < cost cur \<and> targetTokens < cost cur + ?pt"
  let ?closed = "if ?close then pieces @ [cur] else pieces"
  let ?cur = "(if ?close then carry ?pt cur else cur) @ [p]"
  have step: "pack_step p st = (if maxTokens < cost ?cur then (?closed @ [?cur], []) else (?closed, ?cur))"
    by (simp add: pack_step_def st Let_def)
  have fits: "piece_fits ?cur"
  proof (cases "cost ?cur \<le> maxTokens")
    case False
    show ?thesis
    proof (cases ?close)
      case True
      have "maxTokens < ?pt"
      proof (rule ccontr)
        assume "\<not> maxTokens < ?pt"
        with carry_fits [of ?pt cur] have "cost (carry ?pt cur) + ?pt \<le> maxTokens" by auto
        with True False show False by simp
      qed
      with carry_none True show ?thesis by (simp add: piece_fits_def)
    next
      case close: False
      from False close have "cost cur = 0"
        using cost_nonneg [of cur] by (auto simp: targetTokens_def maxTokens_def)
      with False close show ?thesis by (auto simp: piece_fits_def)
    qed
  qed (rule piece_fits_cost)
  have "\<exists>qs. packs (items @ [p]) qs (?closed @ [?cur])"
  proof (cases "cur = []")
    case True
    with assms st obtain ps where ps: "packs items ps pieces" by (auto simp: packing_inv_def)
    from packs_open [OF ps, of "[]" p] fits True show ?thesis by (simp add: overlapTokens_def)
  next
    case False
    with assms st obtain ps where ps: "packs items ps (pieces @ [cur])" by (auto simp: packing_inv_def)
    show ?thesis
    proof (cases ?close)
      case True
      have "cost (carry ?pt cur) \<le> overlapTokens"
        using carry_fits [of ?pt cur] by (auto simp: overlapTokens_def)
      with packs_open [OF ps, of "carry ?pt cur" p] carry_suffix [of ?pt cur] fits True show ?thesis by simp
    next
      case close: False
      then show ?thesis using packs_grow [OF ps, of p] fits by (simp only: if_False)
    qed
  qed
  then obtain qs where "packs (items @ [p]) qs (?closed @ [?cur])" ..
  then show ?thesis unfolding packing_inv_def step
    by (cases "maxTokens < cost ?cur") (auto intro: exI [of _ qs])
qed

lemma pack_items_packs: "\<exists>ps. packs items ps (pack_items items)"
proof -
  have "packing_inv items (fold pack_step items ([], []))"
  proof (induction items rule: rev_induct)
    case Nil
    show ?case by (auto simp: packing_inv_def packs_def intro: exI [of _ "[]"])
  next
    case (snoc p items)
    then show ?case by (simp add: pack_step_inv)
  qed
  then show ?thesis by (auto simp: packing_inv_def pack_items_def Let_def)
qed

section \<open>What the cuts keep\<close>

lemma concat_sentence_loop: "concat (sentence_loop cur s) = cur @ s"
  by (induction cur s rule: sentence_loop.induct) (auto split: list.splits)

lemma concat_sentences: "concat (splitIntoSentences s) = s"
  by (simp add: splitIntoSentences_def concat_sentence_loop)

lemma concat_rune_loop: "concat (rune_loop cur rs) = cur @ concat rs"
  by (induction cur rs rule: rune_loop.induct) auto

lemma concat_splitByRunes: "concat (splitByRunes s) = concat (runes s)"
  by (simp add: splitByRunes_def concat_rune_loop)

lemma concat_pieces: "(\<And>s. s \<in> set xs \<Longrightarrow> concat (f s) = s) \<Longrightarrow> concat (concat (map f xs)) = concat xs"
  by (induction xs) auto

lemma concat_singletons: "concat (map (\<lambda>c. [c]) s) = s"
  by (induction s) auto

lemma rune_loop_bounded:
  "length cur \<le> maxBytes \<Longrightarrow> \<forall>r \<in> set rs. length r \<le> maxBytes \<Longrightarrow>
     \<forall>q \<in> set (rune_loop cur rs). length q \<le> maxBytes"
  by (induction cur rs rule: rune_loop.induct) auto

lemma splitByRunes_bounded: "q \<in> set (splitByRunes s) \<Longrightarrow> estimateTokens q \<le> maxTokens"
proof -
  assume q: "q \<in> set (splitByRunes s)"
  have "\<forall>r \<in> set (runes s). length r \<le> maxBytes"
    using runes_short [of _ s] by (force simp: maxBytes_def)
  with rune_loop_bounded [of "[]" "runes s"] q have "length q \<le> maxBytes"
    by (simp add: splitByRunes_def)
  then show ?thesis by (simp add: estimateTokens_def maxTokens_def maxBytes_def)
qed

section \<open>Properties\<close>



section \<open>Where the bounds fail\<close>

text \<open>
  A part of fewer than four bytes costs nothing and separators are not counted: any number of
  such parts is one piece.
\<close>

lemma tiny_parts_one_piece:
  assumes "\<forall>x \<in> set items. length x < 4" "items \<noteq> []"
  shows "packPieces items sep = [str_join sep items]"
proof -
  have zero: "\<forall>x \<in> set xs. length x < 4 \<Longrightarrow> cost xs = 0" for xs
    by (induction xs) (auto simp: estimateTokens_def)
  have "fold pack_step items ([], []) = ([], items)"
    using assms(1)
  proof (induction items rule: rev_induct)
    case (snoc x xs)
    then have IH: "fold pack_step xs ([], []) = ([], xs)"
      and free: "cost xs = 0" "estimateTokens x = 0"
      using zero [of xs] zero [of "[x]"] by auto
    have "pack_step x ([], xs) = ([], xs @ [x])"
      using free by (simp add: pack_step_def Let_def maxTokens_def)
    with IH show ?case by (simp only: fold_append comp_apply fold.simps id_apply)
  qed simp
  with assms(2) show ?thesis by (simp add: packPieces_def pack_items_def)
qed

lemma length_join_same: "length (str_join sep (replicate (Suc n) w)) = Suc n * length w + n * length sep"
  by (induction n) auto

lemma chunks_can_exceed_the_bound:
  "packPieces (replicate 1000 ''abc'') [eol, eol] = [str_join [eol, eol] (replicate 1000 ''abc'')]"
  "maxTokens < estimateTokens (str_join [eol, eol] (replicate 1000 ''abc''))"
proof -
  show "packPieces (replicate 1000 ''abc'') [eol, eol] = [str_join [eol, eol] (replicate 1000 ''abc'')]"
    by (rule tiny_parts_one_piece) (auto simp: set_replicate_conv_if)
  have thousand: "Suc 999 = (1000 :: nat)" by simp
  have "length (str_join [eol, eol] (replicate 1000 ''abc'')) = 4998"
    using length_join_same [of "[eol, eol]" 999 "''abc''"] unfolding thousand by simp
  then show "maxTokens < estimateTokens (str_join [eol, eol] (replicate 1000 ''abc''))"
    unfolding estimateTokens_def maxTokens_def by simp
qed

text \<open>A fence whose closing marker is missing loses its last line.\<close>

lemma open_fence_loses_a_line:
  "splitFence (replicate 3 backtick @ [eol] @ ''a = 1'' @ [eol] @ ''b = 2'') =
     [replicate 3 backtick @ [eol] @ ''a = 1'' @ [eol] @ replicate 3 backtick]"
  by code_simp

end
