(* ===== verification/Go_Json.thy ===== *)
theory Go_Json
  imports Go_Text
begin

text \<open>
  \<open>encoding/json\<close> as the modelled code uses it: how \<open>Marshal\<close> writes a string (with its HTML
  escapes), and the documents \<open>Unmarshal\<close> reads. A number keeps its spelling. The decoder's depth
  limit of 10000 is not modelled.
\<close>

section \<open>Writing strings\<close>

definition hex_char :: "nat \<Rightarrow> char" where
  "hex_char d = (if d < 10 then digit_char d else char_of (87 + d))"

definition u_escape :: "nat \<Rightarrow> string" where
  "u_escape n = [backslash, CHR ''u'', hex_char (n div 4096 mod 16), hex_char (n div 256 mod 16),
     hex_char (n div 16 mod 16), hex_char (n mod 16)]"

definition escape_byte :: "char \<Rightarrow> string" where
  "escape_byte c =
     (if c = dquote \<or> c = backslash then [backslash, c]
      else if c = CHR 0x08 then [backslash, CHR ''b'']
      else if c = CHR 0x0C then [backslash, CHR ''f'']
      else if c = CHR 0x0A then [backslash, CHR ''n'']
      else if c = CHR 0x0D then [backslash, CHR ''r'']
      else if c = CHR 0x09 then [backslash, CHR ''t'']
      else if byte c < 0x20 \<or> c = CHR ''<'' \<or> c = CHR ''>'' \<or> c = CHR ''&'' then u_escape (byte c)
      else [c])"

definition line_sep :: string where "line_sep = [CHR 0xE2, CHR 0x80, CHR 0xA8]"
definition para_sep :: string where "para_sep = [CHR 0xE2, CHR 0x80, CHR 0xA9]"

definition escape_rune :: "string \<Rightarrow> string" where
  "escape_rune r =
     (if r = line_sep then u_escape 0x2028 else if r = para_sep then u_escape 0x2029 else r)"

function escape_from :: "string \<Rightarrow> string" where
  "escape_from [] = []"
| "escape_from (c # s) =
     (if byte c < 0x80 then escape_byte c @ escape_from s
      else let n = rune_length (c # s)
           in if n = 0 then u_escape 0xFFFD @ escape_from s
              else escape_rune (take n (c # s)) @ escape_from (drop n (c # s)))"
  by pat_completeness auto
termination by (relation "measure length") auto

definition json_string :: "string \<Rightarrow> string" where
  "json_string s = dquote # escape_from s @ [dquote]"

definition json_bool :: "bool \<Rightarrow> string" where
  "json_bool b = (if b then ''true'' else ''false'')"

section \<open>Reading strings\<close>

definition hex_value :: "char \<Rightarrow> nat option" where
  "hex_value c =
     (if is_digit c then Some (byte c - 48)
      else if 97 \<le> byte c \<and> byte c \<le> 102 then Some (byte c - 87)
      else if 65 \<le> byte c \<and> byte c \<le> 70 then Some (byte c - 55)
      else None)"

definition hex4 :: "string \<Rightarrow> nat option" where
  "hex4 s =
     (case s of
        a # b # c # d # _ \<Rightarrow>
          (case (hex_value a, hex_value b, hex_value c, hex_value d) of
             (Some w, Some x, Some y, Some z) \<Rightarrow> Some (4096 * w + 256 * x + 16 * y + z)
           | _ \<Rightarrow> None)
      | _ \<Rightarrow> None)"

definition utf8_encode :: "nat \<Rightarrow> string" where
  "utf8_encode n =
     (if n < 0x80 then [char_of n]
      else if n < 0x800 then [char_of (0xC0 + n div 64), char_of (0x80 + n mod 64)]
      else if n < 0x10000 then
        [char_of (0xE0 + n div 4096), char_of (0x80 + n div 64 mod 64), char_of (0x80 + n mod 64)]
      else [char_of (0xF0 + n div 262144), char_of (0x80 + n div 4096 mod 64),
            char_of (0x80 + n div 64 mod 64), char_of (0x80 + n mod 64)])"

definition surrogate :: "nat \<Rightarrow> bool" where
  "surrogate n = (0xD800 \<le> n \<and> n < 0xE000)"

text \<open>The second half of a surrogate pair: an escape right after the first one.\<close>

definition low_half :: "nat \<Rightarrow> string \<Rightarrow> nat option" where
  "low_half hi s =
     (case s of
        b # u # r \<Rightarrow>
          if b = backslash \<and> u = CHR ''u'' then
            (case hex4 r of
               None \<Rightarrow> None
             | Some lo \<Rightarrow>
                 if hi < 0xDC00 \<and> 0xDC00 \<le> lo \<and> lo < 0xE000
                 then Some (0x10000 + (hi - 0xD800) * 1024 + (lo - 0xDC00)) else None)
          else None
      | _ \<Rightarrow> None)"

definition simple_escape :: "char \<Rightarrow> char option" where
  "simple_escape e =
     map_of [(dquote, dquote), (backslash, backslash), (CHR ''/'', CHR ''/''),
       (CHR ''b'', CHR 0x08), (CHR ''f'', CHR 0x0C), (CHR ''n'', CHR 0x0A),
       (CHR ''r'', CHR 0x0D), (CHR ''t'', CHR 0x09)] e"

definition prepend :: "string \<Rightarrow> (string \<times> string) option \<Rightarrow> (string \<times> string) option" where
  "prepend w = map_option (\<lambda>(x, r). (w @ x, r))"

text \<open>The rest of a string literal after its opening quote: its value and what follows it.\<close>

function str_body :: "string \<Rightarrow> (string \<times> string) option" where
  "str_body [] = None"
| "str_body (c # s) =
     (if c = dquote then Some ([], s)
      else if c = backslash then
        (case s of
           [] \<Rightarrow> None
         | e # t \<Rightarrow>
             if e = CHR ''u'' then
               (case hex4 t of
                  None \<Rightarrow> None
                | Some n \<Rightarrow>
                    if surrogate n then
                      (case low_half n (drop 4 t) of
                         Some m \<Rightarrow> prepend (utf8_encode m) (str_body (drop 10 t))
                       | None \<Rightarrow> prepend replacement_rune (str_body (drop 4 t)))
                    else prepend (utf8_encode n) (str_body (drop 4 t)))
             else (case simple_escape e of
                     None \<Rightarrow> None
                   | Some d \<Rightarrow> prepend [d] (str_body t)))
      else if byte c < 0x20 then None
      else if byte c < 0x80 then prepend [c] (str_body s)
      else let n = rune_length (c # s)
           in if n = 0 then prepend replacement_rune (str_body s)
              else prepend (take n (c # s)) (str_body (drop n (c # s))))"
  by pat_completeness auto
termination by (relation "measure length") auto

section \<open>Reading documents\<close>

datatype jvalue =
    JNull
  | JTrue
  | JFalse
  | JNumber string
  | JString string
  | JArray "jvalue list"
  | JObject "(string \<times> jvalue) list"

definition json_space :: "char \<Rightarrow> bool" where
  "json_space c = (c \<in> {CHR '' '', CHR 0x09, CHR 0x0A, CHR 0x0D})"

abbreviation skip_ws :: "string \<Rightarrow> string" where
  "skip_ws \<equiv> dropWhile json_space"

definition digits1 :: "string \<Rightarrow> (string \<times> string) option" where
  "digits1 s = (if takeWhile is_digit s = [] then None else Some (takeWhile is_digit s, dropWhile is_digit s))"

definition int_part :: "string \<Rightarrow> (string \<times> string) option" where
  "int_part s =
     (case s of
        c # r \<Rightarrow> if c = CHR ''0'' then Some ([c], r) else digits1 s
      | [] \<Rightarrow> None)"

definition frac_part :: "string \<Rightarrow> (string \<times> string) option" where
  "frac_part s =
     (case s of
        c # r \<Rightarrow> if c = CHR ''.'' then prepend [c] (digits1 r) else Some ([], s)
      | [] \<Rightarrow> Some ([], []))"

definition exp_part :: "string \<Rightarrow> (string \<times> string) option" where
  "exp_part s =
     (case s of
        c # r \<Rightarrow>
          if c = CHR ''e'' \<or> c = CHR ''E'' then
            (case r of
               d # t \<Rightarrow> if d = CHR ''+'' \<or> d = CHR ''-'' then prepend [c, d] (digits1 t)
                        else prepend [c] (digits1 r)
             | [] \<Rightarrow> None)
          else Some ([], s)
      | [] \<Rightarrow> Some ([], []))"

definition number :: "string \<Rightarrow> (string \<times> string) option" where
  "number s =
     (let neg = (case s of c # _ \<Rightarrow> c = CHR ''-'' | [] \<Rightarrow> False)
      in Option.bind (int_part (if neg then tl s else s)) (\<lambda>(i, s1).
         Option.bind (frac_part s1) (\<lambda>(f, s2).
         map_option (\<lambda>(e, s3). ((if neg then ''-'' else []) @ i @ f @ e, s3)) (exp_part s2))))"

definition literal :: "string \<Rightarrow> jvalue \<Rightarrow> string \<Rightarrow> (jvalue \<times> string) option" where
  "literal w v s = (if has_prefix s w then Some (v, drop (length w) s) else None)"

definition scalar :: "string \<Rightarrow> (jvalue \<times> string) option" where
  "scalar s =
     (case s of
        [] \<Rightarrow> None
      | c # t \<Rightarrow>
          if c = dquote then map_option (\<lambda>(x, r). (JString x, r)) (str_body t)
          else if c = CHR ''t'' then literal ''true'' JTrue s
          else if c = CHR ''f'' then literal ''false'' JFalse s
          else if c = CHR ''n'' then literal ''null'' JNull s
          else map_option (\<lambda>(x, r). (JNumber x, r)) (number s))"

text \<open>
  A value, the rest of an array and the rest of an object. Every call that passes on the same text
  is followed by one on a shorter text, so twice the length is enough fuel.
\<close>

fun p_value :: "nat \<Rightarrow> string \<Rightarrow> (jvalue \<times> string) option"
  and p_elems :: "nat \<Rightarrow> string \<Rightarrow> (jvalue list \<times> string) option"
  and p_members :: "nat \<Rightarrow> string \<Rightarrow> ((string \<times> jvalue) list \<times> string) option"
where
  "p_value 0 s = None"
| "p_value (Suc k) s =
     (let s1 = skip_ws s in
      case s1 of
        [] \<Rightarrow> None
      | c # t \<Rightarrow>
          if c = CHR ''{'' then
            (if skip_ws t \<noteq> [] \<and> hd (skip_ws t) = CHR ''}'' then Some (JObject [], tl (skip_ws t))
             else map_option (\<lambda>(ms, r). (JObject ms, r)) (p_members k t))
          else if c = CHR ''['' then
            (if skip_ws t \<noteq> [] \<and> hd (skip_ws t) = CHR '']'' then Some (JArray [], tl (skip_ws t))
             else map_option (\<lambda>(es, r). (JArray es, r)) (p_elems k t))
          else scalar s1)"
| "p_elems 0 s = None"
| "p_elems (Suc k) s =
     (case p_value k s of
        None \<Rightarrow> None
      | Some (v, r) \<Rightarrow>
          (case skip_ws r of
             [] \<Rightarrow> None
           | c # t \<Rightarrow>
               if c = CHR '']'' then Some ([v], t)
               else if c = CHR '','' then map_option (\<lambda>(vs, r'). (v # vs, r')) (p_elems k t)
               else None))"
| "p_members 0 s = None"
| "p_members (Suc k) s =
     (let s1 = skip_ws s in
      if s1 = [] \<or> hd s1 \<noteq> dquote then None
      else case str_body (tl s1) of
        None \<Rightarrow> None
      | Some (key, r1) \<Rightarrow>
          if skip_ws r1 = [] \<or> hd (skip_ws r1) \<noteq> CHR '':'' then None
          else case p_value k (tl (skip_ws r1)) of
            None \<Rightarrow> None
          | Some (v, r) \<Rightarrow>
              (case skip_ws r of
                 [] \<Rightarrow> None
               | c # t \<Rightarrow>
                   if c = CHR ''}'' then Some ([(key, v)], t)
                   else if c = CHR '','' then map_option (\<lambda>(ms, r'). ((key, v) # ms, r')) (p_members k t)
                   else None))"

definition json_fuel :: "string \<Rightarrow> nat" where
  "json_fuel s = 2 * length s + 2"

text \<open>\<open>Unmarshal\<close>: one value with nothing but blanks around it.\<close>

definition json_parse :: "string \<Rightarrow> jvalue option" where
  "json_parse s =
     (case p_value (json_fuel s) s of
        None \<Rightarrow> None
      | Some (v, r) \<Rightarrow> if skip_ws r = [] then Some v else None)"

section \<open>The fuel is enough\<close>

lemma skip_ws_length: "length (skip_ws s) \<le> length s"
  by (simp add: length_dropWhile_le)

lemma prepend_Some: "prepend w p = Some (x, r) \<longleftrightarrow> (\<exists>y. p = Some (y, r) \<and> x = w @ y)"
  by (cases p) (auto simp: prepend_def)

lemma str_body_step:
  assumes "str_body (c # s) = Some (x, r)"
  shows "r = s \<or> (\<exists>t y. length t \<le> length s \<and> str_body t = Some (y, r))"
proof -
  have d: "length (drop n t) \<le> length t" for n and t :: string by simp
  have n: "rune_length (c # s) \<noteq> 0 \<Longrightarrow> length (drop (rune_length (c # s)) (c # s)) \<le> length s" by simp
  consider "c = dquote" | "c = backslash" | "c \<noteq> dquote" "c \<noteq> backslash" by blast
  then show ?thesis
  proof cases
    case 1
    with assms show ?thesis by simp
  next
    case 2
    have le: "length (drop k t) \<le> length s" if "s = e # t" for k e t using that by simp
    from 2 assms obtain e t where s: "s = e # t" by (auto simp: dquote_def backslash_def split: list.splits)
    have lt: "length t \<le> length s" using s by simp
    from 2 assms obtain u y where "str_body u = Some (y, r)" "u \<in> {t, drop 4 t, drop 10 t}"
      by (auto simp: s dquote_def backslash_def prepend_Some split: if_splits option.splits)
    with le [OF s] lt show ?thesis by blast
  next
    case 3
    with assms have "byte c < 0x80 \<and> (\<exists>y. str_body s = Some (y, r)) \<or> (\<exists>y. str_body s = Some (y, r))
        \<or> rune_length (c # s) \<noteq> 0 \<and> (\<exists>y. str_body (drop (rune_length (c # s)) (c # s)) = Some (y, r))"
      by (auto simp: prepend_Some Let_def split: if_splits)
    with n show ?thesis by blast
  qed
qed

lemma str_body_shorter: "str_body s = Some (x, r) \<Longrightarrow> length r < length s"
proof (induction s arbitrary: x r rule: length_induct)
  case (1 s)
  then obtain c t where s: "s = c # t" by (cases s) auto
  from str_body_step [of c t x r] 1(2) s consider "r = t"
    | u y where "length u \<le> length t" "str_body u = Some (y, r)" by blast
  then show ?case
  proof cases
    case 2
    with 1(1) s have "length r < length u" by (auto simp: le_imp_less_Suc)
    with 2 s show ?thesis by simp
  qed (simp add: s)
qed

lemma literal_shorter: "literal w v s = Some (x, r) \<Longrightarrow> w \<noteq> [] \<Longrightarrow> length r < length s"
  by (auto simp: literal_def has_prefix_iff prefix_def split: if_splits)

lemma digits1_shorter: "digits1 s = Some (x, r) \<Longrightarrow> length r < length s"
proof -
  assume "digits1 s = Some (x, r)"
  then have "takeWhile is_digit s \<noteq> []" "r = dropWhile is_digit s" by (auto simp: digits1_def split: if_splits)
  moreover have "length (takeWhile is_digit s) + length (dropWhile is_digit s) = length s"
    by (metis length_append takeWhile_dropWhile_id)
  ultimately show ?thesis by (cases "takeWhile is_digit s") auto
qed

lemma number_parts_shorter:
  "int_part s = Some (x, r) \<Longrightarrow> length r < length s"
  "frac_part s = Some (x, r) \<Longrightarrow> length r \<le> length s"
  "exp_part s = Some (x, r) \<Longrightarrow> length r \<le> length s"
  by (fastforce simp: int_part_def frac_part_def exp_part_def prepend_Some
      split: list.splits if_splits dest: digits1_shorter)+

lemma number_shorter: "number s = Some (x, r) \<Longrightarrow> length r < length s"
  by (fastforce simp: number_def Let_def Option.bind_eq_Some_conv split: list.splits if_splits
      dest: number_parts_shorter)

lemma scalar_shorter: "scalar s = Some (v, r) \<Longrightarrow> length r < length s"
  by (auto simp: scalar_def split: list.splits if_splits
      dest!: literal_shorter number_shorter str_body_shorter)

text \<open>What the three parsers leave is shorter than what they were given.\<close>

lemma skip_ws_tl: "skip_ws s \<noteq> [] \<Longrightarrow> length (tl (skip_ws s)) < length s"
  using skip_ws_length [of s] by (cases "skip_ws s") auto

lemma skip_ws_Cons: "skip_ws s = c # t \<Longrightarrow> length t < length s"
  using skip_ws_length [of s] by simp

lemma parsers_shorten:
  "p_value k s = Some (v, r) \<Longrightarrow> length r < length s"
  "p_elems k s = Some (vs, r) \<Longrightarrow> length r < length s"
  "p_members k s = Some (ms, r) \<Longrightarrow> length r < length s"
proof (induction k s and k s and k s arbitrary: v r and vs r and ms r
    rule: p_value_p_elems_p_members.induct)
  case (2 k s)
  obtain c t where s: "skip_ws s = c # t" using 2(3) by (cases "skip_ws s") auto
  have "length r < Suc (length t)"
    using 2(3) 2(1,2) [OF refl s] skip_ws_tl [of t] scalar_shorter [of "c # t" v r]
    by (fastforce simp: s Let_def split: if_splits)
  with skip_ws_Cons [OF s] show ?case by simp
next
  case (4 k s)
  from 4(3) obtain v0 r0 where v: "p_value k s = Some (v0, r0)" by (auto split: option.splits)
  from 4(3) v obtain c t where t: "skip_ws r0 = c # t" by (auto split: list.splits)
  from 4(1) [OF v] skip_ws_Cons [OF t] have "length t < length s" by simp
  moreover have "length r \<le> length t"
    using 4(3) v t 4(2) [OF v refl t] by (fastforce split: if_splits dest: less_imp_le)
  ultimately show ?case by simp
next
  case (6 k s)
  from 6(3) obtain s1 where s1: "skip_ws s = dquote # s1"
    by (cases "skip_ws s") (auto simp del: dropWhile_eq_Nil_conv simp: Let_def split: if_splits)
  from 6(3) obtain key r1 where key: "str_body s1 = Some (key, r1)"
    by (auto simp: s1 split: option.splits)
  from 6(3) obtain s2 where s2: "skip_ws r1 = CHR '':'' # s2"
    by (cases "skip_ws r1") (auto simp del: dropWhile_eq_Nil_conv simp: s1 key split: if_splits)
  from 6(3) obtain v0 r0 where v: "p_value k s2 = Some (v0, r0)"
    by (auto simp: s1 s2 key split: option.splits)
  from 6(3) obtain c t where t: "skip_ws r0 = c # t"
    by (cases "skip_ws r0") (auto simp del: dropWhile_eq_Nil_conv simp: s1 s2 key v)
  have "length r0 < length s2"
    using 6(1) [OF refl _ _ refl _ ] key v s1 s2 by (simp del: dropWhile_eq_Nil_conv)
  with str_body_shorter [OF key] skip_ws_Cons [OF s1] skip_ws_Cons [OF s2] skip_ws_Cons [OF t]
  have lt: "length t < length s" by simp
  have "length r \<le> length t"
    using 6(3) 6(2) [OF refl _ _ refl _ _ refl t] key v t s1 s2
    by (fastforce simp: s1 s2 key v t simp del: dropWhile_eq_Nil_conv split: if_splits dest: less_imp_le)
  with lt show ?case by simp
qed auto

text \<open>More fuel than twice the length changes nothing: \<^const>\<open>json_parse\<close> is the parser without a bound.\<close>

lemma p_members_step:
  assumes "skip_ws s = dquote # s1" "str_body s1 = Some (key, r1)" "skip_ws r1 = CHR '':'' # s2"
  shows "p_members (Suc k) s =
     (case p_value k s2 of
        None \<Rightarrow> None
      | Some (v, r) \<Rightarrow>
          (case skip_ws r of
             [] \<Rightarrow> None
           | c # t \<Rightarrow>
               if c = CHR ''}'' then Some ([(key, v)], t)
               else if c = CHR '','' then map_option (\<lambda>(ms, r'). ((key, v) # ms, r')) (p_members k t)
               else None))"
  using assms by (simp del: dropWhile_eq_Nil_conv)

lemma p_members_none:
  assumes "\<nexists>s1 key r1 s2. skip_ws s = dquote # s1 \<and> str_body s1 = Some (key, r1) \<and> skip_ws r1 = CHR '':'' # s2"
  shows "p_members (Suc k) s = None"
proof (cases "skip_ws s")
  case (Cons c s1)
  show ?thesis
  proof (cases "c = dquote")
    case True
    show ?thesis
    proof (cases "str_body s1")
      case (Some p)
      obtain key r1 where p: "p = (key, r1)" by fastforce
      with Some Cons True assms show ?thesis
        by (cases "skip_ws r1") (auto simp del: dropWhile_eq_Nil_conv)
    qed (simp add: Cons True)
  qed (simp add: Cons)
qed (simp del: dropWhile_eq_Nil_conv)

lemma parsers_fuel:
  "2 * length s + 1 \<le> k \<Longrightarrow> p_value (Suc k) s = p_value k s"
  "2 * length s + 2 \<le> k \<Longrightarrow> p_elems (Suc k) s = p_elems k s"
  "2 * length s + 2 \<le> k \<Longrightarrow> p_members (Suc k) s = p_members k s"
proof (induction k s and k s and k s rule: p_value_p_elems_p_members.induct)
  case (2 k s)
  show ?case
  proof (cases "skip_ws s")
    case (Cons c t)
    with 2(3) have "2 * length t + 2 \<le> k" using skip_ws_Cons [OF Cons] by simp
    with 2(1,2) [OF refl Cons] show ?thesis by (simp add: Let_def Cons del: p_members.simps p_elems.simps)
  qed (simp del: dropWhile_eq_Nil_conv)
next
  case (4 k s)
  have v: "p_value (Suc k) s = p_value k s" using 4(1,3) by simp
  show ?case
  proof (cases "p_value k s")
    case (Some x)
    obtain v0 r0 where x: "x = (v0, r0)" by fastforce
    show ?thesis
    proof (cases "skip_ws r0")
      case (Cons c t)
      with 4(3) Some x have "2 * length t + 2 \<le> k"
        using skip_ws_Cons [OF Cons] parsers_shorten(1) [of k s v0 r0] by simp
      with 4(2) [OF Some x [symmetric] Cons] Cons Some x v show ?thesis
        by (simp del: p_value.simps p_elems.simps add: p_elems.simps(2) [of "Suc k"] p_elems.simps(2) [of k])
    qed (use Some x v in \<open>simp del: p_value.simps dropWhile_eq_Nil_conv\<close>)
  qed (use v in \<open>simp del: p_value.simps\<close>)
next
  case (6 k s)
  show ?case
  proof (cases "\<exists>s1 key r1 s2. skip_ws s = dquote # s1 \<and> str_body s1 = Some (key, r1) \<and> skip_ws r1 = CHR '':'' # s2")
    case True
    then obtain s1 key r1 s2 where s: "skip_ws s = dquote # s1" "str_body s1 = Some (key, r1)"
      "skip_ws r1 = CHR '':'' # s2" by blast
    have short: "length s2 < length s"
      using skip_ws_Cons [OF s(1)] str_body_shorter [OF s(2)] skip_ws_Cons [OF s(3)] by simp
    then have v: "p_value (Suc k) s2 = p_value k s2"
      using 6(1) [OF refl _ _ refl] 6(3) s by (simp del: dropWhile_eq_Nil_conv p_value.simps)
    show ?thesis
    proof (cases "p_value k s2")
      case (Some x)
      obtain v0 r0 where x: "x = (v0, r0)" by fastforce
      show ?thesis
      proof (cases "skip_ws r0")
        case (Cons c t)
        with 6(3) Some x short have "2 * length t + 2 \<le> k"
          using skip_ws_Cons [OF Cons] parsers_shorten(1) [of k s2 v0 r0] by simp
        then have "c = CHR '','' \<Longrightarrow> p_members (Suc k) t = p_members k t"
          using 6(2) [OF refl _ _ refl _ _ refl Cons] s Some x
          by (simp del: dropWhile_eq_Nil_conv p_value.simps p_members.simps)
        with Cons Some x v show ?thesis
          by (simp del: p_value.simps p_members.simps add: p_members_step [OF s])
      qed (use Some x v in \<open>simp del: p_value.simps p_members.simps dropWhile_eq_Nil_conv add: p_members_step [OF s]\<close>)
    qed (use v in \<open>simp del: p_value.simps p_members.simps add: p_members_step [OF s]\<close>)
  next
    case False
    from p_members_none [OF this, of k] p_members_none [OF this, of "Suc k"] show ?thesis by (rule trans [OF _ sym, rotated])
  qed
qed auto

lemma json_parse_fuel:
  assumes "json_fuel s \<le> k"
  shows "p_value k s = p_value (json_fuel s) s"
  using assms
proof (induction k rule: dec_induct)
  case (step n)
  then show ?case using parsers_fuel(1) [of s n] by (simp add: json_fuel_def del: p_value.simps)
qed simp

section \<open>A written string reads back\<close>

lemma byte_less: "byte c < 256"
  by (cases c) (simp add: byte_def)

lemma char_of_byte [simp]: "char_of (byte c) = c"
  by (simp add: byte_def)

lemma byte_char_of: "n < 256 \<Longrightarrow> byte (char_of n) = n"
  by (simp add: byte_def)

lemma hex_value_char: "d < 16 \<Longrightarrow> hex_value (hex_char d) = Some d"
  by (cases "d < 10")
     (auto simp: hex_value_def hex_char_def is_digit_def digit_char_def byte_char_of simp flip: byte_def)

lemma base16_digits:
  "16 * c + x = b \<Longrightarrow> 16 * b + y = a \<Longrightarrow> 16 * a + z = n \<Longrightarrow>
     4096 * c + 256 * x + 16 * y + z = (n :: nat)"
  by simp

lemma base16: "4096 * (n div 4096) + 256 * (n div 256 mod 16) + 16 * (n div 16 mod 16) + n mod 16 = (n :: nat)"
proof -
  have "n div 256 = n div 16 div 16" "n div 4096 = n div 16 div 16 div 16"
    using div_mult2_eq [of n 16 16] div_mult2_eq [of n 256 16] by simp_all
  then show ?thesis
    using base16_digits [OF mult_div_mod_eq [of 16 "n div 16 div 16"] mult_div_mod_eq [of 16 "n div 16"]
      mult_div_mod_eq [of 16 n]] by simp
qed

lemma hex4_u_escape: "n < 0x10000 \<Longrightarrow> hex4 (drop 2 (u_escape n) @ r) = Some n"
proof -
  assume "n < 0x10000"
  then have "n div 4096 mod 16 = n div 4096" "n div 4096 < 16" by simp_all
  then show ?thesis using base16 [of n] by (simp add: hex4_def u_escape_def hex_value_char)
qed

lemma read_u_escape:
  assumes "n < 0x10000" "\<not> surrogate n"
  shows "str_body (u_escape n @ r) = prepend (utf8_encode n) (str_body r)"
  using hex4_u_escape [OF assms(1), of r] assms(2)
  by (simp add: u_escape_def dquote_def backslash_def)

lemma read_escape_byte:
  assumes "byte c < 0x80"
  shows "str_body (escape_byte c @ r) = prepend [c] (str_body r)"
proof -
  have u: "str_body (u_escape (byte c) @ r) = prepend [c] (str_body r)"
    using read_u_escape [of "byte c" r] assms by (simp add: surrogate_def utf8_encode_def)
  have plain: "str_body (c # r) = prepend [c] (str_body r)"
    if "c \<noteq> dquote" "c \<noteq> backslash" "\<not> byte c < 0x20" using that assms by simp
  have esc: "str_body (backslash # e # r) = prepend [c] (str_body r)"
    if "simple_escape e = Some c" "e \<noteq> CHR ''u''" for e
    using that by (simp add: backslash_def dquote_def)
  have se: "simple_escape dquote = Some dquote" "simple_escape backslash = Some backslash"
    "simple_escape CHR ''b'' = Some (CHR 0x08)" "simple_escape CHR ''f'' = Some (CHR 0x0C)"
    "simple_escape CHR ''n'' = Some (CHR 0x0A)" "simple_escape CHR ''r'' = Some (CHR 0x0D)"
    "simple_escape CHR ''t'' = Some (CHR 0x09)"
    by (simp_all add: simple_escape_def dquote_def backslash_def)
  have nu: "dquote \<noteq> CHR ''u''" "backslash \<noteq> CHR ''u''" by (simp_all add: dquote_def backslash_def)
  show ?thesis
    unfolding escape_byte_def
    using u plain esc se nu by (auto simp del: str_body.simps split: if_split)
qed

lemma rune_length_bound: "rune_length s \<le> length s"
  by (cases s; cases "tl s") (auto simp: rune_length_def)

lemma special_runes:
  "utf8_encode 0xFFFD = replacement_rune" "utf8_encode 0x2028 = line_sep" "utf8_encode 0x2029 = para_sep"
  by (simp_all add: utf8_encode_def replacement_rune_def line_sep_def para_sep_def char_of_def bit_iff_odd)

lemma rune_length_take:
  assumes "rune_length s = n" "n \<noteq> 0"
  shows "rune_length (take n s @ r) = n"
proof (cases s)
  case (Cons c t)
  have l: "n \<le> length s" using rune_length_bound [of s] assms by simp
  consider "n = 1" | "n = 2" | "n = 3" | "n = 4"
    using assms Cons by (auto simp: rune_length_def split: if_splits)
  then show ?thesis
  proof cases
    case 1
    have "\<not> byte c < 0x80 \<Longrightarrow> rune_length (c # t) \<noteq> 1" by (simp add: rune_length_def)
    with 1 assms Cons have "byte c < 0x80" by blast
    with 1 Cons show ?thesis by (simp add: rune_length_def)
  next
    case 2
    with l Cons obtain x u where "s = c # x # u" by (cases t) auto
    with 2 assms show ?thesis by (simp add: rune_length_def split: if_splits)
  next
    case 3
    with l Cons obtain x y u where "s = c # x # y # u" by (cases t; cases "tl t") auto
    with 3 assms show ?thesis by (simp add: rune_length_def split: if_splits)
  next
    case 4
    with l Cons obtain x y z u where "s = c # x # y # z # u"
      by (cases t; cases "tl t"; cases "tl (tl t)") auto
    with 4 assms show ?thesis by (simp add: rune_length_def split: if_splits)
  qed
qed (use assms in \<open>simp add: rune_length_def\<close>)

lemma read_rune:
  assumes "rune_length s = n" "n \<noteq> 0" "\<not> byte (hd s) < 0x80"
  shows "str_body (take n s @ r) = prepend (take n s) (str_body r)"
proof -
  from assms obtain c t where s: "s = c # t" by (cases s) (auto simp: rune_length_def)
  have n: "length (take n s) = n" using rune_length_bound [of s] assms(1) by simp
  then obtain u where u: "take n s = c # u" using s assms(2) by (cases n) auto
  have "byte dquote < 0x80" "byte backslash < 0x80" by (simp_all add: byte_def dquote_def backslash_def)
  then have c: "c \<noteq> dquote" "c \<noteq> backslash" "\<not> byte c < 0x20" "\<not> byte c < 0x80"
    using assms(3) s by auto
  have l: "rune_length (c # u @ r) = n" using rune_length_take [OF assms(1,2), of r] u by simp
  have "str_body (c # u @ r) = prepend (take n (c # u @ r)) (str_body (drop n (c # u @ r)))"
    using c l assms(2) by (simp add: Let_def)
  moreover have "take n (c # u @ r) = take n s" "drop n (c # u @ r) = r"
    using n u by (metis append_Cons append_eq_conv_conj)+
  ultimately show ?thesis using u by simp
qed

lemma read_escaped: "str_body (escape_from s @ dquote # r) = Some (concat (runes s), r)"
proof (induction s rule: escape_from.induct)
  case 1
  show ?case by simp
next
  case (2 c s)
  show ?case
  proof (cases "byte c < 0x80")
    case True
    then have "rune_length (c # s) = 1" by (simp add: rune_length_def)
    with True 2(1) show ?thesis by (simp add: read_escape_byte prepend_def del: str_body.simps)
  next
    case ge: False
    define n where "n = rune_length (c # s)"
    show ?thesis
    proof (cases "n = 0")
      case True
      have "str_body (u_escape 0xFFFD @ escape_from s @ dquote # r)
          = prepend replacement_rune (str_body (escape_from s @ dquote # r))"
        by (subst read_u_escape) (simp_all add: surrogate_def special_runes)
      with True ge 2(2) n_def show ?thesis by (simp add: prepend_def Let_def del: str_body.simps)
    next
      case False
      have "str_body (escape_rune (take n (c # s)) @ escape_from (drop n (c # s)) @ dquote # r)
          = prepend (take n (c # s)) (str_body (escape_from (drop n (c # s)) @ dquote # r))"
      proof -
        have "str_body (u_escape 0x2028 @ q) = prepend line_sep (str_body q)"
          "str_body (u_escape 0x2029 @ q) = prepend para_sep (str_body q)" for q
          by (subst read_u_escape; simp add: surrogate_def special_runes)+
        with read_rune [OF n_def [symmetric] False] ge show ?thesis
          by (simp add: escape_rune_def)
      qed
      with False ge 2(3) [OF ge n_def] n_def show ?thesis
        by (simp add: prepend_def Let_def del: str_body.simps)
    qed
  qed
qed

end
