(* ===== verification/Agent_Tools.thy ===== *)
theory Agent_Tools
  imports Tool_Error Permissions Tool_Constraints
begin

text \<open>
  One tool call of the agent loop (\<open>internal/brain/loop/agent.go\<close>): the permission walk with the
  user's answer, execution, the offload of a long result to its digest
  (\<open>internal/brain/tools/digest.go\<close>), and what is recorded, shown and returned. The environment of
  a call (\<open>call_env\<close>) answers what the code asks of others: the permission chain before and under
  the gate, the prompt, the tool, the output store. Media references and durations are not
  modelled; a store that fails to record only logs.
\<close>

section \<open>Events of a turn\<close>

record Usage =
  usInput :: int
  usOutput :: int
  usCacheRead :: int
  usCacheWrite :: int
  usCacheWrite1h :: int
  usReasoning :: int

record Meta =
  mtProvider :: string
  mtModel :: string
  mtState :: string

record StreamError =
  seCode :: string
  seMessage :: string
  seRetryable :: bool

record ToolResultEvent =
  teID :: string
  teName :: string
  teStatus :: string
  teDigest :: string
  teArgs :: string
  teContent :: string

datatype StreamEvent =
    EvChunk string
  | EvReasoning string
  | EvToolStart "ToolCall option"
  | EvToolEnd "ToolCall option"
  | EvUsage "Usage option"
  | EvRetry nat int string
  | EvFailover
  | EvIncomplete string
  | EvDone "Meta option"
  | EvError "StreamError option"
  | EvToolResult ToolResultEvent
  | EvPermissionRequest string ToolCall DangerLevel string
  | EvPermissionResolved string string

record ToolResult =
  trID :: string
  trContent :: string
  trIsError :: bool

text \<open>What a call does to the world, in order.\<close>

datatype tool_effect =
    Granted string string
  | Executed ToolCall
  | SessionEvent string string string string string bool
  | Audited string string string

section \<open>The digest of an offloaded result\<close>

definition DefaultOffloadThreshold :: int where "DefaultOffloadThreshold = 8192"
definition retrieveInlineCap :: int where "retrieveInlineCap = 32768"
definition digestCeiling :: nat where "digestCeiling = 4000"
definition digestHeadLines :: nat where "digestHeadLines = 30"
definition digestTailLines :: nat where "digestTailLines = 10"
definition digestErrorLines :: nat where "digestErrorLines = 5"
definition digestLineCap :: nat where "digestLineCap = 200"

definition newline :: string where "newline = [CHR 0x0A]"
definition em_dash :: string where "em_dash = CHR 0x20 # [CHR 0xE2, CHR 0x80, CHR 0x94] @ [CHR 0x20]"
definition ellipsis :: string where "ellipsis = [CHR 0xE2, CHR 0x80, CHR 0xA6]"

definition errorLineRe :: rx where
  "errorLineRe = seqs [Wbd,
     alts (map liti [''error'', ''fail'', ''failed'', ''failure'', ''panic'', ''fatal'', ''exception'', ''denied'']),
     Wbd]"

definition capLine :: "string \<Rightarrow> string" where
  "capLine l = (if length (runes l) \<le> digestLineCap then l else concat (take digestLineCap (runes l)) @ ellipsis)"

definition error_lines :: "string list \<Rightarrow> string list" where
  "error_lines ls =
     take digestErrorLines
       (map (\<lambda>(i, l). ''line '' @ nat_dec (i + 1) @ '': '' @ capLine l)
         (filter (\<lambda>(i, l). \<not> (i < digestHeadLines \<or> int (length ls) - int digestTailLines \<le> int i)
             \<and> MatchString errorLineRe l)
           (enumerate 0 ls)))"

definition Digest :: "string \<Rightarrow> string \<Rightarrow> string \<Rightarrow> string" where
  "Digest content tool ref =
     (let ls = split_on (\<lambda>c. c = CHR 0x0A) content;
          long = digestHeadLines + digestTailLines < length ls;
          head = (if long then take digestHeadLines ls else ls);
          shown = (\<lambda>xs. concat (map (\<lambda>l. capLine l @ newline) xs));
          errs = error_lines ls
      in ''['' @ tool @ '' output offloaded: '' @ nat_dec (length content) @ '' bytes, '' @ nat_dec (length ls) @
         '' lines. To see the full content, call the retrieve_output TOOL (not a shell command) with argument ref='' @
         Quote ref @ ''.]'' @ newline
         @ newline @ ''--- first lines ---'' @ newline @ shown head
         @ (if long
            then newline @ ''--- ... '' @ nat_dec (length ls - digestHeadLines - digestTailLines) @
                 '' lines omitted ... ---'' @ newline @ ''--- last lines ---'' @ newline @
                 shown (drop (length ls - digestTailLines) ls)
            else [])
         @ (if errs = [] then []
            else newline @ ''--- error-looking lines ---'' @ newline @ str_join newline errs @ newline))"

text \<open>The size at which a tool's results go to the output store: the agent's, or the tool's own.\<close>

record offload_config =
  ofAt :: int
  ofPerTool :: "string \<Rightarrow> int option"

definition offloadIfBig ::
    "offload_config \<Rightarrow> string option \<Rightarrow> string \<Rightarrow> string \<Rightarrow> string option" where
  "offloadIfBig cfg put tool content =
     (let threshold = (case ofPerTool cfg tool of Some t \<Rightarrow> t | None \<Rightarrow> ofAt cfg) in
      if int (length content) \<le> threshold then Some content
      else if tool = ''retrieve_output'' then
        (if int (length content) \<le> retrieveInlineCap then Some content
         else Some (take (nat retrieveInlineCap) content @ newline @ ''[truncated at '' @
           int_dec retrieveInlineCap @ '' bytes: the stored output is '' @ nat_dec (length content) @ '' bytes]''))
      else map_option (Digest content tool) put)"

definition firstLine :: "string \<Rightarrow> string" where
  "firstLine s = takeWhile (\<lambda>c. c \<noteq> CHR 0x0A) s"

section \<open>Permission and execution\<close>

definition DecideOnce :: string where "DecideOnce = ''once''"
definition DecideSession :: string where "DecideSession = ''session''"
definition DecideTimeout :: string where "DecideTimeout = ''timeout''"

record tool_failure =
  tfText :: string
  tfOut :: string
  tfCanceled :: bool
  tfViolation :: bool
  tfTimeout :: bool
  tfNet :: "bool option"

datatype ran = RanOk string | RanFailed tool_failure | RanPanic string

text \<open>
  \<open>ceResolve\<close> is the permission chain, before the gate and again under it; \<open>ceAsk\<close> is the prompt's
  id and the answer, \<^const>\<open>None\<close> when the broker could not record it.
\<close>

record call_env =
  ceResolve :: "bool \<Rightarrow> string \<Rightarrow> string \<Rightarrow> string + Resolution"
  ceGate :: bool
  ceAsk :: "(string \<times> string) option"
  ceRun :: "string \<Rightarrow> string \<Rightarrow> ran"
  cePut :: "string option"
  ceRationale :: "rationale \<Rightarrow> string"

definition classifyToolError :: "tool_failure \<Rightarrow> string" where
  "classifyToolError f =
     (if tfTimeout f then codeTimeout
      else case tfNet f of
        Some timeout \<Rightarrow> if timeout then codeTimeout else codeNetwork
      | None \<Rightarrow> codeToolError)"

datatype tool_outcome = Finished string string string | Panicked string

definition run_tool :: "call_env \<Rightarrow> ToolCall \<Rightarrow> tool_outcome" where
  "run_tool ce call =
     (case ceRun ce (tcName call) (tcInput call) of
        RanOk out \<Rightarrow> Finished out ''ok'' []
      | RanPanic p \<Rightarrow> Panicked p
      | RanFailed f \<Rightarrow>
          if tfCanceled f then Finished ''turn stopped before this call finished'' ''canceled'' codeCanceled
          else if tfViolation f then Finished (tfText f) ''error'' codePolicyDenied
          else if alreadyStructured (tfText f) then Finished (tfText f) ''error'' []
          else if tfOut f \<noteq> [] then Finished (tfText f @ newline @ tfOut f) ''error'' (classifyToolError f)
          else Finished (''tool failed: '' @ tfText f) ''error'' (classifyToolError f))"

type_synonym call_run = "tool_outcome \<times> StreamEvent list \<times> tool_effect list"

definition refuse :: "string \<Rightarrow> string \<Rightarrow> string \<Rightarrow> call_run" where
  "refuse content status code = (Finished content status code, [], [])"

definition executes :: "call_env \<Rightarrow> ToolCall \<Rightarrow> StreamEvent list \<Rightarrow> tool_effect list \<Rightarrow> call_run" where
  "executes ce call evs fx = (run_tool ce call, evs, fx @ [Executed call])"

definition denied_by :: "call_env \<Rightarrow> Resolution \<Rightarrow> call_run" where
  "denied_by ce res =
     refuse (''denied: '' @ ceRationale ce (rsRationale res) @ ''. This is a hard policy; do not retry the same call.'')
       ''denied'' codePolicyDenied"

definition user_denied :: call_run where
  "user_denied =
     refuse ''the user denied permission for this call. Adapt your approach or ask the user what they want.''
       ''denied'' codeUserDenied"

definition check_failed :: "string \<Rightarrow> call_run" where
  "check_failed e = refuse (''permission check failed: '' @ e) ''error'' codeGatewayUnavailable"

text \<open>\<open>askUser\<close>: the decision and the events around it.\<close>

definition askUser :: "call_env \<Rightarrow> ToolCall \<Rightarrow> Resolution \<Rightarrow> string \<times> StreamEvent list" where
  "askUser ce call res =
     (case ceAsk ce of
        None \<Rightarrow> (DecideTimeout, [])
      | Some (pid, d) \<Rightarrow>
          (d, [EvPermissionRequest pid call (rsDanger res) (ceRationale ce (rsRationale res)),
               EvPermissionResolved pid d]))"

definition with_events :: "StreamEvent list \<Rightarrow> call_run \<Rightarrow> call_run" where
  "with_events evs r = (fst r, evs @ fst (snd r), snd (snd r))"

definition ask_and_run :: "call_env \<Rightarrow> ToolCall \<Rightarrow> Resolution \<Rightarrow> call_run" where
  "ask_and_run ce call res =
     (let (d, evs) = askUser ce call res in
      if d = DecideSession then executes ce call evs [Granted (tcName call) (rsSubject res)]
      else if d = DecideOnce then executes ce call evs []
      else if d = DecideTimeout then
        with_events evs (refuse (''no decision arrived within the time allowed; the call was not run. This is not a denial'' @ em_dash @ ''nobody answered. Retry later or ask the user directly.'')
          ''denied'' codeTimeout)
      else with_events evs user_denied)"

definition under_gate :: "call_env \<Rightarrow> ToolCall \<Rightarrow> call_run" where
  "under_gate ce call =
     (case ceResolve ce True (tcName call) (tcInput call) of
        Inl e \<Rightarrow> check_failed e
      | Inr res \<Rightarrow>
          (case rsDecision res of
             DecisionAllow \<Rightarrow> executes ce call [] []
           | DecisionDeny \<Rightarrow> denied_by ce res
           | DecisionAsk \<Rightarrow> ask_and_run ce call res))"

definition resolveAndRun :: "call_env \<Rightarrow> string set \<Rightarrow> bool \<Rightarrow> ToolCall \<Rightarrow> call_run" where
  "resolveAndRun ce toolNames unattended call =
     (if tcName call \<notin> toolNames then
        refuse (''unknown tool '' @ Quote (tcName call) @ em_dash @ ''use one of the tools you were given'') ''error'' codeUnknownTool
      else case ceResolve ce False (tcName call) (tcInput call) of
        Inl e \<Rightarrow> check_failed e
      | Inr res \<Rightarrow>
          (case rsDecision res of
             DecisionAllow \<Rightarrow> executes ce call [] []
           | DecisionDeny \<Rightarrow> denied_by ce res
           | DecisionAsk \<Rightarrow>
               if unattended then
                 refuse (''permission denied automatically (unattended mission): '' @ ceRationale ce (rsRationale res) @
                   ''. No human is available to approve. Rewrite the call to avoid the flagged pattern'' @ em_dash @ ''create files with write_file instead of shell redirects, avoid command substitution'' @ em_dash @ ''or use only tools the agent's allowlist grants.'')
                   ''denied'' codePolicyDenied
               else if \<not> ceGate ce then user_denied
               else under_gate ce call))"

text \<open>The surface of a turn: the shared tools and the turn's own in front of them, newest first.\<close>

record Surface =
  sfBase :: Constrained
  sfExtra :: "(string \<times> Tool) list"

definition surface_trusted :: "Surface \<Rightarrow> string \<Rightarrow> bool" where
  "surface_trusted sf name =
     (case map_of (sfExtra sf) name of Some t \<Rightarrow> tTrusted t | None \<Rightarrow> Trusted (sfBase sf) name)"

definition surface_taints :: "Surface \<Rightarrow> string \<Rightarrow> bool" where
  "surface_taints sf name =
     (case map_of (sfExtra sf) name of
        Some t \<Rightarrow> \<not> tTrusted t \<or> tTaintsTurn t
      | None \<Rightarrow> Taints (sfBase sf) name)"

definition withExtraTools :: "Surface \<Rightarrow> (string \<times> Tool) list \<Rightarrow> Surface" where
  "withExtraTools sf extra = sf\<lparr>sfExtra := rev extra @ sfExtra sf\<rparr>"

definition executeOne ::
    "offload_config \<Rightarrow> Surface \<Rightarrow> string set \<Rightarrow> bool \<Rightarrow> int \<Rightarrow> call_env \<Rightarrow> ToolCall
      \<Rightarrow> ToolResult \<times> StreamEvent list \<times> tool_effect list" where
  "executeOne cfg sf toolNames unattended resultCap ce call =
     (let (out, evs, fx) = resolveAndRun ce toolNames unattended call;
          (content0, status, code) =
            (case out of
               Finished c s k \<Rightarrow> (c, s, k)
             | Panicked p \<Rightarrow> (''tool '' @ tcName call @ '' failed with an internal error: '' @ p, ''error'', codeToolError));
          isError = (status \<noteq> ''ok'');
          content = (if status = ''ok''
                     then (case offloadIfBig cfg (cePut ce) (tcName call) content0 of Some c \<Rightarrow> c | None \<Rightarrow> content0)
                     else content0);
          untrusted = (content \<noteq> [] \<and> surface_taints sf (tcName call));
          hidden = (tcName call = ''load_skill'' \<and> \<not> isError);
          digest = (if hidden then ''skill loaded''
                    else if digestCeiling < length content then take digestCeiling content @ ellipsis
                    else content);
          trace = (if hidden then [] else content);
          fx' = fx @ [SessionEvent (tcID call) (tcName call) (tcInput call) digest status untrusted,
                      Audited (tcName call) status (if isError then firstLine content else [])];
          evs' = evs @ [EvToolResult \<lparr>teID = tcID call, teName = tcName call, teStatus = status,
                          teDigest = digest, teArgs = tcInput call, teContent = trace\<rparr>];
          shown = (if isError \<and> \<not> alreadyStructured content then wrapToolError code content resultCap else content)
      in (\<lparr>trID = tcID call, trContent = shown, trIsError = isError\<rparr>, evs', fx'))"

section \<open>What a run of a call guarantees\<close>

lemmas run_defs = refuse_def executes_def denied_by_def user_denied_def check_failed_def with_events_def

text \<open>The permission that must be settled before a tool runs.\<close>

definition settled :: "call_env \<Rightarrow> bool \<Rightarrow> ToolCall \<Rightarrow> bool" where
  "settled ce unattended call =
     (case ceResolve ce False (tcName call) (tcInput call) of
        Inl _ \<Rightarrow> False
      | Inr res \<Rightarrow>
          rsDecision res = DecisionAllow \<or>
          rsDecision res = DecisionAsk \<and> \<not> unattended \<and> ceGate ce \<and>
          (case ceResolve ce True (tcName call) (tcInput call) of
             Inl _ \<Rightarrow> False
           | Inr res' \<Rightarrow>
               rsDecision res' = DecisionAllow \<or>
               rsDecision res' = DecisionAsk \<and>
               (\<exists>pid. ceAsk ce = Some (pid, DecideOnce) \<or> ceAsk ce = Some (pid, DecideSession))))"

definition terminal_event :: "StreamEvent \<Rightarrow> bool" where
  "terminal_event ev = (case ev of EvDone _ \<Rightarrow> True | EvError _ \<Rightarrow> True | EvIncomplete _ \<Rightarrow> True | _ \<Rightarrow> False)"

lemma terminal_event_simps [simp]:
  "\<not> terminal_event (EvChunk t)" "\<not> terminal_event (EvReasoning t)" "\<not> terminal_event (EvToolStart c)"
  "\<not> terminal_event (EvToolEnd c)" "\<not> terminal_event (EvUsage u)" "\<not> terminal_event (EvRetry n b w)"
  "\<not> terminal_event EvFailover" "\<not> terminal_event (EvToolResult r)"
  "\<not> terminal_event (EvPermissionRequest i k d t)" "\<not> terminal_event (EvPermissionResolved i t)"
  "terminal_event (EvDone m)" "terminal_event (EvError e)" "terminal_event (EvIncomplete t)"
  by (simp_all add: terminal_event_def)

lemma askUser_events: "ev \<in> set (snd (askUser ce call res)) \<Longrightarrow> \<not> terminal_event ev"
  by (auto simp: askUser_def split: option.splits)

lemma resolveAndRun_executes:
  assumes "Executed c \<in> set (snd (snd (resolveAndRun ce names unattended call)))"
  shows "c = call \<and> tcName call \<in> names \<and> settled ce unattended call"
proof -
  have d: "DecideTimeout \<noteq> DecideOnce" "DecideTimeout \<noteq> DecideSession"
    by (simp_all add: DecideOnce_def DecideSession_def DecideTimeout_def)
  show ?thesis
    using assms d
    by (auto simp: resolveAndRun_def under_gate_def ask_and_run_def askUser_def run_defs settled_def Let_def
        split: if_splits sum.splits Decision.splits option.splits prod.splits)
qed

lemma resolveAndRun_events:
  "ev \<in> set (fst (snd (resolveAndRun ce names unattended call))) \<Longrightarrow> \<not> terminal_event ev"
  by (auto simp: resolveAndRun_def under_gate_def ask_and_run_def askUser_def run_defs Let_def
      split: if_splits sum.splits Decision.splits option.splits prod.splits)

lemma executeOne_parts:
  "trID (fst (executeOne cfg sf names un cap ce call)) = tcID call"
  "Executed c \<in> set (snd (snd (executeOne cfg sf names un cap ce call)))
     \<longleftrightarrow> Executed c \<in> set (snd (snd (resolveAndRun ce names un call)))"
  "ev \<in> set (fst (snd (executeOne cfg sf names un cap ce call))) \<Longrightarrow> \<not> terminal_event ev"
  by (auto simp: executeOne_def Let_def split: prod.splits dest: resolveAndRun_events)
     (metis fst_conv snd_conv resolveAndRun_events)+

end
