(* ===== verification/Agent_Loop.thy ===== *)
theory Agent_Loop
  imports Agent_Tools
begin

text \<open>
  The agent loop (\<open>internal/brain/loop/agent.go\<close>): one turn streams from the gateway, executes the
  calls the model makes, feeds the results back, and ends with a final answer or at the step
  ceiling. The environment (\<open>loop_env\<close>) answers the gateway calls by their number, says whether
  the turn's context had ended then, and gives notes, loaded tools, sensitive routes and the
  environment of each call by step. Calls of a step run in call order; the consumer drains every
  event, also after the context ends. Images and ledger tags other than the tool token estimate
  are not modelled.
\<close>

section \<open>Requests and state\<close>

record Message =
  msRole :: string
  msContent :: string
  msUntrusted :: bool
  msCalls :: "ToolCall list"
  msResult :: "ToolResult option"

definition message :: "string \<Rightarrow> string \<Rightarrow> Message" where
  "message role content =
     \<lparr>msRole = role, msContent = content, msUntrusted = False, msCalls = [], msResult = None\<rparr>"

type_synonym tool_def = "string \<times> string"

record Request =
  rqSession :: string
  rqRoute :: string
  rqAgent :: string
  rqToolAllow :: "string list"
  rqModelHint :: string
  rqSystem :: string
  rqMessages :: "Message list"
  rqMission :: string
  rqBuiltinsOnly :: bool
  rqExtraTools :: "((string \<times> Tool) \<times> string) list"
  rqUnattended :: bool
  rqForceTool :: string
  rqEndTurnTools :: "string list"
  rqMaxSteps :: int
  rqToolResultCap :: int
  rqMaxToolCalls :: int

record StreamRequest =
  srRoute :: string
  srAgent :: string
  srModelHint :: string
  srSystem :: string
  srMessages :: "Message list"
  srTools :: "tool_def list"
  srEffort :: string
  srSession :: string
  srMission :: string
  srForceTool :: string
  srProviderState :: string
  srToolTokens :: int

record Agent =
  agMaxSteps :: int
  agOffload :: offload_config
  agExec :: Constrained
  agDefs :: "tool_def list"
  agBaseExec :: Constrained
  agBaseDefs :: "tool_def list"

text \<open>\<open>leSuffixRoutes\<close> pairs each registered suffix with the route its resolver gives at that step, in
  the order the map is walked; \<open>leConnectors\<close> the sensitive connectors and their route.\<close>

record loop_env =
  leStream :: "nat \<Rightarrow> StreamRequest \<Rightarrow> string + StreamEvent list"
  leStopped :: "nat \<Rightarrow> bool"
  leWaited :: "nat \<Rightarrow> bool"
  leSteering :: "int \<Rightarrow> string list"
  leRefresh :: "int \<Rightarrow> ((string \<times> Tool) \<times> string) list"
  leSuffixRoutes :: "int \<Rightarrow> (string \<times> string) list"
  leConnectors :: "int \<Rightarrow> (string list \<times> string) option"
  leAccount :: "(int \<Rightarrow> string \<Rightarrow> string \<Rightarrow> string) option"
  leToolTokens :: "tool_def list \<Rightarrow> int option"
  leCall :: "int \<Rightarrow> nat \<Rightarrow> call_env"

record LoopState =
  lpMsgs :: "Message list"
  lpTotal :: Usage
  lpMeta :: "Meta option"
  lpProviderState :: string
  lpEffort :: string
  lpToolCalls :: int
  lpExecuted :: int
  lpCoerced :: bool
  lpTainted :: bool
  lpRepeats :: RepeatGuard
  lpStuck :: bool
  lpRoute :: string
  lpHint :: string
  lpSurface :: Surface
  lpDefs :: "tool_def list"
  lpNames :: "string set"
  lpCalls :: nat
  lpRequests :: "StreamRequest list"
  lpEvents :: "StreamEvent list"
  lpEffects :: "tool_effect list"

definition maxStepRetries :: nat where "maxStepRetries = 2"
definition stepRetryBackoff :: int where "stepRetryBackoff = 1000"

definition finalizeWarning :: string where
  "finalizeWarning = ''[system] You have one tool step left before the limit. Finish gathering and produce your final answer on the next step.''"
definition coercionMessage :: string where
  "coercionMessage = ''[system] This task category requires consulting your tools before answering. Make the relevant tool call(s), then answer.''"
definition toolCallCapMessage :: string where
  "toolCallCapMessage = ''tool call limit for this turn reached: conclude now with what you already have''"

definition emit :: "StreamEvent \<Rightarrow> LoopState \<Rightarrow> LoopState" where
  "emit ev st = st\<lparr>lpEvents := lpEvents st @ [ev]\<rparr>"

text \<open>The last two events of every turn: the usage of all its steps, then a terminal.\<close>

definition end_turn :: "StreamEvent \<Rightarrow> LoopState \<Rightarrow> LoopState" where
  "end_turn ev st = emit ev (emit (EvUsage (Some (lpTotal st))) st)"

section \<open>The tool surface\<close>

definition filterDefs :: "tool_def list \<Rightarrow> string list \<Rightarrow> tool_def list" where
  "filterDefs defs allow =
     (if allow = [] then defs else filter (\<lambda>d. \<exists>a \<in> set allow. ToolMatches (fst d) a) defs)"

definition extra_defs :: "((string \<times> Tool) \<times> string) list \<Rightarrow> tool_def list" where
  "extra_defs extra = map (\<lambda>(t, d). (fst t, d)) extra"

definition turn_surface :: "Agent \<Rightarrow> Request \<Rightarrow> Surface \<times> tool_def list" where
  "turn_surface a req =
     (let base = \<lparr>sfBase = (if rqBuiltinsOnly req then agBaseExec a else agExec a), sfExtra = []\<rparr>;
          defs = filterDefs (if rqBuiltinsOnly req then agBaseDefs a else agDefs a) (rqToolAllow req)
      in if rqExtraTools req = [] then (base, defs)
         else
           let ds = extra_defs (rqExtraTools req)
           in (withExtraTools base (map fst (rqExtraTools req)),
               filter (\<lambda>d. fst d \<notin> fst ` set ds) defs @ ds))"

definition data_marker :: string where
  "data_marker = ''trust='' @ dquote # ''data'' @ [dquote]"

definition historyHasUntrusted :: "Message list \<Rightarrow> bool" where
  "historyHasUntrusted ms =
     (\<exists>m \<in> set ms. msUntrusted m \<or> str_contains (msContent m) data_marker
        \<or> (case msResult m of Some r \<Rightarrow> str_contains (trContent r) data_marker | None \<Rightarrow> False))"

definition zero_usage :: Usage where
  "zero_usage = \<lparr>usInput = 0, usOutput = 0, usCacheRead = 0, usCacheWrite = 0, usCacheWrite1h = 0, usReasoning = 0\<rparr>"

definition initial :: "Agent \<Rightarrow> Request \<Rightarrow> LoopState" where
  "initial a req =
     (let (sf, defs) = turn_surface a req in
      \<lparr>lpMsgs = rqMessages req, lpTotal = zero_usage, lpMeta = None, lpProviderState = [], lpEffort = [],
       lpToolCalls = 0, lpExecuted = 0, lpCoerced = False,
       lpTainted = (historyHasUntrusted (rqMessages req) \<or> rqMission req \<noteq> []),
       lpRepeats = new_guard, lpStuck = False, lpRoute = rqRoute req, lpHint = rqModelHint req,
       lpSurface = sf, lpDefs = defs, lpNames = set (map fst defs),
       lpCalls = 0, lpRequests = [], lpEvents = [], lpEffects = []\<rparr>)"

text \<open>The tool token estimate and the forced tool are fixed when the turn is assembled.\<close>

definition tool_tokens :: "loop_env \<Rightarrow> Agent \<Rightarrow> Request \<Rightarrow> int" where
  "tool_tokens env a req = (case leToolTokens env (snd (turn_surface a req)) of Some n \<Rightarrow> n | None \<Rightarrow> 0)"

definition force_tool :: "Agent \<Rightarrow> Request \<Rightarrow> string" where
  "force_tool a req =
     (if rqForceTool req \<in> set (map fst (snd (turn_surface a req))) then rqForceTool req else [])"

section \<open>Before a step's stream\<close>

definition steer :: "loop_env \<Rightarrow> int \<Rightarrow> LoopState \<Rightarrow> LoopState" where
  "steer env step st =
     (if 1 < step then st\<lparr>lpMsgs := lpMsgs st @ map (message ''user'') (leSteering env step)\<rparr> else st)"

definition refresh :: "loop_env \<Rightarrow> int \<Rightarrow> LoopState \<Rightarrow> LoopState" where
  "refresh env step st =
     (let new = filter (\<lambda>t. fst (fst t) \<notin> lpNames st) (leRefresh env step) in
      if \<not> 1 < step \<or> new = [] then st
      else st\<lparr>lpSurface := withExtraTools (lpSurface st) (map fst new),
              lpDefs := lpDefs st @ extra_defs new,
              lpNames := lpNames st \<union> set (map fst (extra_defs new))\<rparr>)"

definition directive :: "int \<Rightarrow> int \<Rightarrow> bool \<Rightarrow> StepDirective" where
  "directive step maxSteps stuck =
     (let d = CeilingFor step maxSteps in if stuck \<and> d = StepProceed then StepForceSynthesis else d)"

definition warn :: "StepDirective \<Rightarrow> LoopState \<Rightarrow> LoopState" where
  "warn d st =
     (if d = StepWarnFinalize then st\<lparr>lpMsgs := lpMsgs st @ [message ''user'' finalizeWarning]\<rparr> else st)"

definition stream_request :: "loop_env \<Rightarrow> Agent \<Rightarrow> Request \<Rightarrow> StepDirective \<Rightarrow> LoopState \<Rightarrow> StreamRequest" where
  "stream_request env a req d st =
     (let force = (d = StepForceSynthesis) in
      \<lparr>srRoute = lpRoute st, srAgent = rqAgent req, srModelHint = lpHint st, srSystem = rqSystem req,
       srMessages = lpMsgs st, srTools = (if force then [] else lpDefs st), srEffort = lpEffort st,
       srSession = rqSession req, srMission = rqMission req,
       srForceTool = (if force then [] else force_tool a req), srProviderState = lpProviderState st,
       srToolTokens = (if force then 0 else tool_tokens env a req)\<rparr>)"

section \<open>Reading one stream\<close>

record StepAttempt =
  atText :: string
  atCalls :: "ToolCall list"
  atTerminal :: "StreamEvent option"
  atEmitted :: bool
  atIncomplete :: "StreamEvent option"

definition fresh_attempt :: StepAttempt where
  "fresh_attempt = \<lparr>atText = [], atCalls = [], atTerminal = None, atEmitted = False, atIncomplete = None\<rparr>"

definition add_usage :: "Usage \<Rightarrow> Usage \<Rightarrow> Usage" where
  "add_usage t u =
     t\<lparr>usInput := usInput t + usInput u, usOutput := usOutput t + usOutput u,
           usCacheRead := usCacheRead t + usCacheRead u, usCacheWrite := usCacheWrite t + usCacheWrite u\<rparr>"

definition read_event :: "StreamEvent \<Rightarrow> LoopState \<times> StepAttempt \<Rightarrow> LoopState \<times> StepAttempt" where
  "read_event ev p =
     (let st = fst p; at' = snd p in
      case ev of
        EvChunk t \<Rightarrow> (emit ev st, at'\<lparr>atText := atText at' @ t, atEmitted := True\<rparr>)
      | EvReasoning _ \<Rightarrow> (emit ev st, at'\<lparr>atEmitted := True\<rparr>)
      | EvToolStart _ \<Rightarrow> (emit ev st, at'\<lparr>atEmitted := True\<rparr>)
      | EvRetry _ _ _ \<Rightarrow> (emit ev st, at')
      | EvToolEnd c \<Rightarrow>
          (emit ev st,
           at'\<lparr>atCalls := atCalls at' @ (case c of Some call \<Rightarrow> [call] | None \<Rightarrow> []), atEmitted := True\<rparr>)
      | EvUsage u \<Rightarrow> (case u of Some u \<Rightarrow> st\<lparr>lpTotal := add_usage (lpTotal st) u\<rparr> | None \<Rightarrow> st, at')
      | EvDone m \<Rightarrow>
          (case m of Some m \<Rightarrow> st\<lparr>lpMeta := Some m, lpProviderState := mtState m\<rparr> | None \<Rightarrow> st,
           at'\<lparr>atTerminal := Some ev\<rparr>)
      | EvIncomplete _ \<Rightarrow> (st, at'\<lparr>atTerminal := Some ev, atIncomplete := Some ev\<rparr>)
      | EvError _ \<Rightarrow> (st, at'\<lparr>atTerminal := Some ev\<rparr>)
      | _ \<Rightarrow> (st, at'))"

definition read_stream :: "StreamEvent list \<Rightarrow> LoopState \<Rightarrow> LoopState \<times> StepAttempt" where
  "read_stream evs st = fold read_event evs (st, fresh_attempt)"

section \<open>Attempts\<close>

definition loop_error :: "string \<Rightarrow> string \<Rightarrow> bool \<Rightarrow> StreamEvent" where
  "loop_error code msg retryable =
     EvError (Some \<lparr>seCode = code, seMessage = msg, seRetryable = retryable\<rparr>)"

definition retry_event :: "nat \<Rightarrow> string \<Rightarrow> StreamEvent" where
  "retry_event attempt reason = EvRetry attempt (int attempt * stepRetryBackoff) reason"

definition retry_reason :: "StepAttempt \<Rightarrow> string option" where
  "retry_reason at' =
     (case atTerminal at' of
        Some (EvError (Some e)) \<Rightarrow> if seRetryable e \<and> \<not> atEmitted at' then Some (seMessage e) else None
      | _ \<Rightarrow> None)"

datatype attempted = Aborted LoopState | Streamed LoopState StepAttempt

text \<open>\<open>left\<close> retries remain, so the attempt just made is number \<open>maxStepRetries - left\<close>.\<close>

fun attempts :: "loop_env \<Rightarrow> StreamRequest \<Rightarrow> nat \<Rightarrow> LoopState \<Rightarrow> attempted" where
  "attempts env sreq left st =
     (let n = lpCalls st;
          st = st\<lparr>lpCalls := n + 1, lpRequests := lpRequests st @ [sreq]\<rparr>;
          attempt = maxStepRetries - left
      in case leStream env n sreq of
           Inl err \<Rightarrow>
             if leStopped env n then Aborted (end_turn (loop_error ''stopped'' ''turn stopped'' False) st)
             else
               let gone = (\<lambda>st. Aborted (end_turn (loop_error ''gateway_unavailable'' err True) st)) in
               (case left of
                  0 \<Rightarrow> gone st
                | Suc left' \<Rightarrow>
                    let st = emit (retry_event (attempt + 1) err) st in
                    if leWaited env n then attempts env sreq left' st else gone st)
         | Inr evs \<Rightarrow>
             let (st, at') = read_stream evs st in
             (case (left, retry_reason at') of
                (Suc left', Some reason) \<Rightarrow>
                  let st = emit (retry_event (attempt + 1) reason) st in
                  if leWaited env n then attempts env sreq left' st else Streamed st at'
              | _ \<Rightarrow> Streamed st at'))"

declare attempts.simps [simp del]

section \<open>Sensitive routes\<close>

definition flip_to :: "string \<Rightarrow> LoopState \<Rightarrow> LoopState" where
  "flip_to route st = (if route = [] then st else st\<lparr>lpRoute := route, lpHint := []\<rparr>)"

definition connector_match :: "loop_env \<Rightarrow> int \<Rightarrow> string list \<Rightarrow> ToolCall \<Rightarrow> bool" where
  "connector_match env step names c =
     ((\<exists>n \<in> set names. has_prefix (tcName c) (n @ ''_''))
      \<or> (case leAccount env of
           Some account \<Rightarrow> account step (tcName c) (tcInput c) \<in> set names
         | None \<Rightarrow> False))"

definition force_routes :: "loop_env \<Rightarrow> int \<Rightarrow> ToolCall \<Rightarrow> LoopState \<Rightarrow> LoopState" where
  "force_routes env step c st =
     (let st = fold (\<lambda>(suf, route) st. if has_suffix (tcName c) suf then flip_to route st else st)
                 (leSuffixRoutes env step) st
      in case leConnectors env step of
           Some (names, route) \<Rightarrow> if connector_match env step names c then flip_to route st else st
         | None \<Rightarrow> st)"

section \<open>Running the calls of a step\<close>

text \<open>Which calls the cap refuses; a call that ends the turn never counts.\<close>

fun admit :: "int \<Rightarrow> string set \<Rightarrow> int \<Rightarrow> ToolCall list \<Rightarrow> bool list \<times> int" where
  "admit cap endTools executed [] = ([], executed)"
| "admit cap endTools executed (c # cs) =
     (if 0 < cap \<and> tcName c \<notin> endTools then
        if cap \<le> executed then
          (let (bs, n) = admit cap endTools executed cs in (True # bs, n))
        else (let (bs, n) = admit cap endTools (executed + 1) cs in (False # bs, n))
      else (let (bs, n) = admit cap endTools executed cs in (False # bs, n)))"

definition refused_event :: "ToolCall \<Rightarrow> StreamEvent" where
  "refused_event c =
     EvToolResult \<lparr>teID = tcID c, teName = tcName c, teStatus = ''error'', teDigest = toolCallCapMessage,
       teArgs = tcInput c, teContent = []\<rparr>"

definition refused_result :: "int \<Rightarrow> ToolCall \<Rightarrow> ToolResult" where
  "refused_result cap c =
     \<lparr>trID = tcID c, trContent = wrapToolError codeCallCap toolCallCapMessage cap, trIsError = True\<rparr>"

definition executeAll ::
    "loop_env \<Rightarrow> Agent \<Rightarrow> Request \<Rightarrow> int \<Rightarrow> LoopState \<Rightarrow> ToolCall list
      \<Rightarrow> (ToolResult \<times> StreamEvent list \<times> tool_effect list) list" where
  "executeAll env a req step st run =
     map (\<lambda>(i, c). executeOne (agOffload a) (lpSurface st) (lpNames st) (rqUnattended req)
            (rqToolResultCap req) (leCall env step i) c) (enumerate 0 run)"

fun merge_results :: "int \<Rightarrow> (ToolCall \<times> bool) list \<Rightarrow> ToolResult list \<Rightarrow> ToolResult list" where
  "merge_results cap [] rs = []"
| "merge_results cap ((c, True) # cs) rs = refused_result cap c # merge_results cap cs rs"
| "merge_results cap ((c, False) # cs) (r # rs) = r # merge_results cap cs rs"
| "merge_results cap ((c, False) # cs) [] = []"

text \<open>A result on its way into the conversation: capped, fenced, marked.\<close>

definition tool_message :: "Request \<Rightarrow> Surface \<Rightarrow> bool \<Rightarrow> ToolCall \<times> ToolResult \<Rightarrow> Message" where
  "tool_message req sf taintedBefore p =
     (let (c, r) = p;
          trusted = (surface_trusted sf (tcName c) \<and> \<not> (tcName c = ''remember'' \<and> taintedBefore));
          content = fenceUntrusted (tcName c) trusted (capToolResult (trContent r) (rqToolResultCap req)) (trIsError r)
      in \<lparr>msRole = ''tool'', msContent = [],
          msUntrusted = (trContent r \<noteq> [] \<and> (\<not> trusted \<or> surface_taints sf (tcName c))),
          msCalls = [], msResult = Some (r\<lparr>trContent := content\<rparr>)\<rparr>)"

definition EffortFor :: "ToolResult list \<Rightarrow> string" where
  "EffortFor rs = (if (\<exists>r \<in> set rs. trIsError r) \<or> rs = [] then [] else ''low'')"

definition run_calls :: "loop_env \<Rightarrow> Agent \<Rightarrow> Request \<Rightarrow> int \<Rightarrow> StepAttempt \<Rightarrow> LoopState \<Rightarrow> LoopState \<times> ToolResult list" where
  "run_calls env a req step at' st =
     (let calls = atCalls at';
          (refused, executed) = admit (rqMaxToolCalls req) (set (rqEndTurnTools req)) (lpExecuted st) calls;
          pairs = zip calls refused;
          run = map fst (filter (\<lambda>p. \<not> snd p) pairs);
          outs = executeAll env a req step st run;
          results = merge_results (rqToolResultCap req) pairs (map fst outs);
          fed = map (tool_message req (lpSurface st) (lpTainted st)) (zip calls results);
          asked = (message ''assistant'' (atText at'))\<lparr>msCalls := calls\<rparr>
      in (st\<lparr>lpExecuted := executed,
             lpEvents := lpEvents st @ map refused_event (map fst (filter snd pairs))
                           @ concat (map (\<lambda>p. fst (snd p)) outs),
             lpEffects := lpEffects st @ concat (map (\<lambda>p. snd (snd p)) outs),
             lpMsgs := lpMsgs st @ asked # fed,
             lpTainted := (lpTainted st \<or> (\<exists>m \<in> set fed. msUntrusted m))\<rparr>,
          results))"

section \<open>One step, one turn\<close>

datatype stepped = Continue LoopState | Ended LoopState

definition is_done :: "StreamEvent \<Rightarrow> bool" where
  "is_done ev = (case ev of EvDone _ \<Rightarrow> True | _ \<Rightarrow> False)"

definition finish_step :: "loop_env \<Rightarrow> Agent \<Rightarrow> Request \<Rightarrow> int \<Rightarrow> StepDirective \<Rightarrow> LoopState \<Rightarrow> StepAttempt \<Rightarrow> stepped" where
  "finish_step env a req step d st at' =
     (let done = Ended (end_turn (EvDone (lpMeta st)) st) in
      case (atTerminal at', atIncomplete at') of
        (None, _) \<Rightarrow> Ended (end_turn (EvIncomplete ''stream ended without a terminal event'') st)
      | (Some _, Some inc) \<Rightarrow> Ended (end_turn inc st)
      | (Some t, None) \<Rightarrow>
          if \<not> is_done t then Ended (end_turn t st)
          else if d = StepForceSynthesis then done
          else if atCalls at' = [] then
            (if d = StepProceed \<and> NeedsRetrievalCoercion (rqRoute req) (lpToolCalls st) (lpCoerced st)
             then Continue (st\<lparr>lpCoerced := True,
                    lpMsgs := lpMsgs st @ [message ''assistant'' (atText at'), message ''user'' coercionMessage]\<rparr>)
             else done)
          else
            let (repeats, stuck) = Record (lpRepeats st) (atCalls at');
                st = st\<lparr>lpToolCalls := lpToolCalls st + int (length (atCalls at')),
                        lpRepeats := repeats, lpStuck := stuck\<rparr>;
                st = fold (force_routes env step) (atCalls at') st;
                (st, results) = run_calls env a req step at' st
            in if \<exists>(c, r) \<in> set (zip (atCalls at') results). tcName c \<in> set (rqEndTurnTools req) \<and> \<not> trIsError r
               then Ended (end_turn (EvDone (lpMeta st)) st)
               else Continue (st\<lparr>lpEffort := EffortFor results\<rparr>))"

definition step_ceiling :: "Agent \<Rightarrow> Request \<Rightarrow> int" where
  "step_ceiling a req = (if 0 < rqMaxSteps req then rqMaxSteps req else agMaxSteps a)"

definition loop_step :: "loop_env \<Rightarrow> Agent \<Rightarrow> Request \<Rightarrow> int \<Rightarrow> LoopState \<Rightarrow> stepped" where
  "loop_step env a req step st =
     (let st = refresh env step (steer env step st);
          d = directive step (step_ceiling a req) (lpStuck st);
          sreq = stream_request env a req d (warn d st)
      in case attempts env sreq maxStepRetries (warn d st) of
           Aborted st \<Rightarrow> Ended st
         | Streamed st at' \<Rightarrow> finish_step env a req step d st at')"

text \<open>The ceiling is the hard bound: a step at it never continues.\<close>

definition ceiling_of :: "int \<Rightarrow> int" where
  "ceiling_of maxSteps = (if maxSteps \<le> 0 then DefaultMaxSteps else maxSteps)"

lemma directive_at_ceiling: "ceiling_of m \<le> step \<Longrightarrow> directive step m stuck = StepForceSynthesis"
  by (simp add: directive_def CeilingFor_def ceiling_of_def Let_def split: if_splits)

lemma forced_step_ends: "finish_step env a req step StepForceSynthesis st at' \<noteq> Continue st'"
  by (auto simp: finish_step_def Let_def split: option.splits if_splits)

lemma loop_step_below: "loop_step env a req step st = Continue st' \<Longrightarrow> step < ceiling_of (step_ceiling a req)"
proof (rule ccontr)
  assume c: "loop_step env a req step st = Continue st'" and "\<not> step < ceiling_of (step_ceiling a req)"
  then have "directive step (step_ceiling a req) stuck = StepForceSynthesis" for stuck
    by (intro directive_at_ceiling) simp
  with c show False by (auto simp: loop_step_def Let_def forced_step_ends split: attempted.splits)
qed

function run_from :: "loop_env \<Rightarrow> Agent \<Rightarrow> Request \<Rightarrow> int \<Rightarrow> LoopState \<Rightarrow> LoopState" where
  "run_from env a req step st =
     (case loop_step env a req step st of
        Ended st' \<Rightarrow> st'
      | Continue st' \<Rightarrow> run_from env a req (step + 1) st')"
  by pat_completeness auto
termination
  by (relation "measure (\<lambda>(env, a, req, step, st). nat (ceiling_of (step_ceiling a req) - step))")
     (auto dest: loop_step_below)

declare run_from.simps [simp del]

definition run_turn :: "loop_env \<Rightarrow> Agent \<Rightarrow> Request \<Rightarrow> LoopState" where
  "run_turn env a req = run_from env a req 1 (initial a req)"

text \<open>Induction along a turn: a property of the next step carries over to this one.\<close>

lemma run_from_induct [case_names 1]:
  assumes "\<And>step st. (\<And>st'. loop_step env a req step st = Continue st' \<Longrightarrow> P (step + 1) st') \<Longrightarrow> P step st"
  shows "P step st"
proof -
  have "env' = env \<Longrightarrow> a' = a \<Longrightarrow> req' = req \<Longrightarrow> P step st" for env' a' req' step st
    by (induction env' a' req' step st rule: run_from.induct) (use assms in blast)
  then show ?thesis by blast
qed

end
