(* ===== verification/Agent_Props.thy ===== *)
theory Agent_Props
  imports Agent_Loop
begin

text \<open>
  What a turn of the agent loop guarantees: how it ends, how long it can get, which tools it runs,
  what the conversation sent to the gateway looks like, and which route a sensitive turn stays on.
  The locale \<open>turn_stages\<close> is the contract of an invariant of the loop; each property interprets it.
\<close>

section \<open>Invariants of a turn\<close>

locale turn_stages =
  fixes env :: loop_env and a :: Agent and req :: Request
    and inv :: "LoopState \<Rightarrow> bool"
    and read :: "StepDirective \<Rightarrow> LoopState \<Rightarrow> StepAttempt \<Rightarrow> bool"
    and ended :: "LoopState \<Rightarrow> bool"
  assumes inv_steer: "inv st \<Longrightarrow> inv (steer env step st)"
    and inv_refresh: "inv st \<Longrightarrow> inv (refresh env step st)"
    and inv_warn: "inv st \<Longrightarrow> inv (warn d st)"
    and attempts_aborted: "inv st \<Longrightarrow> attempts env (stream_request env a req d st) maxStepRetries st = Aborted st' \<Longrightarrow> ended st'"
    and attempts_streamed: "inv st \<Longrightarrow> attempts env (stream_request env a req d st) maxStepRetries st = Streamed st' at'
          \<Longrightarrow> read d st' at'"
    and finish_continue: "read d st at' \<Longrightarrow> finish_step env a req step d st at' = Continue st' \<Longrightarrow> inv st'"
    and finish_ended: "read d st at' \<Longrightarrow> finish_step env a req step d st at' = Ended st' \<Longrightarrow> ended st'"
begin

lemma step_inv:
  assumes "inv st"
  shows "case loop_step env a req step st of Continue st' \<Rightarrow> inv st' | Ended st' \<Rightarrow> ended st'"
proof -
  let ?s = "refresh env step (steer env step st)"
  let ?d = "directive step (step_ceiling a req) (lpStuck ?s)"
  have w: "inv (warn ?d ?s)" using assms by (intro inv_warn inv_refresh inv_steer)
  show ?thesis
  proof (cases "attempts env (stream_request env a req ?d (warn ?d ?s)) maxStepRetries (warn ?d ?s)")
    case (Aborted st')
    with attempts_aborted [OF w] show ?thesis by (simp add: loop_step_def Let_def)
  next
    case (Streamed st' at')
    with attempts_streamed [OF w] have "read ?d st' at'" by auto
    with Streamed show ?thesis
      by (auto simp: loop_step_def Let_def split: stepped.split intro: finish_continue finish_ended)
  qed
qed

lemma run_from_ended: "inv st \<Longrightarrow> ended (run_from env a req step st)"
proof (induction step st rule: run_from_induct [of env a req])
  case (1 step st)
  from step_inv [OF 1(2), of step] show ?case
    by (cases "loop_step env a req step st") (auto simp: run_from.simps [of env a req step st] intro: 1(1))
qed

lemma run_turn_ended: "inv (initial a req) \<Longrightarrow> ended (run_turn env a req)"
  by (simp add: run_turn_def run_from_ended)

end

section \<open>How a turn ends\<close>

definition quiet :: "LoopState \<Rightarrow> bool" where
  "quiet st = (\<forall>ev \<in> set (lpEvents st). \<not> terminal_event ev)"

definition closed :: "LoopState \<Rightarrow> bool" where
  "closed st = (\<exists>evs t. lpEvents st = evs @ [EvUsage (Some (lpTotal st)), t]
     \<and> terminal_event t \<and> (\<forall>ev \<in> set evs. \<not> terminal_event ev))"

definition ends_well :: "StepAttempt \<Rightarrow> bool" where
  "ends_well at' =
     ((case atTerminal at' of Some t \<Rightarrow> terminal_event t | None \<Rightarrow> True)
      \<and> (case atIncomplete at' of Some t \<Rightarrow> terminal_event t | None \<Rightarrow> True))"

lemma emit_events [simp]: "lpEvents (emit ev st) = lpEvents st @ [ev]"
  by (simp add: emit_def)

lemma emit_frame [simp]:
  "lpMsgs (emit ev st) = lpMsgs st" "lpTotal (emit ev st) = lpTotal st" "lpRoute (emit ev st) = lpRoute st"
  "lpHint (emit ev st) = lpHint st" "lpRequests (emit ev st) = lpRequests st" "lpCalls (emit ev st) = lpCalls st"
  "lpDefs (emit ev st) = lpDefs st" "lpNames (emit ev st) = lpNames st" "lpEffects (emit ev st) = lpEffects st"
  "lpExecuted (emit ev st) = lpExecuted st" "lpSurface (emit ev st) = lpSurface st" "lpTainted (emit ev st) = lpTainted st"
  by (simp_all add: emit_def)

lemma end_turn_frame [simp]:
  "lpMsgs (end_turn ev st) = lpMsgs st" "lpTotal (end_turn ev st) = lpTotal st" "lpRoute (end_turn ev st) = lpRoute st"
  "lpHint (end_turn ev st) = lpHint st" "lpRequests (end_turn ev st) = lpRequests st"
  "lpDefs (end_turn ev st) = lpDefs st" "lpNames (end_turn ev st) = lpNames st"
  "lpEffects (end_turn ev st) = lpEffects st" "lpExecuted (end_turn ev st) = lpExecuted st"
  "lpCalls (end_turn ev st) = lpCalls st"
  by (simp_all add: end_turn_def)

lemma end_turn_closed: "quiet st \<Longrightarrow> terminal_event ev \<Longrightarrow> closed (end_turn ev st)"
  by (auto simp: quiet_def closed_def end_turn_def)

text \<open>Reading a stream only touches the events, the usage and what a done event carries.\<close>

definition same_work :: "LoopState \<Rightarrow> LoopState \<Rightarrow> bool" where
  "same_work st st' \<longleftrightarrow>
     lpMsgs st' = lpMsgs st \<and> lpRoute st' = lpRoute st \<and> lpHint st' = lpHint st \<and> lpDefs st' = lpDefs st
     \<and> lpNames st' = lpNames st \<and> lpEffects st' = lpEffects st \<and> lpExecuted st' = lpExecuted st
     \<and> lpSurface st' = lpSurface st \<and> lpTainted st' = lpTainted st"

lemma same_work_refl: "same_work st st"
  by (simp add: same_work_def)

lemma same_work_trans: "same_work r s \<Longrightarrow> same_work s t \<Longrightarrow> same_work r t"
  by (simp add: same_work_def)

lemma read_event_facts:
  assumes "read_event ev p = p'"
  shows "same_work (fst p) (fst p')" "lpRequests (fst p') = lpRequests (fst p)" "lpCalls (fst p') = lpCalls (fst p)"
    "quiet (fst p) \<Longrightarrow> quiet (fst p')" "ends_well (snd p) \<Longrightarrow> ends_well (snd p')"
  using assms
  by (cases ev; cases p; force simp: read_event_def same_work_def quiet_def ends_well_def split: option.splits)+

lemma read_stream_facts:
  assumes "read_stream evs st = (st', at')"
  shows "same_work st st'" "lpRequests st' = lpRequests st" "lpCalls st' = lpCalls st"
    "quiet st \<Longrightarrow> quiet st'" "ends_well at'"
proof -
  let ?P = "\<lambda>p. same_work st (fst p) \<and> lpRequests (fst p) = lpRequests st \<and> lpCalls (fst p) = lpCalls st
      \<and> (quiet st \<longrightarrow> quiet (fst p)) \<and> ends_well (snd p)"
  have "?P (fold read_event evs (st, fresh_attempt))"
  proof (rule fold_invariant)
    show "?P (st, fresh_attempt)" by (simp add: same_work_refl ends_well_def fresh_attempt_def)
    fix ev p assume "?P p"
    then have p: "same_work st (fst p)" "lpRequests (fst p) = lpRequests st" "lpCalls (fst p) = lpCalls st"
      "quiet st \<Longrightarrow> quiet (fst p)" "ends_well (snd p)" by simp_all
    note e = read_event_facts [of ev p, OF refl]
    show "?P (read_event ev p)"
      by (intro conjI impI same_work_trans [OF p(1) e(1)] e(4,5) p(4,5) trans [OF e(2) p(2)] trans [OF e(3) p(3)])
  qed
  with assms show "same_work st st'" "lpRequests st' = lpRequests st" "lpCalls st' = lpCalls st"
    "quiet st \<Longrightarrow> quiet st'" "ends_well at'" by (auto simp: read_stream_def)
qed

text \<open>The attempts of a step send one request, at most three times.\<close>

definition counted :: "nat \<Rightarrow> StreamRequest \<Rightarrow> LoopState \<Rightarrow> LoopState \<Rightarrow> bool" where
  "counted n sreq st st' \<longleftrightarrow> same_work st st' \<and>
     (\<exists>k \<le> n. lpCalls st' = lpCalls st + Suc k \<and> lpRequests st' = lpRequests st @ replicate (Suc k) sreq)"

definition sent :: "StreamRequest \<Rightarrow> LoopState \<Rightarrow> LoopState" where
  "sent sreq st = st\<lparr>lpCalls := lpCalls st + 1, lpRequests := lpRequests st @ [sreq]\<rparr>"

lemma sent_facts [simp]:
  "same_work st (sent sreq st)" "lpCalls (sent sreq st) = Suc (lpCalls st)"
  "lpRequests (sent sreq st) = lpRequests st @ [sreq]" "quiet (sent sreq st) = quiet st"
  by (simp_all add: sent_def same_work_def quiet_def)

lemma emit_same_work [simp]: "same_work st (emit ev st)" "same_work st (end_turn ev st)"
  by (simp_all add: same_work_def end_turn_def)

lemma end_sent_same_work [simp]: "same_work st (end_turn ev (sent sreq st))"
  by (rule same_work_trans [OF sent_facts(1) [of st sreq]]) simp

lemma quiet_emit: "quiet st \<Longrightarrow> \<not> terminal_event ev \<Longrightarrow> quiet (emit ev st)"
  by (simp add: quiet_def)

lemma attempts_unfold:
  "attempts env sreq left st =
     (case leStream env (lpCalls st) sreq of
        Inl err \<Rightarrow>
          if leStopped env (lpCalls st)
          then Aborted (end_turn (loop_error ''stopped'' ''turn stopped'' False) (sent sreq st))
          else (case left of
              0 \<Rightarrow> Aborted (end_turn (loop_error ''gateway_unavailable'' err True) (sent sreq st))
            | Suc left' \<Rightarrow>
                let st' = emit (retry_event (maxStepRetries - left + 1) err) (sent sreq st)
                in if leWaited env (lpCalls st) then attempts env sreq left' st'
                   else Aborted (end_turn (loop_error ''gateway_unavailable'' err True) st'))
      | Inr evs \<Rightarrow>
          (case read_stream evs (sent sreq st) of (st', at') \<Rightarrow>
             (case (left, retry_reason at') of
                (Suc left', Some reason) \<Rightarrow>
                  if leWaited env (lpCalls st)
                  then attempts env sreq left' (emit (retry_event (maxStepRetries - left + 1) reason) st')
                  else Streamed (emit (retry_event (maxStepRetries - left + 1) reason) st') at'
              | _ \<Rightarrow> Streamed st' at')))"
  unfolding attempts.simps [of env sreq left st] sent_def Let_def by simp

lemma terminal_errors [simp]:
  "terminal_event (loop_error c m r)" "\<not> terminal_event (retry_event n w)"
  by (simp_all add: loop_error_def retry_event_def)

lemma counted_step: "same_work st st1 \<Longrightarrow> lpCalls st1 = Suc (lpCalls st) \<Longrightarrow> lpRequests st1 = lpRequests st @ [sreq]
    \<Longrightarrow> counted n sreq st1 st' \<Longrightarrow> counted (Suc n) sreq st st'"
  unfolding counted_def by (auto intro: same_work_trans)

lemma counted_once: "same_work st st1 \<Longrightarrow> lpCalls st1 = Suc (lpCalls st) \<Longrightarrow> lpRequests st1 = lpRequests st @ [sreq]
    \<Longrightarrow> counted n sreq st st1"
  unfolding counted_def by auto

definition attempt_ok :: "nat \<Rightarrow> StreamRequest \<Rightarrow> LoopState \<Rightarrow> attempted \<Rightarrow> bool" where
  "attempt_ok n sreq st r =
     (case r of
        Aborted st' \<Rightarrow> counted n sreq st st' \<and> (quiet st \<longrightarrow> closed st')
      | Streamed st' at' \<Rightarrow> counted n sreq st st' \<and> (quiet st \<longrightarrow> quiet st') \<and> ends_well at')"

lemma attempts_ok: "attempt_ok left sreq st (attempts env sreq left st)"
proof (induction left arbitrary: st)
  case 0
  show ?case
  proof (cases "leStream env (lpCalls st) sreq")
    case (Inl err)
    then show ?thesis
      by (auto simp: attempts_unfold [of env sreq 0 st] attempt_ok_def intro!: counted_once end_turn_closed)
  next
    case (Inr evs)
    obtain st1 at' where r: "read_stream evs (sent sreq st) = (st1, at')" by fastforce
    note f = read_stream_facts [OF r]
    have "counted 0 sreq st st1"
      using f(1-3) by (intro counted_once) (auto intro: same_work_trans [OF sent_facts(1) [of st sreq]])
    with f Inr r show ?thesis by (simp add: attempts_unfold [of env sreq 0 st] attempt_ok_def)
  qed
next
  case (Suc left)
  show ?case
  proof (cases "leStream env (lpCalls st) sreq")
    case (Inl err)
    let ?st' = "emit (retry_event (maxStepRetries - Suc left + 1) err) (sent sreq st)"
    have sw: "same_work st ?st'" by (rule same_work_trans [OF sent_facts(1) [of st sreq]]) simp
    have q: "quiet st \<Longrightarrow> quiet ?st'" by (intro quiet_emit) simp_all
    have "attempt_ok (Suc left) sreq st (attempts env sreq left ?st')"
      using Suc [of ?st'] counted_step [OF sw] q by (auto simp: attempt_ok_def split: attempted.splits)
    moreover have "counted (Suc left) sreq st (end_turn ev ?st')" "counted (Suc left) sreq st (end_turn ev (sent sreq st))" for ev
      by (rule counted_once; auto intro: same_work_trans [OF sw] same_work_trans [OF sent_facts(1) [of st sreq]])+
    ultimately show ?thesis
      using Inl q by (auto simp: attempts_unfold [of env sreq "Suc left" st] Let_def attempt_ok_def intro!: end_turn_closed)
  next
    case (Inr evs)
    obtain st1 at' where r: "read_stream evs (sent sreq st) = (st1, at')" by fastforce
    note f = read_stream_facts [OF r]
    have sw: "same_work st st1" using f(1) by (rule same_work_trans [OF sent_facts(1) [of st sreq]])
    have once: "counted (Suc left) sreq st st1" using f sw by (intro counted_once) auto
    show ?thesis
    proof (cases "retry_reason at'")
      case None
      with Inr r f once show ?thesis by (simp add: attempts_unfold [of env sreq "Suc left" st] attempt_ok_def)
    next
      case (Some reason)
      let ?st' = "emit (retry_event (maxStepRetries - Suc left + 1) reason) st1"
      have sw': "same_work st ?st'" by (rule same_work_trans [OF sw]) simp
      have q: "quiet st \<Longrightarrow> quiet ?st'" using f(4) by (intro quiet_emit) simp_all
      have "attempt_ok (Suc left) sreq st (attempts env sreq left ?st')"
        using Suc [of ?st'] counted_step [OF sw'] f q by (auto simp: attempt_ok_def split: attempted.splits)
      moreover have "counted (Suc left) sreq st ?st'" using f sw' by (intro counted_once) auto
      ultimately show ?thesis
        using Inr r Some q f(5) by (simp add: attempts_unfold [of env sreq "Suc left" st] attempt_ok_def)
    qed
  qed
qed

text \<open>The ways a step can go on after its stream.\<close>

definition rerouted :: "LoopState \<Rightarrow> LoopState \<Rightarrow> bool" where
  "rerouted st st' \<longleftrightarrow> (\<exists>r h. st' = st\<lparr>lpRoute := r, lpHint := h\<rparr>)"

lemma rerouted_refl: "rerouted st st"
  unfolding rerouted_def by (rule exI [of _ "lpRoute st"], rule exI [of _ "lpHint st"]) simp

lemma rerouted_trans: "rerouted r s \<Longrightarrow> rerouted s t \<Longrightarrow> rerouted r t"
  unfolding rerouted_def by fastforce

lemma rerouted_flip: "rerouted st (flip_to r st)"
  using rerouted_refl by (auto simp: flip_to_def rerouted_def)

lemma rerouted_fold: "(\<And>x st. rerouted st (f x st)) \<Longrightarrow> rerouted st (fold f xs st)"
  by (induction xs arbitrary: st) (auto simp: rerouted_refl intro: rerouted_trans)

lemma force_routes_rerouted: "rerouted st (force_routes env step c st)"
proof -
  have "rerouted st (fold (\<lambda>(suf, route) st. if has_suffix (tcName c) suf then flip_to route st else st)
      (leSuffixRoutes env step) st)" for st
    by (rule rerouted_fold) (auto simp: rerouted_refl rerouted_flip)
  then show ?thesis
    unfolding force_routes_def Let_def
    by (auto split: option.split intro: rerouted_trans rerouted_flip)
qed

lemma rerouted_frame:
  assumes "rerouted st st'"
  shows "lpMsgs st' = lpMsgs st" "lpEvents st' = lpEvents st" "lpTotal st' = lpTotal st" "lpDefs st' = lpDefs st"
    "lpNames st' = lpNames st" "lpEffects st' = lpEffects st" "lpRequests st' = lpRequests st"
    "lpCalls st' = lpCalls st" "lpExecuted st' = lpExecuted st" "lpSurface st' = lpSurface st"
    "lpTainted st' = lpTainted st" "quiet st' = quiet st"
  using assms by (auto simp: rerouted_def quiet_def)

definition counted_calls :: "StepAttempt \<Rightarrow> LoopState \<Rightarrow> LoopState" where
  "counted_calls at' st =
     st\<lparr>lpToolCalls := lpToolCalls st + int (length (atCalls at')),
        lpRepeats := fst (Record (lpRepeats st) (atCalls at')), lpStuck := snd (Record (lpRepeats st) (atCalls at'))\<rparr>"

lemma finish_step_cases:
  assumes "finish_step env a req step d st at' = r"
  obtains (stop) t where "r = Ended (end_turn t st)" "ends_well at' \<Longrightarrow> terminal_event t"
  | (coerce) "r = Continue (st\<lparr>lpCoerced := True,
        lpMsgs := lpMsgs st @ [message ''assistant'' (atText at'), message ''user'' coercionMessage]\<rparr>)"
      "atCalls at' = []"
  | (tools) st1 st2 results where
      "st1 = fold (force_routes env step) (atCalls at') (counted_calls at' st)" "rerouted (counted_calls at' st) st1"
      "run_calls env a req step at' st1 = (st2, results)" "d \<noteq> StepForceSynthesis"
      "r = Ended (end_turn (EvDone (lpMeta st2)) st2) \<or> r = Continue (st2\<lparr>lpEffort := EffortFor results\<rparr>)"
proof -
  note w = ends_well_def [of at']
  show ?thesis
  proof (cases "atTerminal at'")
    case None
    with assms show ?thesis
      by (intro stop [of "EvIncomplete ''stream ended without a terminal event''"]) (simp_all add: finish_step_def)
  next
    case t: (Some t)
    show ?thesis
    proof (cases "atIncomplete at'")
      case (Some inc)
      with assms t w show ?thesis by (intro stop [of inc]) (simp_all add: finish_step_def)
    next
      case None
      show ?thesis
      proof (cases "is_done t \<and> d \<noteq> StepForceSynthesis")
        case False
        with assms t None w show ?thesis
          by (cases "is_done t") (auto simp: finish_step_def intro: stop)
      next
        case d: True
        then have m: "is_done t" by simp
        show ?thesis
        proof (cases "atCalls at' = []")
          case True
          with assms t None d m show ?thesis
            by (auto simp: finish_step_def Let_def split: if_splits intro: stop coerce)
        next
          case False
          let ?s1 = "fold (force_routes env step) (atCalls at') (counted_calls at' st)"
          obtain st2 results where rc: "run_calls env a req step at' ?s1 = (st2, results)" by fastforce
          have "r = Ended (end_turn (EvDone (lpMeta st2)) st2) \<or> r = Continue (st2\<lparr>lpEffort := EffortFor results\<rparr>)"
            using assms t None d m False rc
            by (simp add: finish_step_def Let_def counted_calls_def case_prod_beta split: if_splits)
          with rc d show ?thesis
            by (intro tools [of ?s1 st2 results]) (auto intro: rerouted_fold force_routes_rerouted)
        qed
      qed
    qed
  qed
qed

lemma run_calls_frame:
  assumes "run_calls env a req step at' st = (st', rs)"
  shows "lpRequests st' = lpRequests st" "lpCalls st' = lpCalls st" "lpTotal st' = lpTotal st" "lpDefs st' = lpDefs st"
    "lpNames st' = lpNames st" "lpRoute st' = lpRoute st" "lpHint st' = lpHint st" "lpSurface st' = lpSurface st"
    "quiet st \<Longrightarrow> quiet st'"
  using assms
  by (auto simp: run_calls_def Let_def case_prod_beta quiet_def refused_event_def executeAll_def
      dest!: executeOne_parts(3))

lemma quiet_steps:
  "quiet (steer env step st) = quiet st" "quiet (refresh env step st) = quiet st" "quiet (warn d st) = quiet st"
  "quiet (counted_calls at' st) = quiet st" "quiet (st\<lparr>lpEffort := e\<rparr>) = quiet st"
  "quiet (st\<lparr>lpCoerced := b, lpMsgs := ms\<rparr>) = quiet st"
  by (simp_all add: quiet_def steer_def refresh_def warn_def counted_calls_def Let_def)

interpretation ending: turn_stages env a req quiet "\<lambda>_ st at'. quiet st \<and> ends_well at'" closed for env a req
proof
  fix st st' d at' step
  show "quiet st \<Longrightarrow> quiet (steer env step st)" "quiet st \<Longrightarrow> quiet (refresh env step st)"
    "quiet st \<Longrightarrow> quiet (warn d st)" by (simp_all add: quiet_steps)
  show "quiet st \<Longrightarrow> attempts env (stream_request env a req d st) maxStepRetries st = Aborted st' \<Longrightarrow> closed st'"
    "quiet st \<Longrightarrow> attempts env (stream_request env a req d st) maxStepRetries st = Streamed st' at' \<Longrightarrow> quiet st' \<and> ends_well at'"
    using attempts_ok [of maxStepRetries "stream_request env a req d st" st env] by (auto simp: attempt_ok_def)
  assume "quiet st \<and> ends_well at'"
  then have q: "quiet st" and w: "ends_well at'" by simp_all
  have after: "quiet st2" if "rerouted (counted_calls at' st) st1" "run_calls env a req step at' st1 = (st2, rs)" for st1 st2 rs
    using run_calls_frame(9) [OF that(2)] rerouted_frame(12) [OF that(1)] q by (simp add: quiet_steps)
  show "finish_step env a req step d st at' = Continue st' \<Longrightarrow> quiet st'"
    by (erule finish_step_cases) (auto simp: quiet_steps q dest: after)
  show "finish_step env a req step d st at' = Ended st' \<Longrightarrow> closed st'"
    by (erule finish_step_cases) (auto simp: w q intro!: end_turn_closed dest: after)
qed

text \<open>C23. A turn always ends, whatever the gateway, the tools and the user do, and it ends once: its
  last two events are the usage of all its steps and one terminal event (done, incomplete or
  error), and no event before them is terminal.\<close>

theorem turn_ends_once:
  "\<exists>evs t. lpEvents (run_turn env a req) = evs @ [EvUsage (Some (lpTotal (run_turn env a req))), t]
     \<and> terminal_event t \<and> list_all (\<lambda>ev. \<not> terminal_event ev) evs"
proof -
  have "quiet (initial a req)" by (simp add: quiet_def initial_def case_prod_beta)
  then have "closed (run_turn env a req)" by (rule ending.run_turn_ended)
  then show ?thesis by (auto simp: closed_def list_all_iff)
qed

section \<open>Which tools run\<close>

text \<open>Every executed call was offered to the model in a request of the turn, and its permission was
  settled in the environment of that call.\<close>

definition offered :: "StreamRequest list \<Rightarrow> string \<Rightarrow> bool" where
  "offered rs name = (\<exists>r \<in> set rs. name \<in> fst ` set (srTools r))"

definition allowed_run :: "loop_env \<Rightarrow> Request \<Rightarrow> StreamRequest list \<Rightarrow> ToolCall \<Rightarrow> bool" where
  "allowed_run env req rs c =
     (offered rs (tcName c) \<and> (\<exists>step i. settled (leCall env step i) (rqUnattended req) c))"

definition lawful :: "loop_env \<Rightarrow> Request \<Rightarrow> LoopState \<Rightarrow> bool" where
  "lawful env req st =
     (lpNames st = set (map fst (lpDefs st))
      \<and> (\<forall>c. Executed c \<in> set (lpEffects st) \<longrightarrow> allowed_run env req (lpRequests st) c))"

definition just_offered :: "StepDirective \<Rightarrow> LoopState \<Rightarrow> bool" where
  "just_offered d st = (d \<noteq> StepForceSynthesis \<longrightarrow> (\<exists>r \<in> set (lpRequests st). srTools r = lpDefs st))"

lemma allowed_more: "allowed_run env req rs c \<Longrightarrow> set rs \<subseteq> set rs' \<Longrightarrow> allowed_run env req rs' c"
  by (auto simp: allowed_run_def offered_def)

lemma counted_requests: "counted n sreq st st' \<Longrightarrow> set (lpRequests st') = insert sreq (set (lpRequests st))"
  by (auto simp: counted_def)

lemma counted_same: "counted n sreq st st' \<Longrightarrow> same_work st st'"
  by (simp add: counted_def)

lemma lawful_counted:
  assumes "lawful env req st" "counted n (stream_request env a req d st) st st'"
  shows "lawful env req st' \<and> just_offered d st'"
  using assms counted_requests [OF assms(2)] counted_same [OF assms(2)]
  by (auto simp: lawful_def just_offered_def same_work_def stream_request_def Let_def intro: allowed_more)

lemma run_calls_executes:
  assumes "run_calls env a req step at' st = (st', rs)" "Executed c \<in> set (lpEffects st')"
  shows "Executed c \<in> set (lpEffects st)
    \<or> tcName c \<in> lpNames st \<and> (\<exists>i. settled (leCall env step i) (rqUnattended req) c)"
proof -
  have "snd (snd (executeOne cfg sf names un cap ce call)) = fx \<Longrightarrow> Executed c \<in> set fx
      \<Longrightarrow> tcName c \<in> names \<and> settled ce un c" for cfg sf names un cap ce call fx
    using resolveAndRun_executes executeOne_parts(2) by metis
  with assms show ?thesis
    by (fastforce simp: run_calls_def Let_def case_prod_beta executeAll_def)
qed

interpretation permitted: turn_stages env a req "lawful env req" "\<lambda>d st _. lawful env req st \<and> just_offered d st" "lawful env req" for env a req
proof
  fix st st' d at' step
  show "lawful env req st \<Longrightarrow> lawful env req (steer env step st)" "lawful env req st \<Longrightarrow> lawful env req (warn d st)"
    by (simp_all add: lawful_def steer_def warn_def)
  show "lawful env req st \<Longrightarrow> lawful env req (refresh env step st)" by (auto simp: lawful_def refresh_def Let_def)
  show "lawful env req st \<Longrightarrow> attempts env (stream_request env a req d st) maxStepRetries st = Aborted st' \<Longrightarrow> lawful env req st'"
    "lawful env req st \<Longrightarrow> attempts env (stream_request env a req d st) maxStepRetries st = Streamed st' at'
       \<Longrightarrow> lawful env req st' \<and> just_offered d st'"
    using attempts_ok [of maxStepRetries "stream_request env a req d st" st env] lawful_counted [of env req st]
    by (auto simp: attempt_ok_def)
  assume "lawful env req st \<and> just_offered d st"
  then have l: "lawful env req st" and o: "just_offered d st" by simp_all
  have after: "lawful env req st2"
    if r: "rerouted (counted_calls at' st) st1" "run_calls env a req step at' st1 = (st2, rs)" "d \<noteq> StepForceSynthesis" for st1 st2 rs
  proof -
    note f = rerouted_frame [OF r(1)] run_calls_frame [OF r(2)]
    from o r(3) obtain q where q: "q \<in> set (lpRequests st)" "srTools q = lpDefs st" by (auto simp: just_offered_def)
    moreover have "lpRequests st2 = lpRequests st" using f(7,13) by (simp add: counted_calls_def)
    ultimately have off: "offered (lpRequests st2) n" if "n \<in> lpNames st" for n
      using l that unfolding offered_def lawful_def by (metis set_map)
    have "Executed c \<in> set (lpEffects st2) \<Longrightarrow> allowed_run env req (lpRequests st2) c" for c
      using run_calls_executes [OF r(2), of c] l f off by (auto simp: lawful_def allowed_run_def counted_calls_def)
    with l f show ?thesis by (simp add: lawful_def counted_calls_def)
  qed
  have frame: "lawful env req (st\<lparr>lpEffort := e\<rparr>) = lawful env req st" "lawful env req (end_turn t st) = lawful env req st"
    "lawful env req (st\<lparr>lpCoerced := b, lpMsgs := ms\<rparr>) = lawful env req st" for e t b ms st
    by (simp_all add: lawful_def)
  show "finish_step env a req step d st at' = Continue st' \<Longrightarrow> lawful env req st'"
    by (erule finish_step_cases) (auto simp: frame l dest: after)
  show "finish_step env a req step d st at' = Ended st' \<Longrightarrow> lawful env req st'"
    by (erule finish_step_cases) (auto simp: frame l dest: after)
qed

text \<open>C22. A tool runs only when it was offered in a request of the turn and its permission was settled:
  the chain allowed the call, or asked in an attended turn and, under the gate, allowed it then or
  the user answered once or for the session. An invented tool name never runs, and a turn nobody
  watches runs nothing the chain would ask about.\<close>

theorem tools_run_only_with_permission:
  assumes "Executed c \<in> set (lpEffects (run_turn env a req))"
  shows "(\<exists>r \<in> set (lpRequests (run_turn env a req)). tcName c \<in> fst ` set (srTools r))
    \<and> (\<exists>step i. settled (leCall env step i) (rqUnattended req) c)"
proof -
  have "lawful env req (initial a req)" by (simp add: lawful_def initial_def case_prod_beta)
  then have "lawful env req (run_turn env a req)" by (rule permitted.run_turn_ended)
  with assms show ?thesis by (auto simp: lawful_def allowed_run_def offered_def)
qed

section \<open>The conversation\<close>

text \<open>What a provider accepts: the results of an assistant's calls follow it, one per call, in the
  order of the calls and under their ids, and nothing else is a result.\<close>

fun owed :: "string list \<Rightarrow> Message list \<Rightarrow> bool" where
  "owed [] [] = True"
| "owed (i # ids) [] = False"
| "owed (i # ids) (m # ms) =
     (case msResult m of Some r \<Rightarrow> trID r = i \<and> msRole m = ''tool'' \<and> msCalls m = [] \<and> owed ids ms | None \<Rightarrow> False)"
| "owed [] (m # ms) = (msResult m = None \<and> owed (map tcID (msCalls m)) ms)"

lemma owed_append: "owed ids xs \<Longrightarrow> owed [] ys \<Longrightarrow> owed ids (xs @ ys)"
  by (induction ids xs rule: owed.induct) (auto split: option.splits)

lemma owed_plain: "list_all (\<lambda>m. msResult m = None \<and> msCalls m = []) ms \<Longrightarrow> owed [] ms"
  by (induction ms) auto

definition grown :: "Request \<Rightarrow> Message list \<Rightarrow> bool" where
  "grown req ms = (\<exists>tail. ms = rqMessages req @ tail \<and> owed [] tail)"

lemma grown_append: "grown req ms \<Longrightarrow> owed [] ys \<Longrightarrow> grown req (ms @ ys)"
  by (auto simp: grown_def intro: owed_append)

lemma admit_length: "length (fst (admit cap endTools n cs)) = length cs"
  by (induction cap endTools n cs rule: admit.induct) (auto simp: case_prod_beta)

lemma merge_results_ids:
  "map trID rs = map tcID (map fst (filter (\<lambda>p. \<not> snd p) ps)) \<Longrightarrow>
     map trID (merge_results cap ps rs) = map tcID (map fst ps)"
  by (induction cap ps rs rule: merge_results.induct) (auto simp: refused_result_def)

lemma owed_results:
  "map trID rs = map tcID cs \<Longrightarrow> owed (map tcID cs) (map (tool_message req sf tb) (zip cs rs))"
proof (induction cs arbitrary: rs)
  case (Cons c cs)
  then obtain r rs' where "rs = r # rs'" by (cases rs) auto
  with Cons show ?case by (simp add: tool_message_def Let_def)
qed simp

lemma executeAll_ids: "map trID (map fst (executeAll env a req step st run)) = map tcID run"
proof -
  have "map trID (map fst (executeAll env a req step st run)) = map (\<lambda>p. tcID (snd p)) (enumerate 0 run)"
    by (simp add: executeAll_def case_prod_beta executeOne_parts)
  also have "\<dots> = map tcID (map snd (enumerate 0 run))" by (simp only: map_map comp_def)
  finally show ?thesis by simp
qed

lemma run_calls_messages:
  assumes "run_calls env a req step at' st = (st', rs)"
  shows "\<exists>tail. lpMsgs st' = lpMsgs st @ tail \<and> owed [] tail"
proof -
  let ?adm = "admit (rqMaxToolCalls req) (set (rqEndTurnTools req)) (lpExecuted st) (atCalls at')"
  let ?ps = "zip (atCalls at') (fst ?adm)"
  let ?run = "map fst (filter (\<lambda>p. \<not> snd p) ?ps)"
  let ?res = "merge_results (rqToolResultCap req) ?ps (map fst (executeAll env a req step st ?run))"
  have "map trID (map fst (executeAll env a req step st ?run)) = map tcID ?run" by (rule executeAll_ids)
  then have "map trID ?res = map tcID (map fst ?ps)" by (rule merge_results_ids)
  then have "map trID ?res = map tcID (atCalls at')" by (simp add: admit_length)
  from owed_results [OF this] have "owed [] ((message ''assistant'' (atText at'))\<lparr>msCalls := atCalls at'\<rparr>
      # map (tool_message req (lpSurface st) (lpTainted st)) (zip (atCalls at') ?res))"
    by (simp add: message_def)
  moreover have "lpMsgs (fst (run_calls env a req step at' st)) = lpMsgs st @ (message ''assistant'' (atText at'))\<lparr>msCalls := atCalls at'\<rparr>
      # map (tool_message req (lpSurface st) (lpTainted st)) (zip (atCalls at') ?res)"
    by (simp add: run_calls_def Let_def case_prod_beta)
  ultimately show ?thesis using assms by auto
qed

definition talking :: "Request \<Rightarrow> LoopState \<Rightarrow> bool" where
  "talking req st = (grown req (lpMsgs st) \<and> (\<forall>r \<in> set (lpRequests st). grown req (srMessages r)))"

lemma owed_message: "owed [] (map (message role) notes)" "owed [] [message r1 c1]" "owed [] [message r1 c1, message r2 c2]"
  by (rule owed_plain; simp add: message_def list_all_iff)+

interpretation conversation: turn_stages env a req "talking req" "\<lambda>_ st _. talking req st" "talking req" for env a req
proof
  fix st st' d at' step
  show "talking req st \<Longrightarrow> talking req (steer env step st)" "talking req st \<Longrightarrow> talking req (warn d st)"
    "talking req st \<Longrightarrow> talking req (refresh env step st)"
    by (auto simp: talking_def steer_def warn_def refresh_def Let_def intro: grown_append owed_message)
  have "talking req st \<Longrightarrow> counted n (stream_request env a req d st) st s \<Longrightarrow> talking req s" for n s
    using counted_requests counted_same
    by (fastforce simp: talking_def same_work_def stream_request_def Let_def)
  then show "talking req st \<Longrightarrow> attempts env (stream_request env a req d st) maxStepRetries st = Aborted st' \<Longrightarrow> talking req st'"
    "talking req st \<Longrightarrow> attempts env (stream_request env a req d st) maxStepRetries st = Streamed st' at' \<Longrightarrow> talking req st'"
    using attempts_ok [of maxStepRetries "stream_request env a req d st" st env] by (auto simp: attempt_ok_def)
  assume t: "talking req st"
  have after: "talking req st2"
    if r: "rerouted (counted_calls at' st) st1" "run_calls env a req step at' st1 = (st2, rs)" for st1 st2 rs
    using run_calls_messages [OF r(2)] rerouted_frame [OF r(1)] run_calls_frame [OF r(2)] t
    by (auto simp: talking_def counted_calls_def intro: grown_append)
  have frame: "talking req (st\<lparr>lpEffort := e\<rparr>) = talking req st" "talking req (end_turn ev st) = talking req st" for e ev st
    by (simp_all add: talking_def)
  have co: "talking req (st\<lparr>lpCoerced := True, lpMsgs := lpMsgs st @ [message r1 c1, message r2 c2]\<rparr>)" for r1 c1 r2 c2
    using t by (auto simp: talking_def intro!: grown_append owed_message)
  show "finish_step env a req step d st at' = Continue st' \<Longrightarrow> talking req st'"
    by (erule finish_step_cases) (auto simp: frame co t dest: after)
  show "finish_step env a req step d st at' = Ended st' \<Longrightarrow> talking req st'"
    by (erule finish_step_cases) (auto simp: frame t dest: after)
qed

text \<open>C25. Every request of a turn carries the turn's messages followed by a well-formed
  continuation: each assistant message with tool calls is followed by exactly one result per
  call, in the order of the calls and under their ids, whichever of them ran, were refused by the cap,
  were denied or failed.\<close>

theorem requests_pair_calls_with_results:
  "list_all (\<lambda>r. \<exists>tail. srMessages r = rqMessages req @ tail \<and> owed [] tail) (lpRequests (run_turn env a req))"
proof -
  have "talking req (initial a req)" by (simp add: talking_def initial_def case_prod_beta grown_def)
  then have "talking req (run_turn env a req)" by (rule conversation.run_turn_ended)
  then show ?thesis by (auto simp: talking_def grown_def list_all_iff)
qed

section \<open>Bounds\<close>

lemma attempts_length:
  "(case attempts env sreq left st of Aborted st' \<Rightarrow> length (lpRequests st') | Streamed st' _ \<Rightarrow> length (lpRequests st'))
     \<le> length (lpRequests st) + Suc left"
  using attempts_ok [of left sreq st env] by (auto simp: attempt_ok_def counted_def split: attempted.splits)

lemma finish_step_requests:
  "(case finish_step env a req step d st at' of Continue st' \<Rightarrow> lpRequests st' | stepped.Ended st' \<Rightarrow> lpRequests st') = lpRequests st"
proof -
  have after: "lpRequests st2 = lpRequests st"
    if "rerouted (counted_calls at' st) st1" "run_calls env a req step at' st1 = (st2, rs)" for st1 st2 rs
    using rerouted_frame(7) [OF that(1)] run_calls_frame(1) [OF that(2)] by (simp add: counted_calls_def)
  show ?thesis
    by (rule finish_step_cases [of env a req step d st at', OF refl]) (auto dest: after)
qed

lemma loop_step_requests:
  "length (case loop_step env a req step st of Continue st' \<Rightarrow> lpRequests st' | stepped.Ended st' \<Rightarrow> lpRequests st')
     \<le> length (lpRequests st) + 3"
proof -
  let ?s = "refresh env step (steer env step st)"
  let ?d = "directive step (step_ceiling a req) (lpStuck ?s)"
  have l: "length (lpRequests (warn ?d ?s)) = length (lpRequests st)"
    by (simp add: warn_def refresh_def steer_def Let_def)
  show ?thesis
    using attempts_length [of env "stream_request env a req ?d (warn ?d ?s)" maxStepRetries "warn ?d ?s"] l
      finish_step_requests [of env a req step ?d]
    by (cases "attempts env (stream_request env a req ?d (warn ?d ?s)) maxStepRetries (warn ?d ?s)")
       (auto simp: loop_step_def Let_def maxStepRetries_def)
qed

lemma run_from_requests:
  "length (lpRequests (run_from env a req step st))
     \<le> length (lpRequests st) + 3 * (nat (ceiling_of (step_ceiling a req) - step) + 1)"
proof (induction step st rule: run_from_induct [of env a req])
  case (1 step st)
  show ?case
  proof (cases "loop_step env a req step st")
    case (Ended st')
    with loop_step_requests [of env a req step st] show ?thesis by (simp add: run_from.simps [of env a req step st])
  next
    case (Continue st')
    with 1 [OF Continue] loop_step_requests [of env a req step st] loop_step_below [OF Continue]
    show ?thesis by (simp add: run_from.simps [of env a req step st])
  qed
qed

definition counts_as :: "Request \<Rightarrow> tool_effect \<Rightarrow> bool" where
  "counts_as req fx = (case fx of Executed c \<Rightarrow> tcName c \<notin> set (rqEndTurnTools req) | _ \<Rightarrow> False)"

definition executed_count :: "Request \<Rightarrow> tool_effect list \<Rightarrow> int" where
  "executed_count req fx = int (length (filter (counts_as req) fx))"

definition capped :: "Request \<Rightarrow> LoopState \<Rightarrow> bool" where
  "capped req st = (0 < rqMaxToolCalls req \<longrightarrow>
     executed_count req (lpEffects st) \<le> lpExecuted st \<and> lpExecuted st \<le> rqMaxToolCalls req)"

lemma resolveAndRun_once: "length (filter (counts_as req) (snd (snd (resolveAndRun ce names un call))))
    \<le> (if tcName call \<in> set (rqEndTurnTools req) then 0 else 1)"
proof -
  define once where "once = (\<lambda>r :: call_run. length (filter (counts_as req) (snd (snd r))) \<le> (if tcName call \<in> set (rqEndTurnTools req) then 0 else 1))"
  have run: "once (executes ce call evs fx)" if "filter (counts_as req) fx = []" for evs fx
    using that by (simp add: once_def run_defs counts_as_def)
  have idle: "once (refuse a b c)" "once (check_failed e)" "once user_denied" "once (denied_by ce res)" for a b c e res
    by (simp_all add: once_def run_defs)
  have evs: "once (with_events evs r) = once r" for evs r by (simp add: once_def with_events_def)
  have fx: "filter (counts_as req) [Granted n x] = []" for n x by (simp add: counts_as_def)
  have ask: "once (ask_and_run ce call res)" for res
    by (simp add: ask_and_run_def Let_def evs idle run fx split_def del: filter.simps)
  have gate: "once (under_gate ce call)"
    unfolding under_gate_def by (simp add: idle run ask split: sum.split Decision.split)
  have "once (resolveAndRun ce names un call)"
    unfolding resolveAndRun_def by (simp add: idle run gate split: sum.split Decision.split)
  then show ?thesis by (simp only: once_def)
qed

lemma executeOne_once: "length (filter (counts_as req) (snd (snd (executeOne cfg sf names un cap ce call))))
    \<le> (if tcName call \<in> set (rqEndTurnTools req) then 0 else 1)"
proof -
  have "filter (counts_as req) (snd (snd (executeOne cfg sf names un cap ce call)))
      = filter (counts_as req) (snd (snd (resolveAndRun ce names un call)))"
    by (simp add: executeOne_def Let_def case_prod_beta counts_as_def)
  with resolveAndRun_once show ?thesis by metis
qed

lemma executeAll_count:
  "length (filter (counts_as req) (concat (map (\<lambda>p. snd (snd p)) (executeAll env a req step st run))))
     \<le> length (filter (\<lambda>c. tcName c \<notin> set (rqEndTurnTools req)) run)"
proof -
  have "length (filter (counts_as req) (concat (map (\<lambda>p. snd (snd p))
      (map (\<lambda>(i, c). executeOne (agOffload a) (lpSurface st) (lpNames st) (rqUnattended req)
            (rqToolResultCap req) (leCall env step i) c) ics))))
     \<le> length (filter (\<lambda>c. tcName c \<notin> set (rqEndTurnTools req)) (map snd ics))" for ics
  proof (induction ics)
    case (Cons ic ics)
    obtain i c where ic: "ic = (i, c)" by fastforce
    from Cons executeOne_once [of req "agOffload a" "lpSurface st" "lpNames st" "rqUnattended req" "rqToolResultCap req"
        "leCall env step i" c] show ?case by (simp add: ic split: if_splits)
  qed simp
  from this [of "enumerate 0 run"] show ?thesis by (simp add: executeAll_def)
qed

lemma admit_count:
  assumes "0 < cap" "n \<le> cap"
  shows "snd (admit cap E n cs) \<le> cap \<and>
    n + int (length (filter (\<lambda>c. tcName c \<notin> E) (map fst (filter (\<lambda>p. \<not> snd p) (zip cs (fst (admit cap E n cs)))))))
      = snd (admit cap E n cs)"
  using assms(2)
proof (induction cs arbitrary: n)
  case (Cons c cs)
  from Cons.IH [of n] Cons.IH [of "n + 1"] Cons.prems assms(1) show ?case
    by (auto simp: case_prod_beta)
qed simp

lemma run_calls_capped:
  assumes "run_calls env a req step at' st = (st', rs)" "capped req st"
  shows "capped req st'"
proof (cases "0 < rqMaxToolCalls req")
  case True
  let ?adm = "admit (rqMaxToolCalls req) (set (rqEndTurnTools req)) (lpExecuted st) (atCalls at')"
  let ?run = "map fst (filter (\<lambda>p. \<not> snd p) (zip (atCalls at') (fst ?adm)))"
  have e: "lpExecuted (fst (run_calls env a req step at' st)) = snd ?adm"
    "lpEffects (fst (run_calls env a req step at' st))
       = lpEffects st @ concat (map (\<lambda>p. snd (snd p)) (executeAll env a req step st ?run))"
    by (simp_all add: run_calls_def Let_def case_prod_beta)
  from True assms(2) have "lpExecuted st \<le> rqMaxToolCalls req" "executed_count req (lpEffects st) \<le> lpExecuted st"
    by (simp_all add: capped_def)
  with admit_count [OF True this(1), of "set (rqEndTurnTools req)" "atCalls at'"]
    executeAll_count [of req env a step st ?run] e assms(1)
  show ?thesis by (simp add: capped_def executed_count_def)
qed (simp add: capped_def)

lemma capped_cong: "lpEffects st' = lpEffects st \<Longrightarrow> lpExecuted st' = lpExecuted st \<Longrightarrow> capped req st' = capped req st"
  by (simp add: capped_def)

interpretation cap: turn_stages env a req "capped req" "\<lambda>_ st _. capped req st" "capped req" for env a req
proof
  fix st st' d at' step
  show "capped req st \<Longrightarrow> capped req (steer env step st)" "capped req st \<Longrightarrow> capped req (warn d st)"
    "capped req st \<Longrightarrow> capped req (refresh env step st)"
    by (simp_all add: capped_def steer_def warn_def refresh_def Let_def)
  have "capped req st \<Longrightarrow> counted n sreq st s \<Longrightarrow> capped req s" for n sreq s
    using counted_same [of n sreq st s] by (auto simp: same_work_def capped_def)
  then show "capped req st \<Longrightarrow> attempts env (stream_request env a req d st) maxStepRetries st = Aborted st' \<Longrightarrow> capped req st'"
    "capped req st \<Longrightarrow> attempts env (stream_request env a req d st) maxStepRetries st = Streamed st' at' \<Longrightarrow> capped req st'"
    using attempts_ok [of maxStepRetries "stream_request env a req d st" st env] by (auto simp: attempt_ok_def)
  assume c: "capped req st"
  have after: "capped req st2"
    if r: "rerouted (counted_calls at' st) st1" "run_calls env a req step at' st1 = (st2, rs)" for st1 st2 rs
    using run_calls_capped [OF r(2)] rerouted_frame [OF r(1)] c capped_cong [of st1 st req]
    by (simp add: counted_calls_def)
  have frame: "capped req (st\<lparr>lpEffort := e\<rparr>) = capped req st" "capped req (end_turn ev st) = capped req st"
    "capped req (st\<lparr>lpCoerced := b, lpMsgs := ms\<rparr>) = capped req st" for e ev b ms st
    by (simp_all add: capped_def)
  show "finish_step env a req step d st at' = Continue st' \<Longrightarrow> capped req st'"
    by (erule finish_step_cases) (auto simp: frame c dest: after)
  show "finish_step env a req step d st at' = stepped.Ended st' \<Longrightarrow> capped req st'"
    by (erule finish_step_cases) (auto simp: frame c dest: after)
qed

text \<open>C24. A turn is bounded, whatever the model does: it makes at most three gateway calls for each step
  of its ceiling, and when the request caps its tool calls it executes at most that many, calls that end
  the turn aside.\<close>

theorem turn_is_bounded:
  "int (length (lpRequests (run_turn env a req))) \<le> 3 * ceiling_of (step_ceiling a req)
   \<and> (rqMaxToolCalls req \<le> 0
        \<or> int (length (filter (counts_as req) (lpEffects (run_turn env a req)))) \<le> rqMaxToolCalls req)"
proof -
  have pos: "0 < ceiling_of m" for m by (simp add: ceiling_of_def DefaultMaxSteps_def)
  have "lpRequests (initial a req) = []" by (simp add: initial_def case_prod_beta)
  with run_from_requests [of env a req 1 "initial a req"] pos [of "step_ceiling a req"]
  have "int (length (lpRequests (run_turn env a req))) \<le> 3 * ceiling_of (step_ceiling a req)"
    by (simp add: run_turn_def)
  moreover have "capped req (initial a req)" by (simp add: capped_def initial_def case_prod_beta executed_count_def)
  then have "capped req (run_turn env a req)" by (rule cap.run_turn_ended)
  ultimately show ?thesis by (auto simp: capped_def executed_count_def)
qed

section \<open>Sensitive routes\<close>

text \<open>A call is sensitive when every reading of the settings during the turn forces it to one route,
  by the suffix of its name or by its connector; the settings name no other route.\<close>

definition sensitive_call :: "loop_env \<Rightarrow> string \<Rightarrow> ToolCall \<Rightarrow> bool" where
  "sensitive_call env R c =
     (\<forall>step. (\<exists>suf. (suf, R) \<in> set (leSuffixRoutes env step) \<and> has_suffix (tcName c) suf)
        \<or> (\<exists>names. leConnectors env step = Some (names, R) \<and> connector_match env step names c))"

definition one_route :: "loop_env \<Rightarrow> string \<Rightarrow> bool" where
  "one_route env R =
     (R \<noteq> [] \<and> (\<forall>step. snd ` set (leSuffixRoutes env step) \<subseteq> {R, []}
        \<and> (\<forall>names r. leConnectors env step = Some (names, r) \<longrightarrow> r \<in> {R, []})))"

definition flipped :: "string \<Rightarrow> LoopState \<Rightarrow> bool" where
  "flipped R st = (lpRoute st = R \<and> lpHint st = [])"

definition answers_with :: "loop_env \<Rightarrow> nat \<Rightarrow> StreamRequest \<Rightarrow> ToolCall \<Rightarrow> bool" where
  "answers_with env i r c = (\<exists>evs. leStream env i r = Inr evs \<and> EvToolEnd (Some c) \<in> set evs)"

definition exposed :: "loop_env \<Rightarrow> string \<Rightarrow> StreamRequest list \<Rightarrow> nat \<Rightarrow> bool" where
  "exposed env R rs i = (i < length rs \<and> (\<exists>c. answers_with env i (rs ! i) c \<and> sensitive_call env R c))"

definition pinned :: "loop_env \<Rightarrow> string \<Rightarrow> LoopState \<Rightarrow> bool" where
  "pinned env R st =
     (lpCalls st = length (lpRequests st) \<and>
      (\<forall>i j. i < j \<and> j < length (lpRequests st) \<and> exposed env R (lpRequests st) i
         \<longrightarrow> srRoute (lpRequests st ! j) = R \<and> srModelHint (lpRequests st ! j) = []))"

definition kept :: "loop_env \<Rightarrow> string \<Rightarrow> LoopState \<Rightarrow> bool" where
  "kept env R st = (pinned env R st \<and> ((\<exists>i. exposed env R (lpRequests st) i) \<longrightarrow> flipped R st))"

definition caught :: "loop_env \<Rightarrow> string \<Rightarrow> LoopState \<Rightarrow> StepAttempt \<Rightarrow> bool" where
  "caught env R st at' = (pinned env R st \<and>
     ((\<exists>i. exposed env R (lpRequests st) i) \<longrightarrow>
        flipped R st \<or> (\<exists>c \<in> set (atCalls at'). sensitive_call env R c)))"

lemma kept_cong:
  "lpCalls st' = lpCalls st \<Longrightarrow> lpRequests st' = lpRequests st \<Longrightarrow> lpRoute st' = lpRoute st \<Longrightarrow> lpHint st' = lpHint st
     \<Longrightarrow> kept env R st' = kept env R st"
  "lpCalls st' = lpCalls st \<Longrightarrow> lpRequests st' = lpRequests st \<Longrightarrow> pinned env R st' = pinned env R st"
  by (simp_all add: kept_def pinned_def flipped_def)

lemma flip_flipped: "r \<in> {R, []} \<Longrightarrow> flipped R st \<Longrightarrow> flipped R (flip_to r st)"
  by (auto simp: flipped_def flip_to_def)

lemma flip_flips: "R \<noteq> [] \<Longrightarrow> flipped R (flip_to R st)"
  by (simp add: flipped_def flip_to_def)

lemma suffix_flips:
  assumes "R \<noteq> []" "snd ` set tab \<subseteq> {R, []}" "flipped R st \<or> (\<exists>suf. (suf, R) \<in> set tab \<and> has_suffix name suf)"
  shows "flipped R (fold (\<lambda>(suf, route) st. if has_suffix name suf then flip_to route st else st) tab st)"
  using assms(2,3)
proof (induction tab arbitrary: st)
  case (Cons p tab)
  obtain suf r where p: "p = (suf, r)" by fastforce
  from Cons.prems(1) have r: "r \<in> {R, []}" and tab: "snd ` set tab \<subseteq> {R, []}" by (auto simp: p)
  have "flipped R (if has_suffix name suf then flip_to r st else st) \<or> (\<exists>suf. (suf, R) \<in> set tab \<and> has_suffix name suf)"
    using Cons.prems(2) flip_flipped [OF r] flip_flips [OF assms(1)] by (auto simp: p)
  from Cons.IH [OF tab this] show ?case by (simp add: p)
qed simp

lemma force_routes_flips:
  assumes "one_route env R" "flipped R st \<or> sensitive_call env R c"
  shows "flipped R (force_routes env step c st)"
proof -
  let ?f = "\<lambda>(suf, route) st. if has_suffix (tcName c) suf then flip_to route st else st"
  let ?tab = "leSuffixRoutes env step"
  from assms(1) have R: "R \<noteq> []" and tab: "snd ` set ?tab \<subseteq> {R, []}"
    and conn: "leConnectors env step = Some (names, r) \<Longrightarrow> r \<in> {R, []}" for names r
    by (auto simp: one_route_def)
  show ?thesis
  proof (cases "flipped R st \<or> (\<exists>suf. (suf, R) \<in> set ?tab \<and> has_suffix (tcName c) suf)")
    case True
    from suffix_flips [OF R tab True] conn show ?thesis
      by (auto simp: force_routes_def Let_def split: option.split intro: flip_flipped)
  next
    case False
    with assms(2) obtain names where "leConnectors env step = Some (names, R)" "connector_match env step names c"
      unfolding sensitive_call_def by blast
    with R show ?thesis by (simp add: force_routes_def Let_def flip_flips)
  qed
qed

lemma fold_force_routes:
  assumes "one_route env R" "flipped R st \<or> (\<exists>c \<in> set cs. sensitive_call env R c)"
  shows "flipped R (fold (force_routes env step) cs st)"
  using assms(2)
proof (induction cs arbitrary: st)
  case (Cons c cs)
  have "flipped R (force_routes env step c st) \<or> (\<exists>c \<in> set cs. sensitive_call env R c)"
    using Cons.prems force_routes_flips [OF assms(1)] by auto
  from Cons.IH [OF this] show ?case by simp
qed simp

lemma read_stream_calls:
  assumes "read_stream evs st = (st', at')" "EvToolEnd (Some c) \<in> set evs"
  shows "c \<in> set (atCalls at') \<and> atEmitted at'"
proof -
  have keep: "c \<in> set (atCalls (snd p)) \<and> atEmitted (snd p) \<Longrightarrow>
      c \<in> set (atCalls (snd (fold read_event evs p))) \<and> atEmitted (snd (fold read_event evs p))" for p evs
    by (rule fold_invariant) (auto simp: read_event_def Let_def split: StreamEvent.split)
  have "EvToolEnd (Some c) \<in> set evs \<Longrightarrow>
      c \<in> set (atCalls (snd (fold read_event evs p))) \<and> atEmitted (snd (fold read_event evs p))" for p
  proof (induction evs arbitrary: p)
    case (Cons ev evs)
    show ?case
    proof (cases "ev = EvToolEnd (Some c)")
      case True
      then have "c \<in> set (atCalls (snd (read_event ev p))) \<and> atEmitted (snd (read_event ev p))"
        by (simp add: read_event_def Let_def)
      from keep [OF this] show ?thesis by simp
    next
      case False
      with Cons show ?thesis by simp
    qed
  qed simp
  from this [OF assms(2), of "(st, fresh_attempt)"] assms(1) show ?thesis by (simp add: read_stream_def)
qed

lemma exposed_snoc:
  "exposed env R (rs @ [r]) i \<longleftrightarrow> exposed env R rs i \<or> i = length rs \<and> (\<exists>c. answers_with env i r c \<and> sensitive_call env R c)"
  by (auto simp: exposed_def nth_append)

lemma pinned_sent:
  assumes "kept env R st" "srRoute sreq = lpRoute st" "srModelHint sreq = lpHint st"
  shows "pinned env R (sent sreq st)"
  using assms by (auto simp: kept_def pinned_def exposed_snoc flipped_def nth_append less_Suc_eq) 

definition attempt_caught :: "loop_env \<Rightarrow> string \<Rightarrow> attempted \<Rightarrow> bool" where
  "attempt_caught env R r =
     (case r of Aborted st' \<Rightarrow> pinned env R st' | Streamed st' at' \<Rightarrow> caught env R st' at')"

lemma kept_sent:
  assumes "kept env R st" "srRoute sreq = lpRoute st" "srModelHint sreq = lpHint st"
    "\<not> (\<exists>c. answers_with env (lpCalls st) sreq c \<and> sensitive_call env R c)"
  shows "kept env R (sent sreq st)"
  using pinned_sent [OF assms(1-3)] assms
  by (auto simp: kept_def exposed_snoc flipped_def pinned_def sent_def)

lemma caught_streamed:
  assumes "kept env R st" "srRoute sreq = lpRoute st" "srModelHint sreq = lpHint st"
    "leStream env (lpCalls st) sreq = Inr evs" "read_stream evs (sent sreq st) = (st', at')"
  shows "caught env R st' at'"
proof -
  note f = read_stream_facts [OF assms(5)]
  have p: "pinned env R st'" using pinned_sent [OF assms(1-3)] f kept_cong(2) by metis
  show ?thesis
  proof (cases "\<exists>c. answers_with env (lpCalls st) sreq c \<and> sensitive_call env R c")
    case True
    with assms(4) obtain c where "EvToolEnd (Some c) \<in> set evs" "sensitive_call env R c"
      by (auto simp: answers_with_def)
    with read_stream_calls [OF assms(5)] p show ?thesis by (auto simp: caught_def)
  next
    case False
    from kept_sent [OF assms(1-3) False] f kept_cong(1) [of st' "sent sreq st"]
    have "kept env R st'" by (simp add: same_work_def)
    then show ?thesis by (simp add: kept_def caught_def)
  qed
qed

lemma not_retried: "read_stream evs st = (st', at') \<Longrightarrow> retry_reason at' = Some w \<Longrightarrow> EvToolEnd (Some c) \<notin> set evs"
  using read_stream_calls by (fastforce simp: retry_reason_def split: option.splits StreamEvent.splits if_splits)

lemma attempts_caught:
  assumes "kept env R st" "srRoute sreq = lpRoute st" "srModelHint sreq = lpHint st"
  shows "attempt_caught env R (attempts env sreq left st)"
  using assms
proof (induction left arbitrary: st)
  case 0
  show ?case
  proof (cases "leStream env (lpCalls st) sreq")
    case (Inl err)
    with pinned_sent [OF 0] show ?thesis
      by (auto simp: attempts_unfold [of env sreq 0 st] attempt_caught_def kept_cong(2) [of "end_turn ev (sent sreq st)" "sent sreq st" for ev])
  next
    case (Inr evs)
    obtain st1 at' where "read_stream evs (sent sreq st) = (st1, at')" by fastforce
    with caught_streamed [OF 0 Inr this] Inr show ?thesis
      by (simp add: attempts_unfold [of env sreq 0 st] attempt_caught_def)
  qed
next
  case (Suc left)
  show ?case
  proof (cases "leStream env (lpCalls st) sreq")
    case (Inl err)
    let ?st' = "emit (retry_event (maxStepRetries - Suc left + 1) err) (sent sreq st)"
    have "kept env R (sent sreq st)" using Suc.prems Inl by (intro kept_sent) (auto simp: answers_with_def)
    then have k: "kept env R ?st'" using kept_cong(1) [of ?st' "sent sreq st"] by simp
    then have "pinned env R (end_turn ev ?st')" "pinned env R (end_turn ev (sent sreq st))" for ev
      using kept_cong(2) [of "end_turn ev ?st'" ?st'] pinned_sent [OF Suc.prems]
        kept_cong(2) [of "end_turn ev (sent sreq st)" "sent sreq st"] by (simp_all add: kept_def)
    moreover have "attempt_caught env R (attempts env sreq left ?st')"
      using Suc.IH [OF k] Suc.prems by (simp add: sent_def)
    ultimately show ?thesis
      using Inl by (simp add: attempts_unfold [of env sreq "Suc left" st] Let_def attempt_caught_def)
  next
    case (Inr evs)
    obtain st1 at' where r: "read_stream evs (sent sreq st) = (st1, at')" by fastforce
    note f = read_stream_facts [OF r]
    show ?thesis
    proof (cases "retry_reason at'")
      case None
      with caught_streamed [OF Suc.prems Inr r] Inr r show ?thesis
        by (simp add: attempts_unfold [of env sreq "Suc left" st] attempt_caught_def)
    next
      case (Some w)
      let ?st' = "emit (retry_event (maxStepRetries - Suc left + 1) w) st1"
      have "kept env R (sent sreq st)"
        using Suc.prems Inr not_retried [OF r Some] by (intro kept_sent) (auto simp: answers_with_def)
      then have k: "kept env R ?st'"
        using f kept_cong(1) [of ?st' "sent sreq st"] by (simp add: same_work_def)
      moreover have "lpRoute ?st' = lpRoute st" "lpHint ?st' = lpHint st" using f(1) by (simp_all add: same_work_def sent_def)
      ultimately have "attempt_caught env R (attempts env sreq left ?st')" using Suc.IH [OF k] Suc.prems by simp
      moreover have "caught env R ?st' at'" using k by (simp add: kept_def caught_def)
      ultimately show ?thesis
        using Inr r Some by (simp add: attempts_unfold [of env sreq "Suc left" st] attempt_caught_def)
    qed
  qed
qed

lemma finish_kept:
  assumes "one_route env R" "caught env R st at'"
    "st1 = fold (force_routes env step) (atCalls at') (counted_calls at' st)" "rerouted (counted_calls at' st) st1"
    "run_calls env a req step at' st1 = (st2, rs)"
  shows "kept env R st2"
proof -
  note f = rerouted_frame [OF assms(4)] run_calls_frame [OF assms(5)]
  have p: "pinned env R st2" using assms(2) f kept_cong(2) [of st2 st] by (simp add: caught_def counted_calls_def)
  have "flipped R st1" if "\<exists>i. exposed env R (lpRequests st) i"
  proof -
    from assms(2) that have "flipped R st \<or> (\<exists>c \<in> set (atCalls at'). sensitive_call env R c)"
      by (auto simp: caught_def)
    then have "flipped R (counted_calls at' st) \<or> (\<exists>c \<in> set (atCalls at'). sensitive_call env R c)"
      by (simp add: flipped_def counted_calls_def)
    with fold_force_routes [OF assms(1)] show ?thesis by (simp add: assms(3))
  qed
  with p f show ?thesis by (simp add: kept_def flipped_def counted_calls_def)
qed

lemma kept_pre:
  "kept env R (steer e step st) = kept env R st" "kept env R (refresh e step st) = kept env R st"
  "kept env R (warn d st) = kept env R st" "kept env R (st\<lparr>lpEffort := x\<rparr>) = kept env R st"
  "kept env R (st\<lparr>lpCoerced := b, lpMsgs := ms\<rparr>) = kept env R st"
  by (rule kept_cong(1); simp add: steer_def refresh_def warn_def Let_def)+

lemma pinned_end: "pinned env R (end_turn t st) = pinned env R st"
  by (rule kept_cong(2)) simp_all

interpretation sensitive: turn_stages env a req "\<lambda>st. one_route env R \<and> kept env R st"
  "\<lambda>_ st at'. one_route env R \<and> caught env R st at'" "pinned env R" for env a req R
proof
  fix st st' d at' step
  show "one_route env R \<and> kept env R st \<Longrightarrow> one_route env R \<and> kept env R (steer env step st)"
    "one_route env R \<and> kept env R st \<Longrightarrow> one_route env R \<and> kept env R (refresh env step st)"
    "one_route env R \<and> kept env R st \<Longrightarrow> one_route env R \<and> kept env R (warn d st)"
    by (simp_all add: kept_pre)
  show "one_route env R \<and> kept env R st
      \<Longrightarrow> attempts env (stream_request env a req d st) maxStepRetries st = Aborted st' \<Longrightarrow> pinned env R st'"
    "one_route env R \<and> kept env R st
      \<Longrightarrow> attempts env (stream_request env a req d st) maxStepRetries st = Streamed st' at'
      \<Longrightarrow> one_route env R \<and> caught env R st' at'"
    using attempts_caught [of env R st "stream_request env a req d st" maxStepRetries]
    by (auto simp: attempt_caught_def stream_request_def Let_def)
  assume "one_route env R \<and> caught env R st at'"
  then have o: "one_route env R" and c: "caught env R st at'" by simp_all
  have p: "pinned env R st" using c by (simp add: caught_def)
  note after = finish_kept [OF o c]
  show "finish_step env a req step d st at' = Continue st' \<Longrightarrow> one_route env R \<and> kept env R st'"
  proof (erule finish_step_cases)
    assume "atCalls at' = []"
    with c have "kept env R st" by (simp add: caught_def kept_def)
    moreover assume "Continue st' = Continue (st\<lparr>lpCoerced := True,
      lpMsgs := lpMsgs st @ [message ''assistant'' (atText at'), message ''user'' coercionMessage]\<rparr>)"
    ultimately show ?thesis using o by (simp add: kept_pre)
  qed (auto simp: o kept_pre intro: after [OF refl])
  show "finish_step env a req step d st at' = stepped.Ended st' \<Longrightarrow> pinned env R st'"
  proof (erule finish_step_cases)
    fix st1 st2 rs
    assume "st1 = fold (force_routes env step) (atCalls at') (counted_calls at' st)" "rerouted (counted_calls at' st) st1"
      "run_calls env a req step at' st1 = (st2, rs)"
    from after [OF this] have "pinned env R st2" by (simp add: kept_def)
    moreover assume "stepped.Ended st' = stepped.Ended (end_turn (EvDone (lpMeta st2)) st2)
      \<or> stepped.Ended st' = Continue (st2\<lparr>lpEffort := EffortFor rs\<rparr>)"
    ultimately show ?thesis by (simp add: pinned_end)
  qed (auto simp: p pinned_end)
qed

text \<open>C26. Once the model has called a sensitive tool, every later request of the turn goes to the
  sensitive route and carries no model hint, so its result never reaches a model outside that
  route's chain.\<close>

theorem sensitive_turns_stay_on_their_route:
  assumes "one_route env R"
    and "i < j" "j < length (lpRequests (run_turn env a req))"
    and "leStream env i (lpRequests (run_turn env a req) ! i) = Inr evs" "EvToolEnd (Some c) \<in> set evs"
    and "sensitive_call env R c"
  shows "srRoute (lpRequests (run_turn env a req) ! j) = R
    \<and> srModelHint (lpRequests (run_turn env a req) ! j) = []"
proof -
  have "kept env R (initial a req)"
    by (simp add: kept_def pinned_def initial_def case_prod_beta exposed_def)
  with assms(1) have "pinned env R (run_turn env a req)" by (intro sensitive.run_turn_ended) simp
  moreover have "exposed env R (lpRequests (run_turn env a req)) i"
    using assms by (auto simp: exposed_def answers_with_def)
  ultimately show ?thesis using assms(2,3) by (simp add: pinned_def)
qed

section \<open>Usage\<close>

text \<open>The sum over the steps drops two of the counters a provider reports: writes to the one-hour cache
  and reasoning tokens.\<close>

lemma usage_drops_counters:
  "usCacheWrite1h (add_usage t u) = usCacheWrite1h t" "usReasoning (add_usage t u) = usReasoning t"
  by (simp_all add: add_usage_def)

section \<open>A turn that reads mail\<close>

definition demo_call :: ToolCall where
  "demo_call = \<lparr>tcID = ''call_1'', tcName = ''mail_read'', tcInput = ''{}''\<rparr>"

definition demo_tools :: Constrained where
  "demo_tools = \<lparr>cTools = (\<lambda>n. if n = ''mail_read''
       then Some \<lparr>tTrusted = True, tTaintsTurn = False, tExecute = (\<lambda>_. Inr ''one mail'')\<rparr> else None),
     cParse = (\<lambda>_. None), cValidate = (\<lambda>_ _. None), cClamp = (\<lambda>_. None)\<rparr>"

definition demo_agent :: Agent where
  "demo_agent = \<lparr>agMaxSteps = 16, agOffload = \<lparr>ofAt = DefaultOffloadThreshold, ofPerTool = (\<lambda>_. None)\<rparr>,
     agExec = demo_tools, agDefs = [(''mail_read'', ''reads a mail'')],
     agBaseExec = demo_tools, agBaseDefs = []\<rparr>"

definition demo_request :: Request where
  "demo_request = \<lparr>rqSession = ''s'', rqRoute = ''chat'', rqAgent = ''main'', rqToolAllow = [], rqModelHint = ''m'',
     rqSystem = [], rqMessages = [message ''user'' ''any mail?''], rqMission = [], rqBuiltinsOnly = False,
     rqExtraTools = [], rqUnattended = False, rqForceTool = [], rqEndTurnTools = [], rqMaxSteps = 0,
     rqToolResultCap = 0, rqMaxToolCalls = 0\<rparr>"

definition demo_stream :: "nat \<Rightarrow> StreamEvent list" where
  "demo_stream n = (if n = 0 then [EvToolEnd (Some demo_call), EvDone None] else [EvChunk ''one'', EvDone None])"

definition demo_call_env :: call_env where
  "demo_call_env = \<lparr>ceResolve = (\<lambda>_ _ _. Inr (resolution DecisionAllow [] DangerSafe ExemptTool)), ceGate = True,
     ceAsk = None, ceRun = (\<lambda>_ _. RanOk ''one mail''), cePut = None, ceRationale = (\<lambda>_. [])\<rparr>"

definition demo_env :: loop_env where
  "demo_env = \<lparr>leStream = (\<lambda>n _. Inr (demo_stream n)), leStopped = (\<lambda>_. False), leWaited = (\<lambda>_. True),
     leSteering = (\<lambda>_. []), leRefresh = (\<lambda>_. []), leSuffixRoutes = (\<lambda>_. []),
     leConnectors = (\<lambda>_. Some ([''mail''], ''local'')), leAccount = None, leToolTokens = (\<lambda>_. None),
     leCall = (\<lambda>_ _. demo_call_env)\<rparr>"

lemma demo_runs: "Executed demo_call \<in> set (lpEffects (run_turn demo_env demo_agent demo_request))"
  by code_simp

lemma demo_requests: "length (lpRequests (run_turn demo_env demo_agent demo_request)) = 2"
  by code_simp

theorem tools_run_only_with_permission_witness:
  "(\<exists>r \<in> set (lpRequests (run_turn demo_env demo_agent demo_request)). ''mail_read'' \<in> fst ` set (srTools r))
   \<and> (\<exists>step i. settled (leCall demo_env step i) False demo_call)"
  using tools_run_only_with_permission [OF demo_runs] by (simp add: demo_call_def demo_request_def)

theorem sensitive_turns_stay_on_their_route_witness:
  "srRoute (lpRequests (run_turn demo_env demo_agent demo_request) ! 1) = ''local''
   \<and> srModelHint (lpRequests (run_turn demo_env demo_agent demo_request) ! 1) = []"
proof (rule sensitive_turns_stay_on_their_route)
  show "one_route demo_env ''local''" by (simp add: one_route_def demo_env_def)
  show "(0 :: nat) < 1" by simp
  show "1 < length (lpRequests (run_turn demo_env demo_agent demo_request))" by (simp add: demo_requests)
  show "leStream demo_env 0 (lpRequests (run_turn demo_env demo_agent demo_request) ! 0) = Inr (demo_stream 0)"
    by (simp add: demo_env_def)
  show "EvToolEnd (Some demo_call) \<in> set (demo_stream 0)" by (simp add: demo_stream_def)
  show "sensitive_call demo_env ''local'' demo_call"
    by (simp add: sensitive_call_def demo_env_def connector_match_def demo_call_def)
qed

end
