(* ===== verification/Perm_Broker.thy ===== *)
theory Perm_Broker
  imports Go_Json "HOL-Library.Multiset"
begin

text \<open>
  Permission prompts (\<open>internal/brain/loop/permbroker.go\<close>) over their table
  (\<open>internal/brain/loop/permstore.go\<close>). A prompt outlives its turn: an answer nobody waits for is
  recorded, and the next ask of the same call consumes it. The steps of \<open>broker_step\<close> are the
  database transactions and critical sections of the code, so every interleaving of the turns, the
  answers, the sweeps and a restart is a run. \<open>canon\<close> is the canonical form PostgreSQL compares
  \<open>jsonb\<close> values by; a fresh id is one never issued before.
\<close>

section \<open>Rows\<close>

record Ask =
  asSession :: string
  asMission :: string
  asTool :: string
  asArgs :: string

record perm_row =
  prID :: string
  prAsk :: Ask
  prCreated :: int
  prResolved :: "int option"
  prDecision :: string
  prCarry :: bool

definition Once :: string where "Once = ''once''"
definition Session :: string where "Session = ''session''"
definition TimedOut :: string where "TimedOut = ''timeout''"

definition onceCarryTTL :: int where "onceCarryTTL = 1800"
definition sessionGrantTTL :: int where "sessionGrantTTL = 43200"
definition permRetention :: int where "permRetention = 2592000"

definition normalizeArgs :: "string \<Rightarrow> string" where
  "normalizeArgs args =
     (if args = [] then ''{}'' else if json_parse args \<noteq> None then args else json_string args)"

definition same_call :: "(string \<Rightarrow> string) \<Rightarrow> Ask \<Rightarrow> Ask \<Rightarrow> bool" where
  "same_call canon p q =
     (asSession p = asSession q \<and> asMission p = asMission q \<and> asTool p = asTool q
      \<and> canon (asArgs p) = canon (asArgs q))"

definition redeemable :: "(string \<Rightarrow> string) \<Rightarrow> int \<Rightarrow> Ask \<Rightarrow> perm_row \<Rightarrow> bool" where
  "redeemable canon now p r =
     (prCarry r \<and> same_call canon (prAsk r) p \<and>
      (case prResolved r of
         None \<Rightarrow> False
       | Some t \<Rightarrow> now - (if prDecision r = Once then onceCarryTTL else sessionGrantTTL) < t))"

text \<open>\<open>ORDER BY ... LIMIT 1\<close>: the first row of least key.\<close>

definition pick_least :: "(perm_row \<Rightarrow> int) \<Rightarrow> perm_row list \<Rightarrow> perm_row option" where
  "pick_least key rs =
     (case rs of [] \<Rightarrow> None | r # rs' \<Rightarrow> Some (fold (\<lambda>q b. if key q < key b then q else b) rs' r))"

definition resolved_key :: "perm_row \<Rightarrow> int" where
  "resolved_key r = (case prResolved r of Some t \<Rightarrow> t | None \<Rightarrow> 0)"

definition spend :: "string \<Rightarrow> perm_row list \<Rightarrow> perm_row list" where
  "spend pid rows = map (\<lambda>r. if prID r = pid then r\<lparr>prCarry := False\<rparr> else r) rows"

definition Redeem :: "(string \<Rightarrow> string) \<Rightarrow> int \<Rightarrow> Ask \<Rightarrow> perm_row list \<Rightarrow> perm_row option" where
  "Redeem canon now p rows = pick_least resolved_key (filter (redeemable canon now p) rows)"

definition row_of :: "string \<Rightarrow> perm_row list \<Rightarrow> perm_row option" where
  "row_of pid rows = find (\<lambda>r. prID r = pid) rows"

text \<open>\<open>RedeemID\<close>: the carried decision if there is one, and whether the row is still pending.\<close>

definition RedeemID :: "string \<Rightarrow> perm_row list \<Rightarrow> string option \<times> bool" where
  "RedeemID pid rows =
     (case row_of pid rows of
        None \<Rightarrow> (None, False)
      | Some r \<Rightarrow> (if prCarry r then Some (prDecision r) else None, prResolved r = None))"

definition Adopt :: "(string \<Rightarrow> string) \<Rightarrow> Ask \<Rightarrow> string set \<Rightarrow> perm_row list \<Rightarrow> string option" where
  "Adopt canon p live rows =
     map_option prID (pick_least prCreated
       (filter (\<lambda>r. prResolved r = None \<and> same_call canon (prAsk r) p \<and> prID r \<notin> live) rows))"

definition resolve_row :: "int \<Rightarrow> string \<Rightarrow> string \<Rightarrow> bool \<Rightarrow> perm_row list \<Rightarrow> perm_row list" where
  "resolve_row now pid decision carry rows =
     map (\<lambda>r. if prID r = pid \<and> prResolved r = None
               then r\<lparr>prResolved := Some now, prDecision := decision, prCarry := carry\<rparr> else r) rows"

definition is_pending :: "string \<Rightarrow> perm_row list \<Rightarrow> bool" where
  "is_pending pid rows = (\<exists>r \<in> set rows. prID r = pid \<and> prResolved r = None)"

text \<open>\<open>Expire\<close>: \<open>parked\<close> are the prompts some mission row references.\<close>

definition Expire :: "int \<Rightarrow> string set \<Rightarrow> int \<Rightarrow> string set \<Rightarrow> perm_row list \<Rightarrow> perm_row list" where
  "Expire now live chatTimeout parked rows =
     map (\<lambda>r. if prResolved r = None \<and> prID r \<notin> live
                 \<and> (asMission (prAsk r) = [] \<and> prCreated r < now - chatTimeout
                    \<or> asMission (prAsk r) \<noteq> [] \<and> prCreated r < now - 60 \<and> prID r \<notin> parked)
               then r\<lparr>prResolved := Some now, prDecision := TimedOut\<rparr> else r) rows"

definition Prune :: "int \<Rightarrow> perm_row list \<Rightarrow> perm_row list" where
  "Prune now rows =
     filter (\<lambda>r. case prResolved r of Some t \<Rightarrow> \<not> t < now - permRetention | None \<Rightarrow> True) rows"

definition new_row :: "string \<Rightarrow> Ask \<Rightarrow> int \<Rightarrow> perm_row" where
  "new_row pid p now =
     \<lparr>prID = pid, prAsk = p, prCreated = now, prResolved = None, prDecision = [], prCarry = False\<rparr>"

section \<open>The broker\<close>

text \<open>Where a turn stands in \<open>Create\<close>, its wait and \<open>Forget\<close>.\<close>

datatype place =
    Redeeming
  | Adopting
  | Claiming string
  | Opening
  | Inserting string
  | Waiting string
  | Answered string string
  | Forgetting string
  | Finished

record asker =
  akAsk :: Ask
  akAt :: place
  akBox :: "string list"

text \<open>
  \<open>bkPending\<close> is the map from ids to the channels of live waiters, \<open>bkAskers\<close> the turns with their
  channels. The rest is history: what each id was issued for, the answers accepted from the user, the
  answers sent on a channel.
\<close>

record Broker =
  bkNow :: int
  bkRows :: "perm_row list"
  bkPending :: "string \<Rightarrow> nat option"
  bkAskers :: "nat \<Rightarrow> asker option"
  bkIssued :: "string \<Rightarrow> Ask option"
  bkGiven :: "(string \<times> string) list"
  bkSent :: "(nat \<times> string \<times> string) list"

definition goto :: "nat \<Rightarrow> place \<Rightarrow> Broker \<Rightarrow> Broker" where
  "goto k pl s =
     (case bkAskers s k of
        None \<Rightarrow> s
      | Some a \<Rightarrow> s\<lparr>bkAskers := (bkAskers s)(k \<mapsto> a\<lparr>akAt := pl\<rparr>)\<rparr>)"

definition send :: "nat \<Rightarrow> string \<Rightarrow> string \<Rightarrow> Broker \<Rightarrow> Broker" where
  "send k pid d s =
     (case bkAskers s k of
        None \<Rightarrow> s
      | Some a \<Rightarrow> s\<lparr>bkAskers := (bkAskers s)(k \<mapsto> a\<lparr>akBox := akBox a @ [d]\<rparr>),
                    bkSent := bkSent s @ [(k, pid, d)]\<rparr>)"

definition drop_waiter :: "string \<Rightarrow> Broker \<Rightarrow> Broker" where
  "drop_waiter pid s = s\<lparr>bkPending := (bkPending s)(pid := None)\<rparr>"

text \<open>The critical section of \<open>adopt\<close>, under \<open>resolveMu\<close>.\<close>

definition claim :: "nat \<Rightarrow> string \<Rightarrow> Broker \<Rightarrow> Broker" where
  "claim k pid s =
     (if bkPending s pid \<noteq> None then goto k Opening s
      else
        case RedeemID pid (bkRows s) of
          (Some d, _) \<Rightarrow> send k pid d (goto k (Waiting pid) (s\<lparr>bkRows := spend pid (bkRows s)\<rparr>))
        | (None, True) \<Rightarrow> goto k (Waiting pid) (s\<lparr>bkPending := (bkPending s)(pid \<mapsto> k)\<rparr>)
        | (None, False) \<Rightarrow> goto k Opening s)"

text \<open>\<open>Resolve\<close>, the user's answer; \<open>stored\<close> is false when the database fails.\<close>

definition Resolve_answer :: "bool \<Rightarrow> string \<Rightarrow> string \<Rightarrow> Broker \<Rightarrow> Broker \<times> bool" where
  "Resolve_answer stored pid d s =
     (let live = bkPending s pid;
          carry = (live = None \<and> (d = Once \<or> d = Session));
          ok = (stored \<and> is_pending pid (bkRows s));
          s1 = (drop_waiter pid s)\<lparr>bkRows := if stored then resolve_row (bkNow s) pid d carry (bkRows s) else bkRows s\<rparr>
      in case live of
           Some k \<Rightarrow> (send k pid d (s1\<lparr>bkGiven := bkGiven s1 @ [(pid, d)]\<rparr>), True)
         | None \<Rightarrow> (if ok then s1\<lparr>bkGiven := bkGiven s1 @ [(pid, d)]\<rparr> else s1, ok))"

inductive broker_step :: "(string \<Rightarrow> string) \<Rightarrow> Broker \<Rightarrow> Broker \<Rightarrow> bool" for canon where
  ask: "bkAskers s k = None \<Longrightarrow>
    broker_step canon s (s\<lparr>bkAskers := (bkAskers s)(k \<mapsto>
      \<lparr>akAsk = p\<lparr>asArgs := normalizeArgs (asArgs p)\<rparr>, akAt = Redeeming, akBox = []\<rparr>)\<rparr>)"
| redeemed: "bkAskers s k = Some a \<Longrightarrow> akAt a = Redeeming \<Longrightarrow> Redeem canon (bkNow s) (akAsk a) (bkRows s) = Some r \<Longrightarrow>
    broker_step canon s (send k (prID r) (prDecision r)
      (goto k (Waiting (prID r)) (s\<lparr>bkRows := spend (prID r) (bkRows s)\<rparr>)))"
| nothing_carried: "bkAskers s k = Some a \<Longrightarrow> akAt a = Redeeming \<Longrightarrow>
    Redeem canon (bkNow s) (akAsk a) (bkRows s) = None \<Longrightarrow> broker_step canon s (goto k Adopting s)"
| adopts: "bkAskers s k = Some a \<Longrightarrow> akAt a = Adopting \<Longrightarrow>
    Adopt canon (akAsk a) (dom (bkPending s)) (bkRows s) = Some pid \<Longrightarrow> broker_step canon s (goto k (Claiming pid) s)"
| nothing_open: "bkAskers s k = Some a \<Longrightarrow> akAt a = Adopting \<Longrightarrow>
    Adopt canon (akAsk a) (dom (bkPending s)) (bkRows s) = None \<Longrightarrow> broker_step canon s (goto k Opening s)"
| claims: "bkAskers s k = Some a \<Longrightarrow> akAt a = Claiming pid \<Longrightarrow> broker_step canon s (claim k pid s)"
| opens: "bkAskers s k = Some a \<Longrightarrow> akAt a = Opening \<Longrightarrow> bkIssued s pid = None \<Longrightarrow>
    broker_step canon s (goto k (Inserting pid)
      (s\<lparr>bkPending := (bkPending s)(pid \<mapsto> k), bkIssued := (bkIssued s)(pid \<mapsto> akAsk a)\<rparr>))"
| inserted: "bkAskers s k = Some a \<Longrightarrow> akAt a = Inserting pid \<Longrightarrow>
    broker_step canon s (goto k (Waiting pid) (s\<lparr>bkRows := bkRows s @ [new_row pid (akAsk a) (bkNow s)]\<rparr>))"
| failed: "bkAskers s k = Some a \<Longrightarrow> akAt a \<in> {Redeeming, Adopting} \<or> (\<exists>pid. akAt a = Claiming pid) \<Longrightarrow>
    broker_step canon s (goto k Finished s)"
| not_inserted: "bkAskers s k = Some a \<Longrightarrow> akAt a = Inserting pid \<Longrightarrow>
    broker_step canon s (goto k Finished (drop_waiter pid s))"
| received: "bkAskers s k = Some a \<Longrightarrow> akAt a = Waiting pid \<Longrightarrow> akBox a = d # ds \<Longrightarrow>
    broker_step canon s (goto k (Answered pid d) s)"
| gave_up: "bkAskers s k = Some a \<Longrightarrow> akAt a = Waiting pid \<Longrightarrow>
    broker_step canon s (goto k (Answered pid TimedOut) s)"
| dropped: "bkAskers s k = Some a \<Longrightarrow> akAt a = Answered pid d \<Longrightarrow>
    broker_step canon s (goto k (Forgetting pid) (drop_waiter pid s))"
| forgot: "bkAskers s k = Some a \<Longrightarrow> akAt a = Forgetting pid \<Longrightarrow>
    broker_step canon s (goto k Finished (s\<lparr>bkRows := resolve_row (bkNow s) pid TimedOut False (bkRows s)\<rparr>))"
| forget_failed: "bkAskers s k = Some a \<Longrightarrow> akAt a = Forgetting pid \<Longrightarrow> broker_step canon s (goto k Finished s)"
| answer: "broker_step canon s (fst (Resolve_answer stored pid d s))"
| sweep: "broker_step canon s
    (s\<lparr>bkRows := Prune (bkNow s) (Expire (bkNow s) (dom (bkPending s)) chatTimeout parked (bkRows s))\<rparr>)"
| tick: "0 \<le> n \<Longrightarrow> broker_step canon s (s\<lparr>bkNow := bkNow s + n\<rparr>)"
| restart: "broker_step canon s
    (s\<lparr>bkPending := (\<lambda>_. None), bkAskers := (\<lambda>k. map_option (\<lambda>a. a\<lparr>akAt := Finished\<rparr>) (bkAskers s k))\<rparr>)"

definition idle_broker :: "int \<Rightarrow> Broker" where
  "idle_broker now =
     \<lparr>bkNow = now, bkRows = [], bkPending = (\<lambda>_. None), bkAskers = (\<lambda>_. None), bkIssued = (\<lambda>_. None),
      bkGiven = [], bkSent = []\<rparr>"

inductive broker_reach :: "(string \<Rightarrow> string) \<Rightarrow> Broker \<Rightarrow> bool" for canon where
  start: "broker_reach canon (idle_broker now)"
| step: "broker_reach canon s \<Longrightarrow> broker_step canon s s' \<Longrightarrow> broker_reach canon s'"

end
