(* ===== verification/Perm_Props.thy ===== *)
theory Perm_Props
  imports Perm_Broker
begin

text \<open>
  What the broker guarantees in every interleaving: an answer is spent at most once, on the call it was
  given for, and a channel never holds more than the one value its buffer has room for.
\<close>

section \<open>Facts about the table\<close>

definition carried :: "perm_row list \<Rightarrow> (string \<times> string) list" where
  "carried rows = map (\<lambda>r. (prID r, prDecision r)) (filter prCarry rows)"

lemma goto_Some: "bkAskers s k = Some a \<Longrightarrow> goto k pl s = s\<lparr>bkAskers := (bkAskers s)(k \<mapsto> a\<lparr>akAt := pl\<rparr>)\<rparr>"
  by (simp add: goto_def)

lemma send_Some: "bkAskers s k = Some a \<Longrightarrow>
    send k pid d s = s\<lparr>bkAskers := (bkAskers s)(k \<mapsto> a\<lparr>akBox := akBox a @ [d]\<rparr>), bkSent := bkSent s @ [(k, pid, d)]\<rparr>"
  by (simp add: send_def)

lemma fold_least_in: "fold (\<lambda>q b. if key q < key b then q else b) rs r \<in> insert r (set rs)"
proof (induction rs arbitrary: r)
  case (Cons q rs)
  from Cons [of "if key q < key r then q else r"] show ?case by (auto split: if_splits)
qed simp

lemma pick_least_in: "pick_least key rs = Some r \<Longrightarrow> r \<in> set rs"
  using fold_least_in [of key "tl rs" "hd rs"] by (cases rs) (auto simp: pick_least_def)

lemma Redeem_row: "Redeem canon now p rows = Some r \<Longrightarrow> r \<in> set rows \<and> prCarry r \<and> same_call canon (prAsk r) p"
  by (auto simp: Redeem_def redeemable_def dest!: pick_least_in)

lemma row_of_Some: "row_of pid rows = Some r \<Longrightarrow> r \<in> set rows \<and> prID r = pid"
  unfolding row_of_def by (auto simp: find_Some_iff)

lemma RedeemID_carried: "RedeemID pid rows = (Some d, b) \<Longrightarrow> (\<exists>r \<in> set rows. prID r = pid \<and> prCarry r \<and> prDecision r = d)"
  by (auto simp: RedeemID_def split: option.splits if_splits dest: row_of_Some)

lemma Adopt_row: "Adopt canon p live rows = Some pid \<Longrightarrow> (\<exists>r \<in> set rows. prID r = pid \<and> same_call canon (prAsk r) p)"
  by (auto simp: Adopt_def dest!: pick_least_in)

lemma table_ids [simp]:
  "map prID (spend pid rows) = map prID rows" "map prID (resolve_row now pid d c rows) = map prID rows"
  "map prID (Expire now live ct parked rows) = map prID rows" "prID (new_row pid p now) = pid"
  by (auto simp: spend_def resolve_row_def Expire_def new_row_def)

lemma table_asks:
  "map prAsk (spend pid rows) = map prAsk rows" "map prAsk (resolve_row now pid d c rows) = map prAsk rows"
  "map prAsk (Expire now live ct parked rows) = map prAsk rows"
  by (auto simp: spend_def resolve_row_def Expire_def)

text \<open>Spending a carried row takes its answer out of the table.\<close>

lemma carried_spend:
  assumes "distinct (map prID rows)" "r \<in> set rows" "prCarry r"
  shows "mset (carried rows) = add_mset (prID r, prDecision r) (mset (carried (spend (prID r) rows)))"
  using assms
proof (induction rows)
  case (Cons q rows)
  show ?case
  proof (cases "prID q = prID r")
    case True
    with Cons.prems have "q = r" by (auto simp: image_iff)
    moreover have "spend (prID r) rows = rows"
      unfolding spend_def using Cons.prems \<open>q = r\<close> by (intro map_idI) (auto simp: image_iff)
    ultimately show ?thesis using Cons.prems by (simp add: carried_def spend_def)
  next
    case False
    with Cons have "mset (carried rows) = add_mset (prID r, prDecision r) (mset (carried (spend (prID r) rows)))" by auto
    with False show ?thesis by (auto simp: carried_def spend_def)
  qed
qed simp

definition rows_ok :: "Broker \<Rightarrow> bool" where
  "rows_ok s = (distinct (map prID (bkRows s)) \<and>
     (\<forall>r \<in> set (bkRows s). bkIssued s (prID r) = Some (prAsk r) \<and> (prCarry r \<longrightarrow> prResolved r \<noteq> None)))"

definition inserting_ok :: "Broker \<Rightarrow> bool" where
  "inserting_ok s = (\<forall>k a pid. bkAskers s k = Some a \<and> akAt a = Inserting pid \<longrightarrow>
     bkIssued s pid = Some (akAsk a) \<and> pid \<notin> prID ` set (bkRows s) \<and>
     (\<forall>k' a'. bkAskers s k' = Some a' \<and> akAt a' = Inserting pid \<longrightarrow> k' = k))"

definition issued_for :: "(string \<Rightarrow> string) \<Rightarrow> Broker \<Rightarrow> string \<Rightarrow> asker \<Rightarrow> bool" where
  "issued_for canon s pid a = (\<exists>q. bkIssued s pid = Some q \<and> same_call canon q (akAsk a))"

definition waiters_ok :: "(string \<Rightarrow> string) \<Rightarrow> Broker \<Rightarrow> bool" where
  "waiters_ok canon s = (\<forall>pid k. bkPending s pid = Some k \<longrightarrow>
     (\<exists>a. bkAskers s k = Some a \<and> akBox a = [] \<and> akAt a \<in> {Inserting pid, Waiting pid, Answered pid TimedOut}
        \<and> issued_for canon s pid a))"

definition early :: "place \<Rightarrow> bool" where
  "early pl = (case pl of Redeeming \<Rightarrow> True | Adopting \<Rightarrow> True | Claiming _ \<Rightarrow> True | Opening \<Rightarrow> True | _ \<Rightarrow> False)"

definition askers_ok :: "(string \<Rightarrow> string) \<Rightarrow> Broker \<Rightarrow> bool" where
  "askers_ok canon s = (\<forall>k a. bkAskers s k = Some a \<longrightarrow>
     length (akBox a) \<le> 1 \<and> (early (akAt a) \<longrightarrow> akBox a = []) \<and>
     (\<forall>pid. akAt a = Claiming pid \<longrightarrow> issued_for canon s pid a))"

definition sent_ok :: "(string \<Rightarrow> string) \<Rightarrow> Broker \<Rightarrow> bool" where
  "sent_ok canon s = (\<forall>(k, pid, d) \<in> set (bkSent s). \<exists>a. bkAskers s k = Some a \<and> issued_for canon s pid a)"

definition accounted :: "Broker \<Rightarrow> bool" where
  "accounted s = (mset (map snd (bkSent s)) + mset (carried (bkRows s)) \<subseteq># mset (bkGiven s))"

lemma rows_okD: "rows_ok s \<Longrightarrow> r \<in> set (bkRows s) \<Longrightarrow> bkIssued s (prID r) = Some (prAsk r)"
  by (simp add: rows_ok_def)

lemma same_call_refl: "same_call canon p p"
  by (simp add: same_call_def)

text \<open>What a step does to the table and to the issued ids.\<close>

lemma rows_ok_spend: "rows_ok s \<Longrightarrow> rows_ok (s\<lparr>bkRows := spend pid (bkRows s)\<rparr>)"
  unfolding rows_ok_def by (simp del: map_map) (auto simp: spend_def)

lemma rows_ok_resolve: "rows_ok s \<Longrightarrow> rows_ok (s\<lparr>bkRows := resolve_row now pid d c (bkRows s)\<rparr>)"
  unfolding rows_ok_def by (simp del: map_map) (auto simp: resolve_row_def)

lemma rows_ok_sweep: "rows_ok s \<Longrightarrow> rows_ok (s\<lparr>bkRows := Prune now (Expire n2 live ct parked (bkRows s))\<rparr>)"
proof -
  assume r: "rows_ok s"
  have "distinct (map prID (Expire n2 live ct parked (bkRows s)))" using r by (simp add: rows_ok_def)
  then have "distinct (map prID (Prune now (Expire n2 live ct parked (bkRows s))))"
    unfolding Prune_def by (rule distinct_map_filter)
  moreover have "bkIssued s (prID x) = Some (prAsk x) \<and> (prCarry x \<longrightarrow> prResolved x \<noteq> None)"
    if "x \<in> set (Prune now (Expire n2 live ct parked (bkRows s)))" for x
  proof -
    have "x \<in> set (Expire n2 live ct parked (bkRows s))" using that by (simp add: Prune_def)
    then obtain y where "y \<in> set (bkRows s)" "x = y \<or> x = y\<lparr>prResolved := Some n2, prDecision := TimedOut\<rparr>"
      unfolding Expire_def set_map by (elim imageE) (metis (no_types, lifting))
    with r show ?thesis by (auto simp: rows_ok_def)
  qed
  ultimately show ?thesis unfolding rows_ok_def by simp
qed

lemma rows_ok_cong: "bkRows s' = bkRows s \<Longrightarrow> bkIssued s' = bkIssued s \<Longrightarrow> rows_ok s' = rows_ok s"
  by (simp add: rows_ok_def)

lemma frame [simp]:
  "bkRows (goto k pl s) = bkRows s" "bkIssued (goto k pl s) = bkIssued s" "bkPending (goto k pl s) = bkPending s"
  "bkGiven (goto k pl s) = bkGiven s" "bkSent (goto k pl s) = bkSent s"
  "bkRows (send k pid d s) = bkRows s" "bkIssued (send k pid d s) = bkIssued s" "bkPending (send k pid d s) = bkPending s"
  "bkGiven (send k pid d s) = bkGiven s"
  "bkRows (drop_waiter pid s) = bkRows s" "bkIssued (drop_waiter pid s) = bkIssued s"
  "bkAskers (drop_waiter pid s) = bkAskers s" "bkGiven (drop_waiter pid s) = bkGiven s" "bkSent (drop_waiter pid s) = bkSent s"
  "bkPending (drop_waiter pid s) = (bkPending s)(pid := None)"
  by (simp_all add: goto_def send_def drop_waiter_def split: option.split)

lemma step_rows:
  assumes "broker_step canon s s'" "rows_ok s" "inserting_ok s"
  shows "rows_ok s'"
  using assms
proof cases
  case (redeemed k a r)
  with rows_ok_spend assms(2) show ?thesis by (subst rows_ok_cong [of _ "s\<lparr>bkRows := spend (prID r) (bkRows s)\<rparr>"]) simp_all
next
  case (claims k a pid)
  with rows_ok_spend [OF assms(2), of pid] assms(2) show ?thesis
    by (auto simp: claim_def rows_ok_def split: option.split prod.split bool.split)
next
  case (opens k a pid)
  with assms(2) show ?thesis by (auto simp: rows_ok_def)
next
  case (inserted k a pid)
  with assms(2,3) show ?thesis by (auto simp: rows_ok_def inserting_ok_def new_row_def)
next
  case (forgot k a pid)
  with rows_ok_resolve [OF assms(2)] show ?thesis
    by (subst rows_ok_cong [of _ "s\<lparr>bkRows := resolve_row (bkNow s) pid TimedOut False (bkRows s)\<rparr>"]) simp_all
next
  case (answer stored pid d)
  with rows_ok_resolve [OF assms(2)] assms(2) show ?thesis
    by (auto simp: Resolve_answer_def Let_def rows_ok_def split: option.split)
next
  case (sweep ct parked)
  with rows_ok_sweep [OF assms(2)] show ?thesis by simp
qed (use assms(2) in \<open>simp_all add: rows_ok_def\<close>)

text \<open>What a step does to the turns that insert: most steps leave none behind that was not there.\<close>

lemma inserting_frame:
  assumes "inserting_ok s" "bkIssued s' = bkIssued s" "prID ` set (bkRows s') \<subseteq> prID ` set (bkRows s)"
    "\<And>j b q. bkAskers s' j = Some b \<Longrightarrow> akAt b = Inserting q
       \<Longrightarrow> \<exists>c. bkAskers s j = Some c \<and> akAt c = Inserting q \<and> akAsk c = akAsk b"
  shows "inserting_ok s'"
  unfolding inserting_ok_def
proof (intro allI impI)
  fix j b q
  assume "bkAskers s' j = Some b \<and> akAt b = Inserting q"
  with assms(4) obtain c where c: "bkAskers s j = Some c" "akAt c = Inserting q" "akAsk c = akAsk b" by blast
  have "\<forall>k' a'. bkAskers s k' = Some a' \<and> akAt a' = Inserting q \<longrightarrow> k' = j"
    and "bkIssued s q = Some (akAsk c)" "q \<notin> prID ` set (bkRows s)"
    using assms(1) c(1,2) unfolding inserting_ok_def by blast+
  moreover from this(1) have "\<forall>k' a'. bkAskers s' k' = Some a' \<and> akAt a' = Inserting q \<longrightarrow> k' = j"
    using assms(4) by blast
  ultimately show "bkIssued s' q = Some (akAsk b) \<and> q \<notin> prID ` set (bkRows s') \<and>
      (\<forall>k' a'. bkAskers s' k' = Some a' \<and> akAt a' = Inserting q \<longrightarrow> k' = j)"
    using assms(2,3) c(3) by (metis subsetD)
qed

lemma image_spend [simp]:
  "prID ` set (spend pid rows) = prID ` set rows" "prID ` set (resolve_row now pid d c rows) = prID ` set rows"
  using table_ids by (metis list.set_map)+

lemma image_sweep: "prID ` set (Prune now (Expire n2 live ct parked rows)) \<subseteq> prID ` set rows"
proof -
  have "prID ` set (Prune now (Expire n2 live ct parked rows)) \<subseteq> prID ` set (Expire n2 live ct parked rows)"
    by (auto simp: Prune_def)
  also have "\<dots> = prID ` set rows" using table_ids(3) by (metis list.set_map)
  finally show ?thesis .
qed

lemma goto_asker: "bkAskers (goto k pl s) j = Some b \<Longrightarrow>
    \<exists>c. bkAskers s j = Some c \<and> akAsk b = akAsk c \<and> akBox b = akBox c \<and> akAt b = (if j = k then pl else akAt c)"
  by (auto simp: goto_def split: option.splits if_splits)

lemma send_asker: "bkAskers (send k pid d s) j = Some b \<Longrightarrow>
    \<exists>c. bkAskers s j = Some c \<and> akAsk b = akAsk c \<and> akAt b = akAt c \<and> akBox b = akBox c @ (if j = k then [d] else [])"
  by (auto simp: send_def split: option.splits if_splits)

lemma claim_asker: "bkAskers (claim k pid s) j = Some b \<Longrightarrow>
    \<exists>c. bkAskers s j = Some c \<and> akAsk b = akAsk c \<and> (if j = k then akAt b \<in> {Opening, Waiting pid} else akAt b = akAt c)"
  by (fastforce simp: claim_def split: option.splits prod.splits bool.splits if_splits dest!: goto_asker send_asker)

lemma answer_asker: "bkAskers (fst (Resolve_answer stored pid d s)) j = Some b \<Longrightarrow>
    \<exists>c. bkAskers s j = Some c \<and> akAsk b = akAsk c \<and> akAt b = akAt c"
  by (fastforce simp: Resolve_answer_def Let_def split: option.splits if_splits dest!: send_asker)


lemma step_inserting:
  assumes "broker_step canon s s'" "inserting_ok s" "rows_ok s"
  shows "inserting_ok s'"
  using assms(1)
proof cases
  case (ask k p)
  then show ?thesis by (intro inserting_frame [OF assms(2)]) (auto split: if_splits)
next
  case (redeemed k a r)
  then have "bkIssued s' = bkIssued s" "prID ` set (bkRows s') \<subseteq> prID ` set (bkRows s)" by simp_all
  moreover have "\<exists>c. bkAskers s j = Some c \<and> akAt c = Inserting q \<and> akAsk c = akAsk b"
    if "bkAskers s' j = Some b" "akAt b = Inserting q" for j b q
    using redeemed that by (auto simp: goto_Some send_def split: if_splits)
  ultimately show ?thesis by (intro inserting_frame [OF assms(2)])
next
  case (claims k a pid)
  have "bkIssued s' = bkIssued s" "prID ` set (bkRows s') \<subseteq> prID ` set (bkRows s)"
    using claims by (auto simp: claim_def split: option.split prod.split bool.split)
  moreover have "\<exists>c. bkAskers s j = Some c \<and> akAt c = Inserting q \<and> akAsk c = akAsk b"
    if "bkAskers s' j = Some b" "akAt b = Inserting q" for j b q
    using claims that claim_asker [of k pid s j b] by (auto split: if_splits)
  ultimately show ?thesis by (intro inserting_frame [OF assms(2)])
next
  case (opens k a pid)
  have fresh: "pid \<notin> prID ` set (bkRows s)" using opens assms(3) by (force simp: rows_ok_def)
  have unused: "bkAskers s k' = Some a' \<Longrightarrow> akAt a' \<noteq> Inserting pid" for k' a'
    using opens assms(2) by (force simp: inserting_ok_def)
  show ?thesis
    unfolding inserting_ok_def
  proof (intro allI impI)
    fix j b q
    assume b: "bkAskers s' j = Some b \<and> akAt b = Inserting q"
    show "bkIssued s' q = Some (akAsk b) \<and> q \<notin> prID ` set (bkRows s') \<and>
      (\<forall>k' a'. bkAskers s' k' = Some a' \<and> akAt a' = Inserting q \<longrightarrow> k' = j)"
    proof (cases "j = k")
      case True
      with b opens fresh unused show ?thesis by (auto simp: goto_Some)
    next
      case False
      with b opens have "bkAskers s j = Some b" "q \<noteq> pid" using unused by (auto simp: goto_Some)
      with b assms(2) opens show ?thesis unfolding inserting_ok_def by (auto simp: goto_Some)
    qed
  qed
next
  case (inserted k a pid)
  show ?thesis
    unfolding inserting_ok_def
  proof (intro allI impI)
    fix j b q
    assume b: "bkAskers s' j = Some b \<and> akAt b = Inserting q"
    with inserted have j: "j \<noteq> k" "bkAskers s j = Some b" by (auto simp: goto_Some split: if_splits)
    with inserted b assms(2) have "q \<noteq> pid" unfolding inserting_ok_def by blast
    with b j inserted assms(2) show "bkIssued s' q = Some (akAsk b) \<and> q \<notin> prID ` set (bkRows s') \<and>
      (\<forall>k' a'. bkAskers s' k' = Some a' \<and> akAt a' = Inserting q \<longrightarrow> k' = j)"
      unfolding inserting_ok_def by (auto simp: goto_Some)
  qed
next
  case (answer stored pid d)
  have "bkIssued s' = bkIssued s" "prID ` set (bkRows s') \<subseteq> prID ` set (bkRows s)"
    using answer by (auto simp: Resolve_answer_def Let_def split: option.split)
  with answer show ?thesis
    by (intro inserting_frame [OF assms(2)]) (auto dest!: answer_asker)
next
  case (sweep ct parked)
  with image_sweep show ?thesis by (intro inserting_frame [OF assms(2)]) auto
next
  case restart
  then show ?thesis by (auto simp: inserting_ok_def)
qed (intro inserting_frame [OF assms(2)], auto dest!: goto_asker split: if_splits)+

section \<open>The turns that wait\<close>

abbreviation waits :: "place \<Rightarrow> string \<Rightarrow> bool" where
  "waits pl pid \<equiv> pl \<in> {Inserting pid, Waiting pid, Answered pid TimedOut}"

lemma waits_one: "waits pl pid \<Longrightarrow> waits pl q \<Longrightarrow> q = pid"
  by auto

lemma issued_for_keep: "issued_for canon s pid a \<Longrightarrow> bkIssued s' pid = bkIssued s pid \<Longrightarrow> akAsk b = akAsk a
    \<Longrightarrow> issued_for canon s' pid b"
  by (simp add: issued_for_def)

lemma waitersD:
  assumes "waiters_ok canon s" "bkPending s pid = Some k"
  obtains a where "bkAskers s k = Some a" "akBox a = []" "waits (akAt a) pid" "issued_for canon s pid a"
  using assms unfolding waiters_ok_def by blast

lemma waiters_frame:
  assumes "waiters_ok canon s" "\<And>pid k. bkPending s' pid = Some k \<Longrightarrow> bkPending s pid = Some k"
    "bkIssued s' = bkIssued s"
    "\<And>pid k a. bkPending s' pid = Some k \<Longrightarrow> bkAskers s k = Some a \<Longrightarrow> akBox a = [] \<Longrightarrow> waits (akAt a) pid
       \<Longrightarrow> \<exists>b. bkAskers s' k = Some b \<and> akAsk b = akAsk a \<and> akBox b = [] \<and> waits (akAt b) pid"
  shows "waiters_ok canon s'"
  unfolding waiters_ok_def
proof (intro allI impI)
  fix pid k
  assume p: "bkPending s' pid = Some k"
  with assms(1,2) obtain a where a: "bkAskers s k = Some a" "akBox a = []" "waits (akAt a) pid" "issued_for canon s pid a"
    by (meson waitersD)
  with assms(4) [OF p] obtain b where "bkAskers s' k = Some b" "akAsk b = akAsk a" "akBox b = []" "waits (akAt b) pid"
    by blast
  with a(4) assms(3) show "\<exists>b. bkAskers s' k = Some b \<and> akBox b = [] \<and> waits (akAt b) pid \<and> issued_for canon s' pid b"
    by (auto simp: issued_for_def)
qed

lemma early_not_waits: "early pl \<Longrightarrow> \<not> waits pl pid"
  by (auto simp: early_def)

lemma askersD: "askers_ok canon s \<Longrightarrow> bkAskers s k = Some a \<Longrightarrow> early (akAt a) \<Longrightarrow> akBox a = []"
  by (simp add: askers_ok_def)

lemma askers_claim: "askers_ok canon s \<Longrightarrow> bkAskers s k = Some a \<Longrightarrow> akAt a = Claiming pid \<Longrightarrow> issued_for canon s pid a"
  by (simp add: askers_ok_def)

text \<open>A turn that waits for nothing may move freely.\<close>

lemma waiters_other:
  assumes "waiters_ok canon s" "bkAskers s k = Some a" "\<And>pid. \<not> waits (akAt a) pid \<or> akBox a \<noteq> []"
    "bkPending s' = bkPending s" "bkIssued s' = bkIssued s" "\<And>j. j \<noteq> k \<Longrightarrow> bkAskers s' j = bkAskers s j"
  shows "waiters_ok canon s'"
proof (rule waiters_frame [OF assms(1)])
  fix pid j b
  assume "bkAskers s j = Some b" "akBox b = []" "waits (akAt b) pid"
  moreover from this assms(2) assms(3) [of pid] have "j \<noteq> k" by auto
  ultimately show "\<exists>b'. bkAskers s' j = Some b' \<and> akAsk b' = akAsk b \<and> akBox b' = [] \<and> waits (akAt b') pid"
    using assms(6) by auto
qed (use assms in auto)

text \<open>A turn becomes the waiter of an id.\<close>

lemma waiters_new:
  assumes "waiters_ok canon s" "bkAskers s k = Some a" "early (akAt a)" "akBox a = []"
    "bkPending s' = (bkPending s)(pid \<mapsto> k)" "\<And>q x. bkIssued s q = Some x \<Longrightarrow> bkIssued s' q = Some x"
    "bkAskers s' = (bkAskers s)(k \<mapsto> a\<lparr>akAt := pl\<rparr>)" "waits pl pid" "issued_for canon s' pid a"
  shows "waiters_ok canon s'"
  unfolding waiters_ok_def
proof (intro allI impI)
  fix q j
  assume p: "bkPending s' q = Some j"
  show "\<exists>b. bkAskers s' j = Some b \<and> akBox b = [] \<and> waits (akAt b) q \<and> issued_for canon s' q b"
  proof (cases "q = pid")
    case True
    with p assms show ?thesis by (auto simp: issued_for_def)
  next
    case False
    with p assms(5) have "bkPending s q = Some j" by simp
    then obtain b where b: "bkAskers s j = Some b" "akBox b = []" "waits (akAt b) q" "issued_for canon s q b"
      using waitersD [OF assms(1)] by blast
    with assms(2) early_not_waits [OF assms(3)] have "j \<noteq> k" by fastforce
    with b assms(6,7) show ?thesis by (auto simp: issued_for_def)
  qed
qed

lemma step_waiters:
  assumes "broker_step canon s s'" "waiters_ok canon s" "askers_ok canon s"
  shows "waiters_ok canon s'"
  using assms(1)
proof cases
  case (ask k p)
  show ?thesis by (rule waiters_frame [OF assms(2)]) (use ask in \<open>auto split: if_splits\<close>)
next
  case (redeemed k a r)
  show ?thesis by (rule waiters_other [OF assms(2) redeemed(2)]) (use redeemed in \<open>auto simp: goto_Some send_def\<close>)
next
  case (claims k a pid)
  have box: "akBox a = []" using askersD [OF assms(3) claims(2)] claims(3) by (simp add: early_def)
  show ?thesis
  proof (cases "bkPending s pid = None \<and> RedeemID pid (bkRows s) = (None, True)")
    case True
    with claims have s': "s' = goto k (Waiting pid) (s\<lparr>bkPending := (bkPending s)(pid \<mapsto> k)\<rparr>)" by (simp add: claim_def)
    have "issued_for canon s pid a" using askers_claim [OF assms(3)] claims by blast
    then show ?thesis
      by (intro waiters_new [OF assms(2) claims(2) _ box, of s' pid "Waiting pid"])
        (use claims(2,3) s' in \<open>auto simp: goto_Some early_def issued_for_def\<close>)
  next
    case False
    show ?thesis
      by (rule waiters_other [OF assms(2) claims(2)])
        (use claims False in \<open>auto simp: claim_def goto_Some send_def split: option.split prod.split bool.split\<close>)
  qed
next
  case (opens k a pid)
  have box: "akBox a = []" using askersD [OF assms(3) opens(2)] opens(3) by (simp add: early_def)
  show ?thesis
    by (intro waiters_new [OF assms(2) opens(2) _ box, of s' pid "Inserting pid"])
      (use opens in \<open>auto simp: goto_Some early_def issued_for_def same_call_refl\<close>)
next
  case (inserted k a pid)
  show ?thesis by (rule waiters_frame [OF assms(2)]) (use inserted in \<open>auto simp: goto_Some\<close>)
next
  case (not_inserted k a pid)
  show ?thesis
    by (rule waiters_frame [OF assms(2)]) (use not_inserted in \<open>auto simp: goto_def split: if_splits\<close>)
next
  case (gave_up k a pid)
  show ?thesis by (rule waiters_frame [OF assms(2)]) (use gave_up in \<open>auto simp: goto_Some\<close>)
next
  case (received k a pid d ds)
  show ?thesis by (rule waiters_other [OF assms(2) received(2)]) (use received in \<open>auto simp: goto_Some\<close>)
next
  case (dropped k a pid d)
  show ?thesis by (rule waiters_frame [OF assms(2)]) (use dropped in \<open>auto simp: goto_def split: if_splits\<close>)
next
  case (answer stored pid d)
  show ?thesis
  proof (cases "bkPending s pid")
    case None
    show ?thesis by (rule waiters_frame [OF assms(2)]) (use answer None in \<open>auto simp: Resolve_answer_def Let_def split: if_splits\<close>)
  next
    case (Some k)
    then obtain a where a: "bkAskers s k = Some a" "waits (akAt a) pid" using waitersD [OF assms(2)] by blast
    show ?thesis
      by (rule waiters_frame [OF assms(2)])
        (use answer Some a in \<open>auto simp: Resolve_answer_def Let_def send_def split: if_splits\<close>)
  qed
next
  case (restart)
  then show ?thesis by (simp add: waiters_ok_def)
next
  case (sweep ct parked)
  show ?thesis by (rule waiters_frame [OF assms(2)]) (use sweep in auto)
next
  case (tick n)
  show ?thesis by (rule waiters_frame [OF assms(2)]) (use tick in auto)
next
  case (nothing_carried k a)
  show ?thesis by (rule waiters_other [OF assms(2) nothing_carried(2)]) (use nothing_carried in \<open>auto simp: goto_Some\<close>)
next
  case (adopts k a pid)
  show ?thesis by (rule waiters_other [OF assms(2) adopts(2)]) (use adopts in \<open>auto simp: goto_Some\<close>)
next
  case (nothing_open k a)
  show ?thesis by (rule waiters_other [OF assms(2) nothing_open(2)]) (use nothing_open in \<open>auto simp: goto_Some\<close>)
next
  case (failed k a)
  show ?thesis by (rule waiters_other [OF assms(2) failed(2)]) (use failed in \<open>auto simp: goto_Some\<close>)
next
  case (forgot k a pid)
  show ?thesis by (rule waiters_other [OF assms(2) forgot(2)]) (use forgot in \<open>auto simp: goto_Some\<close>)
next
  case (forget_failed k a pid)
  show ?thesis by (rule waiters_other [OF assms(2) forget_failed(2)]) (use forget_failed in \<open>auto simp: goto_Some\<close>)
qed

text \<open>A turn's channel, and the answers it got.\<close>

lemma askers_frame:
  assumes "askers_ok canon s" "bkIssued s' = bkIssued s"
    "\<And>k b. bkAskers s' k = Some b \<Longrightarrow>
       (akBox b = [] \<or> length (akBox b) \<le> 1 \<and> \<not> early (akAt b)) \<and> (\<forall>pid. akAt b \<noteq> Claiming pid)
       \<or> (\<exists>a. bkAskers s k = Some a \<and> akAsk b = akAsk a \<and> akBox b = akBox a
            \<and> (akAt b = akAt a \<or> (\<not> early (akAt b) \<or> akBox a = []) \<and> (\<forall>pid. akAt b = Claiming pid \<longrightarrow> issued_for canon s pid a)))"
  shows "askers_ok canon s'"
  unfolding askers_ok_def
proof (intro allI impI)
  fix k b
  assume b: "bkAskers s' k = Some b"
  have claiming: "early (Claiming pid)" for pid by (simp add: early_def)
  have known: "length (akBox a) \<le> 1 \<and> (early (akAt a) \<longrightarrow> akBox a = []) \<and>
      (\<forall>pid. akAt a = Claiming pid \<longrightarrow> issued_for canon s pid a)" if "bkAskers s k = Some a" for a
    using assms(1) that unfolding askers_ok_def by blast
  from assms(3) [OF b] show "length (akBox b) \<le> 1 \<and> (early (akAt b) \<longrightarrow> akBox b = []) \<and>
      (\<forall>pid. akAt b = Claiming pid \<longrightarrow> issued_for canon s' pid b)"
  proof
    assume "\<exists>a. bkAskers s k = Some a \<and> akAsk b = akAsk a \<and> akBox b = akBox a
      \<and> (akAt b = akAt a \<or> (\<not> early (akAt b) \<or> akBox a = []) \<and> (\<forall>pid. akAt b = Claiming pid \<longrightarrow> issued_for canon s pid a))"
    then obtain a where a: "bkAskers s k = Some a" "akAsk b = akAsk a" "akBox b = akBox a"
      "akAt b = akAt a \<or> (\<not> early (akAt b) \<or> akBox a = []) \<and> (\<forall>pid. akAt b = Claiming pid \<longrightarrow> issued_for canon s pid a)"
      by blast
    have "issued_for canon s' pid b = issued_for canon s pid a" for pid
      using a(2) assms(2) by (simp add: issued_for_def)
    with a known [OF a(1)] show ?thesis by auto
  qed auto
qed

lemma askers_one:
  assumes "askers_ok canon s" "bkAskers s k = Some a" "bkAskers s' = (bkAskers s)(k \<mapsto> a\<lparr>akAt := pl\<rparr>)"
    "bkIssued s' = bkIssued s" "early pl \<longrightarrow> akBox a = []" "\<And>pid. pl = Claiming pid \<Longrightarrow> issued_for canon s pid a"
  shows "askers_ok canon s'"
  by (rule askers_frame [OF assms(1,4)]) (use assms(2,3,5,6) in \<open>auto split: if_splits\<close>)

lemma askers_sent:
  assumes "askers_ok canon s" "bkAskers s k = Some a" "akBox a = []" "\<not> early pl"
    "bkAskers s' = (bkAskers s)(k \<mapsto> a\<lparr>akAt := pl, akBox := [d]\<rparr>)" "bkIssued s' = bkIssued s"
  shows "askers_ok canon s'"
  by (rule askers_frame [OF assms(1,6)]) (use assms in \<open>auto split: if_splits simp: early_def\<close>)

lemma claim_cases:
  assumes "bkAskers s k = Some a"
  obtains (opened) "claim k pid s = goto k Opening s"
  | (waiting) "bkPending s pid = None" "RedeemID pid (bkRows s) = (None, True)"
      "claim k pid s = goto k (Waiting pid) (s\<lparr>bkPending := (bkPending s)(pid \<mapsto> k)\<rparr>)"
  | (redeemed) d b where "bkPending s pid = None" "RedeemID pid (bkRows s) = (Some d, b)"
      "claim k pid s = send k pid d (goto k (Waiting pid) (s\<lparr>bkRows := spend pid (bkRows s)\<rparr>))"
proof -
  obtain c b where "RedeemID pid (bkRows s) = (c, b)" by fastforce
  then show ?thesis using that by (cases "bkPending s pid"; cases c; cases b) (auto simp: claim_def)
qed

lemma step_askers:
  assumes "broker_step canon s s'" "askers_ok canon s" "waiters_ok canon s" "rows_ok s"
  shows "askers_ok canon s'"
  using assms(1)
proof cases
  case (ask k p)
  show ?thesis by (rule askers_frame [OF assms(2)]) (use ask in \<open>auto split: if_splits\<close>)
next
  case (redeemed k a r)
  have box: "akBox a = []" using askersD [OF assms(2) redeemed(2)] redeemed(3) by (simp add: early_def)
  show ?thesis
    by (rule askers_sent [OF assms(2) redeemed(2) box, of "Waiting (prID r)"])
      (use redeemed box in \<open>auto simp: goto_Some send_def early_def\<close>)
next
  case (adopts k a pid)
  have box: "akBox a = []" using askersD [OF assms(2) adopts(2)] adopts(3) by (simp add: early_def)
  have "issued_for canon s pid a" using Adopt_row [OF adopts(4)] rows_okD [OF assms(4)] by (auto simp: issued_for_def)
  with box show ?thesis
    by (intro askers_one [OF assms(2) adopts(2), of s' "Claiming pid"]) (use adopts in \<open>auto simp: goto_Some\<close>)
next
  case (nothing_carried k a)
  have "akBox a = []" using askersD [OF assms(2) nothing_carried(2)] nothing_carried(3) by (simp add: early_def)
  then show ?thesis
    by (intro askers_one [OF assms(2) nothing_carried(2), of s' Adopting]) (use nothing_carried in \<open>auto simp: goto_Some\<close>)
next
  case (nothing_open k a)
  have "akBox a = []" using askersD [OF assms(2) nothing_open(2)] nothing_open(3) by (simp add: early_def)
  then show ?thesis
    by (intro askers_one [OF assms(2) nothing_open(2), of s' Opening]) (use nothing_open in \<open>auto simp: goto_Some\<close>)
next
  case (claims k a pid)
  have box: "akBox a = []" using askersD [OF assms(2) claims(2)] claims(3) by (simp add: early_def)
  from claims(2) show ?thesis
  proof (cases rule: claim_cases [where pid = pid])
    case opened
    with box claims show ?thesis
      by (intro askers_one [OF assms(2) claims(2), of s' Opening]) (auto simp: goto_Some)
  next
    case waiting
    with claims show ?thesis
      by (intro askers_one [OF assms(2) claims(2), of s' "Waiting pid"]) (auto simp: goto_Some early_def)
  next
    case (redeemed d b)
    with box claims show ?thesis
      by (intro askers_sent [OF assms(2) claims(2) box, of "Waiting pid"]) (auto simp: goto_Some send_def early_def)
  qed
next
  case (opens k a pid)
  show ?thesis
    unfolding askers_ok_def
  proof (intro allI impI)
    fix j b
    assume b: "bkAskers s' j = Some b"
    show "length (akBox b) \<le> 1 \<and> (early (akAt b) \<longrightarrow> akBox b = []) \<and>
        (\<forall>q. akAt b = Claiming q \<longrightarrow> issued_for canon s' q b)"
    proof (cases "j = k")
      case True
      with b opens assms(2) show ?thesis by (auto simp: goto_Some askers_ok_def early_def)
    next
      case False
      with b opens have "bkAskers s j = Some b" by (auto simp: goto_Some)
      with assms(2) have "length (akBox b) \<le> 1 \<and> (early (akAt b) \<longrightarrow> akBox b = []) \<and>
        (\<forall>q. akAt b = Claiming q \<longrightarrow> issued_for canon s q b)" unfolding askers_ok_def by blast
      with opens show ?thesis by (auto simp: issued_for_def)
    qed
  qed
next
  case (answer stored pid d)
  show ?thesis
  proof (cases "bkPending s pid")
    case None
    show ?thesis by (rule askers_frame [OF assms(2)]) (use answer None in \<open>auto simp: Resolve_answer_def Let_def split: if_splits\<close>)
  next
    case (Some k)
    then obtain a where a: "bkAskers s k = Some a" "akBox a = []" "waits (akAt a) pid" using waitersD [OF assms(3)] by blast
    then have "\<not> early (akAt a)" using early_not_waits by blast
    with a Some answer show ?thesis
      by (intro askers_sent [OF assms(2) a(1,2), of "akAt a" _ d]) (auto simp: Resolve_answer_def Let_def send_def)
  qed
next
  case (restart)
  show ?thesis by (rule askers_frame [OF assms(2)]) (use restart in \<open>auto simp: early_def\<close>)
next
  case (sweep ct parked)
  show ?thesis by (rule askers_frame [OF assms(2)]) (use sweep in auto)
next
  case (tick n)
  show ?thesis by (rule askers_frame [OF assms(2)]) (use tick in auto)
next
  case (inserted k a pid)
  then show ?thesis by (intro askers_one [OF assms(2) inserted(2), of s' "Waiting pid"]) (auto simp: goto_Some early_def)
next
  case (failed k a)
  then show ?thesis by (intro askers_one [OF assms(2) failed(2), of s' Finished]) (auto simp: goto_Some early_def)
next
  case (not_inserted k a pid)
  then show ?thesis by (intro askers_one [OF assms(2) not_inserted(2), of s' Finished]) (auto simp: goto_def early_def)
next
  case (received k a pid d ds)
  then show ?thesis by (intro askers_one [OF assms(2) received(2), of s' "Answered pid d"]) (auto simp: goto_Some early_def)
next
  case (gave_up k a pid)
  then show ?thesis by (intro askers_one [OF assms(2) gave_up(2), of s' "Answered pid TimedOut"]) (auto simp: goto_Some early_def)
next
  case (dropped k a pid d)
  then show ?thesis by (intro askers_one [OF assms(2) dropped(2), of s' "Forgetting pid"]) (auto simp: goto_def early_def)
next
  case (forgot k a pid)
  then show ?thesis by (intro askers_one [OF assms(2) forgot(2), of s' Finished]) (auto simp: goto_Some early_def)
next
  case (forget_failed k a pid)
  then show ?thesis by (intro askers_one [OF assms(2) forget_failed(2), of s' Finished]) (auto simp: goto_Some early_def)
qed

text \<open>Turns and issued ids stay, and a turn's call never changes.\<close>

lemma step_keeps:
  assumes "broker_step canon s s'" "bkAskers s k = Some a"
  shows "\<exists>b. bkAskers s' k = Some b \<and> akAsk b = akAsk a"
  using assms(1)
proof cases
  case (claims j c pid)
  from claims(2) show ?thesis
    by (cases rule: claim_cases [where pid = pid]) (use claims assms(2) in \<open>auto simp: goto_Some send_def\<close>)
next
  case (answer stored pid d)
  with assms(2) show ?thesis by (auto simp: Resolve_answer_def Let_def send_def split: option.split)
qed (use assms(2) in \<open>auto simp: goto_def send_def split: option.split\<close>)

lemma claim_issued [simp]: "bkIssued (claim k pid s) = bkIssued s"
  by (simp add: claim_def split: option.split prod.split bool.split)

lemma answer_issued [simp]: "bkIssued (fst (Resolve_answer stored pid d s)) = bkIssued s"
  by (simp add: Resolve_answer_def Let_def split: option.split)

lemma step_issued: "broker_step canon s s' \<Longrightarrow> bkIssued s pid = Some q \<Longrightarrow> bkIssued s' pid = Some q"
  by (cases rule: broker_step.cases) auto

lemma step_issued_for:
  assumes "broker_step canon s s'" "bkAskers s k = Some a" "issued_for canon s pid a"
  shows "\<exists>b. bkAskers s' k = Some b \<and> issued_for canon s' pid b"
  using step_keeps [OF assms(1,2)] step_issued [OF assms(1)] assms(3) unfolding issued_for_def by metis

text \<open>The answers a step sends are answers to the call they were given for.\<close>

lemma step_sends:
  assumes "broker_step canon s s'" "rows_ok s" "askers_ok canon s" "waiters_ok canon s"
  shows "bkSent s' = bkSent s \<or>
    (\<exists>k pid d a. bkSent s' = bkSent s @ [(k, pid, d)] \<and> bkAskers s k = Some a \<and> issued_for canon s pid a)"
  using assms(1)
proof cases
  case (redeemed k a r)
  with Redeem_row rows_okD [OF assms(2)] show ?thesis
    by (fastforce simp: goto_Some send_def issued_for_def)
next
  case (claims k a pid)
  have "issued_for canon s pid a" using askers_claim [OF assms(3)] claims by blast
  from claims(2) show ?thesis
    by (cases rule: claim_cases [where pid = pid])
       (use claims \<open>issued_for canon s pid a\<close> in \<open>auto simp: goto_Some send_def\<close>)
next
  case (answer stored pid d)
  show ?thesis
  proof (cases "bkPending s pid")
    case None
    with answer show ?thesis by (auto simp: Resolve_answer_def Let_def)
  next
    case (Some k)
    then obtain a where "bkAskers s k = Some a" "issued_for canon s pid a" using waitersD [OF assms(4)] by blast
    with Some answer show ?thesis by (auto simp: Resolve_answer_def Let_def send_def)
  qed
qed auto

lemma step_sent:
  assumes "broker_step canon s s'" "rows_ok s" "askers_ok canon s" "waiters_ok canon s" "sent_ok canon s"
  shows "sent_ok canon s'"
proof -
  have old: "\<exists>b. bkAskers s' k = Some b \<and> issued_for canon s' pid b" if "(k, pid, d) \<in> set (bkSent s)" for k pid d
    using assms(5) that step_issued_for [OF assms(1)] unfolding sent_ok_def by fastforce
  from step_sends [OF assms(1-4)] show ?thesis
  proof
    assume "bkSent s' = bkSent s"
    with old show ?thesis by (fastforce simp: sent_ok_def)
  next
    assume "\<exists>k pid d a. bkSent s' = bkSent s @ [(k, pid, d)] \<and> bkAskers s k = Some a \<and> issued_for canon s pid a"
    with old step_issued_for [OF assms(1)] show ?thesis by (fastforce simp: sent_ok_def)
  qed
qed

section \<open>Every answer is accounted for\<close>

lemma carried_Cons [simp]: "carried (r # rows) = (if prCarry r then [(prID r, prDecision r)] else []) @ carried rows"
  by (simp add: carried_def)

lemma carried_resolve:
  assumes "distinct (map prID rows)" "\<forall>r \<in> set rows. prCarry r \<longrightarrow> prResolved r \<noteq> None"
  shows "mset (carried (resolve_row now pid d c rows))
    = mset (carried rows) + (if c \<and> is_pending pid rows then {#(pid, d)#} else {#})"
  using assms
proof (induction rows)
  case (Cons r rows)
  have IH: "mset (carried (resolve_row now pid d c rows))
    = mset (carried rows) + (if c \<and> is_pending pid rows then {#(pid, d)#} else {#})" using Cons by auto
  show ?case
  proof (cases "prID r = pid \<and> prResolved r = None")
    case True
    with Cons.prems(1) have "\<not> is_pending pid rows" by (auto simp: is_pending_def image_iff)
    with IH True Cons.prems(2) show ?thesis by (auto simp: resolve_row_def is_pending_def)
  next
    case False
    with IH show ?thesis by (auto simp: resolve_row_def is_pending_def)
  qed
qed (simp add: resolve_row_def is_pending_def carried_def)

lemma carried_expire:
  "\<forall>r \<in> set rows. prCarry r \<longrightarrow> prResolved r \<noteq> None \<Longrightarrow> carried (Expire now live ct parked rows) = carried rows"
  by (induction rows) (auto simp: Expire_def)

lemma carried_prune: "mset (carried (Prune now rows)) \<subseteq># mset (carried rows)"
proof -
  have "filter prCarry (filter Q rows) = filter Q (filter prCarry rows)" for Q by (induction rows) auto
  then show ?thesis
    unfolding carried_def Prune_def by (simp only: mset_map mset_filter) (intro image_mset_subseteq_mono multiset_filter_subset)
qed

lemma carried_append [simp]: "carried (xs @ ys) = carried xs @ carried ys"
  by (simp add: carried_def)

lemma carried_new [simp]: "prCarry (new_row pid p now) = False" "carried [] = []"
  by (simp_all add: carried_def new_row_def)

lemma accounted_keep: "accounted s \<Longrightarrow> bkSent s' = bkSent s \<Longrightarrow> bkGiven s' = bkGiven s
    \<Longrightarrow> mset (carried (bkRows s')) \<subseteq># mset (carried (bkRows s)) \<Longrightarrow> accounted s'"
  unfolding accounted_def by (auto intro: subset_mset.order_trans [OF subset_mset.add_left_mono])

lemma accounted_spend:
  assumes "accounted s" "rows_ok s" "r \<in> set (bkRows s)" "prCarry r"
    "bkSent s' = bkSent s @ [(k, prID r, prDecision r)]" "bkGiven s' = bkGiven s"
    "bkRows s' = spend (prID r) (bkRows s)"
  shows "accounted s'"
  using assms carried_spend [of "bkRows s" r] by (simp add: accounted_def rows_ok_def)

lemma subset_one_more: "A \<subseteq># B \<Longrightarrow> A \<subseteq># add_mset x B"
  using mset_subset_eq_add_left [of B "{#x#}"] by (auto intro: subset_mset.order_trans)

lemma step_accounted:
  assumes "broker_step canon s s'" "accounted s" "rows_ok s" "askers_ok canon s" "waiters_ok canon s"
  shows "accounted s'"
  using assms(1)
proof cases
  case (redeemed k a r)
  with Redeem_row [OF redeemed(4)] show ?thesis
    by (intro accounted_spend [OF assms(2,3)]) (auto simp: goto_Some send_def)
next
  case (claims k a pid)
  from claims(2) show ?thesis
  proof (cases rule: claim_cases [where pid = pid])
    case (redeemed d b)
    obtain r where r: "r \<in> set (bkRows s)" "prID r = pid" "prCarry r" "prDecision r = d"
      using RedeemID_carried [OF redeemed(2)] by blast
    with redeemed claims show ?thesis
      by (intro accounted_spend [OF assms(2,3) r(1,3)]) (auto simp: goto_Some send_def)
  qed (use claims assms(2) in \<open>auto simp: accounted_def\<close>)
next
  case (inserted k a pid)
  with assms(2) show ?thesis by (auto simp: accounted_def)
next
  case (forgot k a pid)
  with assms(2,3) show ?thesis
    by (intro accounted_keep [OF assms(2)]) (auto simp: carried_resolve rows_ok_def)
next
  case (answer stored pid d)
  have res: "mset (carried (resolve_row (bkNow s) pid d c (bkRows s)))
    = mset (carried (bkRows s)) + (if c \<and> is_pending pid (bkRows s) then {#(pid, d)#} else {#})" for c
    using assms(3) by (intro carried_resolve) (auto simp: rows_ok_def)
  show ?thesis
  proof (cases "bkPending s pid")
    case None
    with answer assms(2) res show ?thesis
      by (auto simp: Resolve_answer_def Let_def accounted_def drop_waiter_def intro: subset_one_more)
  next
    case (Some k)
    then obtain a where "bkAskers s k = Some a" using waitersD [OF assms(5)] by blast
    with answer Some assms(2) res show ?thesis
      by (auto simp: Resolve_answer_def Let_def accounted_def drop_waiter_def send_def)
  qed
next
  case (sweep ct parked)
  have "carried (Expire (bkNow s) (dom (bkPending s)) ct parked (bkRows s)) = carried (bkRows s)"
    using assms(3) by (intro carried_expire) (auto simp: rows_ok_def)
  with sweep show ?thesis by (intro accounted_keep [OF assms(2)]) (auto intro: subset_mset.order_trans [OF carried_prune])
qed (use assms(2) in \<open>auto simp: accounted_def\<close>)

section \<open>All runs\<close>

definition broker_inv :: "(string \<Rightarrow> string) \<Rightarrow> Broker \<Rightarrow> bool" where
  "broker_inv canon s = (rows_ok s \<and> inserting_ok s \<and> waiters_ok canon s \<and> askers_ok canon s \<and> sent_ok canon s \<and> accounted s)"

lemma broker_inv_start: "broker_inv canon (idle_broker now)"
  by (simp add: broker_inv_def rows_ok_def inserting_ok_def waiters_ok_def askers_ok_def sent_ok_def accounted_def
      idle_broker_def)

lemma broker_inv_step:
  assumes "broker_inv canon s" "broker_step canon s s'"
  shows "broker_inv canon s'"
  using assms(1) step_rows [OF assms(2)] step_inserting [OF assms(2)] step_waiters [OF assms(2)]
    step_askers [OF assms(2)] step_sent [OF assms(2)] step_accounted [OF assms(2)]
  unfolding broker_inv_def by blast

lemma broker_inv_reach: "broker_reach canon s \<Longrightarrow> broker_inv canon s"
  by (induction rule: broker_reach.induct) (auto intro: broker_inv_start broker_inv_step)

text \<open>C28. No interleaving of turns, answers, sweeps and restarts spends an answer twice or invents one: the
  answers sent to turns are, with their multiplicities, among the answers the user gave, and each went
  to a turn whose call has the session, mission, tool and arguments its prompt was opened for.
\<close>

theorem answers_are_spent_once:
  assumes "broker_reach canon s"
  shows "mset (map snd (bkSent s)) \<subseteq># mset (bkGiven s)
    \<and> list_all (\<lambda>(k, pid, d). \<exists>a q. bkAskers s k = Some a \<and> bkIssued s pid = Some q \<and> same_call canon q (akAsk a)) (bkSent s)"
proof -
  from broker_inv_reach [OF assms] have inv: "accounted s" "sent_ok canon s" by (simp_all add: broker_inv_def)
  then have "mset (map snd (bkSent s)) \<subseteq># mset (bkGiven s)"
    unfolding accounted_def by (meson mset_subset_eq_add_left subset_mset.order_trans)
  with inv(2) show ?thesis by (fastforce simp: sent_ok_def issued_for_def list_all_iff)
qed

text \<open>A prompt outlives a restart: it is answered while nobody waits, and the retry consumes the answer.\<close>

definition demo_ask :: Ask where
  "demo_ask = \<lparr>asSession = ''chat'', asMission = [], asTool = ''bash'', asArgs = ''{}''\<rparr>"

definition demo_asker :: "place \<Rightarrow> string list \<Rightarrow> asker" where
  "demo_asker pl box = \<lparr>akAsk = demo_ask, akAt = pl, akBox = box\<rparr>"

definition demo_row :: "int option \<Rightarrow> string \<Rightarrow> bool \<Rightarrow> perm_row" where
  "demo_row res d c = \<lparr>prID = ''p'', prAsk = demo_ask, prCreated = 0, prResolved = res, prDecision = d, prCarry = c\<rparr>"

lemmas demo_defs = demo_ask_def demo_asker_def demo_row_def idle_broker_def

lemma demo_waiting:
  "broker_reach canon \<lparr>bkNow = 0, bkRows = [demo_row None [] False], bkPending = [''p'' \<mapsto> 0],
     bkAskers = [0 \<mapsto> demo_asker (Waiting ''p'') []], bkIssued = [''p'' \<mapsto> demo_ask], bkGiven = [], bkSent = []\<rparr>"
proof -
  let ?s = "\<lambda>rows pend at is. \<lparr>bkNow = 0, bkRows = rows, bkPending = pend, bkAskers = [0 \<mapsto> demo_asker at []],
     bkIssued = is, bkGiven = [], bkSent = []\<rparr>"
  have "broker_reach canon (idle_broker 0)" by (rule broker_reach.start)
  moreover have "broker_step canon (idle_broker 0) (?s [] (\<lambda>_. None) Redeeming (\<lambda>_. None))"
    using broker_step.ask [of "idle_broker 0" 0 canon "\<lparr>asSession = ''chat'', asMission = [], asTool = ''bash'', asArgs = []\<rparr>"]
    by (simp add: demo_defs normalizeArgs_def)
  moreover have "broker_step canon (?s [] (\<lambda>_. None) Redeeming (\<lambda>_. None)) (?s [] (\<lambda>_. None) Adopting (\<lambda>_. None))"
    using broker_step.nothing_carried [of "?s [] (\<lambda>_. None) Redeeming (\<lambda>_. None)" 0 "demo_asker Redeeming []" canon]
    by (simp add: demo_asker_def goto_def Redeem_def pick_least_def)
  moreover have "broker_step canon (?s [] (\<lambda>_. None) Adopting (\<lambda>_. None)) (?s [] (\<lambda>_. None) Opening (\<lambda>_. None))"
    using broker_step.nothing_open [of "?s [] (\<lambda>_. None) Adopting (\<lambda>_. None)" 0 "demo_asker Adopting []" canon]
    by (simp add: demo_asker_def goto_def Adopt_def pick_least_def)
  moreover have "broker_step canon (?s [] (\<lambda>_. None) Opening (\<lambda>_. None))
      (?s [] [''p'' \<mapsto> 0] (Inserting ''p'') [''p'' \<mapsto> demo_ask])"
    using broker_step.opens [of "?s [] (\<lambda>_. None) Opening (\<lambda>_. None)" 0 "demo_asker Opening []" "''p''" canon]
    by (simp add: demo_asker_def goto_def)
  moreover have "broker_step canon (?s [] [''p'' \<mapsto> 0] (Inserting ''p'') [''p'' \<mapsto> demo_ask])
      (?s [demo_row None [] False] [''p'' \<mapsto> 0] (Waiting ''p'') [''p'' \<mapsto> demo_ask])"
    using broker_step.inserted [of "?s [] [''p'' \<mapsto> 0] (Inserting ''p'') [''p'' \<mapsto> demo_ask]" 0
        "demo_asker (Inserting ''p'') []" "''p''" canon]
    by (simp add: demo_asker_def demo_row_def goto_def new_row_def)
  ultimately show ?thesis by (meson broker_reach.step)
qed

lemma demo_redeemed:
  "broker_reach canon \<lparr>bkNow = 0, bkRows = [demo_row (Some 0) Once False], bkPending = (\<lambda>_. None),
     bkAskers = [0 \<mapsto> demo_asker Finished [], 1 \<mapsto> demo_asker (Waiting ''p'') [Once]],
     bkIssued = [''p'' \<mapsto> demo_ask], bkGiven = [(''p'', Once)], bkSent = [(1, ''p'', Once)]\<rparr>"
proof -
  let ?s = "\<lambda>row pend askers given. \<lparr>bkNow = 0, bkRows = [row], bkPending = pend, bkAskers = askers,
     bkIssued = [''p'' \<mapsto> demo_ask], bkGiven = given, bkSent = []\<rparr>"
  let ?w = "?s (demo_row None [] False) [''p'' \<mapsto> 0] [0 \<mapsto> demo_asker (Waiting ''p'') []] []"
  let ?r = "?s (demo_row None [] False) (\<lambda>_. None) [0 \<mapsto> demo_asker Finished []] []"
  let ?c = "?s (demo_row (Some 0) Once True) (\<lambda>_. None) [0 \<mapsto> demo_asker Finished []] [(''p'', Once)]"
  let ?a = "?s (demo_row (Some 0) Once True) (\<lambda>_. None)
     [0 \<mapsto> demo_asker Finished [], 1 \<mapsto> demo_asker Redeeming []] [(''p'', Once)]"
  have "broker_reach canon ?w" by (rule demo_waiting)
  moreover have "broker_step canon ?w ?r"
    using broker_step.restart [of canon ?w] by (simp add: demo_asker_def map_option_case fun_upd_def if_distrib cong: if_cong)
  moreover have "broker_step canon ?r ?c"
    using broker_step.answer [of canon ?r True "''p''" Once]
    by (simp add: Resolve_answer_def Let_def drop_waiter_def is_pending_def resolve_row_def demo_row_def)
  moreover have "broker_step canon ?c ?a"
    using broker_step.ask [of ?c 1 canon "\<lparr>asSession = ''chat'', asMission = [], asTool = ''bash'', asArgs = []\<rparr>"]
    by (simp add: demo_asker_def demo_ask_def normalizeArgs_def)
  moreover have "broker_step canon ?a \<lparr>bkNow = 0, bkRows = [demo_row (Some 0) Once False], bkPending = (\<lambda>_. None),
     bkAskers = [0 \<mapsto> demo_asker Finished [], 1 \<mapsto> demo_asker (Waiting ''p'') [Once]],
     bkIssued = [''p'' \<mapsto> demo_ask], bkGiven = [(''p'', Once)], bkSent = [(1, ''p'', Once)]\<rparr>"
    using broker_step.redeemed [of ?a 1 "demo_asker Redeeming []" canon "demo_row (Some 0) Once True"]
    by (simp add: demo_asker_def demo_row_def goto_def send_def spend_def Redeem_def pick_least_def redeemable_def
        same_call_def onceCarryTTL_def)
  ultimately show ?thesis by (meson broker_reach.step)
qed

definition demo_after :: Broker where
  "demo_after = \<lparr>bkNow = 0, bkRows = [demo_row (Some 0) Once False], bkPending = (\<lambda>_. None),
     bkAskers = [0 \<mapsto> demo_asker Finished [], 1 \<mapsto> demo_asker (Waiting ''p'') [Once]],
     bkIssued = [''p'' \<mapsto> demo_ask], bkGiven = [(''p'', Once)], bkSent = [(1, ''p'', Once)]\<rparr>"

theorem answers_are_spent_once_witness:
  "broker_reach (\<lambda>x. x) demo_after \<and> bkSent demo_after = [(1, ''p'', Once)]
     \<and> mset (map snd (bkSent demo_after)) \<subseteq># mset (bkGiven demo_after)"
proof -
  have r: "broker_reach (\<lambda>x. x) demo_after" unfolding demo_after_def by (rule demo_redeemed)
  with answers_are_spent_once [OF r] show ?thesis by (simp add: demo_after_def)
qed

text \<open>C29. In every run, an answer to a prompt somebody waits on reaches that turn at once: its channel is
  empty, so the send never blocks, it holds exactly the answer afterwards, and a second answer to the
  same prompt does not touch it.
\<close>

theorem live_answers_never_block:
  assumes "broker_reach canon s" "bkPending s pid = Some k"
  shows "\<exists>a b. bkAskers s k = Some a \<and> akBox a = [] \<and> snd (Resolve_answer stored pid d s)
    \<and> bkAskers (fst (Resolve_answer stored pid d s)) k = Some b \<and> akBox b = [d]
    \<and> bkAskers (fst (Resolve_answer stored2 pid d2 (fst (Resolve_answer stored pid d s))))
        = bkAskers (fst (Resolve_answer stored pid d s))"
proof -
  from broker_inv_reach [OF assms(1)] have "waiters_ok canon s" by (simp add: broker_inv_def)
  then obtain a where "bkAskers s k = Some a" "akBox a = []" using waitersD assms(2) by blast
  with assms(2) show ?thesis by (simp add: Resolve_answer_def Let_def send_def drop_waiter_def)
qed

theorem live_answers_never_block_witness:
  "\<exists>s a. broker_reach (\<lambda>x. x) s \<and> bkPending s ''p'' = Some 0
     \<and> bkAskers (fst (Resolve_answer True ''p'' Once s)) 0 = Some a \<and> akBox a = [Once]"
proof -
  let ?s = "\<lparr>bkNow = 0, bkRows = [demo_row None [] False], bkPending = [''p'' \<mapsto> 0],
     bkAskers = [0 \<mapsto> demo_asker (Waiting ''p'') []], bkIssued = [''p'' \<mapsto> demo_ask], bkGiven = [], bkSent = []\<rparr>"
  have "broker_reach (\<lambda>x. x) ?s" by (rule demo_waiting)
  moreover from live_answers_never_block [OF this, of "''p''" 0 True Once True Once]
  have "\<exists>a. bkAskers (fst (Resolve_answer True ''p'' Once ?s)) 0 = Some a \<and> akBox a = [Once]" by force
  ultimately show ?thesis by force
qed

end
