(* ===== verification/Event_Drainer.thy ===== *)
theory Event_Drainer
  imports Prelude
begin

text \<open>
  The durable event inbox (\<open>internal/brain/events\<close>): \<open>store.go\<close>'s rows and \<open>drainer.go\<close>'s drain.
  A drain is one transaction: what consumers write through it ('t) is rolled back with a failed event
  or a failed drain, what they do elsewhere ('w) stays. A consumer is a function of both; its panics
  and timeouts are errors it returns. \<open>drain\<close> takes where the drain breaks off, if it does.
\<close>

section \<open>Events\<close>

record 'p Event =
  evID :: nat
  evSource :: string
  evKind :: string
  evDedup :: string
  evPayload :: 'p
  evProcessedAt :: "int option"
  evAttempts :: nat
  evError :: string

definition drainBatch :: nat where "drainBatch = 100"
definition maxAttempts :: nat where "maxAttempts = 5"
definition retentionSeconds :: int where "retentionSeconds = 30 * 86400"

record ('p, 'w, 't) Consumer =
  csName :: string
  csKinds :: "string list"
  csHandle :: "'p Event \<Rightarrow> 'w \<Rightarrow> 't \<Rightarrow> 'w \<times> 't \<times> string option"

text \<open>\<open>Insert\<close>: the next id of the sequence, unless source and dedup key are taken.\<close>

definition insert_event :: "nat \<Rightarrow> string \<Rightarrow> string \<Rightarrow> string \<Rightarrow> 'p \<Rightarrow> 'p Event list \<Rightarrow> 'p Event list" where
  "insert_event new source kind dedup p rows =
     (if \<exists>e \<in> set rows. evSource e = source \<and> evDedup e = dedup then rows
      else rows @ [\<lparr>evID = new, evSource = source, evKind = kind, evDedup = dedup, evPayload = p,
                    evProcessedAt = None, evAttempts = 0, evError = []\<rparr>])"

definition claimBatch :: "nat \<Rightarrow> 'p Event list \<Rightarrow> 'p Event list" where
  "claimBatch limit rows = take limit (sort_key evID (filter (\<lambda>e. evProcessedAt e = None) rows))"

definition set_event :: "nat \<Rightarrow> ('p Event \<Rightarrow> 'p Event) \<Rightarrow> 'p Event list \<Rightarrow> 'p Event list" where
  "set_event i f rows = map (\<lambda>e. if evID e = i then f e else e) rows"

definition markProcessed :: "int \<Rightarrow> nat \<Rightarrow> 'p Event list \<Rightarrow> 'p Event list" where
  "markProcessed now i = set_event i (\<lambda>e. e\<lparr>evProcessedAt := Some now, evAttempts := evAttempts e + 1\<rparr>)"

definition markFailed :: "int \<Rightarrow> nat \<Rightarrow> string \<Rightarrow> bool \<Rightarrow> 'p Event list \<Rightarrow> 'p Event list" where
  "markFailed now i err deadLetter =
     set_event i (\<lambda>e. e\<lparr>evProcessedAt := if deadLetter then Some now else evProcessedAt e,
                        evAttempts := evAttempts e + 1, evError := err\<rparr>)"

definition Sweep :: "int \<Rightarrow> 'p Event list \<Rightarrow> 'p Event list" where
  "Sweep now rows =
     filter (\<lambda>e. case evProcessedAt e of Some t \<Rightarrow> \<not> t < now - retentionSeconds | None \<Rightarrow> True) rows"

section \<open>Delivery\<close>

definition consumersFor :: "('p, 'w, 't) Consumer list \<Rightarrow> string \<Rightarrow> ('p, 'w, 't) Consumer list" where
  "consumersFor cs kind = filter (\<lambda>c. kind \<in> set (csKinds c)) cs"

definition outcome :: "nat \<Rightarrow> bool \<Rightarrow> bool \<times> bool" where
  "outcome attempts failed =
     (if \<not> failed then (True, False) else if maxAttempts \<le> attempts + 1 then (True, True) else (False, False))"

text \<open>Every consumer runs, also after one of them failed.\<close>

fun run_consumers :: "('p, 'w, 't) Consumer list \<Rightarrow> 'p Event \<Rightarrow> 'w \<Rightarrow> 't \<Rightarrow> 'w \<times> 't \<times> string list" where
  "run_consumers [] ev w t = (w, t, [])"
| "run_consumers (c # cs) ev w t =
     (let (w1, t1, e) = csHandle c ev w t; (w2, t2, errs) = run_consumers cs ev w1 t1
      in (w2, t2, (case e of None \<Rightarrow> [] | Some m \<Rightarrow> [csName c @ '': '' @ m]) @ errs))"

record ('p, 'w, 't) Inbox =
  inNow :: int
  inRows :: "'p Event list"
  inWorld :: 'w
  inTx :: 't

definition deliver :: "('p, 'w, 't) Consumer list \<Rightarrow> 'p Event \<Rightarrow> ('p, 'w, 't) Inbox \<Rightarrow> ('p, 'w, 't) Inbox" where
  "deliver cs ev s =
     (let (w, t, errs) = run_consumers (consumersFor cs (evKind ev)) ev (inWorld s) (inTx s);
          (_, deadLetter) = outcome (evAttempts ev) (errs \<noteq> [])
      in if errs = [] then s\<lparr>inWorld := w, inTx := t, inRows := markProcessed (inNow s) (evID ev) (inRows s)\<rparr>
         else s\<lparr>inWorld := w,
                inRows := markFailed (inNow s) (evID ev) (str_join [CHR 0x0A] errs) deadLetter (inRows s)\<rparr>)"

text \<open>\<open>stop\<close> is the number of deliveries before a bookkeeping error, a crash or a failed commit.\<close>

definition drain :: "nat option \<Rightarrow> ('p, 'w, 't) Consumer list \<Rightarrow> ('p, 'w, 't) Inbox \<Rightarrow> ('p, 'w, 't) Inbox" where
  "drain stop cs s =
     (let batch = claimBatch drainBatch (inRows s)
      in case stop of
           None \<Rightarrow> fold (deliver cs) batch s
         | Some k \<Rightarrow> s\<lparr>inWorld := inWorld (fold (deliver cs) (take k batch) s)\<rparr>)"

inductive inbox_reach :: "('p, 'w, 't) Consumer list \<Rightarrow> ('p, 'w, 't) Inbox \<Rightarrow> bool" for cs where
  start: "inbox_reach cs \<lparr>inNow = now, inRows = [], inWorld = w, inTx = t\<rparr>"
| produce: "inbox_reach cs s \<Longrightarrow> \<forall>e \<in> set (inRows s). evID e < new \<Longrightarrow>
    inbox_reach cs (s\<lparr>inTx := t, inRows := insert_event new source kind dedup p (inRows s)\<rparr>)"
| elsewhere: "inbox_reach cs s \<Longrightarrow> inbox_reach cs (s\<lparr>inWorld := w, inTx := t\<rparr>)"
| drains: "inbox_reach cs s \<Longrightarrow> inbox_reach cs (drain stop cs s)"
| sweeps: "inbox_reach cs s \<Longrightarrow> inbox_reach cs (s\<lparr>inRows := Sweep (inNow s) (inRows s)\<rparr>)"
| tick: "inbox_reach cs s \<Longrightarrow> 0 \<le> n \<Longrightarrow> inbox_reach cs (s\<lparr>inNow := inNow s + n\<rparr>)"

section \<open>Every event settles\<close>

definition inbox_ok :: "'p Event list \<Rightarrow> bool" where
  "inbox_ok rows = (sorted_wrt (<) (map evID rows)
     \<and> (\<forall>e \<in> set rows. evAttempts e \<le> maxAttempts \<and> (evProcessedAt e = None \<longrightarrow> evAttempts e < maxAttempts)))"

text \<open>The deliveries the unprocessed events may still take.\<close>

definition allowance :: "'p Event \<Rightarrow> nat" where
  "allowance e = (if evProcessedAt e = None then maxAttempts - evAttempts e else 0)"

definition outstanding :: "'p Event list \<Rightarrow> nat" where
  "outstanding rows = sum_list (map allowance rows)"

lemma ids_unique: "sorted_wrt (<) (map evID rows) \<Longrightarrow> distinct (map evID rows)"
  by (simp add: strict_sorted_iff)

lemma set_event_ids: "(\<And>e. evID (f e) = evID e) \<Longrightarrow> map evID (set_event i f rows) = map evID rows"
  by (simp add: set_event_def)

lemma set_event_other: "e \<in> set rows \<Longrightarrow> evID e \<noteq> i \<Longrightarrow> e \<in> set (set_event i f rows)"
  by (force simp: set_event_def)

lemma outstanding_set_event:
  assumes "distinct (map evID rows)" "ev \<in> set rows"
  shows "outstanding (set_event (evID ev) f rows) + allowance ev = outstanding rows + allowance (f ev)"
  using assms
proof (induction rows)
  case (Cons e rows)
  show ?case
  proof (cases "e = ev")
    case True
    with Cons.prems have "set_event (evID ev) f rows = rows"
      unfolding set_event_def by (intro map_idI) (auto simp: image_iff)
    with True show ?thesis by (simp add: outstanding_def set_event_def)
  next
    case False
    with Cons have "evID e \<noteq> evID ev" "ev \<in> set rows" by (auto simp: image_iff)
    with Cons show ?thesis by (simp add: outstanding_def set_event_def)
  qed
qed simp

text \<open>What a delivery does to its row: one more attempt, and settled when that was the last.\<close>

definition settles :: "'p Event \<Rightarrow> ('p Event \<Rightarrow> 'p Event) \<Rightarrow> bool" where
  "settles ev f = (\<forall>e. evID (f e) = evID e \<and> evAttempts (f e) = evAttempts e + 1
     \<and> (evProcessedAt (f e) \<noteq> None \<or> evProcessedAt (f e) = evProcessedAt e \<and> evAttempts ev + 1 < maxAttempts))"

lemma deliver_rows: "\<exists>f. inRows (deliver cs ev s) = set_event (evID ev) f (inRows s) \<and> settles ev f"
proof -
  obtain w t errs where r: "run_consumers (consumersFor cs (evKind ev)) ev (inWorld s) (inTx s) = (w, t, errs)"
    by (metis prod_cases3)
  show ?thesis
  proof (cases "errs = []")
    case True
    then show ?thesis
      by (intro exI [of _ "\<lambda>e. e\<lparr>evProcessedAt := Some (inNow s), evAttempts := evAttempts e + 1\<rparr>"])
         (simp add: deliver_def r markProcessed_def settles_def split: prod.split)
  next
    case False
    let ?d = "maxAttempts \<le> evAttempts ev + 1"
    show ?thesis
      by (intro exI [of _ "\<lambda>e. e\<lparr>evProcessedAt := if ?d then Some (inNow s) else evProcessedAt e,
            evAttempts := evAttempts e + 1, evError := str_join [CHR 0x0A] errs\<rparr>"])
         (use False in \<open>auto simp: deliver_def r markFailed_def settles_def outcome_def Let_def\<close>)
  qed
qed

lemma set_event_ok:
  assumes "inbox_ok rows" "ev \<in> set rows" "evProcessedAt ev = None" "settles ev f"
  shows "inbox_ok (set_event (evID ev) f rows)" "outstanding (set_event (evID ev) f rows) < outstanding rows"
proof -
  have keep: "map evID (set_event (evID ev) f rows) = map evID rows"
    using assms(4) by (intro set_event_ids) (simp add: settles_def)
  have same: "e = ev" if "e \<in> set rows" "evID e = evID ev" for e
    using that assms(1,2) ids_unique [of rows] by (auto simp: inbox_ok_def distinct_map inj_on_def)
  have small: "evAttempts ev < maxAttempts" using assms(1-3) by (simp add: inbox_ok_def)
  with assms(4) have after: "evAttempts (f ev) \<le> maxAttempts" "evProcessedAt (f ev) = None \<Longrightarrow> evAttempts (f ev) < maxAttempts"
    unfolding settles_def by (auto dest: spec [of _ ev])
  have rows: "e' \<in> set (set_event (evID ev) f rows) \<Longrightarrow> e' = f ev \<or> e' \<in> set rows" for e'
    using same by (auto simp: set_event_def split: if_splits)
  show "inbox_ok (set_event (evID ev) f rows)"
    unfolding inbox_ok_def keep
  proof (intro conjI ballI)
    fix e assume "e \<in> set (set_event (evID ev) f rows)"
    with rows consider "e = f ev" | "e \<in> set rows" by blast
    then show "evAttempts e \<le> maxAttempts" "evProcessedAt e = None \<longrightarrow> evAttempts e < maxAttempts"
      using assms(1) after unfolding inbox_ok_def by (cases; blast)+
  qed (use assms(1) in \<open>simp add: inbox_ok_def\<close>)
  have "allowance (f ev) < allowance ev" using small assms(3,4) by (auto simp: allowance_def settles_def)
  moreover have "outstanding (set_event (evID ev) f rows) + allowance ev = outstanding rows + allowance (f ev)"
    using assms(1,2) ids_unique by (intro outstanding_set_event) (auto simp: inbox_ok_def)
  ultimately show "outstanding (set_event (evID ev) f rows) < outstanding rows" by linarith
qed

lemma deliver_batch:
  assumes "inbox_ok (inRows s)" "set batch \<subseteq> set (inRows s)" "distinct (map evID batch)" "\<forall>e \<in> set batch. evProcessedAt e = None"
  shows "inbox_ok (inRows (fold (deliver cs) batch s))
    \<and> map evID (inRows (fold (deliver cs) batch s)) = map evID (inRows s)
    \<and> outstanding (inRows (fold (deliver cs) batch s)) + length batch \<le> outstanding (inRows s)"
  using assms
proof (induction batch arbitrary: s)
  case (Cons ev batch)
  obtain f where f: "inRows (deliver cs ev s) = set_event (evID ev) f (inRows s)" "settles ev f"
    using deliver_rows by blast
  have ok: "inbox_ok (inRows (deliver cs ev s))" "outstanding (inRows (deliver cs ev s)) < outstanding (inRows s)"
    using set_event_ok [of "inRows s" ev f] Cons.prems f by auto
  have "set batch \<subseteq> set (inRows (deliver cs ev s))"
    unfolding f(1)
  proof
    fix e assume "e \<in> set batch"
    with Cons.prems(2,3) have "e \<in> set (inRows s)" "evID e \<noteq> evID ev" by (auto simp: image_iff)
    then show "e \<in> set (set_event (evID ev) f (inRows s))" by (rule set_event_other)
  qed
  moreover have "map evID (inRows (deliver cs ev s)) = map evID (inRows s)"
    unfolding f(1) using f(2) by (intro set_event_ids) (simp add: settles_def)
  ultimately show ?case using Cons.IH [OF ok(1)] Cons.prems(3,4) ok(2) by auto
qed simp

lemma claimBatch_rows:
  assumes "inbox_ok rows"
  shows "claimBatch k rows = take k (filter (\<lambda>e. evProcessedAt e = None) rows)"
    "set (claimBatch k rows) \<subseteq> set rows" "distinct (map evID (claimBatch k rows))"
    "\<forall>e \<in> set (claimBatch k rows). evProcessedAt e = None"
proof -
  have "sorted_wrt (<) (map evID (filter P rows))" for P
    using assms unfolding inbox_ok_def sorted_wrt_map by (auto intro: sorted_wrt_filter)
  then have s: "sorted_wrt (<) (map evID (filter (\<lambda>e. evProcessedAt e = None) rows))" by blast
  then show c: "claimBatch k rows = take k (filter (\<lambda>e. evProcessedAt e = None) rows)"
    unfolding claimBatch_def by (simp add: sort_key_id_if_sorted strict_sorted_iff)
  show "set (claimBatch k rows) \<subseteq> set rows" "\<forall>e \<in> set (claimBatch k rows). evProcessedAt e = None"
    unfolding c by (auto dest: in_set_takeD)
  show "distinct (map evID (claimBatch k rows))"
    unfolding c take_map [symmetric] using ids_unique [OF s] by (rule distinct_take)
qed

lemma drain_commits:
  assumes "inbox_ok (inRows s)"
  shows "inbox_ok (inRows (drain None cs s))" "map evID (inRows (drain None cs s)) = map evID (inRows s)"
    "outstanding (inRows (drain None cs s)) \<le> outstanding (inRows s) - 1"
proof -
  let ?b = "claimBatch drainBatch (inRows s)"
  note b = deliver_batch [OF assms claimBatch_rows(2-4) [OF assms, of drainBatch], of cs]
  show "inbox_ok (inRows (drain None cs s))" "map evID (inRows (drain None cs s)) = map evID (inRows s)"
    using b by (simp_all add: drain_def)
  show "outstanding (inRows (drain None cs s)) \<le> outstanding (inRows s) - 1"
  proof (cases "?b = []")
    case True
    then have "filter (\<lambda>e. evProcessedAt e = None) (inRows s) = []"
      using claimBatch_rows(1) [OF assms, of drainBatch] by (simp add: drainBatch_def)
    then have "allowance e = 0" if "e \<in> set (inRows s)" for e
      using that by (auto simp: allowance_def filter_empty_conv)
    then have "outstanding (inRows s) = 0" by (simp add: outstanding_def)
    with b show ?thesis by (simp add: drain_def True)
  next
    case False
    then have "1 \<le> length ?b" by (cases ?b) auto
    with b have "outstanding (inRows (fold (deliver cs) ?b s)) \<le> outstanding (inRows s) - 1" by linarith
    then show ?thesis by (simp add: drain_def)
  qed
qed

lemma drains_commit:
  assumes "inbox_ok (inRows s)"
  shows "inbox_ok (inRows ((drain None cs ^^ n) s)) \<and> map evID (inRows ((drain None cs ^^ n) s)) = map evID (inRows s)
    \<and> outstanding (inRows ((drain None cs ^^ n) s)) \<le> outstanding (inRows s) - n"
proof (induction n)
  case (Suc n)
  then show ?case using drain_commits [of "(drain None cs ^^ n) s" cs] by auto
qed (use assms in simp)

lemma outstanding_le: "outstanding rows \<le> maxAttempts * length rows"
  unfolding outstanding_def
proof (induction rows)
  case (Cons e rows)
  have "allowance e \<le> maxAttempts" by (simp add: allowance_def)
  with Cons show ?case by simp
qed simp

lemma inbox_reach_ok: "inbox_reach cs s \<Longrightarrow> inbox_ok (inRows s)"
proof (induction rule: inbox_reach.induct)
  case (produce s new t source kind dedup p)
  then show ?case by (auto simp: insert_event_def inbox_ok_def sorted_wrt_append maxAttempts_def)
next
  case (drains s stop)
  then show ?case using drain_commits(1) [of s cs] by (cases stop) (simp_all add: drain_def)
next
  case (sweeps s)
  then show ?case unfolding inbox_ok_def Sweep_def sorted_wrt_map by (auto intro: sorted_wrt_filter)
qed (simp_all add: inbox_ok_def)

text \<open>C30. No event starves and none is retried forever: from every state of the inbox, whatever the
  consumers do, five committed drains per row leave every row processed after at most five attempts.\<close>

theorem every_event_settles:
  assumes "inbox_reach cs s"
  shows "map evID (inRows ((drain None cs ^^ (maxAttempts * length (inRows s))) s)) = map evID (inRows s)
    \<and> list_all (\<lambda>e. evProcessedAt e \<noteq> None \<and> evAttempts e \<le> maxAttempts)
        (inRows ((drain None cs ^^ (maxAttempts * length (inRows s))) s))"
proof -
  let ?s = "(drain None cs ^^ (maxAttempts * length (inRows s))) s"
  note d = drains_commit [OF inbox_reach_ok [OF assms], of "maxAttempts * length (inRows s)" cs]
  then have "outstanding (inRows ?s) = 0" using outstanding_le [of "inRows s"] by simp
  then have none: "allowance e = 0" if "e \<in> set (inRows ?s)" for e
    using that by (auto simp: outstanding_def)
  have "evProcessedAt e \<noteq> None \<and> evAttempts e \<le> maxAttempts" if "e \<in> set (inRows ?s)" for e
  proof -
    have "evAttempts e \<le> maxAttempts" "evProcessedAt e = None \<longrightarrow> evAttempts e < maxAttempts"
      using d that by (auto simp: inbox_ok_def)
    with none [OF that] show ?thesis unfolding allowance_def by (cases "evProcessedAt e = None") simp_all
  qed
  with d show ?thesis by (auto simp: list_all_iff)
qed

definition failing_consumer :: "(unit, nat, unit) Consumer" where
  "failing_consumer = \<lparr>csName = ''c'', csKinds = [''k''], csHandle = (\<lambda>ev w t. (w + 1, t, Some ''down''))\<rparr>"

theorem every_event_settles_witness:
  "\<exists>s :: (unit, nat, unit) Inbox. inbox_reach [failing_consumer] s \<and> length (inRows s) = 1
     \<and> list_all (\<lambda>e. evProcessedAt e \<noteq> None \<and> evAttempts e \<le> maxAttempts) (inRows ((drain None [failing_consumer] ^^ 5) s))"
proof -
  let ?e = "\<lparr>inNow = 0, inRows = [], inWorld = 0, inTx = ()\<rparr> :: (unit, nat, unit) Inbox"
  let ?s = "?e\<lparr>inTx := (), inRows := insert_event 1 ''mission'' ''k'' ''m'' () (inRows ?e)\<rparr>"
  have r: "inbox_reach [failing_consumer] ?s" by (rule inbox_reach.produce [OF inbox_reach.start]) simp
  have "length (inRows ?s) = 1" by (simp add: insert_event_def)
  with every_event_settles [OF r] r show ?thesis by (auto simp: maxAttempts_def)
qed

end
