(* ===== verification/Mission_Create.thy ===== *)
theory Mission_Create
  imports Mission_Store Mission_Verify Permissions
begin

text \<open>
  Creating a mission: the defaults every caller resolves (\<open>internal/brain/missions/create.go\<close>,
  \<open>route.go\<close>, \<open>template.go\<close>), the route gate, and the shape check (\<open>validate.go\<close>). The lookups are
  fields of the code's \<open>ResolveDeps\<close> and \<open>ValidateDeps\<close>, absent when nil; the registries of CLI
  executors and git providers and the URL parsers of the latter are arguments of the check.
\<close>

section \<open>Requests and missions\<close>

record SourceEntry =
  seSource :: string
  seConnectorID :: string
  seRepoURL :: string
  seID :: string
  seMissionID :: string
  seDigest :: string

record DestinationEntry =
  deDestination :: string
  deDestinationID :: string
  deCollectionID :: string
  deRepoURL :: string

record CreateRequest =
  crGoal :: string
  crName :: string
  crKind :: string
  crAgentID :: string
  crRoute :: string
  crReviewRoute :: string
  crPlanRoute :: string
  crEscalationRoute :: string
  crRouteModel :: string
  crPlanRouteModel :: string
  crReviewRouteModel :: string
  crMaxIterations :: int
  crBudgetAmount :: "real option"
  crBudgetCurrency :: string
  crAutoApproveTools :: "bool option"
  crAutoApprovePlan :: "bool option"
  crHarness :: string
  crReviewHarness :: string
  crExecutorSessionPolicy :: string
  crHasPlan :: bool
  crLight :: bool
  crFlow :: string
  crPermissionTimeout :: "int option"
  crParentMissionID :: string
  crSources :: "SourceEntry list"
  crDestinations :: "DestinationEntry list"
  crAutomationRunID :: string
  crWorkflowRunID :: string
  crWorkflowStep :: string
  crToolAllowlist :: "string list option"
  crOriginKind :: string
  crUnattended :: "bool option"
  crChannelConversationID :: string

text \<open>The zero request every caller fills in.\<close>

definition empty_request :: CreateRequest where
  "empty_request =
     \<lparr>crGoal = [], crName = [], crKind = [], crAgentID = [], crRoute = [], crReviewRoute = [], crPlanRoute = [],
      crEscalationRoute = [], crRouteModel = [], crPlanRouteModel = [], crReviewRouteModel = [],
      crMaxIterations = 0, crBudgetAmount = None, crBudgetCurrency = [], crAutoApproveTools = None,
      crAutoApprovePlan = None, crHarness = [], crReviewHarness = [], crExecutorSessionPolicy = [],
      crHasPlan = False, crLight = False, crFlow = [], crPermissionTimeout = None, crParentMissionID = [],
      crSources = [], crDestinations = [], crAutomationRunID = [], crWorkflowRunID = [], crWorkflowStep = [],
      crToolAllowlist = None, crOriginKind = [], crUnattended = None, crChannelConversationID = []\<rparr>"

record NewMission =
  nmGoal :: string
  nmName :: string
  nmKind :: string
  nmAgentID :: string
  nmRoute :: string
  nmReviewRoute :: string
  nmPlanRoute :: string
  nmEscalationRoute :: string
  nmRouteModel :: string
  nmPlanRouteModel :: string
  nmReviewRouteModel :: string
  nmMaxIterations :: int
  nmBudgetAmount :: "real option"
  nmBudgetCurrency :: string
  nmAutoApproveTools :: bool
  nmAutoApprovePlan :: bool
  nmPromptOverlay :: string
  nmHarness :: string
  nmReviewHarness :: string
  nmExecutorSessionPolicy :: string
  nmHasPlan :: bool
  nmParentMissionID :: string
  nmSources :: "SourceEntry list"
  nmDestinations :: "DestinationEntry list"
  nmFlow :: string
  nmPermissionTimeout :: "int option"
  nmAutomationRunID :: string
  nmToolAllowlist :: "string list option"
  nmWorkflowRunID :: string
  nmWorkflowStep :: string
  nmOriginKind :: string
  nmUnattended :: bool
  nmChannelConversationID :: string

section \<open>Kind and light\<close>

text \<open>The outcome of a \<open>Decide\<close> call: the picked option, an error, or no role bound.\<close>

datatype decision = Picked string | DecideFailed | DecideUnbound

definition trim_dots :: "string \<Rightarrow> string" where
  "trim_dots = trim_both (\<lambda>c. c = CHR ''.'' \<or> c = CHR '','')"

fun read_axes :: "string list \<Rightarrow> string option \<Rightarrow> bool option \<Rightarrow> string option \<times> bool option" where
  "read_axes [] kind light = (kind, light)"
| "read_axes (f # fs) kind light =
     (let clean = trim_dots f
      in if kind = None \<and> (clean = KindCoding \<or> clean = KindGeneral) then read_axes fs (Some clean) light
         else if kind \<noteq> None \<and> light = None \<and> clean = ''light'' then read_axes fs kind (Some True)
         else if kind \<noteq> None \<and> light = None \<and> clean = ''full'' then read_axes fs kind (Some False)
         else read_axes fs kind light)"

definition classifyKindAndLight :: "(string \<Rightarrow> string option) option \<Rightarrow> string \<Rightarrow> string \<times> bool" where
  "classifyKindAndLight classify goal =
     (case classify of
        None \<Rightarrow> (KindGeneral, False)
      | Some f \<Rightarrow>
          case f goal of
            None \<Rightarrow> (KindGeneral, False)
          | Some reply \<Rightarrow>
              case read_axes (fields_func is_space (to_lower reply)) None None of
                (None, _) \<Rightarrow> (KindGeneral, False)
              | (Some kind, light) \<Rightarrow> (kind, kind = KindGeneral \<and> light = Some True))"

text \<open>\<open>decide True\<close> is the kind question, \<open>decide False\<close> the light question.\<close>

definition classifyGoal ::
    "(bool \<Rightarrow> string \<Rightarrow> decision) option \<Rightarrow> (string \<Rightarrow> string option) option \<Rightarrow> string \<Rightarrow> bool \<Rightarrow> string \<times> bool" where
  "classifyGoal decide classify goal askLight =
     (case decide of
        None \<Rightarrow> classifyKindAndLight classify goal
      | Some d \<Rightarrow>
          case d True goal of
            DecideUnbound \<Rightarrow> classifyKindAndLight classify goal
          | DecideFailed \<Rightarrow> (KindGeneral, False)
          | Picked c \<Rightarrow>
              if c \<noteq> KindCoding \<and> c \<noteq> KindGeneral then (KindGeneral, False)
              else if c = KindCoding \<or> \<not> askLight then (c, False)
              else (KindGeneral, d False goal = Picked ''yes''))"

definition ClassifyKind ::
    "(bool \<Rightarrow> string \<Rightarrow> decision) option \<Rightarrow> (string \<Rightarrow> string option) option \<Rightarrow> string \<Rightarrow> string" where
  "ClassifyKind decide classify goal = fst (classifyGoal decide classify goal False)"

section \<open>Routes and harness\<close>

definition DefaultCodingRoute :: "(string \<Rightarrow> bool) option \<Rightarrow> string \<Rightarrow> string" where
  "DefaultCodingRoute routeExists defaultRoute =
     (case routeExists of Some ex \<Rightarrow> if ex ''coding'' then ''coding'' else defaultRoute | None \<Rightarrow> defaultRoute)"

definition ResolveHarness :: "string \<Rightarrow> string \<Rightarrow> string \<Rightarrow> string option \<Rightarrow> string \<times> string" where
  "ResolveHarness kind explicit agentHarness settingsDefault =
     (if kind \<noteq> KindCoding then ([], [])
      else
        let (h, src) = (if explicit \<noteq> [] then (explicit, ''explicit'')
                        else if agentHarness \<noteq> [] then (agentHarness, ''agent'')
                        else case settingsDefault of Some d \<Rightarrow> (d, ''settings'') | None \<Rightarrow> ([], []))
        in if h = [] \<or> h = ''native'' then ([], []) else (h, src))"

text \<open>An entry of a resolved route: whether it is usable, and why not.\<close>

type_synonym route_lookup = "string \<Rightarrow> string \<Rightarrow> (bool \<times> string) list option"

definition noUsable :: string where "noUsable = ''no usable provider for this route''"

fun skip_reason :: "string \<Rightarrow> (bool \<times> string) list \<Rightarrow> string option" where
  "skip_reason reason [] = Some reason"
| "skip_reason reason ((usable, skip) # es) =
     (if usable then None else skip_reason (if reason = noUsable \<and> skip \<noteq> [] then skip else reason) es)"

definition RouteUnusable :: "route_lookup option \<Rightarrow> string \<Rightarrow> string \<Rightarrow> string option" where
  "RouteUnusable resolve rt harness =
     (case resolve of
        None \<Rightarrow> None
      | Some res \<Rightarrow>
          if rt = [] then None
          else case res rt harness of None \<Rightarrow> None | Some [] \<Rightarrow> None | Some es \<Rightarrow> skip_reason noUsable es)"

definition create_axes :: "NewMission \<Rightarrow> (string \<times> string) list" where
  "create_axes m =
     [(nmRoute m, nmHarness m)]
     @ (if nmFlow m \<noteq> ''light'' then [(if nmPlanRoute m = [] then nmRoute m else nmPlanRoute m, [])] else [])
     @ (if nmFlow m = ''full'' \<or> nmFlow m = [] then [(nmReviewRoute m, [])] else [])
     @ (if nmEscalationRoute m \<noteq> [] then [(nmEscalationRoute m, [])] else [])"

fun first_unusable :: "route_lookup option \<Rightarrow> (string \<times> string) list \<Rightarrow> (string \<times> string) set \<Rightarrow> (string \<times> string) option" where
  "first_unusable resolve [] seen = None"
| "first_unusable resolve (a # as) seen =
     (if fst a = [] \<or> a \<in> seen then first_unusable resolve as seen
      else case RouteUnusable resolve (fst a) (snd a) of
             Some reason \<Rightarrow> Some (fst a, reason)
           | None \<Rightarrow> first_unusable resolve as (insert a seen))"

definition UnusableCreateRoute :: "route_lookup option \<Rightarrow> NewMission \<Rightarrow> (string \<times> string) option" where
  "UnusableCreateRoute resolve m = first_unusable resolve (create_axes m) {}"

fun dedup_trimmed :: "string list \<Rightarrow> string list \<Rightarrow> string list" where
  "dedup_trimmed out [] = out"
| "dedup_trimmed out (x # xs) =
     (let t = trim_space x in dedup_trimmed (if t \<in> set out then out else out @ [t]) xs)"

definition normalizeToolAllowlist :: "string list option \<Rightarrow> string list option" where
  "normalizeToolAllowlist allow = map_option (dedup_trimmed []) allow"

section \<open>Defaults\<close>

record AgentDefaults =
  adRoute :: string
  adReviewRoute :: string
  adPromptOverlay :: string
  adHarness :: string
  adTools :: "string list"

record ResolveDeps =
  rdDecide :: "(bool \<Rightarrow> string \<Rightarrow> decision) option"
  rdClassify :: "(string \<Rightarrow> string option) option"
  rdAgent :: "(string \<Rightarrow> AgentDefaults option) option"
  rdRouteForRole :: "(string \<Rightarrow> string) option"
  rdRouteExists :: "(string \<Rightarrow> bool) option"
  rdCodingExecutorDefault :: "string option"
  rdDefaultMaxIterations :: "int option"
  rdResolveRoute :: "route_lookup option"

datatype create_error =
    RouteUnusableError string string
  | BadKind
  | UnknownOrigin string
  | UnknownFlow string
  | CodingNeedsFull
  | LightNeedsGeneral
  | HarnessNeedsCoding
  | SessionPolicyNeedsCoding
  | RepoNeedsCoding
  | UnknownHarness string
  | ToolAllowlistHarness "string list"
  | UnknownReviewHarness string
  | UnknownSessionPolicy string
  | RepoNeedsConnector
  | ConnectorNeedsRepo
  | UnrecognizableSource string
  | RouteRequired
  | BadModelPin string
  | AllowlistTooLong
  | AllowlistEmptyEntry
  | UnrecognizableRepo
  | DestinationError string
  | DestinationNeedsCoding string
  | RepoNeedsProvider
  | UnrecognizableDestination string
  | InvalidDestinations "string list"
  | CollectionError string
  | UnknownCollection string

definition fallbackMaxIterations :: int where "fallbackMaxIterations = 3"
definition defaultPermissionTimeoutUnattended :: int where "defaultPermissionTimeoutUnattended = 1800"

definition fallback_to :: "string \<Rightarrow> string \<Rightarrow> string" where
  "fallback_to a b = (if a = [] then b else a)"

definition drop_native :: "string \<Rightarrow> string" where
  "drop_native h = (if h = ''native'' then [] else h)"

definition default_route :: "ResolveDeps \<Rightarrow> string" where
  "default_route deps = (case rdRouteForRole deps of Some f \<Rightarrow> f ''default'' | None \<Rightarrow> [])"

definition request_agent :: "ResolveDeps \<Rightarrow> CreateRequest \<Rightarrow> AgentDefaults option" where
  "request_agent deps req = (case rdAgent deps of Some f \<Rightarrow> f (crAgentID req) | None \<Rightarrow> None)"

definition request_kind :: "ResolveDeps \<Rightarrow> CreateRequest \<Rightarrow> string" where
  "request_kind deps req =
     (if crKind req = [] then ClassifyKind (rdDecide deps) (rdClassify deps) (crGoal req) else crKind req)"

definition build_route :: "ResolveDeps \<Rightarrow> CreateRequest \<Rightarrow> string" where
  "build_route deps req =
     (let rt = (case request_agent deps req of Some a \<Rightarrow> fallback_to (crRoute req) (adRoute a) | None \<Rightarrow> crRoute req)
      in if rt \<noteq> [] then rt
         else if request_kind deps req = KindCoding then DefaultCodingRoute (rdRouteExists deps) (default_route deps)
         else default_route deps)"

definition review_route :: "ResolveDeps \<Rightarrow> CreateRequest \<Rightarrow> string" where
  "review_route deps req =
     (let rt = (case request_agent deps req of Some a \<Rightarrow> fallback_to (crReviewRoute req) (adReviewRoute a)
                | None \<Rightarrow> crReviewRoute req)
      in if rt \<noteq> [] then rt else fallback_to (crPlanRoute req) (default_route deps))"

text \<open>The default agent's harness never applies to a request that names no agent.\<close>

definition request_harness :: "ResolveDeps \<Rightarrow> CreateRequest \<Rightarrow> string" where
  "request_harness deps req =
     fst (ResolveHarness (request_kind deps req) (drop_native (crHarness req))
       (case request_agent deps req of Some a \<Rightarrow> if crAgentID req \<noteq> [] then adHarness a else [] | None \<Rightarrow> [])
       (rdCodingExecutorDefault deps))"

definition max_iterations :: "ResolveDeps \<Rightarrow> CreateRequest \<Rightarrow> int" where
  "max_iterations deps req =
     (let n = (if crMaxIterations req \<le> 0 then
                 (case rdDefaultMaxIterations deps of Some d \<Rightarrow> d | None \<Rightarrow> crMaxIterations req)
               else crMaxIterations req)
      in if n \<le> 0 then fallbackMaxIterations else n)"

definition request_origin :: "CreateRequest \<Rightarrow> string" where
  "request_origin req =
     (let origin = fallback_to (crOriginKind req) ''api''
      in if origin = ''api'' \<and> crParentMissionID req \<noteq> [] then ''followup'' else origin)"

definition request_unattended :: "CreateRequest \<Rightarrow> bool" where
  "request_unattended req =
     (case crUnattended req of Some b \<Rightarrow> b
      | None \<Rightarrow> request_origin req = ''automation'' \<or> request_origin req = ''workflow'')"

definition permission_timeout :: "CreateRequest \<Rightarrow> int option" where
  "permission_timeout req =
     (if crPermissionTimeout req = None \<and> request_unattended req then Some defaultPermissionTimeoutUnattended
      else crPermissionTimeout req)"

definition resolved_mission :: "ResolveDeps \<Rightarrow> CreateRequest \<Rightarrow> NewMission" where
  "resolved_mission deps req =
     \<lparr>nmGoal = crGoal req, nmName = crName req, nmKind = request_kind deps req, nmAgentID = crAgentID req,
      nmRoute = build_route deps req, nmReviewRoute = review_route deps req, nmPlanRoute = crPlanRoute req,
      nmEscalationRoute = crEscalationRoute req, nmRouteModel = crRouteModel req,
      nmPlanRouteModel = crPlanRouteModel req, nmReviewRouteModel = crReviewRouteModel req,
      nmMaxIterations = max_iterations deps req, nmBudgetAmount = crBudgetAmount req,
      nmBudgetCurrency = fallback_to (crBudgetCurrency req) ''USD'',
      nmAutoApproveTools = (case crAutoApproveTools req of Some b \<Rightarrow> b | None \<Rightarrow> True),
      nmAutoApprovePlan = (case crAutoApprovePlan req of Some b \<Rightarrow> b | None \<Rightarrow> True),
      nmPromptOverlay = (case request_agent deps req of Some a \<Rightarrow> adPromptOverlay a | None \<Rightarrow> []),
      nmHarness = request_harness deps req, nmReviewHarness = drop_native (crReviewHarness req),
      nmExecutorSessionPolicy = crExecutorSessionPolicy req, nmHasPlan = crHasPlan req,
      nmParentMissionID = crParentMissionID req, nmSources = crSources req, nmDestinations = crDestinations req,
      nmFlow = (if crFlow req \<noteq> [] then crFlow req else if crLight req then ''light'' else ''full''),
      nmPermissionTimeout = permission_timeout req, nmAutomationRunID = crAutomationRunID req,
      nmToolAllowlist = normalizeToolAllowlist (crToolAllowlist req), nmWorkflowRunID = crWorkflowRunID req,
      nmWorkflowStep = crWorkflowStep req, nmOriginKind = request_origin req,
      nmUnattended = request_unattended req, nmChannelConversationID = crChannelConversationID req\<rparr>"

definition ResolveDefaults :: "ResolveDeps \<Rightarrow> CreateRequest \<Rightarrow> create_error + NewMission" where
  "ResolveDefaults deps req =
     (let m = resolved_mission deps req
      in case UnusableCreateRoute (rdResolveRoute deps) m of
           Some (rt, reason) \<Rightarrow> Inl (RouteUnusableError rt reason)
         | None \<Rightarrow> Inr m)"

section \<open>The shape check\<close>

record Registries =
  rgHarnesses :: "string list"
  rgGitKinds :: "string list"
  rgParsesURL :: "string \<Rightarrow> string \<Rightarrow> bool"
  rgGitHubURL :: "string \<Rightarrow> bool"

text \<open>\<open>vdDestinationKind\<close>: kind and whether enabled, or an error.\<close>

record ValidateDeps =
  vdDestinationKind :: "(string \<Rightarrow> string + string \<times> bool) option"
  vdCollectionExists :: "(string \<Rightarrow> string + bool) option"

definition maxToolAllowlist :: nat where "maxToolAllowlist = 64"

definition last_slash :: "string \<Rightarrow> nat option" where
  "last_slash pin =
     (if CHR ''/'' \<in> set pin then Some (length pin - 1 - length (takeWhile (\<lambda>c. c \<noteq> CHR ''/'') (rev pin))) else None)"

definition validModelPin :: "string \<Rightarrow> bool" where
  "validModelPin pin = (case last_slash pin of None \<Rightarrow> False | Some i \<Rightarrow> 0 < i \<and> i \<noteq> length pin - 1)"

definition repoSource :: "Registries \<Rightarrow> NewMission \<Rightarrow> SourceEntry option" where
  "repoSource rg m = find (\<lambda>e. seSource e \<in> set (rgGitKinds rg)) (nmSources m)"

definition RepoURL :: "Registries \<Rightarrow> NewMission \<Rightarrow> string" where
  "RepoURL rg m = (case repoSource rg m of Some e \<Rightarrow> seRepoURL e | None \<Rightarrow> [])"

definition ConnectorID :: "Registries \<Rightarrow> NewMission \<Rightarrow> string" where
  "ConnectorID rg m = (case repoSource rg m of Some e \<Rightarrow> seConnectorID e | None \<Rightarrow> [])"

definition KBCollectionID :: "NewMission \<Rightarrow> string" where
  "KBCollectionID m =
     (case find (\<lambda>e. deDestination e = ''kb'') (nmDestinations m) of Some e \<Rightarrow> deCollectionID e | None \<Rightarrow> [])"

definition allowlistPassTools :: "string list" where
  "allowlistPassTools =
     [''mission_status'', ''discover_notes'', ''submit_plan'', ''review_verdict'', ''ask_user'', ''retrieve_output'',
      ''load_skill'']"

definition delegatedWorkerTools :: "string list" where
  "delegatedWorkerTools = [''shell'', ''write_file'']"

definition allowsTool :: "string list option \<Rightarrow> string \<Rightarrow> bool" where
  "allowsTool allow name =
     (case allow of None \<Rightarrow> True
      | Some es \<Rightarrow> name \<in> set allowlistPassTools \<or> (\<exists>e \<in> set es. ToolMatches name e))"

definition delegatedAllowlistGap :: "string list option \<Rightarrow> string list" where
  "delegatedAllowlistGap allow =
     (case allow of None \<Rightarrow> [] | Some _ \<Rightarrow> filter (\<lambda>t. \<not> allowsTool allow t) delegatedWorkerTools)"

definition CheckToolAllowlistHarness :: "NewMission \<Rightarrow> create_error option" where
  "CheckToolAllowlistHarness m =
     (if nmHarness m = [] then None
      else case delegatedAllowlistGap (nmToolAllowlist m) of [] \<Rightarrow> None | gap \<Rightarrow> Some (ToolAllowlistHarness gap))"

definition parsesURLForKind :: "Registries \<Rightarrow> string \<Rightarrow> string \<Rightarrow> bool" where
  "parsesURLForKind rg kind url =
     (if kind = ''github'' \<or> kind \<notin> set (rgGitKinds rg) then rgGitHubURL rg url else rgParsesURL rg kind url)"

definition recognizableRepoURL :: "Registries \<Rightarrow> string \<Rightarrow> bool" where
  "recognizableRepoURL rg url = (rgGitHubURL rg url \<or> (\<exists>k \<in> set (rgGitKinds rg). rgParsesURL rg k url))"

definition mission_policy :: "NewMission \<Rightarrow> missionPolicy" where
  "mission_policy m = policyFor (nmKind m) (parseFlow (nmFlow m))"

fun check_destinations ::
    "Registries \<Rightarrow> bool \<Rightarrow> (string \<Rightarrow> string + string \<times> bool) \<Rightarrow> DestinationEntry list \<Rightarrow> string list \<Rightarrow> create_error option" where
  "check_destinations rg delegates kind_of [] invalid =
     (if invalid \<noteq> [] then Some (InvalidDestinations invalid) else None)"
| "check_destinations rg delegates kind_of (e # es) invalid =
     (if deDestinationID e = [] then check_destinations rg delegates kind_of es invalid
      else case kind_of (deDestinationID e) of
             Inl err \<Rightarrow> Some (DestinationError err)
           | Inr (kind, enabled) \<Rightarrow>
               if \<not> enabled then check_destinations rg delegates kind_of es (invalid @ [deDestinationID e])
               else
                 let repoKind = kind \<in> set (rgGitKinds rg)
                 in if repoKind \<and> \<not> delegates then Some (DestinationNeedsCoding kind)
                    else if \<not> repoKind \<and> deRepoURL e \<noteq> [] then Some RepoNeedsProvider
                    else if repoKind \<and> deRepoURL e \<noteq> [] \<and> \<not> rgParsesURL rg kind (deRepoURL e)
                      then Some (UnrecognizableDestination kind)
                    else check_destinations rg delegates kind_of es invalid)"

definition check_kind :: "NewMission \<Rightarrow> create_error option" where
  "check_kind m =
     (if nmKind m \<noteq> KindCoding \<and> nmKind m \<noteq> KindGeneral then Some BadKind
      else if \<not> ValidOrigin (nmOriginKind m) then Some (UnknownOrigin (nmOriginKind m))
      else if \<not> ValidFlow (nmFlow m) then Some (UnknownFlow (nmFlow m))
      else if nmKind m = KindCoding \<and> nmFlow m \<noteq> ''full'' then Some CodingNeedsFull
      else if nmFlow m = ''light'' \<and> nmKind m \<noteq> KindGeneral then Some LightNeedsGeneral
      else None)"

definition check_harness :: "Registries \<Rightarrow> NewMission \<Rightarrow> create_error option" where
  "check_harness rg m =
     (if \<not> canDelegate (mission_policy m) \<and> nmHarness m \<noteq> [] then Some HarnessNeedsCoding
      else if \<not> canDelegate (mission_policy m) \<and> nmExecutorSessionPolicy m \<noteq> [] then Some SessionPolicyNeedsCoding
      else if \<not> canDelegate (mission_policy m) \<and> RepoURL rg m \<noteq> [] then Some RepoNeedsCoding
      else if nmHarness m \<noteq> [] \<and> nmHarness m \<notin> set (rgHarnesses rg) then Some (UnknownHarness (nmHarness m))
      else if CheckToolAllowlistHarness m \<noteq> None then CheckToolAllowlistHarness m
      else if nmReviewHarness m \<noteq> [] \<and> nmReviewHarness m \<notin> set (rgHarnesses rg)
        then Some (UnknownReviewHarness (nmReviewHarness m))
      else if nmExecutorSessionPolicy m \<notin> {[], ''resume'', ''fresh''}
        then Some (UnknownSessionPolicy (nmExecutorSessionPolicy m))
      else None)"

definition check_repo :: "Registries \<Rightarrow> NewMission \<Rightarrow> create_error option" where
  "check_repo rg m =
     (if RepoURL rg m \<noteq> [] \<and> ConnectorID rg m = [] then Some RepoNeedsConnector
      else if RepoURL rg m = [] \<and> ConnectorID rg m \<noteq> [] then Some ConnectorNeedsRepo
      else case repoSource rg m of
             None \<Rightarrow> None
           | Some e \<Rightarrow>
               if seSource e \<noteq> ''github'' \<and> \<not> parsesURLForKind rg (seSource e) (seRepoURL e)
               then Some (UnrecognizableSource (seSource e)) else None)"

definition check_shape :: "Registries \<Rightarrow> NewMission \<Rightarrow> create_error option" where
  "check_shape rg m =
     (if nmRoute m = [] then Some RouteRequired
      else if nmRouteModel m \<noteq> [] \<and> \<not> validModelPin (nmRouteModel m) then Some (BadModelPin ''route_model'')
      else if nmPlanRouteModel m \<noteq> [] \<and> \<not> validModelPin (nmPlanRouteModel m) then Some (BadModelPin ''plan_route_model'')
      else if nmReviewRouteModel m \<noteq> [] \<and> \<not> validModelPin (nmReviewRouteModel m)
        then Some (BadModelPin ''review_route_model'')
      else case nmToolAllowlist m of
             Some es \<Rightarrow>
               if maxToolAllowlist < length es then Some AllowlistTooLong
               else if [] \<in> set es then Some AllowlistEmptyEntry else None
           | None \<Rightarrow> None)"

definition check_collection :: "ValidateDeps \<Rightarrow> NewMission \<Rightarrow> create_error option" where
  "check_collection deps m =
     (case vdCollectionExists deps of
        None \<Rightarrow> None
      | Some ex \<Rightarrow>
          if KBCollectionID m = [] then None
          else case ex (KBCollectionID m) of
                 Inl err \<Rightarrow> Some (CollectionError err)
               | Inr ok \<Rightarrow> if ok then None else Some (UnknownCollection (KBCollectionID m)))"

fun first_failure :: "create_error option list \<Rightarrow> create_error option" where
  "first_failure [] = None"
| "first_failure (None # es) = first_failure es"
| "first_failure (Some e # es) = Some e"

definition ValidateCreate :: "Registries \<Rightarrow> ValidateDeps \<Rightarrow> NewMission \<Rightarrow> create_error option" where
  "ValidateCreate rg deps m =
     first_failure
       [check_kind m, check_harness rg m, check_repo rg m, check_shape rg m,
        (if \<exists>e \<in> set (nmDestinations m). deDestinationID e \<noteq> [] \<and> deRepoURL e \<noteq> []
              \<and> \<not> recognizableRepoURL rg (deRepoURL e) then Some UnrecognizableRepo else None),
        (case vdDestinationKind deps of
           None \<Rightarrow> None
         | Some kind_of \<Rightarrow> check_destinations rg (canDelegate (mission_policy m)) kind_of (nmDestinations m) []),
        check_collection deps m]"

text \<open>What the callers do: resolve the defaults, then \<open>Driver.Create\<close> checks the shape and inserts.\<close>

definition create_mission ::
    "ResolveDeps \<Rightarrow> Registries \<Rightarrow> ValidateDeps option \<Rightarrow> CreateRequest \<Rightarrow> create_error + NewMission" where
  "create_mission deps rg vdeps req =
     (case ResolveDefaults deps req of
        Inl e \<Rightarrow> Inl e
      | Inr m \<Rightarrow>
          case vdeps of
            None \<Rightarrow> Inr m
          | Some vd \<Rightarrow> (case ValidateCreate rg vd m of Some e \<Rightarrow> Inl e | None \<Rightarrow> Inr m))"

text \<open>What \<open>Driver.Create\<close>'s writes do: the row is inserted, is not, or is but provisioning fails after.\<close>

datatype insertion = Inserted | NotInserted | InsertedThenFailed

section \<open>What a created mission is\<close>

lemma first_failure_None: "first_failure es = None \<longleftrightarrow> list_all (\<lambda>e. e = None) es"
  by (induction es rule: first_failure.induct) auto

lemma first_unusable_None:
  "first_unusable resolve as seen = None \<Longrightarrow> a \<in> set as \<Longrightarrow> fst a \<noteq> [] \<Longrightarrow> a \<notin> seen
    \<Longrightarrow> RouteUnusable resolve (fst a) (snd a) = None"
proof (induction resolve as seen rule: first_unusable.induct)
  case (2 resolve b as seen)
  show ?case
  proof (cases "fst b = [] \<or> b \<in> seen")
    case True
    with 2 show ?thesis by (auto split: if_splits)
  next
    case False
    with 2(3) have "RouteUnusable resolve (fst b) (snd b) = None" "first_unusable resolve as (insert b seen) = None"
      by (auto split: option.splits)
    with 2 False show ?thesis by (cases "a = b") auto
  qed
qed simp

lemma skip_reason_None: "skip_reason r es = None \<longleftrightarrow> (\<exists>e \<in> set es. fst e)"
  by (induction r es rule: skip_reason.induct) auto

text \<open>A route passes the gate iff it is not known to be unusable.\<close>

lemma RouteUnusable_None:
  "RouteUnusable (Some res) rt h = None \<longleftrightarrow>
     rt = [] \<or> res rt h = None \<or> res rt h = Some [] \<or> (\<exists>es. res rt h = Some es \<and> (\<exists>e \<in> set es. fst e))"
  by (auto simp: RouteUnusable_def skip_reason_None split: option.split list.split)

lemma dedup_trimmed_distinct: "distinct out \<Longrightarrow> distinct (dedup_trimmed out xs)"
  by (induction out xs rule: dedup_trimmed.induct) (auto simp: Let_def)

lemma create_mission_Inr:
  "create_mission deps rg (Some vd) req = Inr m \<Longrightarrow>
     m = resolved_mission deps req \<and> UnusableCreateRoute (rdResolveRoute deps) m = None
     \<and> ValidateCreate rg vd m = None"
  by (auto simp: create_mission_def ResolveDefaults_def Let_def split: sum.splits option.splits)

lemma ValidateCreate_None:
  assumes "ValidateCreate rg vd m = None"
  shows "check_kind m = None" "check_harness rg m = None" "check_shape rg m = None"
  using assms by (simp_all add: ValidateCreate_def first_failure_None)

lemma check_kind_None: "check_kind m = None \<Longrightarrow>
    (nmKind m = KindCoding \<or> nmKind m = KindGeneral) \<and> ValidFlow (nmFlow m) \<and> (nmKind m \<noteq> KindCoding \<or> nmFlow m = ''full'')"
  by (simp add: check_kind_def split: if_splits)

lemma delegates_coding: "canDelegate (mission_policy m) \<longleftrightarrow> nmKind m = KindCoding"
  by (simp add: mission_policy_def policyFor_def)

lemma check_harness_None:
  assumes "check_harness rg m = None" "nmHarness m \<noteq> []"
  shows "nmKind m = KindCoding \<and> nmHarness m \<in> set (rgHarnesses rg)
    \<and> list_all (allowsTool (nmToolAllowlist m)) delegatedWorkerTools"
proof -
  have "nmKind m = KindCoding" "nmHarness m \<in> set (rgHarnesses rg)" "CheckToolAllowlistHarness m = None"
    using assms by (auto simp: check_harness_def delegates_coding split: if_splits)
  moreover from this(3) assms(2) have "list_all (allowsTool (nmToolAllowlist m)) delegatedWorkerTools"
    by (auto simp: CheckToolAllowlistHarness_def delegatedAllowlistGap_def list_all_iff filter_empty_conv allowsTool_def
        split: list.splits option.splits)
  ultimately show ?thesis by blast
qed

lemma resolved_allowlist: "nmToolAllowlist (resolved_mission deps req) = Some es \<Longrightarrow> distinct es"
  using dedup_trimmed_distinct [of "[]"] by (auto simp: resolved_mission_def normalizeToolAllowlist_def)

lemma resolved_unattended: "\<not> nmUnattended (resolved_mission deps req) \<or> nmPermissionTimeout (resolved_mission deps req) \<noteq> None"
  by (simp add: resolved_mission_def permission_timeout_def)


definition demo_deps :: ResolveDeps where
  "demo_deps = \<lparr>rdDecide = None, rdClassify = None, rdAgent = None, rdRouteForRole = Some (\<lambda>_. ''main''), rdRouteExists = None,
     rdCodingExecutorDefault = None, rdDefaultMaxIterations = None, rdResolveRoute = None\<rparr>"

definition demo_registries :: Registries where
  "demo_registries = \<lparr>rgHarnesses = [''claude''], rgGitKinds = [''github''], rgParsesURL = (\<lambda>_ _. True), rgGitHubURL = (\<lambda>_. True)\<rparr>"

definition demo_request :: CreateRequest where
  "demo_request = empty_request\<lparr>crGoal := ''fix it'', crKind := ''coding'', crHarness := ''claude'', crOriginKind := ''workflow''\<rparr>"

lemma demo_created:
  "create_mission demo_deps demo_registries (Some \<lparr>vdDestinationKind = None, vdCollectionExists = None\<rparr>) demo_request
     = Inr (resolved_mission demo_deps demo_request)"
  by code_simp


end
