(* ===== verification/Workflow_Engine.thy ===== *)
theory Workflow_Engine
  imports Mission_Create Go_Text
begin

text \<open>
  Workflows (\<open>internal/brain/workflows\<close>): missions chained by edges on how they end. \<open>definition.go\<close>'s
  check, \<open>interpolate.go\<close>, \<open>store.go\<close>'s runs with their event log, and \<open>engine.go\<close>: starting a run,
  recovering its entry, and the handler of a mission's terminal event, which may be delivered again
  after any failure. Each database call of the handler may fail; the JSON decoder of a stored
  definition and the outcome digest (\<open>missions/memory.go\<close>) are arguments.
\<close>

section \<open>Definitions\<close>

definition maxIterations :: int where "maxIterations = 10"
definition endStep :: string where "endStep = ''end''"

record WfStep =
  wsGoal :: string
  wsKind :: string
  wsLight :: bool
  wsRoute :: string
  wsPlanRoute :: string
  wsAgentID :: string
  wsDestinationIDs :: "string list"

record Edge =
  edFrom :: string
  edOn :: string
  edTo :: string
  edMax :: int

text \<open>\<open>dfSteps\<close>: the Go map in the order a loop walks it.\<close>

record Definition =
  dfEntry :: string
  dfSteps :: "(string \<times> WfStep) list"
  dfEdges :: "Edge list"

datatype def_error =
    EntryRequired | EntryUnknown string | StepReserved string | StepKind string | StepLight string
  | EdgeFrom nat string | EdgeOn nat string | EdgeTo nat string | Unparsable

definition validOn :: "string list" where
  "validOn = [''mission.done'', ''mission.failed'']"

fun check_steps :: "(string \<times> WfStep) list \<Rightarrow> def_error option" where
  "check_steps [] = None"
| "check_steps ((name, st) # rest) =
     (if name = endStep \<or> name = ''done'' then Some (StepReserved name)
      else if wsKind st \<noteq> ''coding'' \<and> wsKind st \<noteq> ''general'' then Some (StepKind name)
      else if wsLight st \<and> wsKind st \<noteq> ''general'' then Some (StepLight name)
      else check_steps rest)"

definition clamp :: "Edge \<Rightarrow> Edge" where
  "clamp e = (if edMax e \<le> 0 \<or> maxIterations < edMax e then e\<lparr>edMax := maxIterations\<rparr> else e)"

fun check_edges :: "string list \<Rightarrow> nat \<Rightarrow> Edge list \<Rightarrow> def_error + Edge list" where
  "check_edges names i [] = Inr []"
| "check_edges names i (e # es) =
     (if edFrom e \<notin> set names then Inl (EdgeFrom i (edFrom e))
      else if edOn e \<notin> set validOn then Inl (EdgeOn i (edOn e))
      else if edTo e \<noteq> endStep \<and> edTo e \<notin> set names then Inl (EdgeTo i (edTo e))
      else case check_edges names (i + 1) es of Inl x \<Rightarrow> Inl x | Inr r \<Rightarrow> Inr (clamp e # r))"

definition Validate :: "Definition \<Rightarrow> def_error + Definition" where
  "Validate d =
     (if dfEntry d = [] then Inl EntryRequired
      else if dfEntry d \<notin> fst ` set (dfSteps d) then Inl (EntryUnknown (dfEntry d))
      else case check_steps (dfSteps d) of
             Some e \<Rightarrow> Inl e
           | None \<Rightarrow> (case check_edges (map fst (dfSteps d)) 0 (dfEdges d) of
                        Inl e \<Rightarrow> Inl e | Inr es \<Rightarrow> Inr (d\<lparr>dfEdges := es\<rparr>)))"

definition ParseDefinition :: "(string \<Rightarrow> Definition option) \<Rightarrow> string \<Rightarrow> def_error + Definition" where
  "ParseDefinition decode raw = (case decode raw of None \<Rightarrow> Inl Unparsable | Some d \<Rightarrow> Validate d)"

section \<open>Goals\<close>

definition outcomeTruncateRunes :: nat where "outcomeTruncateRunes = 4000"

definition truncateRunes :: "string \<Rightarrow> nat \<Rightarrow> string" where
  "truncateRunes s n = (if length (runes s) \<le> n then s else concat (take n (runes s)))"

text \<open>\<open>strings.ReplaceAll\<close> for a non-empty \<open>old\<close>.\<close>

function replace_all :: "string \<Rightarrow> string \<Rightarrow> string \<Rightarrow> string" where
  "replace_all old new [] = []"
| "replace_all old new (c # s) =
     (if has_prefix (c # s) old then new @ replace_all old new (drop (length old - 1) s) else c # replace_all old new s)"
  by pat_completeness auto
termination by (relation "measure (\<lambda>(_, _, s). length s)") auto

text \<open>A placeholder is a key between these two; a rendered context value is not read again, the outcome is.\<close>

definition ctxOpen :: string where "ctxOpen = ''{{context.''"
definition ctxClose :: string where "ctxClose = ''}}''"

lemma str_index_nonempty: "str_index s sub = Some i \<Longrightarrow> sub \<noteq> [] \<Longrightarrow> s \<noteq> []"
  by (cases s) (auto split: if_splits)

function expand :: "(string \<Rightarrow> string option) \<Rightarrow> string \<Rightarrow> string \<times> string list" where
  "expand ctx s =
     (case str_index s ctxOpen of
        None \<Rightarrow> (s, [])
      | Some i \<Rightarrow>
          case str_index (drop i s) ctxClose of
            None \<Rightarrow> (s, [])
          | Some j \<Rightarrow>
              let key = take (j - length ctxOpen) (drop (i + length ctxOpen) s);
                  (out, unknown) = expand ctx (drop (i + j + 2) s)
              in case ctx key of
                   Some v \<Rightarrow> (take i s @ v @ out, unknown)
                 | None \<Rightarrow> (take i s @ out, key # unknown))"
  by pat_completeness auto
termination
  by (relation "measure (\<lambda>(_, s). length s)") (auto simp: ctxOpen_def dest: str_index_nonempty)

definition interpolate :: "string \<Rightarrow> string \<Rightarrow> (string \<Rightarrow> string option) \<Rightarrow> string \<times> string list" where
  "interpolate goal outcome ctx =
     expand ctx (replace_all ''{{outcome}}'' (truncateRunes outcome outcomeTruncateRunes) goal)"


declare expand.simps [simp del]

section \<open>Runs\<close>

datatype RunEvent =
    EdgeTaken string string string string string
  | RunWarning string string
  | RunPaused string
  | CapExceeded string string string int
  | RunDone string string

record Run =
  rnWorkflow :: string
  rnStatus :: string
  rnStep :: string
  rnContext :: "string \<Rightarrow> string option"
  rnEvents :: "RunEvent list"

record Workflow =
  wkDefinition :: string
  wkEnabled :: bool

record StepMission =
  smID :: string
  smMission :: NewMission
  smPhase :: Phase

record WfWorld =
  wdWorkflows :: "string \<Rightarrow> Workflow option"
  wdRuns :: "string \<Rightarrow> Run option"
  wdMissions :: "StepMission list"

text \<open>\<open>EdgeTaken\<close> carries from, on, to, the mission and the spawned mission.\<close>

definition edgeTakenFor :: "RunEvent list \<Rightarrow> string \<Rightarrow> bool" where
  "edgeTakenFor evs mid = (\<exists>e \<in> set evs. case e of EdgeTaken _ _ _ m _ \<Rightarrow> m = mid | _ \<Rightarrow> False)"

definition CountEdgeFirings :: "RunEvent list \<Rightarrow> string \<Rightarrow> string \<Rightarrow> string \<Rightarrow> nat" where
  "CountEdgeFirings evs from on to =
     length (filter (\<lambda>e. case e of EdgeTaken f o' t _ _ \<Rightarrow> f = from \<and> o' = on \<and> t = to | _ \<Rightarrow> False) evs)"

definition WorkflowChild :: "string \<Rightarrow> string \<Rightarrow> StepMission list \<Rightarrow> StepMission option" where
  "WorkflowChild rid parent ms =
     find (\<lambda>m. nmWorkflowRunID (smMission m) = rid \<and> nmParentMissionID (smMission m) = parent) ms"

text \<open>\<open>ApplyRunTransition\<close>: one transaction, unless the call fails or the run does not exist.\<close>

definition ApplyRunTransition ::
    "bool \<Rightarrow> string \<Rightarrow> string \<Rightarrow> string \<Rightarrow> RunEvent list \<Rightarrow> WfWorld \<Rightarrow> WfWorld \<times> bool" where
  "ApplyRunTransition fails rid stat st evs w =
     (case wdRuns w rid of
        None \<Rightarrow> (w, False)
      | Some r \<Rightarrow>
          if fails then (w, False)
          else (w\<lparr>wdRuns := (wdRuns w)(rid \<mapsto> r\<lparr>rnStatus := stat, rnStep := st, rnEvents := rnEvents r @ evs\<rparr>)\<rparr>, True))"

definition CreateRun :: "string \<Rightarrow> string \<Rightarrow> string \<Rightarrow> (string \<Rightarrow> string option) \<Rightarrow> WfWorld \<Rightarrow> WfWorld" where
  "CreateRun rid wid st ctx w =
     w\<lparr>wdRuns := (wdRuns w)(rid \<mapsto> \<lparr>rnWorkflow = wid, rnStatus = ''running'', rnStep = st, rnContext = ctx, rnEvents = []\<rparr>)\<rparr>"

section \<open>The engine\<close>

datatype db_call =
    GetRunCall | RunEventsCall | GetWorkflowCall | CountCall | ChildCall | MissionEventsCall | RecordCall
  | ReloadCall | WarnCall nat | GetMissionCall | CreateRunCall

record Calls =
  caFails :: "db_call \<Rightarrow> bool"
  caNewID :: string
  caInsertion :: insertion

record EngineDeps =
  edDecode :: "string \<Rightarrow> Definition option"
  edDigest :: "StepMission \<Rightarrow> string"
  edResolve :: ResolveDeps
  edRegistries :: Registries
  edValidate :: "ValidateDeps option"

datatype wf_error =
    LoadRun | LoadEvents | LoadWorkflow | BadDefinition def_error | CountFailed | ChildFailed | NotRecorded
  | PauseReload | PauseFailed | FailFailed | EndFailed | SpawnFailed | Disabled | CreateRunFailed | LoadMission
  | StepMissing

definition parent_source :: "string \<Rightarrow> string \<Rightarrow> SourceEntry" where
  "parent_source parent outcome =
     \<lparr>seSource = ''mission'', seConnectorID = [], seRepoURL = [], seID = ''parent'', seMissionID = parent,
      seDigest = outcome\<rparr>"

definition StepCreateRequest :: "WfStep \<Rightarrow> string \<Rightarrow> string \<Rightarrow> string \<Rightarrow> string \<Rightarrow> string \<Rightarrow> CreateRequest" where
  "StepCreateRequest st goal rid name outcome parent =
     empty_request\<lparr>crGoal := goal, crKind := wsKind st, crLight := wsLight st, crRoute := wsRoute st,
       crReviewRoute := (if wsPlanRoute st = [] then wsRoute st else []), crPlanRoute := wsPlanRoute st,
       crAgentID := wsAgentID st,
       crDestinations := map (\<lambda>i. \<lparr>deDestination = [], deDestinationID = i, deCollectionID = [], deRepoURL = []\<rparr>)
         (wsDestinationIDs st),
       crParentMissionID := parent, crSources := [parent_source parent outcome], crWorkflowRunID := rid,
       crWorkflowStep := name, crAutoApprovePlan := Some True, crAutoApproveTools := Some False,
       crOriginKind := ''workflow''\<rparr>"

fun warn_unknown :: "Calls \<Rightarrow> string \<Rightarrow> string \<Rightarrow> string \<Rightarrow> nat \<Rightarrow> string list \<Rightarrow> WfWorld \<Rightarrow> WfWorld" where
  "warn_unknown ca rid cur name i [] w = w"
| "warn_unknown ca rid cur name i (k # ks) w =
     warn_unknown ca rid cur name (i + 1) ks
       (fst (ApplyRunTransition (caFails ca (WarnCall i)) rid ''running'' cur
          [RunWarning (''unknown placeholder {{context.'' @ k @ ''}} rendered empty'') name] w))"

definition new_step_mission :: "Calls \<Rightarrow> NewMission \<Rightarrow> StepMission" where
  "new_step_mission ca m =
     \<lparr>smID = caNewID ca, smMission = m, smPhase = initialPhase (nmKind m) (parseFlow (nmFlow m))\<rparr>"

definition spawnStep ::
    "EngineDeps \<Rightarrow> Calls \<Rightarrow> string \<Rightarrow> string \<Rightarrow> string \<Rightarrow> WfStep \<Rightarrow> (string \<Rightarrow> string option) \<Rightarrow> string \<Rightarrow> string
      \<Rightarrow> WfWorld \<Rightarrow> WfWorld \<times> string option" where
  "spawnStep ed ca rid cur name st ctx outcome parent w =
     (let (goal, unknown) = interpolate (wsGoal st) outcome ctx;
          w1 = warn_unknown ca rid cur name 0 unknown w
      in case create_mission (edResolve ed) (edRegistries ed) (edValidate ed)
                (StepCreateRequest st goal rid name outcome parent) of
           Inl e \<Rightarrow> (w1, None)
         | Inr m \<Rightarrow>
             case caInsertion ca of
               NotInserted \<Rightarrow> (w1, None)
             | InsertedThenFailed \<Rightarrow> (w1\<lparr>wdMissions := wdMissions w1 @ [new_step_mission ca m]\<rparr>, None)
             | Inserted \<Rightarrow> (w1\<lparr>wdMissions := wdMissions w1 @ [new_step_mission ca m]\<rparr>, Some (caNewID ca)))"

definition pauseRun :: "Calls \<Rightarrow> string \<Rightarrow> string \<Rightarrow> WfWorld \<Rightarrow> WfWorld \<times> wf_error option" where
  "pauseRun ca rid reason w =
     (case wdRuns w rid of
        None \<Rightarrow> (w, Some PauseReload)
      | Some r \<Rightarrow>
          if caFails ca ReloadCall then (w, Some PauseReload)
          else let (w1, ok) = ApplyRunTransition (caFails ca RecordCall) rid ''paused'' (rnStep r) [RunPaused reason] w
               in (w1, if ok then None else Some PauseFailed))"

definition failRun :: "Calls \<Rightarrow> string \<Rightarrow> Edge \<Rightarrow> WfWorld \<Rightarrow> WfWorld \<times> wf_error option" where
  "failRun ca rid e w =
     (let (w1, ok) = ApplyRunTransition (caFails ca RecordCall) rid ''failed'' (edFrom e)
                       [CapExceeded (edFrom e) (edOn e) (edTo e) (edMax e)] w
      in (w1, if ok then None else Some FailFailed))"

definition endRun :: "Calls \<Rightarrow> string \<Rightarrow> Edge \<Rightarrow> WfWorld \<Rightarrow> WfWorld \<times> wf_error option" where
  "endRun ca rid e w =
     (let (w1, ok) = ApplyRunTransition (caFails ca RecordCall) rid ''done'' endStep [RunDone (edFrom e) (edOn e)] w
      in (w1, if ok then None else Some EndFailed))"

definition takeEdge :: "Calls \<Rightarrow> string \<Rightarrow> Edge \<Rightarrow> string \<Rightarrow> string \<Rightarrow> WfWorld \<Rightarrow> WfWorld \<times> wf_error option" where
  "takeEdge ca rid e mid child w =
     (let (w1, ok) = ApplyRunTransition (caFails ca RecordCall) rid ''running'' (edTo e)
                       [EdgeTaken (edFrom e) (edOn e) (edTo e) mid child] w
      in (w1, if ok then None else Some NotRecorded))"

text \<open>The next step's mission: the one the run already spawned from this mission, else a new one.\<close>

definition advance_to ::
    "EngineDeps \<Rightarrow> Calls \<Rightarrow> StepMission \<Rightarrow> string \<Rightarrow> Run \<Rightarrow> Edge \<Rightarrow> WfStep \<Rightarrow> WfWorld \<Rightarrow> WfWorld \<times> wf_error option" where
  "advance_to ed ca m rid r e st w =
     (if caFails ca ChildCall then (w, Some ChildFailed)
      else case WorkflowChild rid (smID m) (wdMissions w) of
             Some c \<Rightarrow> takeEdge ca rid e (smID m) (smID c) w
           | None \<Rightarrow>
               if caFails ca MissionEventsCall
               then pauseRun ca rid (''load mission '' @ smID m @ '' events failed'') w
               else
                 case spawnStep ed ca rid (rnStep r) (edTo e) st (rnContext r) (edDigest ed m) (smID m) w of
                   (w1, None) \<Rightarrow> pauseRun ca rid (''spawn step '' @ Quote (edTo e) @ '' failed'') w1
                 | (w1, Some c) \<Rightarrow> takeEdge ca rid e (smID m) c w1)"

definition outcome_kind :: "StepMission \<Rightarrow> string" where
  "outcome_kind m = (if smPhase m = PhaseFailed then ''mission.failed'' else ''mission.done'')"

definition follow_edge ::
    "EngineDeps \<Rightarrow> Calls \<Rightarrow> StepMission \<Rightarrow> string \<Rightarrow> Run \<Rightarrow> Definition \<Rightarrow> WfWorld \<Rightarrow> WfWorld \<times> wf_error option" where
  "follow_edge ed ca m rid r d w =
     (case find (\<lambda>e. edFrom e = rnStep r \<and> edOn e = outcome_kind m) (dfEdges d) of
        None \<Rightarrow> pauseRun ca rid (''no matching edge for step '' @ Quote (rnStep r) @ '' on '' @ outcome_kind m) w
      | Some e \<Rightarrow>
          if caFails ca CountCall then (w, Some CountFailed)
          else if edMax e \<le> int (CountEdgeFirings (rnEvents r) (edFrom e) (edOn e) (edTo e)) then failRun ca rid e w
          else if edTo e = endStep then endRun ca rid e w
          else case map_of (dfSteps d) (edTo e) of
                 None \<Rightarrow> pauseRun ca rid (''edge targets unknown step '' @ Quote (edTo e)) w
               | Some st \<Rightarrow> advance_to ed ca m rid r e st w)"

definition OnMissionTerminal ::
    "EngineDeps \<Rightarrow> Calls \<Rightarrow> StepMission \<Rightarrow> WfWorld \<Rightarrow> WfWorld \<times> wf_error option" where
  "OnMissionTerminal ed ca m w =
     (let rid = nmWorkflowRunID (smMission m)
      in case wdRuns w rid of
           None \<Rightarrow> (w, Some LoadRun)
         | Some r \<Rightarrow>
             if caFails ca GetRunCall then (w, Some LoadRun)
             else if rnStatus r \<noteq> ''running'' then (w, None)
             else if nmWorkflowStep (smMission m) \<noteq> [] \<and> nmWorkflowStep (smMission m) \<noteq> rnStep r then (w, None)
             else if caFails ca RunEventsCall then (w, Some LoadEvents)
             else if edgeTakenFor (rnEvents r) (smID m) then (w, None)
             else case wdWorkflows w (rnWorkflow r) of
                    None \<Rightarrow> (w, Some LoadWorkflow)
                  | Some wk \<Rightarrow>
                      if caFails ca GetWorkflowCall then (w, Some LoadWorkflow)
                      else case ParseDefinition (edDecode ed) (wkDefinition wk) of
                             Inl e \<Rightarrow> (w, Some (BadDefinition e))
                           | Inr d \<Rightarrow> follow_edge ed ca m rid r d w)"

text \<open>The consumer's \<open>Handle\<close> for a mission terminal event.\<close>

definition Handle :: "EngineDeps \<Rightarrow> Calls \<Rightarrow> string \<Rightarrow> string \<Rightarrow> WfWorld \<Rightarrow> WfWorld \<times> wf_error option" where
  "Handle ed ca mid rid w =
     (if rid = [] then (w, None)
      else if caFails ca GetMissionCall then (w, Some LoadMission)
      else case find (\<lambda>m. smID m = mid) (wdMissions w) of
             None \<Rightarrow> (w, None)
           | Some m \<Rightarrow> OnMissionTerminal ed ca m w)"

definition spawnEntry ::
    "EngineDeps \<Rightarrow> Calls \<Rightarrow> string \<Rightarrow> string \<Rightarrow> WfStep \<Rightarrow> (string \<Rightarrow> string option) \<Rightarrow> WfWorld \<Rightarrow> WfWorld \<times> wf_error option" where
  "spawnEntry ed ca rid name st ctx w =
     (if caFails ca ChildCall then (w, Some ChildFailed)
      else case WorkflowChild rid [] (wdMissions w) of
             Some _ \<Rightarrow> (w, None)
           | None \<Rightarrow>
               case spawnStep ed ca rid name name st ctx [] [] w of
                 (w1, None) \<Rightarrow>
                   (fst (pauseRun ca rid (''spawn entry step '' @ Quote name @ '' failed'') w1), Some SpawnFailed)
               | (w1, Some _) \<Rightarrow> (w1, None))"

definition StartRun ::
    "EngineDeps \<Rightarrow> Calls \<Rightarrow> string \<Rightarrow> string \<Rightarrow> (string \<Rightarrow> string option) \<Rightarrow> WfWorld \<Rightarrow> WfWorld \<times> wf_error option" where
  "StartRun ed ca wid rid ctx w =
     (case wdWorkflows w wid of
        None \<Rightarrow> (w, Some LoadWorkflow)
      | Some wk \<Rightarrow>
          if caFails ca GetWorkflowCall then (w, Some LoadWorkflow)
          else if \<not> wkEnabled wk then (w, Some Disabled)
          else case ParseDefinition (edDecode ed) (wkDefinition wk) of
                 Inl e \<Rightarrow> (w, Some (BadDefinition e))
               | Inr d \<Rightarrow>
                   if caFails ca CreateRunCall then (w, Some CreateRunFailed)
                   else case map_of (dfSteps d) (dfEntry d) of
                          None \<Rightarrow> (CreateRun rid wid (dfEntry d) ctx w, Some StepMissing)
                        | Some st \<Rightarrow> spawnEntry ed ca rid (dfEntry d) st ctx (CreateRun rid wid (dfEntry d) ctx w))"

definition recoverEntry :: "EngineDeps \<Rightarrow> Calls \<Rightarrow> string \<Rightarrow> Run \<Rightarrow> WfWorld \<Rightarrow> WfWorld \<times> wf_error option" where
  "recoverEntry ed ca rid r w =
     (case wdWorkflows w (rnWorkflow r) of
        None \<Rightarrow> (w, Some LoadWorkflow)
      | Some wk \<Rightarrow>
          if caFails ca GetWorkflowCall then (w, Some LoadWorkflow)
          else case ParseDefinition (edDecode ed) (wkDefinition wk) of
                 Inl e \<Rightarrow> (fst (pauseRun ca rid ''recover entry: parse definition failed'' w), Some (BadDefinition e))
               | Inr d \<Rightarrow>
                   case map_of (dfSteps d) (rnStep r) of
                     None \<Rightarrow> (fst (pauseRun ca rid (''recover entry: entry step '' @ Quote (rnStep r) @ '' not in definition'') w),
                              Some StepMissing)
                   | Some st \<Rightarrow> spawnEntry ed ca rid (rnStep r) st (rnContext r) w)"

definition without_missions :: "WfWorld \<Rightarrow> string \<Rightarrow> bool" where
  "without_missions w rid =
     (case wdRuns w rid of
        None \<Rightarrow> False
      | Some r \<Rightarrow> rnStatus r = ''running'' \<and> (\<forall>m \<in> set (wdMissions w). nmWorkflowRunID (smMission m) \<noteq> rid))"

text \<open>
  Everything that moves the tables: a stored definition changes at any time, events of terminal missions
  come in any order and again, and a deleted mission's children lose their parent.
\<close>

definition finish_mission :: "string \<Rightarrow> Phase \<Rightarrow> WfWorld \<Rightarrow> WfWorld" where
  "finish_mission mid p w =
     w\<lparr>wdMissions := map (\<lambda>m. if smID m = mid \<and> \<not> Terminal (smPhase m) then m\<lparr>smPhase := p\<rparr> else m) (wdMissions w)\<rparr>"

definition orphan :: "string \<Rightarrow> StepMission \<Rightarrow> StepMission" where
  "orphan mid m =
     (if nmParentMissionID (smMission m) = mid then m\<lparr>smMission := (smMission m)\<lparr>nmParentMissionID := []\<rparr>\<rparr> else m)"

definition delete_mission :: "string \<Rightarrow> WfWorld \<Rightarrow> WfWorld" where
  "delete_mission mid w = w\<lparr>wdMissions := map (orphan mid) (filter (\<lambda>m. smID m \<noteq> mid) (wdMissions w))\<rparr>"

definition fresh :: "string \<Rightarrow> WfWorld \<Rightarrow> bool" where
  "fresh mid w = (mid \<noteq> [] \<and> (\<forall>m \<in> set (wdMissions w). smID m \<noteq> mid \<and> nmParentMissionID (smMission m) \<noteq> mid))"

inductive wf_reach :: "EngineDeps \<Rightarrow> WfWorld \<Rightarrow> bool" for ed where
  start: "wf_reach ed \<lparr>wdWorkflows = (\<lambda>_. None), wdRuns = (\<lambda>_. None), wdMissions = []\<rparr>"
| save: "wf_reach ed w \<Longrightarrow> wf_reach ed (w\<lparr>wdWorkflows := (wdWorkflows w)(wid \<mapsto> wk)\<rparr>)"
| run: "wf_reach ed w \<Longrightarrow> wdRuns w rid = None \<Longrightarrow> rid \<noteq> [] \<Longrightarrow> fresh (caNewID ca) w \<Longrightarrow>
    wf_reach ed (fst (StartRun ed ca wid rid ctx w))"
| recover: "wf_reach ed w \<Longrightarrow> without_missions w rid \<Longrightarrow> wdRuns w rid = Some r \<Longrightarrow> fresh (caNewID ca) w \<Longrightarrow>
    wf_reach ed (fst (recoverEntry ed ca rid r w))"
| event: "wf_reach ed w \<Longrightarrow> m \<in> set (wdMissions w) \<Longrightarrow> Terminal (smPhase m) \<Longrightarrow> fresh (caNewID ca) w \<Longrightarrow>
    wf_reach ed (fst (Handle ed ca (smID m) (nmWorkflowRunID (smMission m)) w))"
| finish: "wf_reach ed w \<Longrightarrow> Terminal p \<Longrightarrow> wf_reach ed (finish_mission mid p w)"
| delete: "wf_reach ed w \<Longrightarrow> wf_reach ed (delete_mission mid w)"

end
