(* ===== verification/Workflow_Props.thy ===== *)
theory Workflow_Props
  imports Workflow_Engine
begin

text \<open>
  What the workflow engine guarantees over every order of events, failures and deletions: no edge of a
  run is taken more than ten times, a mission moves its run at most once and spawns at most one
  mission, and a delivery that succeeded may be repeated. \<open>idempotent_consumer\<close> is the contract the
  event drainer asks of its consumers.
\<close>

section \<open>Edges taken\<close>

definition taken :: "RunEvent list \<Rightarrow> (string \<times> string \<times> string \<times> string) list" where
  "taken evs = concat (map (\<lambda>e. case e of EdgeTaken f k t m _ \<Rightarrow> [(f, k, t, m)] | _ \<Rightarrow> []) evs)"

definition taker :: "string \<times> string \<times> string \<times> string \<Rightarrow> string" where
  "taker x = (case x of (_, _, _, m) \<Rightarrow> m)"

lemma taken_append [simp]: "taken (xs @ ys) = taken xs @ taken ys"
  by (simp add: taken_def)

lemma edgeTakenFor_taken: "edgeTakenFor evs mid \<longleftrightarrow> mid \<in> set (map taker (taken evs))"
proof (induction evs)
  case (Cons e evs)
  then show ?case by (cases e) (auto simp: edgeTakenFor_def taken_def taker_def)
qed (simp add: edgeTakenFor_def taken_def)

lemma CountEdgeFirings_taken:
  "CountEdgeFirings evs f k t = length (filter (\<lambda>(f', k', t', _). f' = f \<and> k' = k \<and> t' = t) (taken evs))"
proof (induction evs)
  case (Cons e evs)
  then show ?case by (cases e) (auto simp: CountEdgeFirings_def taken_def)
qed (simp add: CountEdgeFirings_def taken_def)

lemma check_edges_clamped: "check_edges names i es = Inr es' \<Longrightarrow> e \<in> set es' \<Longrightarrow> edMax e \<le> maxIterations"
proof (induction names i es arbitrary: es' rule: check_edges.induct)
  case (2 names i e0 es)
  then obtain r where "check_edges names (i + 1) es = Inr r" "es' = clamp e0 # r"
    by (auto split: if_splits sum.splits)
  with 2 show ?case by (auto simp: clamp_def split: if_splits sum.splits)
qed simp

lemma ParseDefinition_clamped:
  "ParseDefinition decode raw = Inr d \<Longrightarrow> e \<in> set (dfEdges d) \<Longrightarrow> edMax e \<le> maxIterations"
  by (auto simp: ParseDefinition_def Validate_def split: option.splits if_splits sum.splits dest: check_edges_clamped)

section \<open>What a call does to the runs\<close>

text \<open>No run took an edge, and none appeared that had taken one.\<close>

definition quiet :: "WfWorld \<Rightarrow> WfWorld \<Rightarrow> bool" where
  "quiet w w' = (\<forall>rid r'. wdRuns w' rid = Some r' \<longrightarrow>
     taken (rnEvents r') = (case wdRuns w rid of Some r \<Rightarrow> taken (rnEvents r) | None \<Rightarrow> []))"

lemma quiet_refl [simp]: "quiet w w"
  by (simp add: quiet_def)

lemma quiet_missions [simp]: "quiet w (w'\<lparr>wdMissions := ms\<rparr>) = quiet w w'" "quiet w (w'\<lparr>wdWorkflows := x\<rparr>) = quiet w w'"
  by (simp_all add: quiet_def)

lemma quiet_trans:
  assumes "quiet u v" "quiet v w" "dom (wdRuns w) = dom (wdRuns v)"
  shows "quiet u w"
  unfolding quiet_def
proof (intro allI impI)
  fix rid r'
  assume r': "wdRuns w rid = Some r'"
  with assms(3) obtain rv where "wdRuns v rid = Some rv" by (metis domD domI)
  with assms(1,2) r' show "taken (rnEvents r') = (case wdRuns u rid of Some r \<Rightarrow> taken (rnEvents r) | None \<Rightarrow> [])"
    by (auto simp: quiet_def)
qed

lemma apply_runs [simp]: "dom (wdRuns (fst (ApplyRunTransition fl rid st step evs w))) = dom (wdRuns w)"
  by (auto simp: ApplyRunTransition_def split: option.split)

lemma apply_missions [simp]:
  "wdMissions (fst (ApplyRunTransition fl rid st step evs w)) = wdMissions w"
  "wdWorkflows (fst (ApplyRunTransition fl rid st step evs w)) = wdWorkflows w"
  by (simp_all add: ApplyRunTransition_def split: option.split)

lemma apply_quiet: "taken evs = [] \<Longrightarrow> quiet w (fst (ApplyRunTransition fl rid st step evs w))"
  by (auto simp: quiet_def ApplyRunTransition_def split: option.split)

lemma taken_other [simp]:
  "taken [RunWarning a b] = []" "taken [RunPaused a] = []" "taken [CapExceeded f k t n] = []" "taken [RunDone f k] = []"
  "taken [] = []" "taken [EdgeTaken f k t m c] = [(f, k, t, m)]"
  by (simp_all add: taken_def)

lemma warn_quiet:
  "quiet w (warn_unknown ca rid cur name i ks w) \<and> wdMissions (warn_unknown ca rid cur name i ks w) = wdMissions w
    \<and> dom (wdRuns (warn_unknown ca rid cur name i ks w)) = dom (wdRuns w)"
proof (induction ca rid cur name i ks w rule: warn_unknown.induct)
  case (2 ca rid cur name i k ks w)
  let ?w = "fst (ApplyRunTransition (caFails ca (WarnCall i)) rid ''running'' cur
     [RunWarning (''unknown placeholder {{context.'' @ k @ ''}} rendered empty'') name] w)"
  have "quiet w ?w" by (rule apply_quiet) simp
  with 2 quiet_trans [of w ?w "warn_unknown ca rid cur name (i + 1) ks ?w"] show ?case by simp
qed simp

lemma pause_quiet: "quiet w (fst (pauseRun ca rid reason w)) \<and> wdMissions (fst (pauseRun ca rid reason w)) = wdMissions w
    \<and> dom (wdRuns (fst (pauseRun ca rid reason w))) = dom (wdRuns w)"
  by (simp add: pauseRun_def Let_def case_prod_beta apply_quiet split: option.split)

lemma fail_quiet: "quiet w (fst (failRun ca rid e w)) \<and> wdMissions (fst (failRun ca rid e w)) = wdMissions w"
  by (simp add: failRun_def Let_def case_prod_beta apply_quiet)

lemma end_quiet: "quiet w (fst (endRun ca rid e w)) \<and> wdMissions (fst (endRun ca rid e w)) = wdMissions w"
  by (simp add: endRun_def Let_def case_prod_beta apply_quiet)

text \<open>Spawning adds at most one mission, a child of the given parent in the given run.\<close>

lemma created_lineage:
  "create_mission deps rg vd req = Inr m \<Longrightarrow>
     nmParentMissionID m = crParentMissionID req \<and> nmWorkflowRunID m = crWorkflowRunID req \<and> nmWorkflowStep m = crWorkflowStep req"
  by (auto simp: create_mission_def ResolveDefaults_def Let_def resolved_mission_def split: sum.splits option.splits)

definition spawned :: "Calls \<Rightarrow> string \<Rightarrow> string \<Rightarrow> StepMission list \<Rightarrow> StepMission list \<Rightarrow> bool" where
  "spawned ca rid parent ms ms' = (ms' = ms \<or> (\<exists>c. ms' = ms @ [c] \<and> smID c = caNewID ca
     \<and> nmWorkflowRunID (smMission c) = rid \<and> nmParentMissionID (smMission c) = parent))"

lemma spawn_step:
  "quiet w (fst (spawnStep ed ca rid cur name st ctx outc parent w))"
  "spawned ca rid parent (wdMissions w) (wdMissions (fst (spawnStep ed ca rid cur name st ctx outc parent w)))"
  "dom (wdRuns (fst (spawnStep ed ca rid cur name st ctx outc parent w))) = dom (wdRuns w)"
  using warn_quiet [of w ca rid cur name 0 "snd (interpolate (wsGoal st) outc ctx)"]
  by (auto simp: spawnStep_def Let_def case_prod_beta spawned_def new_step_mission_def StepCreateRequest_def
      split: sum.split insertion.split dest!: created_lineage)

section \<open>The handler\<close>

text \<open>A world after the handler of mission m: no edge, or one more edge by m below the cap.\<close>

definition one_edge :: "string \<Rightarrow> string \<Rightarrow> WfWorld \<Rightarrow> WfWorld \<Rightarrow> bool" where
  "one_edge rid mid w w' = (quiet w w' \<or>
     (\<exists>r r' f k t. wdRuns w rid = Some r \<and> wdRuns w' rid = Some r'
        \<and> \<not> edgeTakenFor (rnEvents r) mid \<and> int (CountEdgeFirings (rnEvents r) f k t) < maxIterations
        \<and> taken (rnEvents r') = taken (rnEvents r) @ [(f, k, t, mid)]
        \<and> (\<forall>x rx. x \<noteq> rid \<longrightarrow> wdRuns w' x = Some rx \<longrightarrow>
             taken (rnEvents rx) = (case wdRuns w x of Some r \<Rightarrow> taken (rnEvents r) | None \<Rightarrow> []))))"

lemma take_edge:
  assumes "quiet w v" "dom (wdRuns v) = dom (wdRuns w)" "wdRuns w rid = Some r"
    "\<not> edgeTakenFor (rnEvents r) mid" "int (CountEdgeFirings (rnEvents r) (edFrom e) (edOn e) (edTo e)) < edMax e"
    "edMax e \<le> maxIterations"
  shows "one_edge rid mid w (fst (takeEdge ca rid e mid child v))"
proof -
  from assms(2,3) obtain rv where rv: "wdRuns v rid = Some rv" by (metis domD domI)
  show ?thesis
  proof (cases "caFails ca RecordCall")
    case True
    with rv assms(1) show ?thesis by (simp add: takeEdge_def ApplyRunTransition_def one_edge_def)
  next
    case False
    let ?v = "fst (takeEdge ca rid e mid child v)"
    have v: "?v = v\<lparr>wdRuns := (wdRuns v)(rid \<mapsto> rv\<lparr>rnStatus := ''running'', rnStep := edTo e,
        rnEvents := rnEvents rv @ [EdgeTaken (edFrom e) (edOn e) (edTo e) mid child]\<rparr>)\<rparr>"
      using False rv by (simp add: takeEdge_def ApplyRunTransition_def)
    have "taken (rnEvents rv) = taken (rnEvents r)" using assms(1,3) rv by (auto simp: quiet_def)
    moreover have "\<forall>x rx. x \<noteq> rid \<longrightarrow> wdRuns ?v x = Some rx \<longrightarrow>
        taken (rnEvents rx) = (case wdRuns w x of Some r \<Rightarrow> taken (rnEvents r) | None \<Rightarrow> [])"
      unfolding v using assms(1) by (auto simp: quiet_def)
    moreover have "int (CountEdgeFirings (rnEvents r) (edFrom e) (edOn e) (edTo e)) < maxIterations"
      using assms(5,6) by linarith
    ultimately show ?thesis
      unfolding one_edge_def using assms(3,4) v by (intro disjI2) (auto intro!: exI)
  qed
qed

lemma one_edge_quiet: "quiet w w' \<Longrightarrow> one_edge rid mid w w'"
  by (simp add: one_edge_def)

lemma take_missions [simp]: "wdMissions (fst (takeEdge ca rid e mid child v)) = wdMissions v"
  by (simp add: takeEdge_def Let_def case_prod_beta)

lemma WorkflowChild_None: "WorkflowChild rid p ms = None \<longleftrightarrow>
    filter (\<lambda>m. nmWorkflowRunID (smMission m) = rid \<and> nmParentMissionID (smMission m) = p) ms = []"
  by (auto simp: WorkflowChild_def find_None_iff filter_empty_conv)

text \<open>The missions after the handler: as before, or one more when there was no child yet.\<close>

definition one_child :: "Calls \<Rightarrow> string \<Rightarrow> string \<Rightarrow> WfWorld \<Rightarrow> WfWorld \<Rightarrow> bool" where
  "one_child ca rid p w w' = (wdMissions w' = wdMissions w
     \<or> WorkflowChild rid p (wdMissions w) = None \<and> spawned ca rid p (wdMissions w) (wdMissions w'))"

lemma one_child_same: "wdMissions w' = wdMissions w \<Longrightarrow> one_child ca rid p w w'"
  by (simp add: one_child_def)

lemma advance_effect:
  assumes "wdRuns w rid = Some r" "\<not> edgeTakenFor (rnEvents r) (smID m)"
    "int (CountEdgeFirings (rnEvents r) (edFrom e) (edOn e) (edTo e)) < edMax e" "edMax e \<le> maxIterations"
  shows "one_edge rid (smID m) w (fst (advance_to ed ca m rid r e st w))
    \<and> one_child ca rid (smID m) w (fst (advance_to ed ca m rid r e st w))"
proof (cases "caFails ca ChildCall")
  case True
  then show ?thesis by (simp add: advance_to_def one_edge_quiet one_child_same)
next
  case False
  note edge = take_edge [OF _ _ assms]
  show ?thesis
  proof (cases "WorkflowChild rid (smID m) (wdMissions w)")
    case (Some c)
    with False edge [OF quiet_refl refl] show ?thesis by (simp add: advance_to_def one_child_same)
  next
    case None
    show ?thesis
    proof (cases "caFails ca MissionEventsCall")
      case True
      with False None pause_quiet [of w ca rid] show ?thesis
        by (simp add: advance_to_def one_edge_quiet one_child_same)
    next
      case ev: False
      obtain v c where v: "spawnStep ed ca rid (rnStep r) (edTo e) st (rnContext r) (edDigest ed m) (smID m) w = (v, c)"
        by (metis surj_pair)
      note sp = spawn_step [where w = w and ed = ed and ca = ca and rid = rid and cur = "rnStep r" and name = "edTo e"
          and st = st and ctx = "rnContext r" and outc = "edDigest ed m" and parent = "smID m", unfolded v fst_conv]
      show ?thesis
      proof (cases c)
        case c: None
        have "quiet w (fst (pauseRun ca rid reason v))" for reason
          by (rule quiet_trans [OF sp(1)]) (use pause_quiet [of v ca rid reason] in blast)+
        moreover have "advance_to ed ca m rid r e st w = pauseRun ca rid (''spawn step '' @ Quote (edTo e) @ '' failed'') v"
          unfolding advance_to_def v c None using False ev by simp
        ultimately show ?thesis using sp(2) None pause_quiet [of v ca rid] by (simp add: one_edge_quiet one_child_def)
      next
        case (Some d)
        then have "advance_to ed ca m rid r e st w = takeEdge ca rid e (smID m) d v"
          unfolding advance_to_def v None using False ev by simp
        with sp(2) None edge [OF sp(1,3)] show ?thesis by (simp add: one_child_def)
      qed
    qed
  qed
qed

lemma follow_effect:
  assumes "wdRuns w rid = Some r" "\<not> edgeTakenFor (rnEvents r) (smID m)" "\<forall>e \<in> set (dfEdges d). edMax e \<le> maxIterations"
  shows "one_edge rid (smID m) w (fst (follow_edge ed ca m rid r d w))
    \<and> one_child ca rid (smID m) w (fst (follow_edge ed ca m rid r d w))"
proof (cases "find (\<lambda>e. edFrom e = rnStep r \<and> edOn e = outcome_kind m) (dfEdges d)")
  case None
  with pause_quiet [of w ca rid] show ?thesis by (simp add: follow_edge_def one_edge_quiet one_child_same)
next
  case (Some e)
  then have max: "edMax e \<le> maxIterations" using assms(3) by (auto simp: find_Some_iff)
  show ?thesis
  proof (cases "caFails ca CountCall \<or> edMax e \<le> int (CountEdgeFirings (rnEvents r) (edFrom e) (edOn e) (edTo e)) \<or> edTo e = endStep")
    case True
    with Some fail_quiet [of w ca rid e] end_quiet [of w ca rid e] show ?thesis
      by (auto simp: follow_edge_def one_edge_quiet one_child_same)
  next
    case False
    then show ?thesis
      using Some advance_effect [OF assms(1,2) _ max] pause_quiet [of w ca rid]
      by (cases "map_of (dfSteps d) (edTo e)") (simp_all add: follow_edge_def one_edge_quiet one_child_same)
  qed
qed

text \<open>Either the handler leaves the world alone, or it got as far as the edges of the definition.\<close>

lemma terminal_cases:
  obtains (same) e where "OnMissionTerminal ed ca m w = (w, e)"
  | (edge) r wk d where "wdRuns w (nmWorkflowRunID (smMission m)) = Some r" "rnStatus r = ''running''"
      "nmWorkflowStep (smMission m) = [] \<or> nmWorkflowStep (smMission m) = rnStep r"
      "\<not> edgeTakenFor (rnEvents r) (smID m)" "ParseDefinition (edDecode ed) (wkDefinition (wk :: Workflow)) = Inr d"
      "OnMissionTerminal ed ca m w = follow_edge ed ca m (nmWorkflowRunID (smMission m)) r d w"
proof -
  let ?rid = "nmWorkflowRunID (smMission m)"
  show thesis
  proof (cases "wdRuns w ?rid")
    case None
    then show thesis by (intro same) (simp add: OnMissionTerminal_def)
  next
    case (Some r)
    show thesis
    proof (cases "caFails ca GetRunCall \<or> rnStatus r \<noteq> ''running''
        \<or> nmWorkflowStep (smMission m) \<noteq> [] \<and> nmWorkflowStep (smMission m) \<noteq> rnStep r
        \<or> caFails ca RunEventsCall \<or> edgeTakenFor (rnEvents r) (smID m)")
      case True
      then have "\<exists>e. OnMissionTerminal ed ca m w = (w, e)" using Some by (auto simp: OnMissionTerminal_def)
      then show thesis using same by blast
    next
      case go: False
      show thesis
      proof (cases "wdWorkflows w (rnWorkflow r)")
        case None
        with Some go show thesis by (intro same [of "Some LoadWorkflow"]) (auto simp: OnMissionTerminal_def)
      next
        case wk: (Some wk)
        show thesis
        proof (cases "caFails ca GetWorkflowCall")
          case True
          with Some go wk show thesis by (intro same [of "Some LoadWorkflow"]) (auto simp: OnMissionTerminal_def)
        next
          case False
          show thesis
          proof (cases "ParseDefinition (edDecode ed) (wkDefinition wk)")
            case (Inl e)
            with Some go wk False show thesis by (intro same [of "Some (BadDefinition e)"]) (auto simp: OnMissionTerminal_def)
          next
            case (Inr d)
            with Some go wk False show thesis by (intro edge [of r wk d]) (auto simp: OnMissionTerminal_def)
          qed
        qed
      qed
    qed
  qed
qed

lemma terminal_effect:
  "one_edge (nmWorkflowRunID (smMission m)) (smID m) w (fst (OnMissionTerminal ed ca m w))
    \<and> one_child ca (nmWorkflowRunID (smMission m)) (smID m) w (fst (OnMissionTerminal ed ca m w))"
proof (cases rule: terminal_cases [of ed ca m w])
  case (same e)
  then show ?thesis by (simp add: one_edge_quiet one_child_same)
next
  case (edge r wk d)
  with follow_effect [OF edge(1,4), of d ed ca] ParseDefinition_clamped [OF edge(5)] show ?thesis by simp
qed

section \<open>Invariants of every run\<close>

definition run_ok :: "RunEvent list \<Rightarrow> bool" where
  "run_ok evs = (distinct (map taker (taken evs)) \<and> (\<forall>f k t. int (CountEdgeFirings evs f k t) \<le> maxIterations))"

definition runs_ok :: "WfWorld \<Rightarrow> bool" where
  "runs_ok w = (\<forall>rid r. wdRuns w rid = Some r \<longrightarrow> run_ok (rnEvents r))"

lemma run_ok_cong: "taken evs = taken evs' \<Longrightarrow> run_ok evs = run_ok evs'"
  by (simp add: run_ok_def CountEdgeFirings_taken)

lemma run_ok_empty [simp]: "run_ok []"
  by (simp add: run_ok_def CountEdgeFirings_def maxIterations_def)

lemma run_ok_carry:
  assumes "runs_ok w" "taken (rnEvents rx) = (case wdRuns w x of Some r \<Rightarrow> taken (rnEvents r) | None \<Rightarrow> [])"
  shows "run_ok (rnEvents rx)"
proof (cases "wdRuns w x")
  case None
  with assms(2) have "taken (rnEvents rx) = taken []" by simp
  then have "run_ok (rnEvents rx) = run_ok []" by (rule run_ok_cong)
  then show ?thesis by simp
next
  case (Some r)
  with assms have "run_ok (rnEvents r)" "taken (rnEvents rx) = taken (rnEvents r)" by (simp_all add: runs_ok_def)
  with run_ok_cong show ?thesis by blast
qed

lemma runs_ok_quiet: "runs_ok w \<Longrightarrow> quiet w w' \<Longrightarrow> runs_ok w'"
  unfolding runs_ok_def [of w'] quiet_def using run_ok_carry by blast

lemma runs_ok_edge:
  assumes "runs_ok w" "one_edge rid mid w w'"
  shows "runs_ok w'"
proof (cases "quiet w w'")
  case False
  with assms(2) obtain r r' f k t where e: "wdRuns w rid = Some r" "wdRuns w' rid = Some r'"
    "\<not> edgeTakenFor (rnEvents r) mid" "int (CountEdgeFirings (rnEvents r) f k t) < maxIterations"
    "taken (rnEvents r') = taken (rnEvents r) @ [(f, k, t, mid)]"
    "\<forall>x rx. x \<noteq> rid \<longrightarrow> wdRuns w' x = Some rx \<longrightarrow>
       taken (rnEvents rx) = (case wdRuns w x of Some r \<Rightarrow> taken (rnEvents r) | None \<Rightarrow> [])"
    unfolding one_edge_def by blast
  from assms(1) e(1) have "run_ok (rnEvents r)" by (simp add: runs_ok_def)
  with e(3-5) have "run_ok (rnEvents r')"
    by (auto simp: run_ok_def edgeTakenFor_taken CountEdgeFirings_taken taker_def split: if_splits)
  moreover have "run_ok (rnEvents rx)" if "x \<noteq> rid" "wdRuns w' x = Some rx" for x rx
    using run_ok_carry [OF assms(1)] e(6) that by blast
  ultimately show ?thesis using e(2) unfolding runs_ok_def by (metis option.inject)
qed (use assms(1) runs_ok_quiet in blast)

lemma spawn_entry:
  "quiet w (fst (spawnEntry ed ca rid name st ctx w))"
  "spawned ca rid [] (wdMissions w) (wdMissions (fst (spawnEntry ed ca rid name st ctx w)))"
proof -
  obtain v c where v: "spawnStep ed ca rid name name st ctx [] [] w = (v, c)" by (metis surj_pair)
  note sp = spawn_step [where w = w and ed = ed and ca = ca and rid = rid and cur = name and name = name
      and st = st and ctx = ctx and outc = "[]" and parent = "[]", unfolded v fst_conv]
  have "quiet w (fst (pauseRun ca rid reason v))" for reason
    by (rule quiet_trans [OF sp(1)]) (use pause_quiet [of v ca rid reason] in blast)+
  then show "quiet w (fst (spawnEntry ed ca rid name st ctx w))"
    unfolding spawnEntry_def v using sp(1) by (cases c) (auto split: option.split)
  show "spawned ca rid [] (wdMissions w) (wdMissions (fst (spawnEntry ed ca rid name st ctx w)))"
    unfolding spawnEntry_def v using sp(2) pause_quiet [of v ca rid]
    by (cases c) (auto simp: spawned_def split: option.split)
qed

lemma start_effect:
  assumes "wdRuns w rid = None"
  shows "quiet w (fst (StartRun ed ca wid rid ctx w))"
    "spawned ca rid [] (wdMissions w) (wdMissions (fst (StartRun ed ca wid rid ctx w)))"
proof -
  let ?w = "\<lambda>st. CreateRun rid wid st ctx w"
  have q: "quiet w (?w st)" for st using assms by (auto simp: quiet_def CreateRun_def)
  have "dom (wdRuns (fst (spawnEntry ed ca rid n st ctx (?w n)))) = dom (wdRuns (?w n))" for n st
    using spawn_step(3) pause_quiet by (auto simp: spawnEntry_def case_prod_beta split: option.split)
  then have "quiet w (fst (spawnEntry ed ca rid n st ctx (?w n)))" for n st
    by (intro quiet_trans [OF q spawn_entry(1)])
  with q show "quiet w (fst (StartRun ed ca wid rid ctx w))"
    by (auto simp: StartRun_def split: option.split sum.split)
  have "spawned ca rid [] (wdMissions w) (wdMissions (fst (spawnEntry ed ca rid n st ctx (?w n))))" for n st
    using spawn_entry(2) [of ca rid "?w n" ed n st ctx] by (simp add: CreateRun_def)
  then show "spawned ca rid [] (wdMissions w) (wdMissions (fst (StartRun ed ca wid rid ctx w)))"
    by (auto simp: StartRun_def spawned_def CreateRun_def split: option.split sum.split)
qed

lemma recover_effect:
  "quiet w (fst (recoverEntry ed ca rid r w))"
  "spawned ca rid [] (wdMissions w) (wdMissions (fst (recoverEntry ed ca rid r w)))"
  using pause_quiet [of w ca rid] spawn_entry [where w = w and ed = ed and ca = ca and rid = rid]
  by (auto simp: recoverEntry_def spawned_def split: option.split sum.split)

lemma find_in: "find P xs = Some x \<Longrightarrow> x \<in> set xs \<and> P x"
  by (induction xs) (auto split: if_splits)

lemma Handle_cases:
  obtains (same) e where "Handle ed ca mid rid w = (w, e)"
  | (ran) m where "find (\<lambda>m. smID m = mid) (wdMissions w) = Some m" "Handle ed ca mid rid w = OnMissionTerminal ed ca m w"
proof (cases "rid = [] \<or> caFails ca GetMissionCall \<or> find (\<lambda>m. smID m = mid) (wdMissions w) = None")
  case True
  then have "\<exists>e. Handle ed ca mid rid w = (w, e)" by (auto simp: Handle_def)
  then show ?thesis using same by blast
next
  case False
  then obtain m where "find (\<lambda>m. smID m = mid) (wdMissions w) = Some m" by blast
  with False show ?thesis by (intro ran) (simp_all add: Handle_def)
qed

lemma Handle_effect:
  obtains (same) "fst (Handle ed ca mid rid w) = w"
  | (ran) r where "one_edge r mid w (fst (Handle ed ca mid rid w))" "one_child ca r mid w (fst (Handle ed ca mid rid w))"
proof (cases rule: Handle_cases [of ed ca mid rid w])
  case (same e)
  then show ?thesis using that(1) by simp
next
  case (ran m)
  from find_in [OF ran(1)] have "smID m = mid" by simp
  with terminal_effect [of m w ed ca] ran(2)
  show ?thesis by (intro that(2) [of "nmWorkflowRunID (smMission m)"]) simp_all
qed

lemma wf_reach_runs: "wf_reach ed w \<Longrightarrow> runs_ok w"
proof (induction rule: wf_reach.induct)
  case start
  then show ?case by (simp add: runs_ok_def)
next
  case (run w rid ca wid ctx)
  then show ?case using runs_ok_quiet start_effect(1) by blast
next
  case (recover w rid r ca)
  then show ?case using runs_ok_quiet recover_effect(1) by blast
next
  case (event w m ca)
  show ?case
    by (cases rule: Handle_effect [of ed ca "smID m" "nmWorkflowRunID (smMission m)" w])
      (use event.IH runs_ok_edge in auto)
qed (simp_all add: runs_ok_def finish_mission_def delete_mission_def)

text \<open>Ids are unique, and a mission has at most one child in a run.\<close>

definition children :: "string \<Rightarrow> string \<Rightarrow> StepMission list \<Rightarrow> StepMission list" where
  "children rid p ms = filter (\<lambda>m. nmWorkflowRunID (smMission m) = rid \<and> nmParentMissionID (smMission m) = p) ms"

definition lineage_ok :: "StepMission list \<Rightarrow> bool" where
  "lineage_ok ms = (\<forall>rid p. p \<noteq> [] \<longrightarrow> length (children rid p ms) \<le> 1)"

lemma lineage_spawned:
  assumes "lineage_ok ms" "spawned ca rid p ms ms'" "p \<noteq> [] \<Longrightarrow> children rid p ms = []"
  shows "lineage_ok ms'"
  using assms by (auto simp: lineage_ok_def spawned_def children_def)

lemma lineage_child: "lineage_ok (wdMissions w) \<Longrightarrow> one_child ca rid p w w' \<Longrightarrow> lineage_ok (wdMissions w')"
  unfolding one_child_def WorkflowChild_None by (auto simp: children_def intro: lineage_spawned)

lemma children_orphans:
  assumes "p \<noteq> []"
  shows "children rid p (map (orphan mid) ms) = children rid p (filter (\<lambda>m. nmParentMissionID (smMission m) \<noteq> mid) ms)"
proof (induction ms)
  case (Cons m ms)
  with assms show ?case by (cases "nmParentMissionID (smMission m) = mid") (simp_all add: children_def orphan_def)
qed (simp add: children_def)

lemma children_filter: "length (children rid p (filter P (filter Q ms))) \<le> length (children rid p ms)"
proof (induction ms)
  case (Cons m ms)
  then show ?case by (cases "P m \<and> Q m") (auto simp: children_def)
qed (simp add: children_def)

lemma lineage_delete: "lineage_ok (wdMissions w) \<Longrightarrow> lineage_ok (wdMissions (delete_mission mid w))"
  unfolding lineage_ok_def delete_mission_def using children_filter
  by (simp add: children_orphans) (meson le_trans)

lemma lineage_finish: "lineage_ok (wdMissions (finish_mission mid ph w)) = lineage_ok (wdMissions w)"
proof -
  let ?f = "\<lambda>m. if smID m = mid \<and> \<not> Terminal (smPhase m) then m\<lparr>smPhase := ph\<rparr> else m"
  have "length (children rid p (map ?f ms)) = length (children rid p ms)" for rid p ms
    by (induction ms) (auto simp: children_def)
  then show ?thesis by (simp add: lineage_ok_def finish_mission_def)
qed

lemma wf_reach_lineage: "wf_reach ed w \<Longrightarrow> lineage_ok (wdMissions w)"
proof (induction rule: wf_reach.induct)
  case start
  then show ?case by (simp add: lineage_ok_def children_def)
next
  case (run w rid ca wid ctx)
  then show ?case using lineage_spawned start_effect(2) by blast
next
  case (recover w rid r ca)
  then show ?case using lineage_spawned recover_effect(2) by blast
next
  case (event w m ca)
  show ?case
    by (cases rule: Handle_effect [of ed ca "smID m" "nmWorkflowRunID (smMission m)" w])
      (use event.IH lineage_child in auto)
next
  case (finish w p mid)
  then show ?case by (simp add: lineage_finish)
next
  case (delete w mid)
  then show ?case by (simp add: lineage_delete)
qed simp

text \<open>C32. In every reachable state a run has taken each edge at most ten times and each mission has moved it
  at most once, and a mission has spawned at most one mission of the run, whatever definitions are
  stored meanwhile, however often an event is delivered and whichever database calls fail.\<close>

theorem workflow_runs_are_bounded:
  assumes "wf_reach ed w" "wdRuns w rid = Some r" "p \<noteq> []"
  shows "int (CountEdgeFirings (rnEvents r) f k t) \<le> 10
    \<and> distinct (map taker (taken (rnEvents r)))
    \<and> length (filter (\<lambda>m. nmWorkflowRunID (smMission m) = rid \<and> nmParentMissionID (smMission m) = p) (wdMissions w)) \<le> 1"
  using wf_reach_runs [OF assms(1)] wf_reach_lineage [OF assms(1)] assms(2,3)
  by (auto simp: runs_ok_def run_ok_def lineage_ok_def children_def maxIterations_def)

section \<open>Redelivery\<close>

text \<open>\<open>handle c e\<close> delivers event e under circumstances c; success is \<open>None\<close>.\<close>

locale idempotent_consumer =
  fixes handle :: "'c \<Rightarrow> 'e \<Rightarrow> 'w \<Rightarrow> 'w \<times> 'x option"
  assumes settled: "handle c e w = (w', None) \<Longrightarrow> fst (handle c' e w') = w'"
begin

lemma redelivery: "handle c e w = (w', None) \<Longrightarrow> fold (\<lambda>c w. fst (handle c e w)) cs w' = w'"
  by (induction cs) (simp_all add: settled)

end

definition done_with :: "StepMission \<Rightarrow> WfWorld \<Rightarrow> bool" where
  "done_with m w = (\<exists>r. wdRuns w (nmWorkflowRunID (smMission m)) = Some r \<and>
     (rnStatus r \<noteq> ''running'' \<or> edgeTakenFor (rnEvents r) (smID m)
      \<or> nmWorkflowStep (smMission m) \<noteq> [] \<and> nmWorkflowStep (smMission m) \<noteq> rnStep r))"

lemma done_with_stays: "done_with m w \<Longrightarrow> fst (OnMissionTerminal ed ca m w) = w"
  by (auto simp: done_with_def OnMissionTerminal_def)

lemma apply_done:
  assumes "ApplyRunTransition fl rid stat step evs w = (w', True)"
  shows "\<exists>r r'. wdRuns w rid = Some r \<and> wdRuns w' rid = Some r' \<and> rnStatus r' = stat \<and> rnEvents r' = rnEvents r @ evs"
  using assms by (auto simp: ApplyRunTransition_def split: option.splits if_splits)

lemma closing_done:
  assumes "pauseRun ca rid reason w = (w', None) \<or> failRun ca rid e w = (w', None) \<or> endRun ca rid e w = (w', None)"
  shows "\<exists>r'. wdRuns w' rid = Some r' \<and> rnStatus r' \<noteq> ''running''"
  using assms by (auto simp: pauseRun_def failRun_def endRun_def Let_def split: option.splits if_splits prod.splits
      dest!: apply_done)

lemma take_done:
  assumes "takeEdge ca rid e mid child w = (w', None)"
  shows "\<exists>r'. wdRuns w' rid = Some r' \<and> edgeTakenFor (rnEvents r') mid"
  using assms by (auto simp: takeEdge_def Let_def edgeTakenFor_taken taker_def split: if_splits prod.splits dest!: apply_done)

lemma advance_done:
  assumes "advance_to ed ca m rid r e st w = (w', None)"
  shows "\<exists>r'. wdRuns w' rid = Some r' \<and> (rnStatus r' \<noteq> ''running'' \<or> edgeTakenFor (rnEvents r') (smID m))"
proof -
  obtain v c where v: "spawnStep ed ca rid (rnStep r) (edTo e) st (rnContext r) (edDigest ed m) (smID m) w = (v, c)"
    by (metis surj_pair)
  have "(\<exists>reason u. pauseRun ca rid reason u = (w', None)) \<or> (\<exists>child u. takeEdge ca rid e (smID m) child u = (w', None))"
    using assms unfolding advance_to_def v by (cases c) (auto split: if_splits option.splits)
  then show ?thesis using closing_done [of ca rid _ _ w' e] take_done [of ca rid e "smID m" _ _ w'] by metis
qed

lemma follow_done:
  assumes "follow_edge ed ca m rid r d w = (w', None)"
  shows "\<exists>r'. wdRuns w' rid = Some r' \<and> (rnStatus r' \<noteq> ''running'' \<or> edgeTakenFor (rnEvents r') (smID m))"
proof -
  have "(\<exists>reason e. pauseRun ca rid reason w = (w', None) \<or> failRun ca rid e w = (w', None) \<or> endRun ca rid e w = (w', None))
      \<or> (\<exists>e st. advance_to ed ca m rid r e st w = (w', None))"
    using assms unfolding follow_edge_def by (auto split: option.splits if_splits)
  then show ?thesis using closing_done [of ca rid _ w w'] advance_done [of ed ca m rid r _ _ w w'] by metis
qed

lemma find_append: "find P xs = Some x \<Longrightarrow> find P (xs @ ys) = Some x"
  by (induction xs) auto

lemma terminal_missions: "\<exists>ms. wdMissions (fst (OnMissionTerminal ed ca m w)) = wdMissions w @ ms"
  using terminal_effect [of m w ed ca] by (auto simp: one_child_def spawned_def)

lemma terminal_done: "OnMissionTerminal ed ca m w = (w', None) \<Longrightarrow> done_with m w'"
  unfolding OnMissionTerminal_def Let_def done_with_def
  by (auto split: option.splits if_splits sum.splits dest!: follow_done)

interpretation wf: idempotent_consumer "\<lambda>ca ev w. Handle ed ca (fst ev) (snd ev) w" for ed
proof
  fix c c' and ev :: "string \<times> string" and w w'
  assume h: "Handle ed c (fst ev) (snd ev) w = (w', None)"
  show "fst (Handle ed c' (fst ev) (snd ev) w') = w'"
  proof (cases "snd ev = [] \<or> find (\<lambda>m. smID m = fst ev) (wdMissions w) = None")
    case True
    with h have "w' = w" by (auto simp: Handle_def split: if_splits)
    with True show ?thesis by (auto simp: Handle_def)
  next
    case False
    then obtain m where m: "find (\<lambda>m. smID m = fst ev) (wdMissions w) = Some m" by blast
    with False h have run: "OnMissionTerminal ed c m w = (w', None)" by (auto simp: Handle_def split: if_splits)
    with terminal_missions [of ed c m w] obtain ms where "wdMissions w' = wdMissions w @ ms" by auto
    with find_append [OF m] have "find (\<lambda>m. smID m = fst ev) (wdMissions w') = Some m" by simp
    with done_with_stays [OF terminal_done [OF run]] show ?thesis by (simp add: Handle_def)
  qed
qed


section \<open>A run\<close>

definition demo_step :: WfStep where
  "demo_step = \<lparr>wsGoal = ''go {{context.k}}'', wsKind = ''general'', wsLight = False, wsRoute = ''main'', wsPlanRoute = [],
     wsAgentID = [], wsDestinationIDs = []\<rparr>"

definition demo_flow :: Definition where
  "demo_flow = \<lparr>dfEntry = ''a'', dfSteps = [(''a'', demo_step), (''b'', demo_step)],
     dfEdges = [\<lparr>edFrom = ''a'', edOn = ''mission.done'', edTo = ''b'', edMax = 99\<rparr>]\<rparr>"

definition demo_engine :: EngineDeps where
  "demo_engine = \<lparr>edDecode = (\<lambda>_. Some demo_flow), edDigest = (\<lambda>_. ''ok''), edResolve = demo_deps,
     edRegistries = demo_registries, edValidate = None\<rparr>"

definition demo_calls :: "string \<Rightarrow> db_call list \<Rightarrow> Calls" where
  "demo_calls new failing = \<lparr>caFails = (\<lambda>c. c \<in> set failing), caNewID = new, caInsertion = Inserted\<rparr>"

definition demo_saved :: WfWorld where
  "demo_saved = \<lparr>wdWorkflows = [''w'' \<mapsto> \<lparr>wkDefinition = ''d'', wkEnabled = True\<rparr>], wdRuns = (\<lambda>_. None), wdMissions = []\<rparr>"

definition demo_ended :: WfWorld where
  "demo_ended = finish_mission ''m1'' PhaseDone
     (fst (StartRun demo_engine (demo_calls ''m1'' []) ''w'' ''r'' (\<lambda>_. None) demo_saved))"

text \<open>The edge is not recorded, so the event of m1 is tried again; meanwhile m2 ends.\<close>

definition demo_child_ended :: WfWorld where
  "demo_child_ended = finish_mission ''m2'' PhaseDone
     (fst (Handle demo_engine (demo_calls ''m2'' [RecordCall]) ''m1'' ''r'' demo_ended))"

definition demo_stuck :: WfWorld where
  "demo_stuck = fst (Handle demo_engine (demo_calls ''m4'' []) ''m1'' ''r''
     (fst (Handle demo_engine (demo_calls ''m3'' []) ''m2'' ''r'' demo_child_ended)))"

lemma demo_reach: "wf_reach demo_engine demo_ended"
proof -
  have "wf_reach demo_engine demo_saved"
    using wf_reach.save [OF wf_reach.start, of demo_engine "''w''" "\<lparr>wkDefinition = ''d'', wkEnabled = True\<rparr>"]
    by (simp add: demo_saved_def)
  then show ?thesis
    unfolding demo_ended_def
    by (intro wf_reach.finish wf_reach.run) (simp_all add: demo_saved_def fresh_def demo_calls_def Terminal_def)
qed

lemma demo_events: "map smID (wdMissions demo_ended) = [''m1'']" "map smID (wdMissions demo_child_ended) = [''m1'', ''m2'']"
  "map (\<lambda>m. nmWorkflowRunID (smMission m)) (wdMissions demo_child_ended) = [''r'', ''r'']"
  "map (\<lambda>m. nmParentMissionID (smMission m)) (wdMissions demo_child_ended) = [[], ''m1'']"
  "list_all (\<lambda>m. Terminal (smPhase m)) (wdMissions demo_child_ended)"
  by code_simp+

text \<open>
  A child that ends before its parent's edge is recorded loses its event: the run is not on the child's
  step yet, the delivery succeeds without doing anything, and the retry of the parent's event then puts
  the run on a step whose mission has already ended. Nothing moves it any more.
\<close>

lemma late_child_event_is_lost:
  "snd (Handle demo_engine (demo_calls ''m2'' [RecordCall]) ''m1'' ''r'' demo_ended) = Some NotRecorded
   \<and> snd (Handle demo_engine (demo_calls ''m3'' []) ''m2'' ''r'' demo_child_ended) = None
   \<and> map_option rnStatus (wdRuns demo_stuck ''r'') = Some ''running'' \<and> map_option rnStep (wdRuns demo_stuck ''r'') = Some ''b''
   \<and> list_all (\<lambda>m. Terminal (smPhase m)) (wdMissions demo_stuck)"
  by (intro conjI; code_simp)

definition demo_moved :: WfWorld where
  "demo_moved = fst (Handle demo_engine (demo_calls ''m2'' []) ''m1'' ''r'' demo_ended)"

lemma demo_moved_reach: "wf_reach demo_engine demo_moved"
proof -
  obtain m where m: "m \<in> set (wdMissions demo_ended)" "smID m = ''m1''" "Terminal (smPhase m)"
    "nmWorkflowRunID (smMission m) = ''r''"
  proof -
    have "list_all (\<lambda>m. smID m = ''m1'' \<and> Terminal (smPhase m) \<and> nmWorkflowRunID (smMission m) = ''r'') (wdMissions demo_ended)"
      "wdMissions demo_ended \<noteq> []" by code_simp+
    then show thesis using that by (cases "wdMissions demo_ended") auto
  qed
  have "fresh (caNewID (demo_calls ''m2'' [])) demo_ended" by code_simp
  from wf_reach.event [OF demo_reach m(1,3) this] m show ?thesis by (simp add: demo_moved_def)
qed

text \<open>
  Recovery takes a running run without missions for one whose entry never ran. Missions can be deleted:
  a run in its second step looks the same, and its second step is spawned again without an outcome.
\<close>

lemma recovery_mistakes_deleted_missions:
  "without_missions (delete_mission ''m1'' (delete_mission ''m2'' demo_moved)) ''r''
   \<and> map_option rnStep (wdRuns (delete_mission ''m1'' (delete_mission ''m2'' demo_moved)) ''r'') = Some ''b''
   \<and> dfEntry demo_flow = ''a''"
  by (intro conjI; code_simp)

text \<open>A placeholder in a mission's outcome is rendered like one of the goal.\<close>

lemma outcome_placeholders_are_rendered:
  "interpolate ''{{outcome}}'' ''{{context.k}}'' (\<lambda>k. if k = ''k'' then Some ''v'' else None) = (''v'', [])"
  by code_simp

theorem workflow_runs_are_bounded_witness:
  "\<exists>r. wdRuns demo_moved ''r'' = Some r \<and> taken (rnEvents r) = [(''a'', ''mission.done'', ''b'', ''m1'')]
     \<and> int (CountEdgeFirings (rnEvents r) ''a'' ''mission.done'' ''b'') \<le> 10 \<and> distinct (map taker (taken (rnEvents r)))"
proof -
  have ev: "map_option (\<lambda>r. taken (rnEvents r)) (wdRuns demo_moved ''r'') = Some [(''a'', ''mission.done'', ''b'', ''m1'')]"
    by code_simp
  then obtain r where r: "wdRuns demo_moved ''r'' = Some r" by (cases "wdRuns demo_moved ''r''") auto
  with ev workflow_runs_are_bounded [OF demo_moved_reach r, of "''m1''"] show ?thesis by auto
qed


end
