(* ===== verification/Session_Log.thy ===== *)
theory Session_Log
  imports Prelude
begin

text \<open>
  The event-sourced session (\<open>internal/brain/session\<close>): an append-only log and its projections, the
  context a model sees and the transcript a user sees (\<open>projection.go\<close>), and the compactor that replaces
  the oldest half of a context by a summary (\<open>compactor.go\<close>). An event carries its decoded payload;
  \<open>Undecodable\<close> is a payload its kind does not decode. The tokenizer, the memory service and the gateway
  of the compactor are arguments.
\<close>

section \<open>Events\<close>

datatype kind =
    KindSessionStarted | KindUserMessage | KindAssistantTurn | KindToolExecution | KindCompactionApplied
  | KindPendingState | KindTurnMemory | KindPermissionRequest | KindPermissionResolved | KindTurnFailed

record ImageRef =
  irID :: string
  irMime :: string
  irName :: string

record DocumentRef =
  drID :: string
  drMime :: string
  drMarkdown :: string
  drName :: string

record UIBlock =
  ubType :: string
  ubText :: string
  ubMedia :: "ImageRef list"

record TurnMemory =
  rsFilesChanged :: "string list"
  rsFailures :: "(string \<times> string) list"
  rsKeyFindings :: "string list"

record assistant_turn =
  atBlocks :: "UIBlock list"
  atMessage :: string
  atTurnMemory :: "TurnMemory option"
  atModel :: string

record tool_execution =
  teName :: string
  teArgs :: string
  teResultDigest :: string
  teUntrusted :: bool
  teTrustKnown :: bool

record permission_request =
  pqID :: string
  pqTool :: string
  pqArgs :: string

text \<open>\<open>CompactionApplied\<close> carries the summary, the seq it replaces through, and whether it is untrusted.\<close>

datatype payload =
    SessionStarted
  | UserMessage string "ImageRef list" "DocumentRef list"
  | AssistantTurn assistant_turn
  | ToolExecution tool_execution
  | CompactionApplied string int bool
  | PendingState string
  | TurnMemoryEvent TurnMemory
  | PermissionRequest permission_request
  | PermissionResolved string string
  | TurnFailed string string
  | Undecodable kind

record SessionEvent =
  seSeq :: int
  sePayload :: payload

definition event_kind :: "SessionEvent \<Rightarrow> kind" where
  "event_kind ev =
     (case sePayload ev of
        SessionStarted \<Rightarrow> KindSessionStarted
      | UserMessage _ _ _ \<Rightarrow> KindUserMessage
      | AssistantTurn _ \<Rightarrow> KindAssistantTurn
      | ToolExecution _ \<Rightarrow> KindToolExecution
      | CompactionApplied _ _ _ \<Rightarrow> KindCompactionApplied
      | PendingState _ \<Rightarrow> KindPendingState
      | TurnMemoryEvent _ \<Rightarrow> KindTurnMemory
      | PermissionRequest _ \<Rightarrow> KindPermissionRequest
      | PermissionResolved _ _ \<Rightarrow> KindPermissionResolved
      | TurnFailed _ _ \<Rightarrow> KindTurnFailed
      | Undecodable k \<Rightarrow> k)"

text \<open>\<open>Append\<close>: the seq after the largest one.\<close>

definition next_seq :: "SessionEvent list \<Rightarrow> int" where
  "next_seq evs = fold (\<lambda>e m. max (seSeq e) m) evs 0 + 1"

definition append_event :: "payload \<Rightarrow> SessionEvent list \<Rightarrow> SessionEvent list" where
  "append_event p evs = evs @ [\<lparr>seSeq = next_seq evs, sePayload = p\<rparr>]"

text \<open>A decode error names the kind and the seq.\<close>

type_synonym decode_error = "kind \<times> int"

section \<open>The context of the model\<close>

record ContextMessage =
  cmRole :: string
  cmContent :: string
  cmImageRefs :: "ImageRef list"
  cmUntrusted :: bool

definition plain_message :: "string \<Rightarrow> string \<Rightarrow> ContextMessage" where
  "plain_message role txt = \<lparr>cmRole = role, cmContent = txt, cmImageRefs = [], cmUntrusted = False\<rparr>"

definition newline :: string where "newline = [CHR 0x0A]"
definition summaryPrefix :: string where "summaryPrefix = ''[Summary of the conversation so far]'' @ newline"
definition interruptedNote :: string where
  "interruptedNote = newline @ ''[this response was interrupted mid-stream; continue from it]''"

definition emDash :: string where "emDash = '' '' @ [CHR 0xE2, CHR 0x80, CHR 0x94] @ '' ''"

definition renderTurnMemory :: "TurnMemory \<Rightarrow> string" where
  "renderTurnMemory tm =
     (if rsFilesChanged tm = [] \<and> rsFailures tm = [] \<and> rsKeyFindings tm = [] then []
      else ''[turn memory]''
           @ (if rsFilesChanged tm \<noteq> [] then newline @ ''files changed: '' @ str_join '', '' (rsFilesChanged tm) else [])
           @ concat (map (\<lambda>(w, y). newline @ ''failure: '' @ w @ emDash @ y) (rsFailures tm))
           @ concat (map (\<lambda>k. newline @ ''finding: '' @ k) (rsKeyFindings tm)))"

definition join_block :: "string \<Rightarrow> string \<Rightarrow> string" where
  "join_block msg block = (if msg = [] then block else msg @ newline @ newline @ block)"

definition media_note :: "ImageRef \<Rightarrow> string" where
  "media_note m =
     ''[generated file: '' @ (if irName m = [] then irID m else irName m) @ '' ('' @ irMime m @ '')]''"

definition renderAssistant :: "assistant_turn \<Rightarrow> string" where
  "renderAssistant t =
     (let msg = fold (\<lambda>m txt. join_block txt (media_note m))
                  (concat (map ubMedia (filter (\<lambda>b. ubType b = ''media'') (atBlocks t)))) (atMessage t);
          block = (case atTurnMemory t of Some tm \<Rightarrow> renderTurnMemory tm | None \<Rightarrow> [])
      in if block = [] then msg else msg @ newline @ newline @ block)"

definition document_block :: "DocumentRef \<Rightarrow> string" where
  "document_block d =
     (if drMarkdown d = []
      then ''[attached file: '' @ (if drName d = [] then drID d else drName d) @ '' ('' @ drMime d
             @ ''), not viewable by the model]''
      else ''[attached document '' @ drID d @ '' ('' @ drMime d @ '')]'' @ newline @ drMarkdown d)"

definition user_message :: "string \<Rightarrow> ImageRef list \<Rightarrow> DocumentRef list \<Rightarrow> ContextMessage" where
  "user_message txt images docs =
     \<lparr>cmRole = ''user'', cmContent = fold (\<lambda>d t. join_block t (document_block d)) docs txt,
      cmImageRefs = map (\<lambda>i. \<lparr>irID = irID i, irMime = irMime i, irName = []\<rparr>) images,
      cmUntrusted = (images \<noteq> [] \<or> docs \<noteq> [])\<rparr>"

fun eventsContainUntrusted :: "SessionEvent list \<Rightarrow> decode_error + bool" where
  "eventsContainUntrusted [] = Inr False"
| "eventsContainUntrusted (ev # evs) =
     (case sePayload ev of
        UserMessage _ images docs \<Rightarrow> if images \<noteq> [] \<or> docs \<noteq> [] then Inr True else eventsContainUntrusted evs
      | ToolExecution te \<Rightarrow>
          if teUntrusted te \<or> \<not> teTrustKnown te \<and> teResultDigest te \<noteq> [] then Inr True
          else eventsContainUntrusted evs
      | CompactionApplied _ _ u \<Rightarrow> if u then Inr True else eventsContainUntrusted evs
      | Undecodable k \<Rightarrow>
          if k \<in> {KindUserMessage, KindToolExecution, KindCompactionApplied} then Inl (k, seSeq ev)
          else eventsContainUntrusted evs
      | _ \<Rightarrow> eventsContainUntrusted evs)"

text \<open>The newest pending state and the newest event that supersedes one.\<close>

fun pending_scan :: "SessionEvent list \<Rightarrow> int \<Rightarrow> int \<Rightarrow> int \<times> int" where
  "pending_scan [] lp ls = (lp, ls)"
| "pending_scan (ev # evs) lp ls =
     (case event_kind ev of
        KindPendingState \<Rightarrow> pending_scan evs (seSeq ev) ls
      | KindAssistantTurn \<Rightarrow> pending_scan evs lp (seSeq ev)
      | KindCompactionApplied \<Rightarrow>
          (case sePayload ev of
             CompactionApplied _ through _ \<Rightarrow> pending_scan evs lp (if lp \<le> through then seSeq ev else ls)
           | _ \<Rightarrow> pending_scan evs lp ls)
      | _ \<Rightarrow> pending_scan evs lp ls)"

definition livePendingSeq :: "SessionEvent list \<Rightarrow> int" where
  "livePendingSeq evs = (let (lp, ls) = pending_scan evs (-1) (-1) in if ls < lp then lp else -1)"

text \<open>The latest compaction: its summary, whether untrusted, and the seq it replaces through.\<close>

fun latest_compaction :: "SessionEvent list \<Rightarrow> string \<times> bool \<times> int \<Rightarrow> decode_error + string \<times> bool \<times> int" where
  "latest_compaction [] c = Inr c"
| "latest_compaction (ev # evs) c =
     (case sePayload ev of
        CompactionApplied summary through u \<Rightarrow> latest_compaction evs (summary, u, through)
      | Undecodable k \<Rightarrow> if k = KindCompactionApplied then Inl (k, seSeq ev) else latest_compaction evs c
      | _ \<Rightarrow> latest_compaction evs c)"

text \<open>What one live event contributes.\<close>

definition project :: "int \<Rightarrow> SessionEvent \<Rightarrow> decode_error + ContextMessage list" where
  "project lp ev =
     (case sePayload ev of
        UserMessage txt images docs \<Rightarrow> Inr [user_message txt images docs]
      | AssistantTurn t \<Rightarrow> Inr [plain_message ''assistant'' (renderAssistant t)]
      | PendingState partial \<Rightarrow>
          Inr (if seSeq ev = lp \<and> partial \<noteq> [] then [plain_message ''assistant'' (partial @ interruptedNote)] else [])
      | TurnMemoryEvent tm \<Rightarrow> Inr (if renderTurnMemory tm \<noteq> [] then [plain_message ''user'' (renderTurnMemory tm)] else [])
      | TurnFailed _ m \<Rightarrow> Inr [plain_message ''user'' (''[previous turn failed: '' @ m @ '']'')]
      | Undecodable k \<Rightarrow>
          if k \<in> {KindUserMessage, KindAssistantTurn, KindTurnMemory, KindTurnFailed}
             \<or> k = KindPendingState \<and> seSeq ev = lp then Inl (k, seSeq ev) else Inr []
      | _ \<Rightarrow> Inr [])"

fun project_all :: "int \<Rightarrow> SessionEvent list \<Rightarrow> decode_error + ContextMessage list" where
  "project_all lp [] = Inr []"
| "project_all lp (ev # evs) =
     (case project lp ev of
        Inl e \<Rightarrow> Inl e
      | Inr ms \<Rightarrow> (case project_all lp evs of Inl e \<Rightarrow> Inl e | Inr rest \<Rightarrow> Inr (ms @ rest)))"

definition live_events :: "int \<Rightarrow> SessionEvent list \<Rightarrow> SessionEvent list" where
  "live_events through evs = filter (\<lambda>ev. through < seSeq ev) evs"

definition LLMContext :: "SessionEvent list \<Rightarrow> decode_error + ContextMessage list" where
  "LLMContext evs =
     (case eventsContainUntrusted evs of
        Inl e \<Rightarrow> Inl e
      | Inr tainted \<Rightarrow>
          case latest_compaction evs ([], False, -1) of
            Inl e \<Rightarrow> Inl e
          | Inr (summary, u, through) \<Rightarrow>
              case project_all (livePendingSeq evs) (live_events through evs) of
                Inl e \<Rightarrow> Inl e
              | Inr ms \<Rightarrow>
                  let hd = (if summary \<noteq> []
                            then [\<lparr>cmRole = ''user'', cmContent = summaryPrefix @ summary, cmImageRefs = [], cmUntrusted = u\<rparr>]
                            else []);
                      msgs = hd @ ms
                  in Inr (if tainted then map (\<lambda>m. m\<lparr>cmUntrusted := True\<rparr>) msgs else msgs))"

section \<open>Compaction\<close>

definition renderForSummary :: "ContextMessage \<Rightarrow> string" where
  "renderForSummary m =
     cmRole m @ '': '' @ cmContent m @ concat (map (\<lambda>_. '' [image attached]'') (cmImageRefs m)) @ newline @ newline"

definition lastModel :: "SessionEvent list \<Rightarrow> string" where
  "lastModel evs =
     (case find (\<lambda>ev. event_kind ev = KindAssistantTurn) (rev evs) of
        None \<Rightarrow> []
      | Some ev \<Rightarrow> (case sePayload ev of AssistantTurn t \<Rightarrow> atModel t | _ \<Rightarrow> []))"

definition perMessageOverhead :: nat where "perMessageOverhead = 4"

definition EstimateTokens :: "(string \<Rightarrow> nat) option \<Rightarrow> ContextMessage list \<Rightarrow> nat option" where
  "EstimateTokens enc msgs =
     map_option (\<lambda>count. sum_list (map (\<lambda>m. count (cmContent m) + perMessageOverhead) msgs)) enc"

text \<open>The summarized half does not end on a user message when it can be extended.\<close>

function extend_cut :: "ContextMessage list \<Rightarrow> nat \<Rightarrow> nat" where
  "extend_cut msgs n =
     (if n + 1 < length msgs \<and> cmRole (msgs ! (n - 1)) = ''user'' then extend_cut msgs (n + 1) else n)"
  by pat_completeness auto
termination by (relation "measure (\<lambda>(msgs, n). length msgs - n)") auto

declare extend_cut.simps [simp del]

definition latest_through :: "SessionEvent list \<Rightarrow> int" where
  "latest_through evs =
     fold (\<lambda>ev t. case sePayload ev of CompactionApplied _ through _ \<Rightarrow> through | _ \<Rightarrow> t) evs (-1)"

text \<open>Whether an event counts as one message; events of failed turns are not counted.\<close>

definition counts :: "int \<Rightarrow> SessionEvent \<Rightarrow> bool" where
  "counts lp ev =
     (case event_kind ev of
        KindUserMessage \<Rightarrow> True
      | KindAssistantTurn \<Rightarrow> True
      | KindTurnMemory \<Rightarrow> (case sePayload ev of TurnMemoryEvent tm \<Rightarrow> renderTurnMemory tm \<noteq> [] | _ \<Rightarrow> False)
      | KindPendingState \<Rightarrow>
          seSeq ev = lp \<and> (case sePayload ev of PendingState partial \<Rightarrow> partial \<noteq> [] | _ \<Rightarrow> False)
      | _ \<Rightarrow> False)"

fun boundary_scan :: "int \<Rightarrow> nat \<Rightarrow> nat \<Rightarrow> SessionEvent list \<Rightarrow> int option" where
  "boundary_scan lp need cnt [] = None"
| "boundary_scan lp need cnt (ev # evs) =
     (if \<not> counts lp ev then boundary_scan lp need cnt evs
      else if cnt + 1 = need then Some (seSeq ev)
      else boundary_scan lp need (cnt + 1) evs)"

definition planCompaction :: "SessionEvent list \<Rightarrow> (int \<times> ContextMessage list) option" where
  "planCompaction evs =
     (case LLMContext evs of
        Inl _ \<Rightarrow> None
      | Inr msgs \<Rightarrow>
          if length msgs < 4 then None
          else
            let n = extend_cut msgs (length msgs div 2);
                start = (if has_prefix (cmContent (hd msgs)) summaryPrefix then 1 else 0)
            in if length msgs \<le> n \<or> n \<le> start then None
               else map_option (\<lambda>b. (b, take n msgs))
                      (boundary_scan (livePendingSeq evs) (n - start) 0 (live_events (latest_through evs) evs)))"

text \<open>The tools whose calls make a session sensitive, and the route side calls then take.\<close>

record SensitiveTools =
  stConnectorNames :: "string list option"
  stAccountConnector :: "(string \<Rightarrow> string \<Rightarrow> string) option"
  stRoute :: "string option"

definition Matches :: "SensitiveTools option \<Rightarrow> string \<Rightarrow> string \<Rightarrow> bool" where
  "Matches s tool args =
     (case s of
        None \<Rightarrow> False
      | Some st \<Rightarrow>
          case stConnectorNames st of
            None \<Rightarrow> False
          | Some names \<Rightarrow>
              (\<exists>n \<in> set names. has_prefix tool (n @ ''_''))
              \<or> (case stAccountConnector st of
                    None \<Rightarrow> False
                  | Some f \<Rightarrow> f tool args \<noteq> [] \<and> f tool args \<in> set names))"

definition SessionSensitive :: "SensitiveTools option \<Rightarrow> SessionEvent list \<Rightarrow> bool" where
  "SessionSensitive s evs =
     (s \<noteq> None \<and> (\<exists>ev \<in> set evs. case sePayload ev of ToolExecution te \<Rightarrow> Matches s (teName te) (teArgs te) | _ \<Rightarrow> False))"

datatype summary_event = SummaryChunk string | SummaryIncomplete | SummaryError string | SummaryOther

text \<open>A side call and its route: what the memory service and the summarizing model are sent.\<close>

datatype side_call = ExtractCall string string | SummarizeCall string string

record compactor_env =
  ceEncoder :: "(string \<Rightarrow> nat) option"
  ceWindows :: "(string \<Rightarrow> int) option option"
  ceStaticBudget :: int
  ceExtracts :: bool
  ceSensitive :: "SensitiveTools option"
  ceRouteForRole :: "string option"
  ceStream :: "string \<Rightarrow> string \<Rightarrow> summary_event list option"
  ceAppends :: bool

definition budgetFor :: "compactor_env \<Rightarrow> SessionEvent list \<Rightarrow> int" where
  "budgetFor env evs =
     (if lastModel evs = [] then ceStaticBudget env
      else case ceWindows env of
             None \<Rightarrow> ceStaticBudget env
           | Some None \<Rightarrow> ceStaticBudget env
           | Some (Some ws) \<Rightarrow> let w = ws (lastModel evs) in if 0 < w then w * 60 div 100 else ceStaticBudget env)"

fun read_summary :: "summary_event list \<Rightarrow> string \<Rightarrow> string option" where
  "read_summary [] out = Some out"
| "read_summary (SummaryChunk txt # evs) out = read_summary evs (out @ txt)"
| "read_summary (SummaryIncomplete # evs) out = None"
| "read_summary (SummaryError m # evs) out = None"
| "read_summary (SummaryOther # evs) out = read_summary evs out"

definition sensitive_route :: "compactor_env \<Rightarrow> bool \<Rightarrow> string" where
  "sensitive_route env sensitive =
     (if sensitive then case ceSensitive env of Some st \<Rightarrow> (case stRoute st of Some r \<Rightarrow> r | None \<Rightarrow> []) | None \<Rightarrow> [] else [])"

definition summarize_route :: "compactor_env \<Rightarrow> bool \<Rightarrow> string" where
  "summarize_route env sensitive =
     (if sensitive_route env sensitive \<noteq> [] then sensitive_route env sensitive
      else case ceRouteForRole env of Some r \<Rightarrow> r | None \<Rightarrow> [])"

definition summarize :: "compactor_env \<Rightarrow> ContextMessage list \<Rightarrow> bool \<Rightarrow> string option" where
  "summarize env msgs sensitive =
     (case ceStream env (summarize_route env sensitive) (concat (map renderForSummary msgs)) of
        None \<Rightarrow> None
      | Some evs \<Rightarrow>
          case read_summary evs [] of
            None \<Rightarrow> None
          | Some out \<Rightarrow> if trim_space out = [] then None else Some (trim_space out))"

definition messagesContainUntrusted :: "ContextMessage list \<Rightarrow> bool" where
  "messagesContainUntrusted msgs = list_ex cmUntrusted msgs"

datatype compact_error = ContextError decode_error | NoEncoder | SummaryFailed | AppendFailed

text \<open>\<open>MaybeCompact\<close>: the log after, the side calls made, and the error if any.\<close>

definition MaybeCompact ::
    "compactor_env \<Rightarrow> SessionEvent list \<Rightarrow> SessionEvent list \<times> side_call list \<times> compact_error option" where
  "MaybeCompact env evs =
     (case LLMContext evs of
        Inl e \<Rightarrow> (evs, [], Some (ContextError e))
      | Inr msgs \<Rightarrow>
          case EstimateTokens (ceEncoder env) msgs of
            None \<Rightarrow> (evs, [], Some NoEncoder)
          | Some tokens \<Rightarrow>
              if int tokens \<le> budgetFor env evs then (evs, [], None)
              else case planCompaction evs of
                     None \<Rightarrow> (evs, [], None)
                   | Some (b, old) \<Rightarrow>
                       let sensitive = SessionSensitive (ceSensitive env) evs;
                           prompt = concat (map renderForSummary old);
                           calls = (if ceExtracts env then [ExtractCall (sensitive_route env sensitive) prompt] else [])
                                   @ [SummarizeCall (summarize_route env sensitive) prompt]
                       in case summarize env old sensitive of
                            None \<Rightarrow> (evs, calls, Some SummaryFailed)
                          | Some summary \<Rightarrow>
                              if ceAppends env
                              then (append_event (CompactionApplied summary b (messagesContainUntrusted old)) evs, calls, None)
                              else (evs, calls, Some AppendFailed))"

section \<open>The transcript\<close>

text \<open>An item's seq and its kind with what it shows.\<close>

datatype item =
    UserItem string "ImageRef list" "ImageRef list"
  | AssistantItem "UIBlock list" string
  | ToolItem tool_execution
  | PermissionItem permission_request
  | CompactionItem string
  | InterruptedItem string
  | ErrorItem string

definition chainExhausted :: string where "chainExhausted = ''chain_exhausted''"

definition item_of :: "int \<Rightarrow> string set \<Rightarrow> SessionEvent \<Rightarrow> decode_error + item option" where
  "item_of lp resolved ev =
     (case sePayload ev of
        UserMessage txt images docs \<Rightarrow>
          Inr (Some (UserItem txt images (map (\<lambda>d. \<lparr>irID = drID d, irMime = drMime d, irName = drName d\<rparr>) docs)))
      | AssistantTurn t \<Rightarrow> Inr (Some (AssistantItem (atBlocks t) (atModel t)))
      | ToolExecution te \<Rightarrow> Inr (Some (ToolItem te))
      | PermissionRequest p \<Rightarrow> Inr (if pqID p \<in> resolved then None else Some (PermissionItem p))
      | CompactionApplied _ through _ \<Rightarrow>
          Inr (Some (CompactionItem (''older messages summarized (through #'' @ int_dec through @ '')'')))
      | PendingState partial \<Rightarrow> Inr (if seSeq ev = lp then Some (InterruptedItem partial) else None)
      | TurnFailed code m \<Rightarrow>
          Inr (Some (ErrorItem (if code = chainExhausted then ''all providers failed (chain_exhausted)'' else m)))
      | Undecodable k \<Rightarrow>
          if k \<in> {KindUserMessage, KindAssistantTurn, KindToolExecution, KindPermissionRequest, KindCompactionApplied,
                   KindTurnFailed} \<or> k = KindPendingState \<and> seSeq ev = lp
          then Inl (k, seSeq ev) else Inr None
      | _ \<Rightarrow> Inr None)"

fun uiTranscript :: "int \<Rightarrow> string set \<Rightarrow> SessionEvent list \<Rightarrow> decode_error + (int \<times> item) list" where
  "uiTranscript lp resolved [] = Inr []"
| "uiTranscript lp resolved (ev # evs) =
     (case item_of lp resolved ev of
        Inl e \<Rightarrow> Inl e
      | Inr it \<Rightarrow>
          case uiTranscript lp resolved evs of
            Inl e \<Rightarrow> Inl e
          | Inr rest \<Rightarrow> Inr ((case it of Some i \<Rightarrow> [(seSeq ev, i)] | None \<Rightarrow> []) @ rest))"

fun resolvedPermissionIDs :: "SessionEvent list \<Rightarrow> decode_error + string set" where
  "resolvedPermissionIDs [] = Inr {}"
| "resolvedPermissionIDs (ev # evs) =
     (case sePayload ev of
        PermissionResolved i _ \<Rightarrow>
          (case resolvedPermissionIDs evs of Inl e \<Rightarrow> Inl e | Inr s \<Rightarrow> Inr (insert i s))
      | Undecodable k \<Rightarrow> if k = KindPermissionResolved then Inl (k, seSeq ev) else resolvedPermissionIDs evs
      | _ \<Rightarrow> resolvedPermissionIDs evs)"

definition UITranscript :: "SessionEvent list \<Rightarrow> decode_error + (int \<times> item) list" where
  "UITranscript evs =
     (case resolvedPermissionIDs evs of Inl e \<Rightarrow> Inl e | Inr res \<Rightarrow> uiTranscript (livePendingSeq evs) res evs)"

text \<open>\<open>TranscriptControl\<close>: the kinds that decide about other items; a turn and a pending state without payload.\<close>

definition TranscriptControl :: "SessionEvent list \<Rightarrow> SessionEvent list" where
  "TranscriptControl evs =
     map (\<lambda>ev. if event_kind ev \<in> {KindCompactionApplied, KindPermissionResolved} then ev
               else ev\<lparr>sePayload := Undecodable (event_kind ev)\<rparr>)
       (filter (\<lambda>ev. event_kind ev \<in> {KindCompactionApplied, KindPermissionResolved, KindPendingState, KindAssistantTurn}) evs)"

definition UITranscriptPage :: "SessionEvent list \<Rightarrow> SessionEvent list \<Rightarrow> decode_error + (int \<times> item) list \<times> int" where
  "UITranscriptPage window control =
     (case resolvedPermissionIDs control of
        Inl e \<Rightarrow> Inl e
      | Inr res \<Rightarrow>
          case uiTranscript (livePendingSeq control) res window of
            Inl e \<Rightarrow> Inl e
          | Inr items \<Rightarrow>
              (case resolvedPermissionIDs window of Inl e \<Rightarrow> Inl e | Inr _ \<Rightarrow> Inr (items, livePendingSeq control)))"

end
