(* ===== verification/Session_Props.thy ===== *)
theory Session_Props
  imports Session_Log
begin

text \<open>
  What the projections of a session guarantee: a compaction replaces exactly the messages it
  summarized, appending extends the context, and a transcript read in pages is the transcript. The
  boundary of a compaction is wrong when a failed turn lies in the summarized half.
\<close>

section \<open>Logs\<close>

definition log_ok :: "SessionEvent list \<Rightarrow> bool" where
  "log_ok evs = (sorted_wrt (<) (map seSeq evs) \<and> (\<forall>ev \<in> set evs. 0 < seSeq ev))"

lemma next_seq_bound: "ev \<in> set evs \<Longrightarrow> seSeq ev < next_seq evs" and next_seq_pos: "0 < next_seq evs"
proof -
  have f: "m \<le> fold (\<lambda>e m. max (seSeq e) m) evs m \<and> (\<forall>e \<in> set evs. seSeq e \<le> fold (\<lambda>e m. max (seSeq e) m) evs m)"
    for m :: int and evs
  proof (induction evs arbitrary: m)
    case (Cons e evs)
    from Cons [of "max (seSeq e) m"] show ?case by auto
  qed simp
  show "ev \<in> set evs \<Longrightarrow> seSeq ev < next_seq evs" using f [of 0 evs] unfolding next_seq_def by force
  show "0 < next_seq evs" using f [of 0 evs] unfolding next_seq_def by linarith
qed

lemma log_ok_append: "log_ok evs \<Longrightarrow> log_ok (append_event p evs)"
  using next_seq_bound next_seq_pos by (auto simp: log_ok_def append_event_def sorted_wrt_append)

section \<open>The pieces of a context\<close>

text \<open>What the model reads of a message.\<close>

definition shown :: "ContextMessage \<Rightarrow> string \<times> string \<times> ImageRef list" where
  "shown m = (cmRole m, cmContent m, cmImageRefs m)"

definition summary_head :: "string \<Rightarrow> (string \<times> string \<times> ImageRef list) list" where
  "summary_head s = (if s \<noteq> [] then [(''user'', summaryPrefix @ s, [])] else [])"

lemma shown_untrusted [simp]: "shown (m\<lparr>cmUntrusted := x\<rparr>) = shown m"
  by (simp add: shown_def)

lemma latest_compaction_through:
  "latest_compaction evs (s, u, t) = Inr (s', u', t') \<Longrightarrow>
     t' = fold (\<lambda>ev t. case sePayload ev of CompactionApplied _ through _ \<Rightarrow> through | _ \<Rightarrow> t) evs t"
proof (induction evs arbitrary: s u t)
  case (Cons ev evs)
  show ?case
  proof (cases "sePayload ev")
    case (CompactionApplied sm th un)
    then show ?thesis using Cons.prems Cons.IH [of sm un th] by simp
  next
    case (Undecodable k)
    then show ?thesis using Cons.prems Cons.IH [of s u t] by (cases "k = KindCompactionApplied") simp_all
  qed (use Cons.prems Cons.IH [of s u t] in simp_all)
qed simp

lemma latest_compaction_append:
  "latest_compaction evs c = Inr c' \<Longrightarrow> latest_compaction (evs @ ys) c = latest_compaction ys c'"
proof (induction evs arbitrary: c)
  case (Cons ev evs)
  then show ?case by (cases "sePayload ev") (auto split: if_splits)
qed simp

lemma untrusted_append:
  "eventsContainUntrusted evs = Inr t \<Longrightarrow>
     eventsContainUntrusted (evs @ ys) = (if t then Inr True else eventsContainUntrusted ys)"
proof (induction evs)
  case (Cons ev evs)
  then show ?case by (cases "sePayload ev") (auto split: if_splits)
qed simp

lemma project_all_append:
  "project_all lp (xs @ ys) = (case project_all lp xs of Inl e \<Rightarrow> Inl e
     | Inr ms \<Rightarrow> (case project_all lp ys of Inl e \<Rightarrow> Inl e | Inr rest \<Rightarrow> Inr (ms @ rest)))"
  by (induction xs) (auto split: sum.split)

lemma project_cong:
  "(event_kind ev = KindPendingState \<Longrightarrow> (seSeq ev = lp) = (seSeq ev = lp')) \<Longrightarrow> project lp ev = project lp' ev"
proof (cases "sePayload ev")
  case (PendingState partial)
  moreover assume "event_kind ev = KindPendingState \<Longrightarrow> (seSeq ev = lp) = (seSeq ev = lp')"
  ultimately have "(seSeq ev = lp) = (seSeq ev = lp')" by (simp add: event_kind_def)
  then show ?thesis by (simp only: project_def PendingState payload.case)
next
  case (Undecodable k)
  assume "event_kind ev = KindPendingState \<Longrightarrow> (seSeq ev = lp) = (seSeq ev = lp')"
  with Undecodable have "k = KindPendingState \<Longrightarrow> (seSeq ev = lp) = (seSeq ev = lp')" by (simp add: event_kind_def)
  then have "(k = KindPendingState \<and> seSeq ev = lp) = (k = KindPendingState \<and> seSeq ev = lp')" by blast
  then show ?thesis by (simp only: project_def Undecodable payload.case)
qed (simp_all add: project_def)

lemma project_all_cong:
  "(\<And>ev. ev \<in> set evs \<Longrightarrow> event_kind ev = KindPendingState \<Longrightarrow> (seSeq ev = lp) = (seSeq ev = lp'))
    \<Longrightarrow> project_all lp evs = project_all lp' evs"
proof (induction evs)
  case (Cons ev evs)
  have h: "project lp ev = project lp' ev" using Cons.prems by (intro project_cong) auto
  have t: "project_all lp evs = project_all lp' evs" using Cons.prems by (intro Cons.IH) auto
  show ?case by (simp only: project_all.simps h t)
qed simp

text \<open>One event moves the pending seq exactly when it is a pending state.\<close>

lemma pending_scan_step:
  obtains ls' where "\<And>rest. pending_scan (ev # rest) lp ls
    = pending_scan rest (if event_kind ev = KindPendingState then seSeq ev else lp) ls'"
proof (cases "event_kind ev")
  case KindCompactionApplied
  then show thesis by (cases "sePayload ev") (rule that, simp)+
qed (rule that, simp)+

lemma pending_scan_append: "pending_scan (xs @ ys) lp ls = (case pending_scan xs lp ls of (a, b) \<Rightarrow> pending_scan ys a b)"
proof (induction xs arbitrary: lp ls)
  case (Cons ev xs)
  obtain ls' where "\<And>rest. pending_scan (ev # rest) lp ls
    = pending_scan rest (if event_kind ev = KindPendingState then seSeq ev else lp) ls'"
    using pending_scan_step by blast
  then show ?case using Cons.IH by (simp del: pending_scan.simps)
qed simp

text \<open>The scan finds the newest pending state and nothing newer than the log.\<close>

lemma pending_scan_newest:
  assumes "sorted_wrt (<) (map seSeq evs)" "\<forall>ev \<in> set evs. lp \<le> seSeq ev"
  shows "lp \<le> fst (pending_scan evs lp ls)
    \<and> (\<forall>ev \<in> set evs. event_kind ev = KindPendingState \<longrightarrow> seSeq ev \<le> fst (pending_scan evs lp ls))"
  using assms
proof (induction evs arbitrary: lp ls)
  case (Cons ev evs)
  have later: "\<forall>e \<in> set evs. seSeq ev < seSeq e" and s: "sorted_wrt (<) (map seSeq evs)" using Cons.prems(1) by auto
  show ?case
  proof (cases "event_kind ev = KindPendingState")
    case True
    with Cons.IH [OF s, of "seSeq ev" ls] later Cons.prems(2) show ?thesis by fastforce
  next
    case False
    then obtain ls' where "pending_scan (ev # evs) lp ls = pending_scan evs lp ls'"
      using pending_scan_step [of ev lp ls] by metis
    with Cons.IH [OF s, of lp ls'] Cons.prems(2) False show ?thesis by auto
  qed
qed simp

lemma pending_scan_bound:
  "lp < k \<Longrightarrow> \<forall>ev \<in> set evs. seSeq ev < k \<Longrightarrow> fst (pending_scan evs lp ls) < k"
proof (induction evs arbitrary: lp ls)
  case (Cons ev evs)
  obtain ls' where "pending_scan (ev # evs) lp ls
    = pending_scan evs (if event_kind ev = KindPendingState then seSeq ev else lp) ls'"
    using pending_scan_step [of ev lp ls] by metis
  with Cons show ?case by (simp del: pending_scan.simps)
qed simp

lemma live_append: "live_events t (xs @ ys) = live_events t xs @ live_events t ys"
  by (simp add: live_events_def)

text \<open>Every projection that succeeds has these parts.\<close>

lemma LLMContext_parts:
  assumes "LLMContext evs = Inr msgs"
  obtains tainted summary u through ms where
    "eventsContainUntrusted evs = Inr tainted" "latest_compaction evs ([], False, -1) = Inr (summary, u, through)"
    "through = latest_through evs"
    "project_all (livePendingSeq evs) (live_events through evs) = Inr ms"
    "map shown msgs = summary_head summary @ map shown ms"
proof -
  from assms obtain tainted c where t: "eventsContainUntrusted evs = Inr tainted" "latest_compaction evs ([], False, -1) = Inr c"
    unfolding LLMContext_def by (auto split: sum.splits)
  obtain summary u through where c: "c = (summary, u, through)" by (cases c)
  from assms t c obtain ms where ms: "project_all (livePendingSeq evs) (live_events through evs) = Inr ms"
    unfolding LLMContext_def by (auto split: sum.splits)
  have "through = latest_through evs" using t(2) c latest_compaction_through unfolding latest_through_def by blast
  moreover have "map shown msgs = summary_head summary @ map shown ms"
    using assms t c ms by (auto simp: LLMContext_def Let_def comp_def summary_head_def shown_def)
  ultimately show thesis using that t c ms by blast
qed

lemma LLMContext_build:
  assumes "eventsContainUntrusted evs = Inr tainted" "latest_compaction evs ([], False, -1) = Inr (summary, u, through)"
    "project_all (livePendingSeq evs) (live_events through evs) = Inr ms"
  shows "\<exists>msgs. LLMContext evs = Inr msgs
    \<and> map shown msgs = summary_head summary @ map shown ms"
  using assms by (auto simp: LLMContext_def Let_def comp_def summary_head_def shown_def)

section \<open>The boundary\<close>

lemma project_counts:
  "project lp ev = Inr ms \<Longrightarrow> event_kind ev \<noteq> KindTurnFailed \<Longrightarrow> length ms = (if counts lp ev then 1 else 0)"
  by (cases "sePayload ev") (auto simp: project_def counts_def event_kind_def split: if_splits kind.splits)

lemma boundary_scan_split:
  assumes "boundary_scan lp need cnt evs = Some b" "cnt < need" "\<forall>ev \<in> set evs. event_kind ev \<noteq> KindTurnFailed"
    "project_all lp evs = Inr ms"
  shows "\<exists>pre ev post ms1 ms2. evs = pre @ ev # post \<and> seSeq ev = b \<and> project_all lp post = Inr ms2
    \<and> ms = ms1 @ ms2 \<and> length ms1 + cnt = need"
  using assms
proof (induction lp need cnt evs arbitrary: ms rule: boundary_scan.induct)
  case (2 lp need cnt ev evs)
  from 2(6) obtain m rest where m: "project lp ev = Inr m" "project_all lp evs = Inr rest" "ms = m @ rest"
    by (auto split: sum.splits)
  from project_counts [OF m(1)] 2(5) have len: "length m = (if counts lp ev then 1 else 0)" by simp
  show ?case
  proof (cases "counts lp ev \<and> cnt + 1 = need")
    case True
    with 2(3) len m show ?thesis
      by (intro exI [of _ "[]"] exI [of _ ev] exI [of _ evs] exI [of _ m] exI [of _ rest]) auto
  next
    case False
    define c where "c = (if counts lp ev then cnt + 1 else cnt)"
    have "boundary_scan lp need c evs = Some b" "c < need"
      using False 2(3,4) by (auto simp: c_def split: if_splits)
    then have "\<exists>pre ev post ms1 ms2. evs = pre @ ev # post \<and> seSeq ev = b \<and> project_all lp post = Inr ms2
        \<and> rest = ms1 @ ms2 \<and> length ms1 + c = need"
      using 2(1) [OF _ _ _ _ m(2)] 2(2) [OF _ _ _ _ _ m(2)] False 2(5) by (auto simp: c_def split: if_splits)
    then obtain pre e post ms1 ms2 where s: "evs = pre @ e # post" "seSeq e = b" "project_all lp post = Inr ms2"
      "rest = ms1 @ ms2" "length ms1 + c = need" by blast
    with m len show ?thesis
      by (intro exI [of _ "ev # pre"] exI [of _ e] exI [of _ post] exI [of _ "m @ ms1"] exI [of _ ms2]) (auto simp: c_def)
  qed
qed simp

lemma live_after:
  assumes "log_ok evs" "live_events t evs = pre @ ev # post" "seSeq ev = b"
  shows "live_events b evs = post" "t < b"
proof -
  have sorted: "sorted_wrt (<) (map seSeq (live_events t evs))"
    using assms(1) unfolding log_ok_def live_events_def sorted_wrt_map by (auto intro: sorted_wrt_filter)
  have "ev \<in> set (live_events t evs)" using assms(2) by simp
  then show b: "t < b" using assms(3) by (simp add: live_events_def)
  then have "live_events b evs = live_events b (live_events t evs)" by (simp add: live_events_def) (metis (lifting) filter_cong order_less_trans)
  also have "\<dots> = post"
    using sorted assms(2,3) by (auto simp: live_events_def sorted_wrt_append filter_empty_conv filter_id_conv)
  finally show "live_events b evs = post" .
qed


text \<open>An accepted plan summarizes a proper prefix of the context.\<close>

definition marked :: "SessionEvent list \<Rightarrow> ContextMessage list \<Rightarrow> bool" where
  "marked evs msgs =
     (has_prefix (cmContent (hd msgs)) summaryPrefix
        = (case latest_compaction evs ([], False, -1) of Inr (s, _) \<Rightarrow> s \<noteq> [] | Inl _ \<Rightarrow> False))"

lemma planCompaction_parts:
  assumes "planCompaction evs = Some (b, old)" "LLMContext evs = Inr msgs"
  obtains n start where "old = take n msgs" "n < length msgs" "start < n"
    "start = (if has_prefix (cmContent (hd msgs)) summaryPrefix then 1 else 0)"
    "boundary_scan (livePendingSeq evs) (n - start) 0 (live_events (latest_through evs) evs) = Some b"
  using assms by (auto simp: planCompaction_def Let_def split: if_splits)

lemma pending_after_compaction:
  assumes "log_ok evs" "b < next_seq evs" "ev \<in> set evs" "b < seSeq ev" "event_kind ev = KindPendingState"
  shows "(seSeq ev = livePendingSeq (append_event (CompactionApplied s b u) evs)) = (seSeq ev = livePendingSeq evs)"
proof -
  obtain p q where pq: "pending_scan evs (-1) (-1) = (p, q)" by (cases "pending_scan evs (-1) (-1)")
  have new: "pending_scan (append_event (CompactionApplied s b u) evs) (-1) (-1)
      = (p, if p \<le> b then next_seq evs else q)"
    by (simp add: append_event_def pending_scan_append pq event_kind_def)
  have "\<forall>e \<in> set evs. (-1) \<le> seSeq e" using assms(1) by (auto simp: log_ok_def)
  then have "seSeq ev \<le> p"
    using pending_scan_newest [of evs "-1" "-1"] assms(1,3,5) pq by (auto simp: log_ok_def)
  with assms(4) have "\<not> p \<le> b" by linarith
  with new pq show ?thesis by (simp add: livePendingSeq_def)
qed

lemma LLMContext_after_compaction:
  assumes ok: "log_ok evs" and ctx: "LLMContext evs = Inr msgs" and plan: "planCompaction evs = Some (b, old)"
    and nofail: "\<forall>ev \<in> set (live_events (latest_through evs) evs). event_kind ev \<noteq> KindTurnFailed"
    and head: "marked evs msgs" and s: "s \<noteq> []"
  shows "\<exists>rest. LLMContext (append_event (CompactionApplied s b u) evs) = Inr rest
    \<and> map shown rest = (''user'', summaryPrefix @ s, []) # map shown (drop (length old) msgs)"
proof -
  from LLMContext_parts [OF ctx] obtain tainted summary u0 through ms where
    c: "eventsContainUntrusted evs = Inr tainted" "latest_compaction evs ([], False, -1) = Inr (summary, u0, through)"
      "through = latest_through evs" "project_all (livePendingSeq evs) (live_events through evs) = Inr ms"
      "map shown msgs = summary_head summary @ map shown ms" .
  from planCompaction_parts [OF plan ctx] obtain n start where
    n: "old = take n msgs" "n < length msgs" "start < n"
      "start = (if has_prefix (cmContent (hd msgs)) summaryPrefix then 1 else 0)"
      "boundary_scan (livePendingSeq evs) (n - start) 0 (live_events through evs) = Some b"
    unfolding c(3) .
  have start: "start = length (summary_head summary)" using n(4) head c(2) by (simp add: marked_def summary_head_def)
  from n(3) have "0 < n - start" by simp
  from boundary_scan_split [OF n(5) this _ c(4)] nofail c(3) obtain pre ev post ms1 ms2 where
    b: "live_events through evs = pre @ ev # post" "seSeq ev = b" "project_all (livePendingSeq evs) post = Inr ms2"
      "ms = ms1 @ ms2" "length ms1 = n - start" by auto
  have rest: "map shown (drop n msgs) = map shown ms2"
    using c(5) b(4,5) start n(3) by (simp add: drop_map [symmetric] del: map_append) (simp add: drop_map)
  have inlog: "set post \<subseteq> set evs" "ev \<in> set evs" and after: "live_events b evs = post"
    using b(1) live_after [OF ok b(1,2)] by (auto simp: live_events_def dest!: arg_cong [where f = set])
  have bound: "b < next_seq evs" using next_seq_bound [OF inlog(2)] b(2) by simp
  let ?evs = "append_event (CompactionApplied s b u) evs"
  have "project_all (livePendingSeq ?evs) post = project_all (livePendingSeq evs) post"
  proof (rule project_all_cong)
    fix e assume e: "e \<in> set post" "event_kind e = KindPendingState"
    from e(1) after have "b < seSeq e" by (auto simp: live_events_def)
    then show "(seSeq e = livePendingSeq ?evs) = (seSeq e = livePendingSeq evs)"
      using pending_after_compaction ok bound e inlog by blast
  qed
  moreover have "live_events b ?evs = post @ [\<lparr>seSeq = next_seq evs, sePayload = CompactionApplied s b u\<rparr>]"
    using after bound by (simp add: append_event_def live_events_def)
  ultimately have "project_all (livePendingSeq ?evs) (live_events b ?evs) = Inr ms2"
    using b(3) by (simp add: project_all_append project_def)
  moreover have "latest_compaction ?evs ([], False, -1) = Inr (s, u, b)"
    using latest_compaction_append [OF c(2)] by (simp add: append_event_def)
  moreover have "\<exists>t. eventsContainUntrusted ?evs = Inr t"
    using untrusted_append [OF c(1)] by (cases "tainted \<or> u") (auto simp: append_event_def)
  ultimately show ?thesis
    using LLMContext_build rest s n(1,2) by (fastforce simp: summary_head_def)
qed

lemma summarize_nonempty: "summarize env msgs sens = Some s \<Longrightarrow> s \<noteq> []"
  by (auto simp: summarize_def split: option.splits if_splits)

lemma MaybeCompact_parts:
  assumes "MaybeCompact env evs = (evs', calls, None)" "evs' \<noteq> evs"
  obtains b old s where "planCompaction evs = Some (b, old)"
    "summarize env old (SessionSensitive (ceSensitive env) evs) = Some s"
    "evs' = append_event (CompactionApplied s b (messagesContainUntrusted old)) evs"
    "SummarizeCall (summarize_route env (SessionSensitive (ceSensitive env) evs)) (concat (map renderForSummary old)) \<in> set calls"
  using assms by (auto simp: MaybeCompact_def Let_def split: sum.splits option.splits if_splits)



text \<open>A log whose context is compacted: four turns, of which the first two are summarized.\<close>

definition log_example :: "SessionEvent list" where
  "log_example = fold append_event
     [SessionStarted, UserMessage ''a'' [] [],
      AssistantTurn \<lparr>atBlocks = [], atMessage = ''b'', atTurnMemory = None, atModel = ''m''\<rparr>,
      ToolExecution \<lparr>teName = ''mail_read'', teArgs = [], teResultDigest = ''d'', teUntrusted = False, teTrustKnown = True\<rparr>,
      UserMessage ''c'' [] [],
      AssistantTurn \<lparr>atBlocks = [], atMessage = ''e'', atTurnMemory = None, atModel = ''m''\<rparr>] []"

definition env_example :: compactor_env where
  "env_example = \<lparr>ceEncoder = Some length, ceWindows = None, ceStaticBudget = 10, ceExtracts = True,
     ceSensitive = Some \<lparr>stConnectorNames = Some [''mail''], stAccountConnector = None, stRoute = Some ''local''\<rparr>,
     ceRouteForRole = Some ''cheap'', ceStream = (\<lambda>_ _. Some [SummaryChunk ''s'']), ceAppends = True\<rparr>"

definition msgs_example :: "ContextMessage list" where
  "msgs_example = (case LLMContext log_example of Inr ms \<Rightarrow> ms | Inl _ \<Rightarrow> [])"

definition after_example :: "SessionEvent list" where
  "after_example = fst (MaybeCompact env_example log_example)"

lemma log_example_facts:
  "log_ok log_example" "LLMContext log_example = Inr msgs_example" "marked log_example msgs_example"
  "\<forall>ev \<in> set (live_events (latest_through log_example) log_example). event_kind ev \<noteq> KindTurnFailed"
  "snd (snd (MaybeCompact env_example log_example)) = None" "after_example \<noteq> log_example"
  by code_simp+


text \<open>A failed turn among the summarized messages is not counted by the boundary: the summary then stands for one
  message more than the model was shown, which is lost (\<open>planCompaction\<close>, its \<open>default\<close> case).\<close>

definition failed_log :: "SessionEvent list" where
  "failed_log = fold append_event
     [UserMessage ''a'' [] [], TurnFailed ''x'' ''y'',
      UserMessage ''b'' [] [], AssistantTurn \<lparr>atBlocks = [], atMessage = ''c'', atTurnMemory = None, atModel = ''m''\<rparr>,
      UserMessage ''d'' [] [], AssistantTurn \<lparr>atBlocks = [], atMessage = ''e'', atTurnMemory = None, atModel = ''m''\<rparr>] []"

lemma failed_turns_shift_the_boundary:
  "map_option (\<lambda>(b, old). (b, map cmContent old)) (planCompaction failed_log)
     = Some (5, [''a'', ''[previous turn failed: y]'', ''b'', ''c''])"
  "map_sum id (map cmContent) (LLMContext (append_event (CompactionApplied ''s'' 5 False) failed_log))
     = Inr [summaryPrefix @ ''s'', ''e'']"
  by code_simp+

section \<open>Sensitive sessions\<close>

fun call_route :: "side_call \<Rightarrow> string" where
  "call_route (ExtractCall r p) = r"
| "call_route (SummarizeCall r p) = r"

text \<open>Once a session used a tool of a sensitive connector, every side call of its compactor takes the
  sensitive route, whatever route the gateway names for summaries and whatever the outcome.\<close>

theorem sensitive_sessions_keep_their_route:
  assumes "ceSensitive env = Some st" "stRoute st = Some r" "r \<noteq> []"
    and "ToolExecution te \<in> set (map sePayload evs)" "Matches (Some st) (teName te) (teArgs te)"
  shows "list_all (\<lambda>c. call_route c = r) (fst (snd (MaybeCompact env evs)))"
proof -
  obtain ev where "ev \<in> set evs" "sePayload ev = ToolExecution te" using assms(4) by auto
  with assms(1,5) have "SessionSensitive (ceSensitive env) evs"
    unfolding SessionSensitive_def by (intro conjI bexI [of _ ev]) simp_all
  with assms(1-3) show ?thesis
    by (simp add: MaybeCompact_def summarize_route_def sensitive_route_def Let_def split: sum.split option.split)
qed

theorem sensitive_sessions_keep_their_route_witness:
  "fst (snd (MaybeCompact env_example log_example)) \<noteq> []
    \<and> list_all (\<lambda>c. call_route c = ''local'') (fst (snd (MaybeCompact env_example log_example)))"
proof
  show "fst (snd (MaybeCompact env_example log_example)) \<noteq> []" by code_simp
  let ?te = "\<lparr>teName = ''mail_read'', teArgs = [], teResultDigest = ''d'', teUntrusted = False, teTrustKnown = True\<rparr>"
  show "list_all (\<lambda>c. call_route c = ''local'') (fst (snd (MaybeCompact env_example log_example)))"
  proof (rule sensitive_sessions_keep_their_route
      [where te = ?te and st = "\<lparr>stConnectorNames = Some [''mail''], stAccountConnector = None, stRoute = Some ''local''\<rparr>"])
    show "ToolExecution ?te \<in> set (map sePayload log_example)"
      by (simp add: log_example_def append_event_def)
    show "Matches (Some \<lparr>stConnectorNames = Some [''mail''], stAccountConnector = None, stRoute = Some ''local''\<rparr>)
        (teName ?te) (teArgs ?te)" by code_simp
  qed (simp_all add: env_example_def)
qed

section \<open>Pages\<close>

lemma control_pending: "pending_scan (TranscriptControl evs) lp ls = pending_scan evs lp ls"
proof (induction evs arbitrary: lp ls)
  case (Cons ev evs)
  then show ?case by (cases "sePayload ev") (simp_all add: TranscriptControl_def event_kind_def split: kind.split)
qed (simp add: TranscriptControl_def)

lemma control_resolved: "resolvedPermissionIDs (TranscriptControl evs) = resolvedPermissionIDs evs"
proof (induction evs)
  case (Cons ev evs)
  then show ?case by (cases "sePayload ev") (auto simp: TranscriptControl_def event_kind_def)
qed (simp add: TranscriptControl_def)

lemma resolved_append:
  "resolvedPermissionIDs (xs @ ys) = Inr res \<Longrightarrow>
     (\<exists>r. resolvedPermissionIDs xs = Inr r) \<and> (\<exists>r. resolvedPermissionIDs ys = Inr r)"
proof (induction xs arbitrary: res)
  case (Cons ev xs)
  then show ?case by (cases "sePayload ev") (auto split: sum.splits if_splits)
qed simp

lemma resolved_windows:
  "resolvedPermissionIDs (concat ws) = Inr res \<Longrightarrow> w \<in> set ws \<Longrightarrow> \<exists>r. resolvedPermissionIDs w = Inr r"
proof (induction ws arbitrary: res)
  case (Cons v ws)
  from resolved_append [of v "concat ws" res] Cons.prems(1)
  have "\<exists>r. resolvedPermissionIDs v = Inr r" "\<exists>r. resolvedPermissionIDs (concat ws) = Inr r" by simp_all
  with Cons show ?case by auto
qed simp

lemma uiTranscript_append:
  "uiTranscript lp res (xs @ ys) = (case uiTranscript lp res xs of Inl e \<Rightarrow> Inl e
     | Inr is \<Rightarrow> (case uiTranscript lp res ys of Inl e \<Rightarrow> Inl e | Inr rest \<Rightarrow> Inr (is @ rest)))"
  by (induction xs) (auto split: sum.split)

lemma uiTranscript_windows:
  "uiTranscript lp res (concat ws) = Inr items \<Longrightarrow>
     \<exists>pages. list_all2 (\<lambda>w p. uiTranscript lp res w = Inr p) ws pages \<and> concat pages = items"
proof (induction ws arbitrary: items)
  case (Cons w ws)
  from Cons.prems obtain p rest where p: "uiTranscript lp res w = Inr p" "uiTranscript lp res (concat ws) = Inr rest"
    "items = p @ rest" by (auto simp: uiTranscript_append split: sum.splits)
  from Cons.IH [OF p(2)] obtain pages where
    "list_all2 (\<lambda>w p. uiTranscript lp res w = Inr p) ws pages" "concat pages = rest" by blast
  with p show ?case by (intro exI [of _ "p # pages"]) simp
qed simp

text \<open>C35. Reading a transcript in pages gives the transcript: however the log is cut into windows, the pages
  projected from each window and the control events of the whole log are the whole transcript, and
  every page names the same live pending state. A page needs no event outside its window but those few kinds,
  of which it needs the payload of compactions and permission answers only.\<close>

theorem pages_are_the_transcript:
  assumes "UITranscript (concat ws) = Inr items"
  shows "\<exists>pages. concat pages = items
    \<and> list_all2 (\<lambda>w p. UITranscriptPage w (TranscriptControl (concat ws)) = Inr (p, livePendingSeq (concat ws))) ws pages"
proof -
  from assms obtain res where res: "resolvedPermissionIDs (concat ws) = Inr res"
    "uiTranscript (livePendingSeq (concat ws)) res (concat ws) = Inr items"
    by (auto simp: UITranscript_def split: sum.splits)
  from uiTranscript_windows [OF res(2)] obtain pages where p: "concat pages = items"
    "list_all2 (\<lambda>w p. uiTranscript (livePendingSeq (concat ws)) res w = Inr p) ws pages" by blast
  have live: "livePendingSeq (TranscriptControl (concat ws)) = livePendingSeq (concat ws)"
    by (simp add: livePendingSeq_def control_pending)
  have "list_all2 (\<lambda>w p. UITranscriptPage w (TranscriptControl (concat ws)) = Inr (p, livePendingSeq (concat ws))) ws pages"
    using p(2)
  proof (rule list.rel_mono_strong)
    fix w p assume w: "w \<in> set ws" "uiTranscript (livePendingSeq (concat ws)) res w = Inr p"
    from resolved_windows [OF res(1) w(1)] obtain r where "resolvedPermissionIDs w = Inr r" by blast
    with w(2) res(1) show "UITranscriptPage w (TranscriptControl (concat ws)) = Inr (p, livePendingSeq (concat ws))"
      by (simp add: UITranscriptPage_def control_resolved live)
  qed
  with p(1) show ?thesis by blast
qed

theorem pages_are_the_transcript_witness:
  "\<exists>items. UITranscript log_example = Inr items \<and> length items = 5
    \<and> (\<exists>pages. concat pages = items
         \<and> list_all2 (\<lambda>w p. UITranscriptPage w (TranscriptControl log_example) = Inr (p, livePendingSeq log_example))
             [take 2 log_example, drop 2 log_example] pages)"
proof -
  have c: "concat [take 2 log_example, drop 2 log_example] = log_example" by simp
  have "map_sum id length (UITranscript log_example) = Inr (5 :: nat)" by code_simp
  then obtain items where i: "UITranscript log_example = Inr items" "length items = 5"
    by (cases "UITranscript log_example") auto
  from pages_are_the_transcript [of "[take 2 log_example, drop 2 log_example]" items, unfolded c, OF i(1)] i
  show ?thesis by blast
qed

end
