(* ===== verification/Automation_Text.thy ===== *)
theory Automation_Text
  imports Go_Json Go_Regexp
begin

text \<open>
  The texts of an automation run (\<open>internal/brain/automations\<close>): placeholders of a goal
  (\<open>interpolate.go\<close>), the filters of a webhook (\<open>automations.go\<close>), and the digests of the sources a run
  hands its mission (\<open>sources.go\<close>). An event is a decoded JSON object; of a key that occurs twice the
  last value counts, as in a Go map.
\<close>

section \<open>Objects\<close>

type_synonym jobject = "(string \<times> jvalue) list"

definition obj_get :: "jobject \<Rightarrow> string \<Rightarrow> jvalue option" where
  "obj_get o' k = map_of (rev o') k"

text \<open>The keys in the order \<open>encoding/json\<close> writes a map.\<close>

definition obj_entries :: "jobject \<Rightarrow> jobject" where
  "obj_entries o' = map (\<lambda>k. (k, the (obj_get o' k))) (sort (remdups (map fst o')))"

text \<open>A missing step, and a value that is no object, is nil.\<close>

fun lookup_in :: "jvalue \<Rightarrow> string list \<Rightarrow> jvalue" where
  "lookup_in v [] = v"
| "lookup_in (JObject kvs) (k # ks) = (case obj_get kvs k of Some w \<Rightarrow> lookup_in w ks | None \<Rightarrow> JNull)"
| "lookup_in _ (k # ks) = JNull"

definition lookupPath :: "jobject \<Rightarrow> string list \<Rightarrow> jvalue" where
  "lookupPath o' path = lookup_in (JObject o') path"

section \<open>Writing values\<close>

text \<open>\<open>json.Marshal\<close> of a decoded value; \<open>html\<close> says whether the HTML escapes apply.\<close>

function plain_from :: "string \<Rightarrow> string" where
  "plain_from [] = []"
| "plain_from (c # s) =
     (if byte c < 0x80
      then (if c = CHR ''<'' \<or> c = CHR ''>'' \<or> c = CHR ''&'' then [c] else escape_byte c) @ plain_from s
      else let n = rune_length (c # s)
           in if n = 0 then u_escape 0xFFFD @ plain_from s
              else escape_rune (take n (c # s)) @ plain_from (drop n (c # s)))"
  by pat_completeness auto
termination by (relation "measure length") auto

definition write_string :: "bool \<Rightarrow> string \<Rightarrow> string" where
  "write_string html s = (if html then json_string s else dquote # plain_from s @ [dquote])"

definition bracket :: "string \<Rightarrow> string \<Rightarrow> string list \<Rightarrow> string" where
  "bracket l r ps = l @ str_join '','' ps @ r"

fun json_marshal :: "bool \<Rightarrow> jvalue \<Rightarrow> string" where
  "json_marshal html JNull = ''null''"
| "json_marshal html JTrue = ''true''"
| "json_marshal html JFalse = ''false''"
| "json_marshal html (JNumber n) = n"
| "json_marshal html (JString s) = write_string html s"
| "json_marshal html (JArray vs) = bracket ''['' '']'' (map (json_marshal html) vs)"
| "json_marshal html (JObject kvs) =
     bracket ''{'' ''}''
       (map (\<lambda>k. write_string html k @ '':'' @ the (map_of (rev (map (\<lambda>(j, v). (j, json_marshal html v)) kvs)) k))
         (sort (remdups (map fst kvs))))"

text \<open>The same with \<open>SetIndent("", "  ")\<close> and without HTML escapes.\<close>

definition line_break :: "nat \<Rightarrow> string" where
  "line_break d = CHR 0x0A # replicate (2 * d) CHR '' ''"

definition indented :: "string \<Rightarrow> string \<Rightarrow> nat \<Rightarrow> string list \<Rightarrow> string" where
  "indented l r d ps =
     (if ps = [] then l @ r
      else l @ line_break (d + 1) @ str_join ('','' @ line_break (d + 1)) ps @ line_break d @ r)"

fun json_indent :: "nat \<Rightarrow> jvalue \<Rightarrow> string" where
  "json_indent d (JArray vs) = indented ''['' '']'' d (map (json_indent (d + 1)) vs)"
| "json_indent d (JObject kvs) =
     indented ''{'' ''}'' d
       (map (\<lambda>k. write_string False k @ '': '' @ the (map_of (rev (map (\<lambda>(j, v). (j, json_indent (d + 1) v)) kvs)) k))
         (sort (remdups (map fst kvs))))"
| "json_indent d v = json_marshal False v"

section \<open>Placeholders\<close>

definition MaxInterpolatedBytes :: nat where "MaxInterpolatedBytes = 32768"

text \<open>Back to the start of a rune; bytes that start none are skipped.\<close>

fun rune_cut :: "string \<Rightarrow> nat \<Rightarrow> nat" where
  "rune_cut s 0 = 0"
| "rune_cut s (Suc n) = (if continues (s ! Suc n) then rune_cut s n else Suc n)"

definition truncateUTF8 :: "string \<Rightarrow> nat \<Rightarrow> string" where
  "truncateUTF8 s n = (if length s \<le> n then s else take (rune_cut s n) s)"

definition brace_open :: string where "brace_open = ''{{''"
definition brace_close :: string where "brace_close = ''}}''"

definition placeholder_rx :: rx where
  "placeholder_rx = seqs [lit brace_open, Star (none_of ''{}''), lit brace_close]"

text \<open>The group of \<open>placeholderRe\<close>: the text between the braces without the spaces around it.\<close>

definition placeholder_key :: "string \<Rightarrow> string" where
  "placeholder_key m =
     (let inner = take (length m - 4) (drop 2 m)
      in rev (dropWhile is_rx_space (rev (dropWhile is_rx_space inner))))"

definition name_start :: "char \<Rightarrow> bool" where
  "name_start c = (is_upper c \<or> is_lower c \<or> c = CHR ''_'')"

definition name_char :: "char \<Rightarrow> bool" where
  "name_char c = (name_start c \<or> is_digit c \<or> c = CHR ''-'')"

definition event_path_rx :: rx where
  "event_path_rx = seqs [Bot, lit ''event'', plus_rx (seqs [ch CHR ''.'', Cls name_start, Star (Cls name_char)]), Eot]"

definition note_char :: "char \<Rightarrow> bool" where
  "note_char c = (is_lower c \<or> is_digit c \<or> c = CHR ''_'' \<or> c = CHR ''-'')"

definition note_name :: "string \<Rightarrow> bool" where
  "note_name n = (n \<noteq> [] \<and> length n \<le> 64 \<and> list_all note_char n)"

definition renderValue :: "jvalue \<Rightarrow> string" where
  "renderValue v =
     (case v of
        JNull \<Rightarrow> []
      | JObject _ \<Rightarrow> json_marshal True v
      | JArray _ \<Rightarrow> json_marshal True v
      | JString s \<Rightarrow> s
      | JNumber n \<Rightarrow> n
      | JTrue \<Rightarrow> ''true''
      | JFalse \<Rightarrow> ''false'')"

definition expand_placeholder :: "jobject \<Rightarrow> (string \<times> string) list \<Rightarrow> string \<Rightarrow> string" where
  "expand_placeholder event notes m =
     (let key = placeholder_key m in
      if has_prefix key ''notes.'' \<and> note_name (drop 6 key)
      then (case map_of notes (drop 6 key) of Some content \<Rightarrow> content | None \<Rightarrow> [])
      else if MatchString event_path_rx key
      then renderValue (lookupPath event (tl (split_on (\<lambda>c. c = CHR ''.'') key)))
      else m)"

definition Interpolate :: "string \<Rightarrow> jobject \<Rightarrow> (string \<times> string) list \<Rightarrow> string" where
  "Interpolate s event notes =
     truncateUTF8 (ReplaceAllStringFunc placeholder_rx s (expand_placeholder event notes)) MaxInterpolatedBytes"

section \<open>Webhook filters\<close>

definition filter_path :: "string \<Rightarrow> string list" where
  "filter_path p = split_on (\<lambda>c. c = CHR ''.'') (trim_prefix p ''$.'')"

definition scalar_text :: "jvalue \<Rightarrow> string option" where
  "scalar_text v =
     (case v of JNull \<Rightarrow> None | JObject _ \<Rightarrow> None | JArray _ \<Rightarrow> None | _ \<Rightarrow> Some (renderValue v))"

definition MatchWebhookFilters :: "(string \<times> string) list \<Rightarrow> jvalue option \<Rightarrow> bool" where
  "MatchWebhookFilters filters body =
     (if filters = [] then True
      else case body of
             Some (JObject doc) \<Rightarrow>
               (\<forall>(p, want) \<in> set filters. scalar_text (lookupPath doc (filter_path p)) = Some want)
           | _ \<Rightarrow> False)"

section \<open>Sources\<close>

definition maxTriggerDigestBytes :: nat where "maxTriggerDigestBytes = 4096"
definition maxNotesDigestBytes :: nat where "maxNotesDigestBytes = 16384"

definition trim_newlines :: "string \<Rightarrow> string" where
  "trim_newlines s = rev (dropWhile (\<lambda>c. c = CHR 0x0A) (rev s))"

definition triggerSource :: "jobject \<Rightarrow> string option" where
  "triggerSource event =
     (if event = [] then None
      else let digest = json_indent 0 (JObject event)
           in Some (if maxTriggerDigestBytes < length digest
                    then truncateUTF8 digest maxTriggerDigestBytes @ CHR 0x0A # ''[truncated]'' else digest))"

fun shown_notes :: "nat \<Rightarrow> (string \<times> string) list \<Rightarrow> string \<times> nat" where
  "shown_notes used [] = ([], 0)"
| "shown_notes used ((n, c) # ns) =
     (let entry = n @ '':'' @ [CHR 0x0A] @ c @ [CHR 0x0A, CHR 0x0A]
      in if maxNotesDigestBytes < used + length entry then ([], 0)
         else let (rest, k) = shown_notes (used + length entry) ns in (entry @ rest, k + 1))"

definition notesSource :: "(string \<times> string) list \<Rightarrow> string option" where
  "notesSource notes =
     (if notes = [] then None
      else let (body, shown) = shown_notes 0 notes; digest = trim_newlines body
           in Some (if shown < length notes
                    then digest @ (if digest \<noteq> [] then [CHR 0x0A, CHR 0x0A] else [])
                         @ ''['' @ nat_dec (length notes - shown) @ '' more notes not shown]''
                    else digest))"

section \<open>Facts\<close>

lemma rune_cut_le: "rune_cut s n \<le> n"
  by (induction s n rule: rune_cut.induct) auto

text \<open>A cut text is a prefix within its bound that does not end inside a rune.\<close>

lemma truncateUTF8_bounds: "prefix (truncateUTF8 s n) s" "length (truncateUTF8 s n) \<le> n"
  using rune_cut_le [of s n] by (auto simp: truncateUTF8_def take_is_prefix)

lemma rune_cut_start: "0 < rune_cut s n \<Longrightarrow> \<not> continues (s ! rune_cut s n)"
  by (induction s n rule: rune_cut.induct) (auto split: if_splits)

lemma Interpolate_bounded: "length (Interpolate s event notes) \<le> MaxInterpolatedBytes"
  by (simp add: Interpolate_def truncateUTF8_bounds)

text \<open>A substituted text is not read again: placeholders in an event or a note stay as they are.\<close>

lemma interpolation_is_one_pass:
  "Interpolate (''see '' @ brace_open @ '' event.title '' @ brace_close) [(''title'', JString ''{{notes.key}}'')] [(''key'', ''secret'')]
     = ''see {{notes.key}}''"
  by code_simp

lemma shown_notes_bound: "length (fst (shown_notes used ns)) \<le> maxNotesDigestBytes - used"
proof (induction used ns rule: shown_notes.induct)
  case (2 used n c ns)
  then show ?case by (auto simp: Let_def split: prod.splits)
qed simp

end
