(* ===== verification/Automation_Model.thy ===== *)
theory Automation_Model
  imports Automation_Text Mission_Create
begin

text \<open>
  Automations (\<open>internal/brain/automations\<close>): their rows and those of their runs, missions' links and
  notes (\<open>automations.go\<close>, \<open>migrations/0001_init.sql\<close>), the check every stored automation has passed
  (\<open>validate\<close>), and the operator's writes (\<open>store.go\<close>). A trigger's configuration is the decoded one.
  The cron parser and the compiler of a channel's pattern are arguments.
\<close>

section \<open>Rows\<close>

record MissionTemplate =
  mtGoal :: string
  mtName :: string
  mtKind :: string
  mtRoute :: string
  mtReviewRoute :: string
  mtPlanRoute :: string
  mtMaxIterations :: int
  mtBudgetAmount :: "real option"
  mtBudgetCurrency :: string
  mtHarness :: string
  mtReviewHarness :: string
  mtLight :: bool
  mtAutoApproveTools :: bool
  mtDestinationIDs :: "string list"
  mtAttachments :: "SourceEntry list"

record Action =
  acKind :: string
  acMission :: "MissionTemplate option"
  acWorkflowID :: string

record ConnectorEventConfig =
  ceConnectorID :: string
  ceRepo :: string
  ceEvents :: "string list"
  ceLabels :: "string list"

record ChannelConfig =
  chChannelID :: string
  chPattern :: string
  chChatID :: string

text \<open>A configuration that is not the one of its kind is one the kind's decoder refuses.\<close>

datatype trigger_config =
    CronConfig string
  | EmptyConfig
  | WebhookConfig string "(string \<times> string) list"
  | ConnectorConfig ConnectorEventConfig
  | ChannelTriggerConfig ChannelConfig
  | OtherConfig

record Trigger =
  tgID :: string
  tgKind :: string
  tgConfig :: trigger_config
  tgCredential :: string
  tgAllowlist :: "string list option"
  tgEnabled :: bool
  tgCreated :: int
  tgLastFired :: "int option"
  tgAuthFailures :: "int list"
  tgDisabledReason :: string

record Automation =
  amID :: string
  amName :: string
  amDescription :: string
  amAgentID :: string
  amAction :: Action
  amConcurrency :: string
  amMaxConcurrent :: int
  amMaxRunsPerHour :: int
  amContinuity :: bool
  amNotesEnabled :: bool
  amFailures :: int
  amDisabledReason :: string
  amEnabled :: bool
  amExpires :: "int option"
  amCreated :: int
  amTriggers :: "Trigger list"

datatype run_status = RunQueued | RunStarting | RunRunning | RunDone | RunFailed | RunSkipped

text \<open>The starter's three keys of a run's event are fields of their own.\<close>

record AutoRun =
  arID :: string
  arAutomation :: string
  arTrigger :: "string option"
  arDedup :: string
  arStatus :: run_status
  arSkipReason :: string
  arEvent :: jobject
  arStartError :: string
  arStartAttempts :: int
  arStartAttemptAt :: "int option"
  arMission :: "string option"
  arCreated :: int
  arStarted :: "int option"
  arFinished :: "int option"

record AutoNote =
  noAutomation :: string
  noName :: string
  noContent :: string

text \<open>
  The tables: automations, runs, the missions with the run each links, and notes. \<open>awIDs\<close> are
  the identifiers the database will generate for runs.
\<close>

record AutoWorld =
  awNow :: int
  awAutos :: "Automation list"
  awRuns :: "AutoRun list"
  awMissions :: "(string \<times> string option) list"
  awNotes :: "AutoNote list"
  awIDs :: "nat \<Rightarrow> string"
  awCount :: nat

definition find_auto :: "AutoWorld \<Rightarrow> string \<Rightarrow> Automation option" where
  "find_auto w a = find (\<lambda>x. amID x = a) (awAutos w)"

definition set_auto :: "string \<Rightarrow> (Automation \<Rightarrow> Automation) \<Rightarrow> AutoWorld \<Rightarrow> AutoWorld" where
  "set_auto a f w = w\<lparr>awAutos := map (\<lambda>x. if amID x = a then f x else x) (awAutos w)\<rparr>"

definition set_runs :: "(AutoRun \<Rightarrow> bool) \<Rightarrow> (AutoRun \<Rightarrow> AutoRun) \<Rightarrow> AutoWorld \<Rightarrow> AutoWorld" where
  "set_runs p f w = w\<lparr>awRuns := map (\<lambda>r. if p r then f r else r) (awRuns w)\<rparr>"

section \<open>The check\<close>

text \<open>\<open>isUUID\<close>: 36 characters, four dashes, hexadecimal digits.\<close>

definition is_hex :: "char \<Rightarrow> bool" where
  "is_hex c = (hex_value c \<noteq> None)"

definition isUUID :: "string \<Rightarrow> bool" where
  "isUUID s = (length s = 36 \<and> list_all (\<lambda>i. if i \<in> {8, 13, 18, 23} then s ! i = CHR ''-'' else is_hex (s ! i)) [0..<36])"

definition is_control :: "string \<Rightarrow> bool" where
  "is_control r =
     (case r of
        [c] \<Rightarrow> byte c < 32 \<or> byte c = 127
      | [c, d] \<Rightarrow> byte c = 0xC2 \<and> byte d < 0xA0
      | _ \<Rightarrow> False)"

definition has_control :: "string \<Rightarrow> bool" where
  "has_control s = list_ex is_control (runes s)"

datatype auto_error =
    NameRequired | NameTooLong | NameControl | DescriptionTooLong | BadAgentID | MissionRequired | WorkflowIDOnMission
  | GoalRequired | BadMissionKind | LightOnCoding | WorkflowsUnavailable | BadActionKind
  | BadConcurrency | BadMaxConcurrent | NeedsParallel | BadRunsPerHour | NoTriggers | TooManyTriggers
  | BadTriggerConfig string | BadCron | UnknownTrigger string | NeedsCredential | CredentialNotValid
  | AllowlistLong | AllowlistEmpty | AllowlistSpace | NoteNameBad | NoteTooBig | NoteLimit | AutoNotFound

definition maxNameRunes :: nat where "maxNameRunes = 64"
definition maxDescriptionRunes :: nat where "maxDescriptionRunes = 1024"
definition maxTriggers :: nat where "maxTriggers = 5"
definition maxAllowlist :: nat where "maxAllowlist = 64"
definition maxTriggerLabels :: nat where "maxTriggerLabels = 10"
definition maxWebhookFilters :: nat where "maxWebhookFilters = 10"
definition maxPatternRunes :: nat where "maxPatternRunes = 200"
definition maxChatIDRunes :: nat where "maxChatIDRunes = 128"
definition MaxNotes :: nat where "MaxNotes = 10"
definition MaxNoteBytes :: nat where "MaxNoteBytes = 4096"

definition validateName :: "string \<Rightarrow> auto_error + string" where
  "validateName n =
     (let name = trim_space n in
      if name = [] then Inl NameRequired
      else if maxNameRunes < length (runes name) then Inl NameTooLong
      else if has_control name then Inl NameControl
      else Inr name)"

definition ValidateTemplate :: "MissionTemplate \<Rightarrow> auto_error option" where
  "ValidateTemplate t =
     (if trim_space (mtGoal t) = [] then Some GoalRequired
      else if mtKind t \<noteq> KindCoding \<and> mtKind t \<noteq> KindGeneral then Some BadMissionKind
      else if mtLight t \<and> mtKind t \<noteq> KindGeneral then Some LightOnCoding
      else None)"

definition validateAction :: "Action \<Rightarrow> auto_error option" where
  "validateAction a =
     (if acKind a = ''mission'' then
        (case acMission a of
           None \<Rightarrow> Some MissionRequired
         | Some t \<Rightarrow> if acWorkflowID a \<noteq> [] then Some WorkflowIDOnMission else ValidateTemplate t)
      else if acKind a = ''workflow'' then Some WorkflowsUnavailable
      else Some BadActionKind)"

definition ConcurrencySkip :: string where "ConcurrencySkip = ''skip''"
definition ConcurrencyQueue :: string where "ConcurrencyQueue = ''queue''"
definition ConcurrencyParallel :: string where "ConcurrencyParallel = ''parallel''"

definition validateConcurrency :: "string \<Rightarrow> int \<Rightarrow> int \<Rightarrow> auto_error option" where
  "validateConcurrency mode maxConcurrent maxRuns =
     (if mode \<notin> {ConcurrencySkip, ConcurrencyQueue, ConcurrencyParallel} then Some BadConcurrency
      else if maxConcurrent < 1 \<or> 3 < maxConcurrent then Some BadMaxConcurrent
      else if maxConcurrent \<noteq> 1 \<and> mode \<noteq> ConcurrencyParallel then Some NeedsParallel
      else if maxRuns < 1 \<or> 60 < maxRuns then Some BadRunsPerHour
      else None)"

definition repo_char :: "char \<Rightarrow> bool" where
  "repo_char c = (is_upper c \<or> is_lower c \<or> is_digit c \<or> c \<in> set ''_.-'')"

definition repo_rx :: rx where
  "repo_rx = seqs [Bot, plus_rx (Cls repo_char), ch CHR ''/'', plus_rx (Cls repo_char), Eot]"

definition filter_char :: "char \<Rightarrow> bool" where
  "filter_char c = (is_upper c \<or> is_lower c \<or> is_digit c \<or> c = CHR ''_'' \<or> c = CHR ''-'')"

definition webhook_path_rx :: rx where
  "webhook_path_rx =
     seqs [Bot, opt (lit ''$.''), plus_rx (Cls filter_char), Star (Seq (ch CHR ''.'') (plus_rx (Cls filter_char))), Eot]"

definition credential_ref :: "string \<Rightarrow> bool" where
  "credential_ref s =
     (s \<noteq> [] \<and> length s \<le> 128 \<and> list_all (\<lambda>c. is_upper c \<or> is_lower c \<or> is_digit c \<or> c \<in> set ''_./-'') s)"

definition ConnectorKinds :: "string list" where
  "ConnectorKinds = [''pr.opened'', ''pr.labeled'', ''pr.review'', ''pr.review_comment'', ''issue.comment'', ''check.completed'']"

definition validateWebhookConfig :: "string \<Rightarrow> (string \<times> string) list \<Rightarrow> auto_error + trigger_config" where
  "validateWebhookConfig scheme fs =
     (if scheme \<noteq> ''github'' \<and> scheme \<noteq> ''generic'' then Inl (BadTriggerConfig ''scheme'')
      else if maxWebhookFilters < length fs then Inl (BadTriggerConfig ''filters'')
      else if \<not> list_all (\<lambda>(p, _). MatchString webhook_path_rx p) fs then Inl (BadTriggerConfig ''path'')
      else Inr (WebhookConfig scheme (map (\<lambda>(p, e). (''$.'' @ trim_prefix p ''$.'', e)) fs)))"

fun dedup_onto :: "string list \<Rightarrow> string list \<Rightarrow> string list" where
  "dedup_onto out [] = out"
| "dedup_onto out (x # xs) = dedup_onto (if x \<in> set out then out else out @ [x]) xs"

definition validateConnectorEventConfig :: "ConnectorEventConfig \<Rightarrow> auto_error + trigger_config" where
  "validateConnectorEventConfig c =
     (if \<not> isUUID (ceConnectorID c) then Inl (BadTriggerConfig ''connector_id'')
      else if \<not> MatchString repo_rx (ceRepo c) then Inl (BadTriggerConfig ''repo'')
      else if ceEvents c = [] then Inl (BadTriggerConfig ''events'')
      else if \<not> list_all (\<lambda>e. e \<in> set ConnectorKinds) (ceEvents c) then Inl (BadTriggerConfig ''event'')
      else if maxTriggerLabels < length (ceLabels c) then Inl (BadTriggerConfig ''labels'')
      else if list_ex (\<lambda>l. trim_space l = []) (ceLabels c) then Inl (BadTriggerConfig ''label'')
      else Inr (ConnectorConfig
        \<lparr>ceConnectorID = to_lower (ceConnectorID c), ceRepo = to_lower (ceRepo c),
         ceEvents = dedup_onto [] (ceEvents c), ceLabels = map trim_space (ceLabels c)\<rparr>))"

definition validateChannelConfig :: "(string \<Rightarrow> bool) \<Rightarrow> ChannelConfig \<Rightarrow> auto_error + trigger_config" where
  "validateChannelConfig compiles c =
     (if \<not> isUUID (chChannelID c) then Inl (BadTriggerConfig ''channel_id'')
      else if chPattern c = [] \<or> maxPatternRunes < length (runes (chPattern c)) then Inl (BadTriggerConfig ''pattern'')
      else if \<not> compiles (chPattern c) then Inl (BadTriggerConfig ''pattern'')
      else let chat = trim_space (chChatID c) in
           if maxChatIDRunes < length (runes chat) \<or> has_control chat then Inl (BadTriggerConfig ''chat_id'')
           else Inr (ChannelTriggerConfig \<lparr>chChannelID = to_lower (chChannelID c), chPattern = chPattern c, chChatID = chat\<rparr>))"

fun check_allowlist :: "string list \<Rightarrow> string list \<Rightarrow> auto_error + string list" where
  "check_allowlist out [] = Inr out"
| "check_allowlist out (n # ns) =
     (let name = trim_space n in
      if name = [] then Inl AllowlistEmpty
      else if list_ex is_space name then Inl AllowlistSpace
      else check_allowlist (if name \<in> set out then out else out @ [name]) ns)"

definition trigger_config_ok :: "(string \<Rightarrow> bool) \<Rightarrow> (string \<Rightarrow> bool) \<Rightarrow> Trigger \<Rightarrow> auto_error + trigger_config" where
  "trigger_config_ok cron_ok compiles t =
     (if tgKind t = ''cron'' then
        (case tgConfig t of
           CronConfig e \<Rightarrow> if cron_ok e then Inr (CronConfig e) else Inl BadCron
         | _ \<Rightarrow> Inl (BadTriggerConfig ''cron''))
      else if tgKind t = ''manual'' then
        (case tgConfig t of EmptyConfig \<Rightarrow> Inr EmptyConfig | _ \<Rightarrow> Inl (BadTriggerConfig ''manual''))
      else if tgKind t = ''connector_event'' then
        (case tgConfig t of ConnectorConfig c \<Rightarrow> validateConnectorEventConfig c | _ \<Rightarrow> Inl (BadTriggerConfig ''connector''))
      else if tgKind t = ''webhook'' then
        (case tgConfig t of
           WebhookConfig s fs \<Rightarrow>
             (case validateWebhookConfig s fs of
                Inl e \<Rightarrow> Inl e
              | Inr c \<Rightarrow> if credential_ref (tgCredential t) then Inr c else Inl NeedsCredential)
         | _ \<Rightarrow> Inl (BadTriggerConfig ''webhook''))
      else if tgKind t = ''channel'' then
        (case tgConfig t of ChannelTriggerConfig c \<Rightarrow> validateChannelConfig compiles c | _ \<Rightarrow> Inl (BadTriggerConfig ''channel''))
      else Inl (UnknownTrigger (tgKind t)))"

definition validateTrigger :: "(string \<Rightarrow> bool) \<Rightarrow> (string \<Rightarrow> bool) \<Rightarrow> Trigger \<Rightarrow> auto_error + Trigger" where
  "validateTrigger cron_ok compiles t =
     (case trigger_config_ok cron_ok compiles t of
        Inl e \<Rightarrow> Inl e
      | Inr c \<Rightarrow>
          if tgCredential t \<noteq> [] \<and> tgKind t \<noteq> ''webhook'' then Inl CredentialNotValid
          else case tgAllowlist t of
                 None \<Rightarrow> Inr (t\<lparr>tgConfig := c\<rparr>)
               | Some names \<Rightarrow>
                   if maxAllowlist < length names then Inl AllowlistLong
                   else (case check_allowlist [] names of
                           Inl e \<Rightarrow> Inl e
                         | Inr ns \<Rightarrow> Inr (t\<lparr>tgConfig := c, tgAllowlist := Some ns\<rparr>)))"

fun validate_triggers :: "(string \<Rightarrow> bool) \<Rightarrow> (string \<Rightarrow> bool) \<Rightarrow> Trigger list \<Rightarrow> auto_error + Trigger list" where
  "validate_triggers cron_ok compiles [] = Inr []"
| "validate_triggers cron_ok compiles (t # ts) =
     (case validateTrigger cron_ok compiles t of
        Inl e \<Rightarrow> Inl e
      | Inr t' \<Rightarrow> (case validate_triggers cron_ok compiles ts of Inl e \<Rightarrow> Inl e | Inr ts' \<Rightarrow> Inr (t' # ts')))"

definition validate_automation :: "(string \<Rightarrow> bool) \<Rightarrow> (string \<Rightarrow> bool) \<Rightarrow> Automation \<Rightarrow> auto_error + Automation" where
  "validate_automation cron_ok compiles a =
     (case validateName (amName a) of
        Inl e \<Rightarrow> Inl e
      | Inr name \<Rightarrow>
          if maxDescriptionRunes < length (runes (amDescription a)) then Inl DescriptionTooLong
          else if \<not> isUUID (amAgentID a) then Inl BadAgentID
          else case validateAction (amAction a) of
                 Some e \<Rightarrow> Inl e
               | None \<Rightarrow>
                   case validateConcurrency (amConcurrency a) (amMaxConcurrent a) (amMaxRunsPerHour a) of
                     Some e \<Rightarrow> Inl e
                   | None \<Rightarrow>
                       if amTriggers a = [] then Inl NoTriggers
                       else if maxTriggers < length (amTriggers a) then Inl TooManyTriggers
                       else (case validate_triggers cron_ok compiles (amTriggers a) of
                               Inl e \<Rightarrow> Inl e
                             | Inr ts \<Rightarrow> Inr (a\<lparr>amName := name, amTriggers := ts\<rparr>)))"

end
