(* ===== verification/Automation_Runs.thy ===== *)
theory Automation_Runs
  imports Automation_Model "HOL-Library.Product_Lexorder"
begin

text \<open>
  The operator's writes to automations and notes (\<open>store.go\<close>) and the dispatcher (\<open>dispatcher.go\<close>):
  what fires a run, what becomes of it, and what its end does. Every operation runs in one
  transaction under the row lock of its automation and is one step here; a failing statement rolls
  it back and is not a step.
\<close>

section \<open>Operator writes\<close>

definition name_taken :: "Automation \<Rightarrow> AutoWorld \<Rightarrow> bool" where
  "name_taken a w = (\<exists>x \<in> set (awAutos w). amID x \<noteq> amID a \<and> to_lower (amName x) = to_lower (amName a))"

text \<open>\<open>Create\<close>: the database numbers the row and its triggers.\<close>

fun number_triggers :: "(nat \<Rightarrow> string) \<Rightarrow> int \<Rightarrow> nat \<Rightarrow> Trigger list \<Rightarrow> Trigger list" where
  "number_triggers ids now n [] = []"
| "number_triggers ids now n (t # ts) =
     t\<lparr>tgID := ids n, tgCreated := now, tgLastFired := None, tgAuthFailures := [], tgDisabledReason := []\<rparr>
       # number_triggers ids now (n + 1) ts"

definition create_automation ::
    "(string \<Rightarrow> bool) \<Rightarrow> (string \<Rightarrow> bool) \<Rightarrow> string \<Rightarrow> (nat \<Rightarrow> string) \<Rightarrow> Automation \<Rightarrow> AutoWorld \<Rightarrow> AutoWorld option" where
  "create_automation cron_ok compiles i ids a w =
     (case validate_automation cron_ok compiles a of
        Inl _ \<Rightarrow> None
      | Inr v \<Rightarrow>
          let row = v\<lparr>amID := i, amFailures := 0, amDisabledReason := [], amCreated := awNow w,
                      amTriggers := number_triggers ids (awNow w) 0 (amTriggers v)\<rparr>
          in if find_auto w i \<noteq> None \<or> name_taken row w then None
             else Some (w\<lparr>awAutos := awAutos w @ [row]\<rparr>))"

record Patch =
  paName :: "string option"
  paDescription :: "string option"
  paAgentID :: "string option"
  paAction :: "Action option"
  paConcurrency :: "string option"
  paMaxConcurrent :: "int option"
  paMaxRunsPerHour :: "int option"
  paContinuity :: "bool option"
  paNotesEnabled :: "bool option"
  paEnabled :: "bool option"
  paExpires :: "int option option"
  paTriggers :: "Trigger list option"

definition patched :: "'a option \<Rightarrow> 'a \<Rightarrow> 'a" where
  "patched p x = (case p of Some y \<Rightarrow> y | None \<Rightarrow> x)"

definition apply_patch :: "Patch \<Rightarrow> Automation \<Rightarrow> Automation" where
  "apply_patch p a =
     a\<lparr>amName := patched (paName p) (amName a), amDescription := patched (paDescription p) (amDescription a),
       amAgentID := patched (paAgentID p) (amAgentID a), amAction := patched (paAction p) (amAction a),
       amConcurrency := patched (paConcurrency p) (amConcurrency a),
       amMaxConcurrent := patched (paMaxConcurrent p) (amMaxConcurrent a),
       amMaxRunsPerHour := patched (paMaxRunsPerHour p) (amMaxRunsPerHour a),
       amContinuity := patched (paContinuity p) (amContinuity a),
       amNotesEnabled := patched (paNotesEnabled p) (amNotesEnabled a),
       amEnabled := patched (paEnabled p) (amEnabled a), amExpires := patched (paExpires p) (amExpires a),
       amTriggers := patched (paTriggers p) (amTriggers a)\<rparr>"

text \<open>A kept trigger keeps its state unless its kind changes; enabling it again forgets why it was disabled.\<close>

definition update_trigger :: "Trigger \<Rightarrow> Trigger \<Rightarrow> Trigger" where
  "update_trigger want t =
     (if tgID want \<noteq> tgID t then t
      else let changed = tgKind t \<noteq> tgKind want; again = tgEnabled want \<and> \<not> tgEnabled t
           in t\<lparr>tgKind := tgKind want, tgConfig := tgConfig want, tgCredential := tgCredential want,
                tgAllowlist := tgAllowlist want, tgEnabled := tgEnabled want,
                tgLastFired := (if changed then None else tgLastFired t),
                tgAuthFailures := (if changed \<or> again then [] else tgAuthFailures t),
                tgDisabledReason := (if changed \<or> again then [] else tgDisabledReason t)\<rparr>)"

definition replaceTriggers :: "(nat \<Rightarrow> string) \<Rightarrow> int \<Rightarrow> Trigger list \<Rightarrow> Trigger list \<Rightarrow> Trigger list" where
  "replaceTriggers ids now existing want =
     map (fold update_trigger want) (filter (\<lambda>t. tgID t \<in> tgID ` set want) existing)
       @ number_triggers ids now 0 (filter (\<lambda>t. tgID t \<notin> tgID ` set existing) want)"

definition patch_automation ::
    "(string \<Rightarrow> bool) \<Rightarrow> (string \<Rightarrow> bool) \<Rightarrow> string \<Rightarrow> (nat \<Rightarrow> string) \<Rightarrow> Patch \<Rightarrow> AutoWorld \<Rightarrow> AutoWorld option" where
  "patch_automation cron_ok compiles i ids p w =
     (case find_auto w i of
        None \<Rightarrow> None
      | Some before \<Rightarrow>
          case validate_automation cron_ok compiles (apply_patch p before) of
            Inl _ \<Rightarrow> None
          | Inr v \<Rightarrow>
              let ts = (if paTriggers p = None then amTriggers before
                        else replaceTriggers ids (awNow w) (amTriggers before) (amTriggers v));
                  gone = tgID ` set (amTriggers before) - tgID ` set ts
              in if name_taken v w then None
                 else Some (set_runs (\<lambda>r. arAutomation r = i \<and> (\<exists>t \<in> gone. arTrigger r = Some t)) (\<lambda>r. r\<lparr>arTrigger := None\<rparr>)
                        (set_auto i (\<lambda>_. v\<lparr>amTriggers := ts\<rparr>) w)))"

text \<open>\<open>Delete\<close>: triggers, runs and notes cascade, missions lose their link.\<close>

definition delete_automation :: "string \<Rightarrow> AutoWorld \<Rightarrow> AutoWorld" where
  "delete_automation i w =
     w\<lparr>awAutos := filter (\<lambda>a. amID a \<noteq> i) (awAutos w),
       awRuns := filter (\<lambda>r. arAutomation r \<noteq> i) (awRuns w),
       awNotes := filter (\<lambda>n. noAutomation n \<noteq> i) (awNotes w),
       awMissions := map (\<lambda>(m, l). (m, if \<exists>r \<in> set (awRuns w). arAutomation r = i \<and> l = Some (arID r) then None else l))
                       (awMissions w)\<rparr>"

definition notes_of :: "AutoWorld \<Rightarrow> string \<Rightarrow> AutoNote list" where
  "notes_of w i = sort_key noName (filter (\<lambda>n. noAutomation n = i) (awNotes w))"

definition PutNote :: "string \<Rightarrow> string \<Rightarrow> string \<Rightarrow> AutoWorld \<Rightarrow> auto_error + AutoWorld" where
  "PutNote i name content w =
     (if \<not> note_name name then Inl NoteNameBad
      else if MaxNoteBytes < length content then Inl NoteTooBig
      else if find_auto w i = None then Inl AutoNotFound
      else let known = (\<exists>n \<in> set (notes_of w i). noName n = name) in
           if \<not> known \<and> MaxNotes \<le> length (notes_of w i) then Inl NoteLimit
           else if known
           then Inr (w\<lparr>awNotes := map (\<lambda>n. if noAutomation n = i \<and> noName n = name then n\<lparr>noContent := content\<rparr> else n)
                                    (awNotes w)\<rparr>)
           else Inr (w\<lparr>awNotes := awNotes w @ [\<lparr>noAutomation = i, noName = name, noContent = content\<rparr>]\<rparr>))"

definition DeleteNote :: "string \<Rightarrow> string \<Rightarrow> AutoWorld \<Rightarrow> AutoWorld" where
  "DeleteNote i name w = w\<lparr>awNotes := filter (\<lambda>n. \<not> (noAutomation n = i \<and> noName n = name)) (awNotes w)\<rparr>"

text \<open>Failed signatures: \<open>recordAuthFailure\<close> keeps the newest of the window and trips at the limit.\<close>

definition HookAuthFailureLimit :: nat where "HookAuthFailureLimit = 20"
definition HookAuthFailureWindow :: int where "HookAuthFailureWindow = 600"

definition recordAuthFailure :: "int list \<Rightarrow> int \<Rightarrow> int list \<times> bool" where
  "recordAuthFailure failures now =
     (let recent = filter (\<lambda>f. now - f < HookAuthFailureWindow) (failures @ [now]);
          kept = drop (length recent - HookAuthFailureLimit) recent
      in (kept, HookAuthFailureLimit \<le> length kept))"

definition RecordHookAuthFailure :: "int \<Rightarrow> Trigger \<Rightarrow> Trigger \<times> bool" where
  "RecordHookAuthFailure now t =
     (let (kept, trip) = recordAuthFailure (tgAuthFailures t) now; disabled = trip \<and> tgEnabled t
      in (t\<lparr>tgAuthFailures := kept, tgEnabled := tgEnabled t \<and> \<not> disabled,
            tgDisabledReason := (if disabled then ''auth_failures'' else tgDisabledReason t)\<rparr>, disabled))"

section \<open>What fires\<close>

definition SkipDisabled :: string where "SkipDisabled = ''disabled''"
definition SkipRateLimited :: string where "SkipRateLimited = ''rate_limited''"
definition SkipActiveRun :: string where "SkipActiveRun = ''active_run''"
definition SkipSuperseded :: string where "SkipSuperseded = ''superseded''"
definition breakerFailures :: int where "breakerFailures = 3"
definition rateWindow :: int where "rateWindow = 3600"

record decisionInput =
  diEnabled :: bool
  diExpired :: bool
  diRunsLastHour :: int
  diMaxRunsPerHour :: int
  diActive :: int
  diConcurrency :: string
  diMaxConcurrent :: int

text \<open>\<open>decide\<close>: the status of the new run, why it is skipped, and whether it supersedes the queue.\<close>

definition decide :: "decisionInput \<Rightarrow> run_status \<times> string \<times> bool" where
  "decide i =
     (if \<not> diEnabled i \<or> diExpired i then (RunSkipped, SkipDisabled, False)
      else if diMaxRunsPerHour i \<le> diRunsLastHour i then (RunSkipped, SkipRateLimited, False)
      else if diConcurrency i = ConcurrencyQueue then
        (if 0 < diActive i then (RunQueued, [], True) else (RunStarting, [], False))
      else if diConcurrency i = ConcurrencyParallel then
        (if diMaxConcurrent i \<le> diActive i then (RunQueued, [], True) else (RunStarting, [], False))
      else if 0 < diActive i then (RunSkipped, SkipActiveRun, False)
      else (RunStarting, [], False))"

definition active :: "AutoRun \<Rightarrow> bool" where
  "active r = (arStatus r = RunStarting \<or> arStatus r = RunRunning)"

definition runs_of :: "AutoWorld \<Rightarrow> string \<Rightarrow> AutoRun list" where
  "runs_of w a = filter (\<lambda>r. arAutomation r = a) (awRuns w)"

definition active_runs :: "AutoWorld \<Rightarrow> string \<Rightarrow> int" where
  "active_runs w a = int (length (filter active (runs_of w a)))"

text \<open>The runs since a time that were not skipped.\<close>

definition runs_since :: "AutoWorld \<Rightarrow> string \<Rightarrow> int \<Rightarrow> int" where
  "runs_since w a t = int (length (filter (\<lambda>r. t < arCreated r \<and> arStatus r \<noteq> RunSkipped) (runs_of w a)))"

definition selfTriggered :: "AutoWorld \<Rightarrow> string \<Rightarrow> string \<Rightarrow> bool" where
  "selfTriggered w a origin =
     (isUUID origin \<and> (\<exists>(m, l) \<in> set (awMissions w). m = origin
        \<and> (\<exists>r \<in> set (awRuns w). l = Some (arID r) \<and> arAutomation r = a)))"

definition supersede :: "int \<Rightarrow> AutoRun \<Rightarrow> AutoRun" where
  "supersede now r = r\<lparr>arStatus := RunSkipped, arSkipReason := SkipSuperseded, arFinished := Some now\<rparr>"

definition new_run :: "AutoWorld \<Rightarrow> string \<Rightarrow> string option \<Rightarrow> string \<Rightarrow> jobject \<Rightarrow> run_status \<Rightarrow> string \<Rightarrow> AutoRun" where
  "new_run w a trigger dedup obj stat reason =
     \<lparr>arID = awIDs w (awCount w), arAutomation = a, arTrigger = trigger, arDedup = dedup, arStatus = stat,
      arSkipReason = reason, arEvent = obj, arStartError = [], arStartAttempts = 0, arStartAttemptAt = None,
      arMission = None, arCreated = awNow w, arStarted = (if stat = RunStarting then Some (awNow w) else None),
      arFinished = None\<rparr>"

text \<open>\<open>insertRun\<close>: nothing happens when the automation has a run with the key.\<close>

definition dedup_taken :: "AutoWorld \<Rightarrow> string \<Rightarrow> string \<Rightarrow> bool" where
  "dedup_taken w a k = (\<exists>r \<in> set (awRuns w). arAutomation r = a \<and> arDedup r = k)"

definition record_run :: "Automation \<Rightarrow> bool \<Rightarrow> string option \<Rightarrow> string \<Rightarrow> jobject \<Rightarrow> AutoWorld \<Rightarrow> AutoWorld" where
  "record_run a enabled trigger dedup obj w =
     (let i = amID a;
          (stat, reason, sup) = decide
            \<lparr>diEnabled = enabled, diExpired = (case amExpires a of Some t \<Rightarrow> t \<le> awNow w | None \<Rightarrow> False),
             diRunsLastHour = runs_since w i (awNow w - rateWindow), diMaxRunsPerHour = amMaxRunsPerHour a,
             diActive = active_runs w i, diConcurrency = amConcurrency a, diMaxConcurrent = amMaxConcurrent a\<rparr>
      in if dedup_taken w i dedup then w
         else let r = new_run w i trigger dedup obj stat reason;
                  w1 = w\<lparr>awRuns := awRuns w @ [r], awCount := awCount w + 1\<rparr>
              in if sup then set_runs (\<lambda>x. arAutomation x = i \<and> arStatus x = RunQueued \<and> arID x \<noteq> arID r)
                               (supersede (awNow w)) w1
                 else w1)"

definition fire :: "string \<Rightarrow> string \<Rightarrow> string option \<Rightarrow> string \<Rightarrow> jobject \<Rightarrow> AutoWorld \<Rightarrow> AutoWorld" where
  "fire origin i trigger dedup obj w =
     (if \<not> isUUID i \<or> (case trigger of Some t \<Rightarrow> \<not> isUUID t | None \<Rightarrow> False) then w
      else case find_auto w i of
             None \<Rightarrow> w
           | Some a \<Rightarrow>
               if selfTriggered w i origin then w
               else case trigger of
                      None \<Rightarrow> record_run a (amEnabled a) trigger dedup obj w
                    | Some tid \<Rightarrow>
                        case find (\<lambda>t. tgID t = tid) (amTriggers a) of
                          None \<Rightarrow> w
                        | Some t \<Rightarrow> record_run a (amEnabled a \<and> tgEnabled t) trigger dedup obj w)"

section \<open>What a run's end does\<close>

text \<open>The newest queued run, by creation and id.\<close>

definition newest_queued :: "AutoWorld \<Rightarrow> string \<Rightarrow> AutoRun option" where
  "newest_queued w i =
     (case sort_key (\<lambda>r. (arCreated r, arID r)) (filter (\<lambda>r. arStatus r = RunQueued) (runs_of w i)) of
        [] \<Rightarrow> None
      | r # rs \<Rightarrow> Some (last (r # rs)))"

definition slot_limit :: "Automation \<Rightarrow> int" where
  "slot_limit a = (if amConcurrency a = ConcurrencyParallel then amMaxConcurrent a else 1)"

definition promoteQueued :: "Automation \<Rightarrow> AutoWorld \<Rightarrow> AutoWorld" where
  "promoteQueued a w =
     (let i = amID a in
      if slot_limit a \<le> active_runs w i then w
      else case newest_queued w i of
             None \<Rightarrow> w
           | Some q \<Rightarrow>
               set_runs (\<lambda>r. arAutomation r = i \<and> arStatus r = RunQueued \<and> arID r \<noteq> arID q) (supersede (awNow w))
                 (set_runs (\<lambda>r. arID r = arID q) (\<lambda>r. r\<lparr>arStatus := RunStarting, arStarted := Some (awNow w)\<rparr>) w))"

definition releaseSlot :: "string \<Rightarrow> AutoWorld \<Rightarrow> AutoWorld" where
  "releaseSlot i w =
     (case find_auto w i of None \<Rightarrow> w | Some a \<Rightarrow> if \<not> amEnabled a then w else promoteQueued a w)"

text \<open>\<open>finalizeRun\<close>: the end of a run, the circuit breaker and the next run; the result says whether it tripped.\<close>

definition finalizeRun :: "string \<Rightarrow> string \<Rightarrow> bool \<Rightarrow> string \<Rightarrow> AutoWorld \<Rightarrow> AutoWorld \<times> bool" where
  "finalizeRun rid i failed reason w =
     (let w1 = set_runs (\<lambda>r. arID r = rid)
                 (\<lambda>r. r\<lparr>arStatus := if failed then RunFailed else RunDone,
                        arSkipReason := if reason = [] then arSkipReason r else reason, arFinished := Some (awNow w)\<rparr>) w
      in case find_auto w1 i of
           None \<Rightarrow> (w1, False)
         | Some a \<Rightarrow>
             let n = (if failed then amFailures a + 1 else 0);
                 disabled = amEnabled a \<and> breakerFailures \<le> n;
                 w2 = set_auto i (\<lambda>a. a\<lparr>amFailures := n, amEnabled := amEnabled a \<and> \<not> disabled,
                        amDisabledReason := if disabled then ''3 consecutive failed runs'' else amDisabledReason a\<rparr>) w1
             in if disabled
                then (set_runs (\<lambda>r. arAutomation r = i \<and> arStatus r = RunQueued)
                        (\<lambda>r. r\<lparr>arStatus := RunSkipped, arSkipReason := SkipDisabled, arFinished := Some (awNow w)\<rparr>) w2, True)
                else if \<not> amEnabled a then (w2, False)
                else (promoteQueued a w2, False))"

definition run_of_mission :: "AutoWorld \<Rightarrow> string \<Rightarrow> AutoRun option" where
  "run_of_mission w m =
     (case map_of (awMissions w) m of Some (Some rid) \<Rightarrow> find (\<lambda>r. arID r = rid) (awRuns w) | _ \<Rightarrow> None)"

definition finalizeMission :: "string \<Rightarrow> bool \<Rightarrow> AutoWorld \<Rightarrow> AutoWorld \<times> bool" where
  "finalizeMission m failed w =
     (if \<not> isUUID m then (w, False)
      else case run_of_mission w m of
             None \<Rightarrow> (w, False)
           | Some r \<Rightarrow>
               if arStatus r = RunDone \<or> arStatus r = RunFailed then (w, False)
               else finalizeRun (arID r) (arAutomation r) failed [] w)"

section \<open>Events\<close>

record connector_payload =
  cpConnectorID :: string
  cpRepo :: string
  cpKind :: string
  cpLabels :: "string list"
  cpSelf :: bool
  cpEventID :: string

record channel_payload =
  chpChannelID :: string
  chpConversationID :: string
  chpChatID :: string
  chpThreadID :: string
  chpUserID :: string
  chpSender :: string
  chpText :: string
  chpTriggerID :: string

text \<open>The decoded payload; \<open>BadPayload\<close> is one its decoder refuses.\<close>

datatype auto_payload =
    CronDue string string string
  | RunNow string string
  | WebhookReceived string string string string "(string \<times> string) list" jvalue
  | ChannelMessage channel_payload
  | ConnectorEvent connector_payload jobject
  | MissionEnded string bool
  | BadPayload
  | OtherPayload

record auto_event =
  aeKind :: string
  aeSource :: string
  aeDedup :: string
  aeOrigin :: string
  aePayload :: auto_payload

definition head_fields :: "auto_event \<Rightarrow> jobject" where
  "head_fields ev = [(''kind'', JString (aeKind ev)), (''source'', JString (aeSource ev))]"

definition equal_fold :: "string \<Rightarrow> string \<Rightarrow> bool" where
  "equal_fold a b = (to_lower a = to_lower b)"

definition matchConnectorEvent :: "ConnectorEventConfig \<Rightarrow> connector_payload \<Rightarrow> bool" where
  "matchConnectorEvent c p =
     (equal_fold (ceConnectorID c) (cpConnectorID p) \<and> equal_fold (ceRepo c) (cpRepo p)
      \<and> cpKind p \<in> set (ceEvents c)
      \<and> (ceLabels c = [] \<or> (\<exists>x \<in> set (ceLabels c). \<exists>y \<in> set (cpLabels p). equal_fold x y)))"

text \<open>The enabled triggers of enabled automations that have not expired, oldest first.\<close>

definition live_triggers :: "AutoWorld \<Rightarrow> (Automation \<times> Trigger) list" where
  "live_triggers w =
     sort_key (\<lambda>(a, t). (tgCreated t, tgID t))
       (concat (map (\<lambda>a. if amEnabled a \<and> (case amExpires a of Some x \<Rightarrow> awNow w < x | None \<Rightarrow> True)
                         then map (Pair a) (filter tgEnabled (amTriggers a)) else []) (awAutos w)))"

definition handleConnectorEvent :: "string \<Rightarrow> connector_payload \<Rightarrow> jobject \<Rightarrow> string \<Rightarrow> AutoWorld \<Rightarrow> AutoWorld" where
  "handleConnectorEvent origin p body source w =
     (if cpSelf p then w
      else let matched = filter (\<lambda>(a, t). case tgConfig t of ConnectorConfig c \<Rightarrow> tgKind t = ''connector_event''
                                            \<and> matchConnectorEvent c p | _ \<Rightarrow> False) (live_triggers w)
           in fold (\<lambda>(a, t). fire origin (amID a) (Some (tgID t)) (tgID t @ ''|'' @ cpEventID p)
                                (body @ [(''source'', JString source)])) matched w)"

text \<open>\<open>MatchChannel\<close>; \<open>rx\<close> matches a pattern, None when it does not compile.\<close>

definition MatchChannel :: "(string \<Rightarrow> string \<Rightarrow> bool option) \<Rightarrow> ChannelConfig \<Rightarrow> string \<Rightarrow> string \<Rightarrow> bool" where
  "MatchChannel rx c chat txt =
     ((chChatID c = [] \<or> chChatID c = chat) \<and> rx (chPattern c) txt = Some True)"

definition channelRunEvent :: "auto_event \<Rightarrow> channel_payload \<Rightarrow> jobject" where
  "channelRunEvent ev p =
     head_fields ev @
     [(''channel_id'', JString (chpChannelID p)), (''conversation_id'', JString (chpConversationID p)),
      (''chat_id'', JString (chpChatID p)), (''thread_id'', JString (chpThreadID p)),
      (''user_id'', JString (chpUserID p)), (''sender'', JString (chpSender p)), (''text'', JString (chpText p))]"

definition handleChannelMessage :: "(string \<Rightarrow> string \<Rightarrow> bool option) \<Rightarrow> auto_event \<Rightarrow> channel_payload \<Rightarrow> AutoWorld \<Rightarrow> AutoWorld" where
  "handleChannelMessage rx ev p w =
     (case find (\<lambda>(a, t). tgKind t = ''channel'' \<and> tgID t = chpTriggerID p
                   \<and> (case tgConfig t of ChannelTriggerConfig c \<Rightarrow> equal_fold (chChannelID c) (chpChannelID p) | _ \<Rightarrow> False))
             (live_triggers w) of
        None \<Rightarrow> w
      | Some (a, t) \<Rightarrow>
          (case tgConfig t of
             ChannelTriggerConfig c \<Rightarrow>
               if MatchChannel rx c (chpChatID p) (chpText p)
               then fire (aeOrigin ev) (amID a) (Some (tgID t)) (tgID t @ ''|'' @ aeDedup ev) (channelRunEvent ev p) w
               else w
           | _ \<Rightarrow> w))"

text \<open>\<open>Handle\<close>: the world after and whether an automation was disabled; None is an error.\<close>

definition Handle_event :: "(string \<Rightarrow> string \<Rightarrow> bool option) \<Rightarrow> auto_event \<Rightarrow> AutoWorld \<Rightarrow> (AutoWorld \<times> bool) option" where
  "Handle_event rx ev w =
     (case aePayload ev of
        CronDue a t boundary \<Rightarrow>
          Some (fire (aeOrigin ev) a (Some t) boundary (head_fields ev @ [(''boundary'', JString boundary)]) w, False)
      | RunNow a requested \<Rightarrow>
          Some (fire (aeOrigin ev) a None (aeDedup ev) (head_fields ev @ [(''requested_at'', JString requested)]) w, False)
      | WebhookReceived t a scheme delivery headers body \<Rightarrow>
          Some (fire (aeOrigin ev) a (Some t) (t @ ''|'' @ delivery)
            (head_fields ev @ [(''scheme'', JString scheme), (''delivery'', JString delivery),
               (''headers'', JObject (map (\<lambda>(k, v). (k, JString v)) headers)), (''body'', body)]) w, False)
      | ChannelMessage p \<Rightarrow> Some (handleChannelMessage rx ev p w, False)
      | ConnectorEvent p body \<Rightarrow> Some (handleConnectorEvent (aeOrigin ev) p body (aeSource ev) w, False)
      | MissionEnded m failed \<Rightarrow> Some (finalizeMission m failed w)
      | BadPayload \<Rightarrow> None
      | OtherPayload \<Rightarrow> Some (w, False))"

end
