(* ===== verification/Automation_Starter.thy ===== *)
theory Automation_Starter
  imports Automation_Runs
begin

text \<open>
  The starter (\<open>internal/brain/automations/starter.go\<close>): it creates the mission of a run the
  dispatcher committed as starting, or records why there is none. The mission's row is committed by
  \<open>Driver.Create\<close> on its own, before the transaction of the run; the model keeps the two apart.
\<close>

section \<open>The request\<close>

definition startBatch :: nat where "startBatch = 10"
definition startRetryEvery :: int where "startRetryEvery = 30"
definition maxStartAttempts :: int where "maxStartAttempts = 60"
definition KindRunNow :: string where "KindRunNow = ''run.now''"
definition KindChannelMessage :: string where "KindChannelMessage = ''channel.message''"
definition noToolsAllowlist :: string where "noToolsAllowlist = ''mission_status''"

datatype lineage = Lineage SourceEntry | LineageGone | LineageFailed

datatype start_error =
    TriggerGone | AutomationGone | NoMissionAction | BadTemplate auto_error | AgentMissing | LineageError
  | CreateError create_error | InsertError | ProvisionError

record StarterEnv =
  svResolve :: ResolveDeps
  svRegistries :: Registries
  svValidate :: "ValidateDeps option"
  svAgentExists :: "string \<Rightarrow> bool"
  svLineage :: "(string \<Rightarrow> lineage) option"
  svDestinationEnabled :: "(string \<Rightarrow> bool option) option"

text \<open>\<open>triggerAllowlist\<close>: the allowlist of the trigger that fired, unless it is gone.\<close>

definition triggerAllowlist :: "Trigger list \<Rightarrow> string option \<Rightarrow> jvalue option \<Rightarrow> start_error + string list" where
  "triggerAllowlist ts tid kind =
     (case tid of
        Some i \<Rightarrow>
          (case find (\<lambda>t. tgID t = i) ts of
             Some t \<Rightarrow> Inr (case tgAllowlist t of Some ns \<Rightarrow> ns | None \<Rightarrow> [])
           | None \<Rightarrow> Inl TriggerGone)
      | None \<Rightarrow>
          if kind = Some (JString KindRunNow) then
            (case find (\<lambda>t. tgKind t = ''manual'') ts of
               Some t \<Rightarrow> Inr (case tgAllowlist t of Some ns \<Rightarrow> ns | None \<Rightarrow> [])
             | None \<Rightarrow> Inr [])
          else if kind = None \<or> kind = Some JNull then Inr []
          else Inl TriggerGone)"

definition intersectToolAllowlist :: "string list \<Rightarrow> string list \<Rightarrow> string list" where
  "intersectToolAllowlist trigger agentTools =
     filter (\<lambda>e. e = ''read_note'' \<or> e = ''write_note'' \<or> (\<exists>t \<in> set agentTools. ToolMatches t e)) trigger"

definition eventConversationID :: "jobject \<Rightarrow> string" where
  "eventConversationID obj =
     (if obj_get obj ''kind'' \<noteq> Some (JString KindChannelMessage) then []
      else case obj_get obj ''conversation_id'' of Some (JString s) \<Rightarrow> s | _ \<Rightarrow> [])"

definition filterDestinationIDs :: "StarterEnv \<Rightarrow> string list \<Rightarrow> string list" where
  "filterDestinationIDs env ids =
     (case svDestinationEnabled env of None \<Rightarrow> [] | Some f \<Rightarrow> filter (\<lambda>i. f i = Some True) ids)"

definition plain_source :: "string \<Rightarrow> string \<Rightarrow> SourceEntry" where
  "plain_source kind digest =
     \<lparr>seSource = kind, seConnectorID = [], seRepoURL = [], seID = [], seMissionID = [], seDigest = digest\<rparr>"

definition TemplateCreateRequest :: "MissionTemplate \<Rightarrow> string \<Rightarrow> string \<Rightarrow> string list \<Rightarrow> string \<Rightarrow> CreateRequest" where
  "TemplateCreateRequest t name agent dests rid =
     empty_request\<lparr>crGoal := mtGoal t, crName := (if mtName t \<noteq> [] then mtName t else name), crKind := mtKind t,
       crAgentID := agent, crRoute := mtRoute t, crReviewRoute := mtReviewRoute t, crPlanRoute := mtPlanRoute t,
       crMaxIterations := mtMaxIterations t, crBudgetAmount := mtBudgetAmount t, crBudgetCurrency := mtBudgetCurrency t,
       crAutoApproveTools := Some (mtAutoApproveTools t), crAutoApprovePlan := Some True,
       crHarness := mtHarness t, crReviewHarness := mtReviewHarness t, crLight := mtLight t,
       crSources := mtAttachments t,
       crDestinations := map (\<lambda>i. \<lparr>deDestination = [], deDestinationID = i, deCollectionID = [], deRepoURL = []\<rparr>) dests,
       crAutomationRunID := rid, crOriginKind := ''automation''\<rparr>"

text \<open>\<open>previousLineage\<close>: the parent mission of the newest finished run, if it can be read.\<close>

definition previousLineage :: "StarterEnv \<Rightarrow> AutoWorld \<Rightarrow> string \<Rightarrow> string \<Rightarrow> start_error + (string \<times> SourceEntry) option" where
  "previousLineage env w i rid =
     (case svLineage env of
        None \<Rightarrow> Inr None
      | Some read \<Rightarrow>
          case sort_key (\<lambda>r. (arCreated r, arID r))
                 (filter (\<lambda>r. arID r \<noteq> rid \<and> (arStatus r = RunDone \<or> arStatus r = RunFailed) \<and> arMission r \<noteq> None) (runs_of w i)) of
            [] \<Rightarrow> Inr None
          | r # rs \<Rightarrow>
              let m = the (arMission (last (r # rs)))
              in case read m of
                   Lineage e \<Rightarrow> Inr (Some (m, e))
                 | LineageGone \<Rightarrow> Inr None
                 | LineageFailed \<Rightarrow> Inl LineageError)"

definition note_pairs :: "AutoWorld \<Rightarrow> string \<Rightarrow> (string \<times> string) list" where
  "note_pairs w i = map (\<lambda>n. (noName n, noContent n)) (notes_of w i)"

definition opt_source :: "string \<Rightarrow> string option \<Rightarrow> SourceEntry list" where
  "opt_source kind d = (case d of Some x \<Rightarrow> [plain_source kind x] | None \<Rightarrow> [])"

definition run_allowlist :: "StarterEnv \<Rightarrow> Automation \<Rightarrow> string list \<Rightarrow> string list option" where
  "run_allowlist env a allow =
     (if allow = [] then None
      else let granted = intersectToolAllowlist allow
                 (case rdAgent (svResolve env) of
                    Some f \<Rightarrow> (case f (amAgentID a) of Some d \<Rightarrow> adTools d | None \<Rightarrow> [])
                  | None \<Rightarrow> [])
           in Some (if granted = [] then [noToolsAllowlist] else granted))"

definition createRequest ::
    "StarterEnv \<Rightarrow> AutoWorld \<Rightarrow> Automation \<Rightarrow> MissionTemplate \<Rightarrow> string \<Rightarrow> jobject \<Rightarrow> string list \<Rightarrow> start_error + CreateRequest" where
  "createRequest env w a t rid obj allow =
     (let notes = (if amNotesEnabled a then note_pairs w (amID a) else []);
          t' = t\<lparr>mtGoal := Interpolate (mtGoal t) obj notes, mtName := Interpolate (mtName t) obj notes\<rparr>;
          req = TemplateCreateRequest t' (amName a) (amAgentID a) (filterDestinationIDs env (mtDestinationIDs t)) rid
      in case (if amContinuity a then previousLineage env w (amID a) rid else Inr None) of
           Inl e \<Rightarrow> Inl e
         | Inr parent \<Rightarrow>
             Inr (req\<lparr>crChannelConversationID := eventConversationID obj,
                      crParentMissionID := (case parent of Some (m, _) \<Rightarrow> m | None \<Rightarrow> []),
                      crToolAllowlist := run_allowlist env a allow,
                      crSources := (case parent of Some (_, e) \<Rightarrow> [e] | None \<Rightarrow> [])
                        @ opt_source ''trigger'' (triggerSource obj) @ opt_source ''notes'' (notesSource notes)
                        @ crSources req\<rparr>))"

text \<open>\<open>createMission\<close> up to the insert: the mission the run will get, or why it gets none.\<close>

definition run_mission :: "StarterEnv \<Rightarrow> AutoWorld \<Rightarrow> AutoRun \<Rightarrow> start_error + NewMission" where
  "run_mission env w r =
     (case find_auto w (arAutomation r) of
        None \<Rightarrow> Inl AutomationGone
      | Some a \<Rightarrow>
          case triggerAllowlist (amTriggers a) (arTrigger r) (obj_get (arEvent r) ''kind'') of
            Inl e \<Rightarrow> Inl e
          | Inr allow \<Rightarrow>
              case (if acKind (amAction a) = ''mission'' then acMission (amAction a) else None) of
                None \<Rightarrow> Inl NoMissionAction
              | Some t \<Rightarrow>
                  case ValidateTemplate t of
                    Some e \<Rightarrow> Inl (BadTemplate e)
                  | None \<Rightarrow>
                      if \<not> svAgentExists env (amAgentID a) then Inl AgentMissing
                      else case createRequest env w a t (arID r) (arEvent r) allow of
                             Inl e \<Rightarrow> Inl e
                           | Inr req \<Rightarrow>
                               case ResolveDefaults (svResolve env) req of
                                 Inl e \<Rightarrow> Inl (CreateError e)
                               | Inr m \<Rightarrow>
                                   case CheckToolAllowlistHarness m of
                                     Some e \<Rightarrow> Inl (CreateError e)
                                   | None \<Rightarrow>
                                       case svValidate env of
                                         None \<Rightarrow> Inr m
                                       | Some vd \<Rightarrow>
                                           (case ValidateCreate (svRegistries env) vd m of
                                              Some e \<Rightarrow> Inl (CreateError e) | None \<Rightarrow> Inr m))"

section \<open>The outcome\<close>

definition mark_running :: "string \<Rightarrow> string \<Rightarrow> AutoWorld \<Rightarrow> AutoWorld" where
  "mark_running rid m = set_runs (\<lambda>r. arID r = rid) (\<lambda>r. r\<lparr>arStatus := RunRunning, arMission := Some m\<rparr>)"

definition skipRun :: "string \<Rightarrow> string \<Rightarrow> string \<Rightarrow> string \<Rightarrow> AutoWorld \<Rightarrow> AutoWorld" where
  "skipRun rid i reason err w =
     releaseSlot i (set_runs (\<lambda>r. arID r = rid)
       (\<lambda>r. r\<lparr>arStatus := RunSkipped, arSkipReason := reason, arStartError := err, arFinished := Some (awNow w)\<rparr>) w)"

definition is_route_error :: "start_error \<Rightarrow> bool" where
  "is_route_error e = (case e of CreateError (RouteUnusableError _ _) \<Rightarrow> True | _ \<Rightarrow> False)"

definition fail_reason :: "start_error \<Rightarrow> string" where
  "fail_reason e =
     (case e of
        CreateError (RouteUnusableError _ _) \<Rightarrow> ''route_unusable''
      | CreateError (ToolAllowlistHarness _) \<Rightarrow> ''harness_ignores_allowlist''
      | _ \<Rightarrow> ''create_failed'')"

text \<open>A gone trigger skips, an unusable route waits for a while, everything else fails the run.\<close>

definition start_failed :: "(start_error \<Rightarrow> string) \<Rightarrow> AutoRun \<Rightarrow> start_error \<Rightarrow> AutoWorld \<Rightarrow> AutoWorld \<times> bool" where
  "start_failed msg r e w =
     (let attempts = arStartAttempts r + 1; rid = arID r in
      if e = TriggerGone then (skipRun rid (arAutomation r) ''trigger_gone'' (msg e) w, False)
      else if is_route_error e \<and> attempts < maxStartAttempts then
        (set_runs (\<lambda>r. arID r = rid)
           (\<lambda>r. r\<lparr>arStartError := msg e, arStartAttempts := attempts, arStartAttemptAt := Some (awNow w)\<rparr>) w, False)
      else finalizeRun rid (arAutomation r) True (fail_reason e)
             (set_runs (\<lambda>r. arID r = rid) (\<lambda>r. r\<lparr>arStartError := msg e, arStartAttempts := attempts\<rparr>) w))"

definition linked_mission :: "AutoWorld \<Rightarrow> string \<Rightarrow> string option" where
  "linked_mission w rid = map_option fst (find (\<lambda>(m, l). l = Some rid) (awMissions w))"

definition start_run ::
    "StarterEnv \<Rightarrow> (start_error \<Rightarrow> string) \<Rightarrow> insertion \<Rightarrow> string \<Rightarrow> AutoRun \<Rightarrow> AutoWorld \<Rightarrow> AutoWorld \<times> bool" where
  "start_run env msg ins m r w =
     (case linked_mission w (arID r) of
        Some linked \<Rightarrow> (mark_running (arID r) linked w, False)
      | None \<Rightarrow>
          case run_mission env w r of
            Inl e \<Rightarrow> start_failed msg r e w
          | Inr nm \<Rightarrow>
              let w1 = w\<lparr>awMissions := awMissions w @ [(m, Some (arID r))]\<rparr>
              in case ins of
                   Inserted \<Rightarrow> (mark_running (arID r) m w1, False)
                 | NotInserted \<Rightarrow> start_failed msg r InsertError w
                 | InsertedThenFailed \<Rightarrow> start_failed msg r ProvisionError w1)"

text \<open>The oldest starting run that is due and was not tried in this pass.\<close>

definition due :: "string list \<Rightarrow> AutoWorld \<Rightarrow> AutoRun \<Rightarrow> bool" where
  "due tried w r =
     (arStatus r = RunStarting \<and> arMission r = None \<and> arID r \<notin> set tried
      \<and> (case arStartAttemptAt r of None \<Rightarrow> True | Some t \<Rightarrow> t \<le> awNow w - startRetryEvery))"

definition claim_run :: "string list \<Rightarrow> AutoWorld \<Rightarrow> AutoRun option" where
  "claim_run tried w =
     (case sort_key (\<lambda>r. (arCreated r, arID r)) (filter (due tried w) (awRuns w)) of [] \<Rightarrow> None | r # _ \<Rightarrow> Some r)"

text \<open>\<open>startOne\<close>: when its transaction does not commit, the mission's row stays all the same.\<close>

definition startOne ::
    "StarterEnv \<Rightarrow> (start_error \<Rightarrow> string) \<Rightarrow> insertion \<Rightarrow> bool \<Rightarrow> string \<Rightarrow> string list \<Rightarrow> AutoWorld \<Rightarrow> AutoWorld" where
  "startOne env msg ins commits m tried w =
     (case claim_run tried w of
        None \<Rightarrow> w
      | Some r \<Rightarrow>
          let w' = fst (start_run env msg ins m r w)
          in if commits then w' else w\<lparr>awMissions := awMissions w'\<rparr>)"

text \<open>A terminal mission may be deleted at any time; its run loses the link (\<open>missions.Store.Delete\<close>).\<close>

definition forget_mission :: "string \<Rightarrow> AutoWorld \<Rightarrow> AutoWorld" where
  "forget_mission m w =
     (set_runs (\<lambda>r. arMission r = Some m) (\<lambda>r. r\<lparr>arMission := None\<rparr>) w)
       \<lparr>awMissions := filter (\<lambda>(x, _). x \<noteq> m) (awMissions w)\<rparr>"

section \<open>Reachable tables\<close>

text \<open>
  Every order of operator writes, events, starter steps, other missions, deletions and time. \<open>P\<close> restricts
  the settings an automation is stored with, \<open>ok\<close> what a patch may change.
\<close>

definition settings :: "Automation \<Rightarrow> string \<times> string \<times> int \<times> int" where
  "settings a = (amID a, amConcurrency a, amMaxConcurrent a, amMaxRunsPerHour a)"

inductive auto_step ::
    "(string \<times> string \<times> int \<times> int \<Rightarrow> bool) \<Rightarrow> (Automation \<Rightarrow> Automation \<Rightarrow> bool) \<Rightarrow> AutoWorld \<Rightarrow> AutoWorld \<Rightarrow> bool"
  for P ok where
  create: "create_automation cron_ok compiles i ids a w = Some w' \<Longrightarrow>
    \<forall>x \<in> set (awAutos w'). P (settings x) \<Longrightarrow> auto_step P ok w w'"
| patch: "patch_automation cron_ok compiles i ids p w = Some w' \<Longrightarrow>
    \<forall>x \<in> set (awAutos w'). P (settings x) \<Longrightarrow>
    \<forall>x y. find_auto w i = Some x \<longrightarrow> find_auto w' i = Some y \<longrightarrow> ok x y \<Longrightarrow> auto_step P ok w w'"
| remove: "auto_step P ok w (delete_automation i w)"
| put: "PutNote i n c w = Inr w' \<Longrightarrow> auto_step P ok w w'"
| unput: "auto_step P ok w (DeleteNote i n w)"
| auth: "auto_step P ok w
    (set_auto i (\<lambda>a. a\<lparr>amTriggers := map (\<lambda>t. if tgID t = tid then fst (RecordHookAuthFailure (awNow w) t) else t) (amTriggers a)\<rparr>) w)"
| event: "Handle_event rx ev w = Some (w', d) \<Longrightarrow> auto_step P ok w w'"
| starts: "m \<notin> fst ` set (awMissions w) \<Longrightarrow> auto_step P ok w (startOne env msg ins commits m tried w)"
| mission: "m \<notin> fst ` set (awMissions w) \<Longrightarrow> auto_step P ok w (w\<lparr>awMissions := awMissions w @ [(m, None)]\<rparr>)"
| forget: "auto_step P ok w (forget_mission m w)"
| tick: "0 \<le> n \<Longrightarrow> auto_step P ok w (w\<lparr>awNow := awNow w + n\<rparr>)"

definition empty_tables :: "(nat \<Rightarrow> string) \<Rightarrow> int \<Rightarrow> AutoWorld" where
  "empty_tables ids now =
     \<lparr>awNow = now, awAutos = [], awRuns = [], awMissions = [], awNotes = [], awIDs = ids, awCount = 0\<rparr>"

inductive auto_reach ::
    "(string \<times> string \<times> int \<times> int \<Rightarrow> bool) \<Rightarrow> (Automation \<Rightarrow> Automation \<Rightarrow> bool) \<Rightarrow> AutoWorld \<Rightarrow> bool" for P ok where
  boot: "inj ids \<Longrightarrow> auto_reach P ok (empty_tables ids now)"
| step: "auto_reach P ok w \<Longrightarrow> auto_step P ok w w' \<Longrightarrow> auto_reach P ok w'"

end
