(* ===== verification/Automation_Facts.thy ===== *)
theory Automation_Facts
  imports Automation_Starter
begin

text \<open>
  What each operation on automations does to the runs: statuses only move forward, keys never change,
  and the tables stay well-formed in every reachable state.
\<close>

section \<open>How runs evolve\<close>

definition final :: "run_status \<Rightarrow> bool" where
  "final s = (s = RunDone \<or> s = RunFailed \<or> s = RunSkipped)"

definition moves :: "bool \<Rightarrow> run_status \<Rightarrow> run_status \<Rightarrow> bool" where
  "moves linked s s' = (s' = s \<or> \<not> final s \<and> s' \<noteq> RunQueued \<and> (linked \<and> s' = RunSkipped \<longrightarrow> s = RunQueued))"

definition same_keys :: "AutoRun \<Rightarrow> AutoRun \<Rightarrow> bool" where
  "same_keys r r' = (arID r' = arID r \<and> arAutomation r' = arAutomation r \<and> arDedup r' = arDedup r \<and> arCreated r' = arCreated r)"

definition runs_evolve :: "string set \<Rightarrow> AutoWorld \<Rightarrow> AutoWorld \<Rightarrow> bool" where
  "runs_evolve S w w' = (list_all2 (\<lambda>r r'. same_keys r r' \<and> moves (arID r \<in> S) (arStatus r) (arStatus r')) (awRuns w) (awRuns w')
     \<and> awIDs w' = awIDs w \<and> awCount w' = awCount w)"

lemma moves_refl [simp]: "moves b s s"
  by (simp add: moves_def)

lemma same_keys_refl [simp]: "same_keys r r"
  by (simp add: same_keys_def)

lemma runs_evolve_refl [simp]: "runs_evolve S w w"
  by (simp add: runs_evolve_def list.rel_refl)

lemma runs_evolve_trans: "runs_evolve S w w1 \<Longrightarrow> runs_evolve S w1 w2 \<Longrightarrow> runs_evolve S w w2"
  unfolding runs_evolve_def
  by (elim conjE, intro conjI, rule list_all2_trans [rotated], assumption, assumption) (auto simp: same_keys_def moves_def)

lemma set_runs_sel [simp]:
  "awNow (set_runs p f w) = awNow w" "awAutos (set_runs p f w) = awAutos w" "awMissions (set_runs p f w) = awMissions w"
  "awIDs (set_runs p f w) = awIDs w" "awCount (set_runs p f w) = awCount w"
  "awRuns (set_runs p f w) = map (\<lambda>r. if p r then f r else r) (awRuns w)" "find_auto (set_runs p f w) i = find_auto w i"
  by (simp_all add: set_runs_def find_auto_def)

lemma set_auto_sel [simp]:
  "awNow (set_auto i f w) = awNow w" "awRuns (set_auto i f w) = awRuns w" "awMissions (set_auto i f w) = awMissions w"
  "awIDs (set_auto i f w) = awIDs w" "awCount (set_auto i f w) = awCount w"
  "awAutos (set_auto i f w) = map (\<lambda>x. if amID x = i then f x else x) (awAutos w)"
  by (simp_all add: set_auto_def)

lemma runs_evolve_set_runs:
  assumes "\<And>r. r \<in> set (awRuns w) \<Longrightarrow> p r \<Longrightarrow> same_keys r (f r) \<and> moves (arID r \<in> S) (arStatus r) (arStatus (f r))"
  shows "runs_evolve S w (set_runs p f w)"
  using assms by (auto simp: runs_evolve_def list_all2_map2 intro!: list.rel_refl_strong)

lemma runs_evolve_runs_cong: "awRuns w' = awRuns w \<Longrightarrow> awIDs w' = awIDs w \<Longrightarrow> awCount w' = awCount w \<Longrightarrow> runs_evolve S w w'"
  by (simp add: runs_evolve_def list.rel_refl)

text \<open>What is counted of an automation's runs.\<close>

definition count_runs :: "(AutoRun \<Rightarrow> bool) \<Rightarrow> AutoWorld \<Rightarrow> string \<Rightarrow> nat" where
  "count_runs q w i = length (filter (\<lambda>r. arAutomation r = i \<and> q r) (awRuns w))"

definition queued :: "AutoRun \<Rightarrow> bool" where
  "queued r = (arStatus r = RunQueued)"

definition counted :: "int \<Rightarrow> AutoRun \<Rightarrow> bool" where
  "counted t r = (t < arCreated r \<and> arCreated r \<le> t + rateWindow \<and> arStatus r \<noteq> RunSkipped)"

lemma count_runs_cong: "awRuns w' = awRuns w \<Longrightarrow> count_runs q w' i = count_runs q w i"
  by (simp add: count_runs_def)

lemma active_runs_count: "active_runs w i = int (count_runs active w i)"
  by (simp add: active_runs_def runs_of_def count_runs_def conj_commute)

lemma filter_list_all2_le:
  "list_all2 R xs ys \<Longrightarrow> (\<And>x y. R x y \<Longrightarrow> q y \<Longrightarrow> q' x) \<Longrightarrow> length (filter q ys) \<le> length (filter q' xs)"
  by (induction rule: list_all2_induct) (auto simp: le_SucI)

lemma runs_evolve_queued: "runs_evolve S w w' \<Longrightarrow> count_runs queued w' i \<le> count_runs queued w i"
  unfolding runs_evolve_def count_runs_def
  by (elim conjE, erule filter_list_all2_le) (auto simp: same_keys_def moves_def queued_def final_def)

lemma runs_evolve_counted: "runs_evolve S w w' \<Longrightarrow> count_runs (counted t) w' i \<le> count_runs (counted t) w i"
  unfolding runs_evolve_def count_runs_def
  by (elim conjE, erule filter_list_all2_le) (auto simp: same_keys_def moves_def counted_def final_def)

lemma count_set_runs_le:
  assumes "\<And>r. r \<in> set (awRuns w) \<Longrightarrow> p r \<Longrightarrow> arAutomation (f r) = arAutomation r \<and> (q (f r) \<longrightarrow> q r)"
  shows "count_runs q (set_runs p f w) i \<le> count_runs q w i"
proof -
  have "list_all2 (\<lambda>r r'. arAutomation r' = arAutomation r \<and> (q r' \<longrightarrow> q r)) (awRuns w) (awRuns (set_runs p f w))"
    using assms by (auto simp: list_all2_map2 intro!: list.rel_refl_strong)
  then show ?thesis unfolding count_runs_def by (rule filter_list_all2_le) auto
qed

text \<open>Changing one run changes a count by one at most.\<close>

lemma count_set_one:
  assumes "distinct (map arID (awRuns w))" "\<And>r. arAutomation (f r) = arAutomation r"
  shows "count_runs q (set_runs (\<lambda>r. arID r = k) f w) i \<le> count_runs q w i + 1"
proof -
  have "length (filter (\<lambda>r. arAutomation r = i \<and> q r) (map (\<lambda>r. if arID r = k then f r else r) rs))
      \<le> length (filter (\<lambda>r. arAutomation r = i \<and> q r) rs) + (if k \<in> arID ` set rs then 1 else 0)"
    if "distinct (map arID rs)" for rs
    using that
  proof (induction rs)
    case (Cons r rs)
    show ?case
    proof (cases "arID r = k")
      case True
      have "arID x \<noteq> k" if "x \<in> set rs" for x
        using Cons.prems True imageI [OF that, of arID] by auto
      then have "map (\<lambda>r. if arID r = k then f r else r) rs = rs" by (intro map_idI) auto
      with True assms(2) show ?thesis by simp
    next
      case False
      with Cons show ?thesis by auto
    qed
  qed simp
  from this [OF assms(1)] show ?thesis by (simp add: count_runs_def split: if_splits)
qed

lemma count_set_other:
  assumes "\<And>r. r \<in> set (awRuns w) \<Longrightarrow> p r \<Longrightarrow> arAutomation r \<noteq> i \<and> arAutomation (f r) = arAutomation r"
  shows "count_runs q (set_runs p f w) i = count_runs q w i"
proof -
  have "filter (\<lambda>r. arAutomation r = i \<and> q r) (map (\<lambda>r. if p r then f r else r) rs) = filter (\<lambda>r. arAutomation r = i \<and> q r) rs"
    if "set rs \<subseteq> set (awRuns w)" for rs
    using that
  proof (induction rs)
    case (Cons r rs)
    have h: "p r \<Longrightarrow> arAutomation r \<noteq> i \<and> arAutomation (f r) = arAutomation r" using Cons.prems assms [of r] by simp
    have ih: "filter (\<lambda>r. arAutomation r = i \<and> q r) (map (\<lambda>r. if p r then f r else r) rs)
        = filter (\<lambda>r. arAutomation r = i \<and> q r) rs" using Cons by simp
    show ?case
    proof (cases "p r")
      case True
      from h [OF True] have "arAutomation (f r) \<noteq> i" "arAutomation r \<noteq> i" by auto
      with True ih show ?thesis by simp
    next
      case False
      with ih show ?thesis by simp
    qed
  qed simp
  then show ?thesis by (simp add: count_runs_def)
qed

section \<open>Rows keep their keys\<close>

definition keys_ok :: "AutoWorld \<Rightarrow> bool" where
  "keys_ok w = (inj (awIDs w) \<and> (\<forall>r \<in> set (awRuns w). \<exists>n < awCount w. arID r = awIDs w n)
     \<and> distinct (map arID (awRuns w)) \<and> distinct (map (\<lambda>r. (arAutomation r, arDedup r)) (awRuns w))
     \<and> distinct (map amID (awAutos w)) \<and> (\<forall>r \<in> set (awRuns w). arAutomation r \<in> amID ` set (awAutos w)))"

text \<open>A step that only moves runs along and leaves every automation its settings.\<close>

definition calm :: "string set \<Rightarrow> AutoWorld \<Rightarrow> AutoWorld \<Rightarrow> bool" where
  "calm S w w' = (runs_evolve S w w' \<and> map settings (awAutos w') = map settings (awAutos w))"

lemma calm_refl [simp]: "calm S w w"
  by (simp add: calm_def)

lemma calm_trans: "calm S w w1 \<Longrightarrow> calm S w1 w2 \<Longrightarrow> calm S w w2"
  by (auto simp: calm_def intro: runs_evolve_trans)

lemma settings_ids: "map settings xs = map settings ys \<Longrightarrow> map amID xs = map amID ys"
proof -
  assume "map settings xs = map settings ys"
  then have "map fst (map settings xs) = map fst (map settings ys)" by simp
  then show ?thesis by (simp add: settings_def comp_def)
qed

lemma list_all2_map_eq: "list_all2 R xs ys \<Longrightarrow> (\<And>x y. R x y \<Longrightarrow> g y = g x) \<Longrightarrow> map g ys = map g xs"
  by (induction rule: list_all2_induct) auto

lemma runs_evolve_maps:
  assumes "runs_evolve S w w'"
  shows "map arID (awRuns w') = map arID (awRuns w)" "map arAutomation (awRuns w') = map arAutomation (awRuns w)"
    "map (\<lambda>r. (arAutomation r, arDedup r)) (awRuns w') = map (\<lambda>r. (arAutomation r, arDedup r)) (awRuns w)"
proof -
  from assms have a: "list_all2 (\<lambda>r r'. same_keys r r' \<and> moves (arID r \<in> S) (arStatus r) (arStatus r')) (awRuns w) (awRuns w')"
    by (simp add: runs_evolve_def)
  show "map arID (awRuns w') = map arID (awRuns w)"
    by (rule list_all2_map_eq [OF a]) (simp add: same_keys_def)
  show "map arAutomation (awRuns w') = map arAutomation (awRuns w)"
    by (rule list_all2_map_eq [OF a]) (simp add: same_keys_def)
  show "map (\<lambda>r. (arAutomation r, arDedup r)) (awRuns w') = map (\<lambda>r. (arAutomation r, arDedup r)) (awRuns w)"
    by (rule list_all2_map_eq [OF a]) (simp add: same_keys_def)
qed

lemma keys_ok_autos:
  assumes "keys_ok w" and e: "runs_evolve S w w'" and i: "map amID (awAutos w') = map amID (awAutos w)"
  shows "keys_ok w'"
proof -
  have ids: "arID ` set (awRuns w') = arID ` set (awRuns w)" "arAutomation ` set (awRuns w') = arAutomation ` set (awRuns w)"
    "amID ` set (awAutos w') = amID ` set (awAutos w)"
    using arg_cong [OF runs_evolve_maps(1) [OF e], of set] arg_cong [OF runs_evolve_maps(2) [OF e], of set] arg_cong [OF i, of set]
    by simp_all
  have c: "awIDs w' = awIDs w" "awCount w' = awCount w" using e by (simp_all add: runs_evolve_def)
  have "\<forall>x \<in> arID ` set (awRuns w'). \<exists>n < awCount w'. x = awIDs w' n"
    using assms(1) unfolding ids c keys_ok_def by blast
  moreover have "arAutomation ` set (awRuns w') \<subseteq> amID ` set (awAutos w')"
    using assms(1) unfolding ids keys_ok_def by blast
  ultimately show ?thesis
    using assms(1) runs_evolve_maps [OF e] i c unfolding keys_ok_def by auto
qed

lemma keys_ok_calm: "keys_ok w \<Longrightarrow> calm S w w' \<Longrightarrow> keys_ok w'"
  by (auto simp: calm_def intro: keys_ok_autos settings_ids)

lemma find_auto_Some: "find_auto w i = Some a \<Longrightarrow> a \<in> set (awAutos w) \<and> amID a = i"
  by (auto simp: find_auto_def find_Some_iff)

lemma find_auto_None: "find_auto w i = None \<longleftrightarrow> i \<notin> amID ` set (awAutos w)"
  by (auto simp: find_auto_def find_None_iff)

lemma calm_set_auto:
  assumes "\<And>a. settings (f a) = settings a"
  shows "calm S w (set_auto i f w)"
  using assms by (auto simp: calm_def intro: runs_evolve_runs_cong)

lemma run_unique: "keys_ok w \<Longrightarrow> r \<in> set (awRuns w) \<Longrightarrow> x \<in> set (awRuns w) \<Longrightarrow> arID x = arID r \<Longrightarrow> x = r"
  by (auto simp: keys_ok_def distinct_map inj_on_def)

lemma calm_set_run:
  assumes "keys_ok w" "r \<in> set (awRuns w)" "\<And>x. same_keys x (f x)" "moves (arID r \<in> S) (arStatus r) (arStatus (f r))"
  shows "calm S w (set_runs (\<lambda>x. arID x = arID r) f w)"
proof -
  have "runs_evolve S w (set_runs (\<lambda>x. arID x = arID r) f w)"
    using assms run_unique by (intro runs_evolve_set_runs) blast
  then show ?thesis by (simp add: calm_def)
qed

lemma newest_queued_Some:
  assumes "newest_queued w i = Some q"
  shows "q \<in> set (awRuns w) \<and> arAutomation q = i \<and> arStatus q = RunQueued"
proof -
  define qs where "qs = sort_key (\<lambda>r. (arCreated r, arID r)) (filter (\<lambda>r. arStatus r = RunQueued) (runs_of w i))"
  from assms have "qs \<noteq> []" "q = last qs" by (auto simp: newest_queued_def qs_def [symmetric] split: list.splits)
  then have "q \<in> set qs" by simp
  then show ?thesis by (simp add: qs_def runs_of_def)
qed

lemma newest_queued_None: "newest_queued w i = None \<longleftrightarrow> count_runs queued w i = 0"
proof -
  define qs where "qs = sort_key (\<lambda>r. (arCreated r, arID r)) (filter (\<lambda>r. arStatus r = RunQueued) (runs_of w i))"
  have "newest_queued w i = None \<longleftrightarrow> qs = []" by (auto simp: newest_queued_def qs_def [symmetric] split: list.split)
  also have "\<dots> \<longleftrightarrow> set qs = {}" by simp
  also have "\<dots> \<longleftrightarrow> count_runs queued w i = 0"
    by (auto simp: qs_def runs_of_def count_runs_def queued_def filter_empty_conv)
  finally show ?thesis .
qed

lemma supersede_moves: "arStatus r = RunQueued \<Longrightarrow> same_keys r (supersede t r) \<and> moves (arID r \<in> S) (arStatus r) (arStatus (supersede t r))"
  by (simp add: supersede_def same_keys_def moves_def final_def)

text \<open>Promoting: nothing, or the newest queued run starts and the queue is empty.\<close>

lemma promoteQueued_cases:
  obtains "promoteQueued a w = w" "slot_limit a \<le> active_runs w (amID a) \<or> count_runs queued w (amID a) = 0"
  | q where "q \<in> set (awRuns w)" "arAutomation q = amID a" "arStatus q = RunQueued" "active_runs w (amID a) < slot_limit a"
      "promoteQueued a w = set_runs (\<lambda>r. arAutomation r = amID a \<and> arStatus r = RunQueued \<and> arID r \<noteq> arID q) (supersede (awNow w))
         (set_runs (\<lambda>r. arID r = arID q) (\<lambda>r. r\<lparr>arStatus := RunStarting, arStarted := Some (awNow w)\<rparr>) w)"
proof (cases "slot_limit a \<le> active_runs w (amID a)")
  case True
  then show thesis using that(1) by (simp add: promoteQueued_def)
next
  case False
  show thesis
  proof (cases "newest_queued w (amID a)")
    case None
    with False show thesis using that(1) newest_queued_None [of w "amID a"] by (simp add: promoteQueued_def)
  next
    case (Some q)
    with False newest_queued_Some [OF Some] show thesis by (intro that(2)) (simp_all add: promoteQueued_def)
  qed
qed

lemma promoteQueued_calm: "keys_ok w \<Longrightarrow> calm S w (promoteQueued a w)"
proof (cases rule: promoteQueued_cases [of a w])
  case (2 q)
  assume k: "keys_ok w"
  let ?w1 = "set_runs (\<lambda>r. arID r = arID q) (\<lambda>r. r\<lparr>arStatus := RunStarting, arStarted := Some (awNow w)\<rparr>) w"
  have "calm S w ?w1" by (rule calm_set_run [OF k 2(1)]) (simp_all add: same_keys_def 2(3) moves_def final_def)
  moreover have "calm S ?w1 (promoteQueued a w)"
    unfolding 2(5) calm_def by (intro conjI runs_evolve_set_runs supersede_moves) auto
  ultimately show ?thesis by (rule calm_trans)
qed simp

section \<open>What an operation does to the runs\<close>

definition fresh_run :: "AutoWorld \<Rightarrow> AutoRun \<Rightarrow> bool" where
  "fresh_run w r = (arID r = awIDs w (awCount w) \<and> arCreated r = awNow w \<and> arMission r = None)"

lemma decide_cases:
  assumes "decide d = (stat, reason, again)"
  shows "stat = RunStarting \<and> \<not> again \<and> diActive d < (if diConcurrency d = ConcurrencyParallel then diMaxConcurrent d else 1)
       \<and> diRunsLastHour d < diMaxRunsPerHour d \<and> diEnabled d
     \<or> stat = RunQueued \<and> again \<and> diRunsLastHour d < diMaxRunsPerHour d \<and> diEnabled d
       \<and> (if diConcurrency d = ConcurrencyParallel then diMaxConcurrent d else 1) \<le> diActive d
     \<or> stat = RunSkipped \<and> \<not> again"
  using assms by (auto simp: decide_def ConcurrencyQueue_def ConcurrencyParallel_def split: if_splits)

text \<open>Recording a run: nothing, or a new run after the queue was superseded.\<close>

lemma record_run_cases:
  assumes "keys_ok w"
  obtains "record_run a en tr k obj w = w"
  | r w1 where "record_run a en tr k obj w = w1\<lparr>awRuns := awRuns w1 @ [r], awCount := awCount w + 1\<rparr>"
      "fresh_run w r" "arAutomation r = amID a" "arDedup r = k" "\<not> dedup_taken w (amID a) k"
      "w1 = w \<or> w1 = set_runs (\<lambda>x. arAutomation x = amID a \<and> arStatus x = RunQueued) (supersede (awNow w)) w"
      "arStatus r = RunQueued \<Longrightarrow> w1 = set_runs (\<lambda>x. arAutomation x = amID a \<and> arStatus x = RunQueued) (supersede (awNow w)) w
         \<and> en \<and> slot_limit a \<le> active_runs w (amID a)"
      "arStatus r = RunStarting \<Longrightarrow> active_runs w (amID a) < slot_limit a"
      "arStatus r \<noteq> RunSkipped \<Longrightarrow> runs_since w (amID a) (awNow w - rateWindow) < amMaxRunsPerHour a"
      "arStatus r \<in> {RunQueued, RunStarting, RunSkipped}"
proof (cases "dedup_taken w (amID a) k")
  case True
  then show thesis using that(1) by (simp add: record_run_def split: prod.split)
next
  case False
  define d where "d = \<lparr>diEnabled = en, diExpired = (case amExpires a of Some t \<Rightarrow> t \<le> awNow w | None \<Rightarrow> False),
             diRunsLastHour = runs_since w (amID a) (awNow w - rateWindow), diMaxRunsPerHour = amMaxRunsPerHour a,
             diActive = active_runs w (amID a), diConcurrency = amConcurrency a, diMaxConcurrent = amMaxConcurrent a\<rparr>"
  obtain stat reason again where dec: "decide d = (stat, reason, again)" by (cases "decide d")
  define r where "r = new_run w (amID a) tr k obj stat reason"
  have r: "fresh_run w r" "arAutomation r = amID a" "arDedup r = k" "arStatus r = stat"
    by (simp_all add: r_def new_run_def fresh_run_def)
  have new: "arID x \<noteq> arID r" if "x \<in> set (awRuns w)" for x
  proof -
    from assms that obtain n where "n < awCount w" "arID x = awIDs w n" "inj (awIDs w)" by (auto simp: keys_ok_def)
    with r(1) show ?thesis by (auto simp: fresh_run_def inj_def)
  qed
  define p where "p = (\<lambda>x :: AutoRun. arAutomation x = amID a \<and> arStatus x = RunQueued)"
  define w1 where "w1 = (if again then set_runs p (supersede (awNow w)) w else w)"
  have m: "map (\<lambda>x. if arAutomation x = amID a \<and> arStatus x = RunQueued \<and> arID x \<noteq> arID r then supersede (awNow w) x else x) (awRuns w)
      = map (\<lambda>x. if p x then supersede (awNow w) x else x) (awRuns w)"
    using new by (auto simp: p_def)
  have "record_run a en tr k obj w = w1\<lparr>awRuns := awRuns w1 @ [r], awCount := awCount w + 1\<rparr>"
    using False dec m by (simp add: record_run_def Let_def d_def [symmetric] r_def [symmetric] w1_def set_runs_def)
  moreover note decide_cases [OF dec]
  ultimately show thesis
    using r False by (intro that(2) [of w1 r]) (auto simp: d_def w1_def p_def slot_limit_def split: if_splits)
qed

lemma fire_cases:
  obtains "fire origin i tr k obj w = w"
  | a en where "find_auto w i = Some a" "en \<longrightarrow> amEnabled a" "fire origin i tr k obj w = record_run a en tr k obj w"
proof (cases "\<not> isUUID i \<or> (case tr of Some t \<Rightarrow> \<not> isUUID t | None \<Rightarrow> False) \<or> find_auto w i = None \<or> selfTriggered w i origin")
  case True
  then show thesis using that(1) by (auto simp: fire_def split: option.split)
next
  case False
  then obtain a where a: "find_auto w i = Some a" by auto
  show thesis
  proof (cases tr)
    case None
    with False a show thesis by (intro that(2) [of a "amEnabled a"]) (simp_all add: fire_def)
  next
    case (Some t)
    show thesis
    proof (cases "find (\<lambda>x. tgID x = t) (amTriggers a)")
      case None
      with False a Some show thesis by (intro that(1)) (simp add: fire_def)
    next
      case (Some x)
      with False a \<open>tr = Some t\<close> show thesis
        by (intro that(2) [of a "amEnabled a \<and> tgEnabled x"]) (simp_all add: fire_def)
    qed
  qed
qed

text \<open>Every event is some firings or one end.\<close>

lemma Handle_event_inv:
  assumes "Handle_event rx ev w = Some (w', d)" "keeps w"
    and fires: "\<And>origin i tr k obj w. keeps w \<Longrightarrow> keeps (fire origin i tr k obj w)"
    and ends: "\<And>m failed w. keeps w \<Longrightarrow> keeps (fst (finalizeMission m failed w))"
  shows "keeps w'"
proof -
  have conn: "keeps (handleConnectorEvent origin p body src w)" for origin p body src
    using assms(2) fires by (auto simp: handleConnectorEvent_def intro!: fold_invariant [where P = keeps])
  show ?thesis
  proof (cases "aePayload ev")
    case (ChannelMessage p)
    then have "w' = handleChannelMessage rx ev p w" using assms(1) by (simp add: Handle_event_def)
    moreover have "keeps (handleChannelMessage rx ev p w)"
      using assms(2) fires by (simp add: handleChannelMessage_def split: option.split prod.split trigger_config.split)
    ultimately show ?thesis by simp
  next
    case (MissionEnded m failed)
    then have "finalizeMission m failed w = (w', d)" using assms(1) by (simp add: Handle_event_def)
    then have "w' = fst (finalizeMission m failed w)" by simp
    then show ?thesis using ends assms(2) by simp
  next
    case (CronDue a t b)
    then show ?thesis using assms(1,2) fires by (simp add: Handle_event_def) metis
  next
    case (RunNow a b)
    then show ?thesis using assms(1,2) fires by (simp add: Handle_event_def) metis
  next
    case (WebhookReceived t a sc dl hs b)
    then show ?thesis using assms(1,2) fires by (simp add: Handle_event_def) metis
  next
    case (ConnectorEvent p b)
    then show ?thesis using assms(1) conn by (simp add: Handle_event_def) metis
  next
    case BadPayload
    then show ?thesis using assms(1) by (simp add: Handle_event_def)
  next
    case OtherPayload
    then show ?thesis using assms(1,2) by (simp add: Handle_event_def)
  qed
qed

text \<open>The end of a run: the run, then the breaker, then the queue.\<close>

definition ended :: "string \<Rightarrow> bool \<Rightarrow> string \<Rightarrow> AutoWorld \<Rightarrow> AutoWorld" where
  "ended rid failed reason w =
     set_runs (\<lambda>r. arID r = rid)
       (\<lambda>r. r\<lparr>arStatus := if failed then RunFailed else RunDone,
              arSkipReason := if reason = [] then arSkipReason r else reason, arFinished := Some (awNow w)\<rparr>) w"

definition drop_queue :: "string \<Rightarrow> AutoWorld \<Rightarrow> AutoWorld" where
  "drop_queue i w = set_runs (\<lambda>r. arAutomation r = i \<and> arStatus r = RunQueued)
     (\<lambda>r. r\<lparr>arStatus := RunSkipped, arSkipReason := SkipDisabled, arFinished := Some (awNow w)\<rparr>) w"

lemma finalizeRun_cases:
  obtains "find_auto w i = None" "finalizeRun rid i failed reason w = (ended rid failed reason w, False)"
  | a g where "find_auto w i = Some a" "\<And>a. settings (g a) = settings a \<and> \<not> amEnabled (g a)" "amEnabled a" "failed"
      "finalizeRun rid i failed reason w = (drop_queue i (set_auto i g (ended rid failed reason w)), True)"
  | a g where "find_auto w i = Some a" "\<And>a. settings (g a) = settings a \<and> amEnabled (g a) = amEnabled a" "\<not> amEnabled a"
      "finalizeRun rid i failed reason w = (set_auto i g (ended rid failed reason w), False)"
  | a g where "find_auto w i = Some a" "\<And>a. settings (g a) = settings a \<and> amEnabled (g a) = amEnabled a" "amEnabled a"
      "amFailures (g a) < breakerFailures"
      "finalizeRun rid i failed reason w = (promoteQueued a (set_auto i g (ended rid failed reason w)), False)"
proof (cases "find_auto w i")
  case None
  then show thesis by (intro that(1)) (simp_all add: finalizeRun_def ended_def)
next
  case (Some a)
  define n where "n = (if failed then amFailures a + 1 else 0)"
  define dis where "dis = (amEnabled a \<and> breakerFailures \<le> n)"
  define g where "g = (\<lambda>a :: Automation. a\<lparr>amFailures := n, amEnabled := amEnabled a \<and> \<not> dis,
      amDisabledReason := if dis then ''3 consecutive failed runs'' else amDisabledReason a\<rparr>)"
  have f: "finalizeRun rid i failed reason w =
      (let w2 = set_auto i g (ended rid failed reason w)
       in if dis then (drop_queue i w2, True) else if \<not> amEnabled a then (w2, False) else (promoteQueued a w2, False))"
    using Some by (simp add: finalizeRun_def ended_def drop_queue_def g_def dis_def n_def Let_def)
  have g: "settings (g x) = settings x" "amEnabled (g x) = (amEnabled x \<and> \<not> dis)" "amFailures (g x) = n" for x
    by (simp_all add: g_def settings_def)
  show thesis
  proof (cases dis)
    case True
    then have "failed" "amEnabled a" by (auto simp: dis_def n_def breakerFailures_def split: if_splits)
    with True f g Some show thesis by (intro that(2) [of a g]) simp_all
  next
    case False
    show thesis
    proof (cases "amEnabled a")
      case True
      with False have "n < breakerFailures" by (simp add: dis_def)
      with True False f g Some show thesis by (intro that(4) [of a g]) simp_all
    next
      case dead: False
      with False f g Some show thesis by (intro that(3) [of a g]) simp_all
    qed
  qed
qed

lemma calm_ended:
  assumes "keys_ok w" "r \<in> set (awRuns w)" "arStatus r = RunStarting \<or> arStatus r = RunRunning"
  shows "calm S w (ended (arID r) failed reason w)"
  unfolding ended_def by (rule calm_set_run [OF assms(1,2)]) (use assms(3) in \<open>auto simp: same_keys_def moves_def final_def\<close>)

lemma calm_drop_queue: "calm S w (drop_queue i w)"
  unfolding drop_queue_def calm_def
  by (intro conjI runs_evolve_set_runs) (auto simp: same_keys_def moves_def final_def)

lemma calm_keys: "keys_ok w \<Longrightarrow> calm S w w1 \<Longrightarrow> (keys_ok w1 \<Longrightarrow> calm S w1 w2) \<Longrightarrow> calm S w w2"
  using keys_ok_calm calm_trans by blast

lemma calm_finalizeRun:
  assumes "keys_ok w" "r \<in> set (awRuns w)" "arStatus r = RunStarting \<or> arStatus r = RunRunning"
  shows "calm S w (fst (finalizeRun (arID r) i failed reason w))"
proof -
  let ?e = "ended (arID r) failed reason w"
  have e: "calm S w ?e" by (rule calm_ended [OF assms])
  have g: "calm S w (set_auto i g ?e)" if "\<And>a. settings (g a) = settings a" for g
    by (rule calm_trans [OF e calm_set_auto]) (rule that)
  show ?thesis
  proof (cases rule: finalizeRun_cases [of w i "arID r" failed reason])
    case 1
    with e show ?thesis by simp
  next
    case (2 a g)
    have "calm S w (set_auto i g ?e)" using 2(2) by (intro g) blast
    then show ?thesis unfolding 2(5) fst_conv by (rule calm_trans [OF _ calm_drop_queue])
  next
    case (3 a g)
    show ?thesis unfolding 3(4) fst_conv using 3(2) by (intro g) blast
  next
    case (4 a g)
    have c: "calm S w (set_auto i g ?e)" using 4(2) by (intro g) blast
    show ?thesis unfolding 4(5) fst_conv by (rule calm_trans [OF c promoteQueued_calm [OF keys_ok_calm [OF assms(1) c]]])
  qed
qed

lemma releaseSlot_cases:
  obtains "releaseSlot i w = w" "find_auto w i = None \<or> (\<exists>a. find_auto w i = Some a \<and> \<not> amEnabled a)"
  | a where "find_auto w i = Some a" "amEnabled a" "releaseSlot i w = promoteQueued a w"
  by (cases "find_auto w i") (auto simp: releaseSlot_def split: if_splits)

definition mark_skipped :: "string \<Rightarrow> string \<Rightarrow> string \<Rightarrow> AutoWorld \<Rightarrow> AutoWorld" where
  "mark_skipped rid reason err w =
     set_runs (\<lambda>r. arID r = rid)
       (\<lambda>r. r\<lparr>arStatus := RunSkipped, arSkipReason := reason, arStartError := err, arFinished := Some (awNow w)\<rparr>) w"

lemma skipRun_alt: "skipRun rid i reason err w = releaseSlot i (mark_skipped rid reason err w)"
  by (simp add: skipRun_def mark_skipped_def)

lemma calm_skipRun:
  assumes "keys_ok w" "r \<in> set (awRuns w)" "arStatus r = RunStarting \<or> arStatus r = RunRunning" "arID r \<notin> S"
  shows "calm S w (skipRun (arID r) i reason err w)"
proof -
  have "calm S w (mark_skipped (arID r) reason err w)"
    unfolding mark_skipped_def by (rule calm_set_run [OF assms(1,2)]) (use assms(3,4) in \<open>auto simp: same_keys_def moves_def final_def\<close>)
  from calm_keys [OF assms(1) this] show ?thesis
    unfolding skipRun_alt by (cases rule: releaseSlot_cases [of i "mark_skipped (arID r) reason err w"]) (auto intro: promoteQueued_calm)
qed

section \<open>The starter\<close>

definition with_mission :: "string \<Rightarrow> string \<Rightarrow> AutoWorld \<Rightarrow> AutoWorld" where
  "with_mission m rid w = w\<lparr>awMissions := awMissions w @ [(m, Some rid)]\<rparr>"

lemma with_mission_sel [simp]:
  "awRuns (with_mission m rid w) = awRuns w" "awAutos (with_mission m rid w) = awAutos w"
  "awIDs (with_mission m rid w) = awIDs w" "awCount (with_mission m rid w) = awCount w" "awNow (with_mission m rid w) = awNow w"
  "awMissions (with_mission m rid w) = awMissions w @ [(m, Some rid)]"
  by (simp_all add: with_mission_def)

text \<open>What the starter does to a run: adopt or create its mission, skip it, let it wait, or fail it.\<close>

lemma start_run_cases:
  obtains l where "linked_mission w (arID r) = Some l" "start_run env msg ins m r w = (mark_running (arID r) l w, False)"
  | "linked_mission w (arID r) = None" "start_run env msg ins m r w = (mark_running (arID r) m (with_mission m (arID r) w), False)"
  | err where "linked_mission w (arID r) = None"
      "start_run env msg ins m r w = (skipRun (arID r) (arAutomation r) ''trigger_gone'' err w, False)"
  | f where "linked_mission w (arID r) = None" "\<And>x. same_keys x (f x) \<and> arStatus (f x) = arStatus x"
      "start_run env msg ins m r w = (set_runs (\<lambda>x. arID x = arID r) f w, False)"
  | f reason w0 where "linked_mission w (arID r) = None" "\<And>x. same_keys x (f x) \<and> arStatus (f x) = arStatus x"
      "w0 = w \<or> w0 = with_mission m (arID r) w"
      "start_run env msg ins m r w = finalizeRun (arID r) (arAutomation r) True reason (set_runs (\<lambda>x. arID x = arID r) f w0)"
proof (cases "linked_mission w (arID r)")
  case (Some l)
  then show thesis by (intro that(1)) (simp_all add: start_run_def)
next
  case None
  note goal_if = that
  have failed: thesis if h: "start_run env msg ins m r w = start_failed msg r e w0" "w0 = w \<or> w0 = with_mission m (arID r) w"
    "e = TriggerGone \<Longrightarrow> w0 = w" "is_route_error e \<Longrightarrow> w0 = w" for e w0
  proof (cases "e = TriggerGone")
    case True
    with h None show thesis by (intro goal_if(3)) (simp_all add: start_failed_def Let_def)
  next
    case gone: False
    show thesis
    proof (cases "is_route_error e \<and> arStartAttempts r + 1 < maxStartAttempts")
      case True
      with h gone None show thesis
        by (intro goal_if(4) [of "\<lambda>x. x\<lparr>arStartError := msg e, arStartAttempts := arStartAttempts r + 1, arStartAttemptAt := Some (awNow w)\<rparr>"])
          (simp_all add: start_failed_def Let_def same_keys_def)
    next
      case False
      with h gone None show thesis
        by (intro goal_if(5) [of "\<lambda>x. x\<lparr>arStartError := msg e, arStartAttempts := arStartAttempts r + 1\<rparr>" w0 "fail_reason e"])
          (simp_all add: start_failed_def Let_def same_keys_def)
    qed
  qed
  show thesis
  proof (cases "run_mission env w r")
    case (Inl e)
    with None show thesis by (intro failed [of e w]) (simp_all add: start_run_def)
  next
    case (Inr nm)
    show thesis
    proof (cases ins)
      case Inserted
      with Inr None show thesis by (intro goal_if(2)) (simp_all add: start_run_def with_mission_def)
    next
      case NotInserted
      with Inr None show thesis by (intro failed [of InsertError w]) (simp_all add: start_run_def)
    next
      case InsertedThenFailed
      with Inr None show thesis
        by (intro failed [of ProvisionError "with_mission m (arID r) w"])
          (simp_all add: start_run_def with_mission_def is_route_error_def)
    qed
  qed
qed

lemma claim_run_Some: "claim_run tried w = Some r \<Longrightarrow> r \<in> set (awRuns w) \<and> due tried w r"
proof -
  assume "claim_run tried w = Some r"
  then obtain rs where "sort_key (\<lambda>r. (arCreated r, arID r)) (filter (due tried w) (awRuns w)) = r # rs"
    by (auto simp: claim_run_def split: list.splits)
  from arg_cong [OF this, of set] have "r \<in> set (filter (due tried w) (awRuns w))" by simp
  then show ?thesis by simp
qed

lemma calm_mark_running:
  assumes "keys_ok w" "r \<in> set (awRuns w)" "arStatus r = RunStarting"
  shows "calm S w (mark_running (arID r) l w)"
  unfolding mark_running_def by (rule calm_set_run [OF assms(1,2)]) (use assms(3) in \<open>auto simp: same_keys_def moves_def final_def\<close>)

lemma calm_runs_cong:
  "awRuns w' = awRuns w \<Longrightarrow> awIDs w' = awIDs w \<Longrightarrow> awCount w' = awCount w \<Longrightarrow> awAutos w' = awAutos w \<Longrightarrow> calm S w w'"
  by (simp add: calm_def runs_evolve_runs_cong)

lemma calm_with_mission: "calm S w (with_mission m rid w)"
  by (rule calm_runs_cong) simp_all

lemma calm_start_run:
  assumes k: "keys_ok w" and r: "r \<in> set (awRuns w)" "arStatus r = RunStarting"
    and S: "arID r \<in> S \<Longrightarrow> linked_mission w (arID r) \<noteq> None"
  shows "calm S w (fst (start_run env msg ins m r w))"
proof (cases rule: start_run_cases [of w r env msg ins m])
  case (1 l)
  then show ?thesis using calm_mark_running [OF k r] by simp
next
  case 2
  have "calm S w (mark_running (arID r) m (with_mission m (arID r) w))"
    by (rule calm_trans [OF calm_with_mission calm_mark_running])
      (use k r keys_ok_calm [OF k calm_with_mission] in simp_all)
  with 2 show ?thesis by simp
next
  case (3 err)
  then have "arID r \<notin> S" using S by auto
  with calm_skipRun [OF k r(1)] r(2) 3(2) show ?thesis by simp
next
  case (4 f)
  have "calm S w (set_runs (\<lambda>x. arID x = arID r) f w)" using 4(2) by (intro calm_set_run [OF k r(1)]) simp_all
  with 4 show ?thesis by simp
next
  case (5 f reason w0)
  let ?w = "set_runs (\<lambda>x. arID x = arID r) f w0"
  have c0: "calm S w w0" using 5(3) calm_with_mission by auto
  have k0: "keys_ok w0" by (rule keys_ok_calm [OF k c0])
  have r0: "r \<in> set (awRuns w0)" using r 5(3) by auto
  have c: "calm S w ?w" using 5(2) by (intro calm_trans [OF c0 calm_set_run [OF k0 r0]]) simp_all
  have fr: "f r \<in> set (awRuns ?w)" "arID (f r) = arID r" "arStatus (f r) = RunStarting"
    using r0 5(2) [of r] r(2) by (auto simp: same_keys_def)
  have "calm S ?w (fst (finalizeRun (arID (f r)) (arAutomation r) True reason ?w))"
    by (rule calm_finalizeRun [OF keys_ok_calm [OF k c] fr(1)]) (simp add: fr(3))
  with c 5(4) fr(2) show ?thesis by (simp add: calm_trans)
qed

section \<open>The tables stay well-formed\<close>

definition links :: "AutoWorld \<Rightarrow> string list" where
  "links w = concat (map (\<lambda>(m, l). case l of Some rid \<Rightarrow> [rid] | None \<Rightarrow> []) (awMissions w))"

definition links_ok :: "AutoWorld \<Rightarrow> bool" where
  "links_ok w = (distinct (map fst (awMissions w)) \<and> distinct (links w)
     \<and> (\<forall>rid \<in> set (links w). \<exists>r \<in> set (awRuns w). arID r = rid \<and> arStatus r \<noteq> RunQueued \<and> arStatus r \<noteq> RunSkipped))"

definition tables_ok :: "(string \<times> string \<times> int \<times> int \<Rightarrow> bool) \<Rightarrow> AutoWorld \<Rightarrow> bool" where
  "tables_ok P w = (keys_ok w \<and> links_ok w
     \<and> (\<forall>s \<in> set (map settings (awAutos w)). P s \<and> (case s of (i, c, k, n) \<Rightarrow> validateConcurrency c k n = None)))"

lemma linked_mission_None: "linked_mission w rid = None \<longleftrightarrow> rid \<notin> set (links w)"
proof -
  have "linked_mission w rid = None \<longleftrightarrow> \<not> (\<exists>x \<in> set (awMissions w). snd x = Some rid)"
    by (auto simp: linked_mission_def find_None_iff)
  also have "\<dots> \<longleftrightarrow> rid \<notin> set (links w)" by (force simp: links_def split: option.splits)
  finally show ?thesis .
qed

lemma links_sel [simp]:
  "links (set_runs p f w) = links w" "links (set_auto i g w) = links w" "links (with_mission m rid w) = links w @ [rid]"
  "links (w\<lparr>awRuns := rs\<rparr>) = links w" "links (w\<lparr>awCount := c\<rparr>) = links w"
  by (simp_all add: links_def)

lemma list_all2_mem: "list_all2 R xs ys \<Longrightarrow> x \<in> set xs \<Longrightarrow> \<exists>y \<in> set ys. R x y"
  by (induction rule: list_all2_induct) auto

text \<open>Linked runs stay out of the queue and are never skipped, when no linked run is skipped now.\<close>

lemma links_ok_mono:
  assumes "links_ok w" "runs_evolve (set (links w)) w w'" "awMissions w' = awMissions w"
  shows "links_ok w'"
proof -
  have "\<exists>r' \<in> set (awRuns w'). arID r' = rid \<and> arStatus r' \<noteq> RunQueued \<and> arStatus r' \<noteq> RunSkipped" if "rid \<in> set (links w)" for rid
  proof -
    from assms(1) that obtain r where r: "r \<in> set (awRuns w)" "arID r = rid" "arStatus r \<noteq> RunQueued" "arStatus r \<noteq> RunSkipped"
      by (auto simp: links_ok_def)
    from assms(2) r(1) obtain r' where "r' \<in> set (awRuns w')" "same_keys r r'" "moves (arID r \<in> set (links w)) (arStatus r) (arStatus r')"
      by (auto simp: runs_evolve_def dest: list_all2_mem)
    with r that show ?thesis by (intro bexI [of _ r']) (auto simp: same_keys_def moves_def)
  qed
  moreover have "links w' = links w" using assms(3) by (simp add: links_def)
  ultimately show ?thesis using assms(1,3) by (simp add: links_ok_def)
qed

lemma tables_ok_calm:
  assumes "tables_ok P w" "calm (set (links w)) w w'" "awMissions w' = awMissions w"
  shows "tables_ok P w'"
proof -
  have "keys_ok w'" using assms(1,2) keys_ok_calm by (auto simp: tables_ok_def)
  moreover have "links_ok w'" using assms links_ok_mono by (auto simp: tables_ok_def calm_def)
  moreover have "map settings (awAutos w') = map settings (awAutos w)" using assms(2) by (simp add: calm_def)
  ultimately show ?thesis using assms(1) unfolding tables_ok_def by presburger
qed

lemma missions_sel [simp]:
  "awMissions (promoteQueued a w) = awMissions w" "awMissions (ended rid failed reason w) = awMissions w"
  "awMissions (drop_queue i w) = awMissions w" "awMissions (mark_running rid m w) = awMissions w"
  "awMissions (mark_skipped rid reason err w) = awMissions w"
  by (auto simp: promoteQueued_def ended_def drop_queue_def mark_running_def mark_skipped_def Let_def split: option.split)

lemma finalizeRun_missions [simp]: "awMissions (fst (finalizeRun rid i failed reason w)) = awMissions w"
  by (cases rule: finalizeRun_cases [of w i rid failed reason]) simp_all

lemma skipRun_missions [simp]: "awMissions (skipRun rid i reason err w) = awMissions w"
  unfolding skipRun_alt by (cases rule: releaseSlot_cases [of i "mark_skipped rid reason err w"]) simp_all

lemma run_of_mission_Some:
  "run_of_mission w m = Some r \<Longrightarrow> r \<in> set (awRuns w) \<and> arID r \<in> set (links w)"
  by (auto simp: run_of_mission_def find_Some_iff links_def dest!: map_of_SomeD split: option.splits)

lemma finalizeMission_cases:
  obtains "finalizeMission m failed w = (w, False)"
  | r where "r \<in> set (awRuns w)" "arID r \<in> set (links w)" "run_of_mission w m = Some r"
      "\<not> (arStatus r = RunDone \<or> arStatus r = RunFailed)"
      "finalizeMission m failed w = finalizeRun (arID r) (arAutomation r) failed [] w"
proof (cases "isUUID m")
  case True
  show thesis
  proof (cases "run_of_mission w m")
    case None
    with True that(1) show thesis by (simp add: finalizeMission_def)
  next
    case (Some r)
    show thesis
    proof (cases "arStatus r = RunDone \<or> arStatus r = RunFailed")
      case over: True
      with Some True that(1) show thesis by (simp add: finalizeMission_def)
    next
      case False
      with Some True run_of_mission_Some [OF Some] show thesis by (intro that(2) [of r]) (simp_all add: finalizeMission_def)
    qed
  qed
qed (use that(1) in \<open>simp add: finalizeMission_def\<close>)

lemma linked_active:
  assumes "tables_ok P w" "r \<in> set (awRuns w)" "arID r \<in> set (links w)" "\<not> (arStatus r = RunDone \<or> arStatus r = RunFailed)"
  shows "arStatus r = RunStarting \<or> arStatus r = RunRunning"
proof -
  from assms(1,3) obtain x where "x \<in> set (awRuns w)" "arID x = arID r" "arStatus x \<noteq> RunQueued" "arStatus x \<noteq> RunSkipped"
    by (auto simp: tables_ok_def links_ok_def)
  moreover from this have "x = r" using run_unique [of w r x] assms(1,2) by (simp add: tables_ok_def)
  ultimately show ?thesis using assms(4) by (cases "arStatus r") auto
qed

lemma finalizeMission_calm:
  assumes "tables_ok P w"
  shows "calm S w (fst (finalizeMission m failed w))"
proof (cases rule: finalizeMission_cases [of m failed w])
  case (2 r)
  have "keys_ok w" using assms by (simp add: tables_ok_def)
  from calm_finalizeRun [OF this 2(1) linked_active [OF assms 2(1,2,4)]] show ?thesis by (simp add: 2(5))
qed simp

lemma finalizeMission_missions [simp]: "awMissions (fst (finalizeMission m failed w)) = awMissions w"
  by (cases rule: finalizeMission_cases [of m failed w]) simp_all

lemma finalizeMission_tables: "tables_ok P w \<Longrightarrow> tables_ok P (fst (finalizeMission m failed w))"
  by (rule tables_ok_calm [OF _ finalizeMission_calm]) simp_all

lemma calm_supersede: "calm S w (set_runs (\<lambda>x. arAutomation x = i \<and> arStatus x = RunQueued) (supersede t) w)"
  unfolding calm_def by (intro conjI runs_evolve_set_runs supersede_moves) auto

lemma dedup_taken_set: "dedup_taken w a k \<longleftrightarrow> (a, k) \<in> set (map (\<lambda>r. (arAutomation r, arDedup r)) (awRuns w))"
  by (auto simp: dedup_taken_def)

text \<open>A firing: nothing, or one new run with a key of its own behind a superseded queue.\<close>

lemma fire_new:
  assumes "tables_ok P w"
  obtains "fire origin i tr k obj w = w"
  | a en r w1 where "find_auto w i = Some a" "en \<longrightarrow> amEnabled a"
      "fire origin i tr k obj w = w1\<lparr>awRuns := awRuns w1 @ [r], awCount := awCount w + 1\<rparr>"
      "fresh_run w r" "arAutomation r = i" "arDedup r = k" "\<not> dedup_taken w i k"
      "w1 = w \<or> w1 = set_runs (\<lambda>x. arAutomation x = i \<and> arStatus x = RunQueued) (supersede (awNow w)) w"
      "arStatus r = RunQueued \<Longrightarrow> w1 = set_runs (\<lambda>x. arAutomation x = i \<and> arStatus x = RunQueued) (supersede (awNow w)) w
         \<and> en \<and> slot_limit a \<le> active_runs w i"
      "arStatus r = RunStarting \<Longrightarrow> active_runs w i < slot_limit a"
      "arStatus r \<noteq> RunSkipped \<Longrightarrow> runs_since w i (awNow w - rateWindow) < amMaxRunsPerHour a"
      "arStatus r \<in> {RunQueued, RunStarting, RunSkipped}"
proof (cases rule: fire_cases [of origin i tr k obj w])
  case (2 a en)
  then have i: "amID a = i" using find_auto_Some by blast
  have k: "keys_ok w" using assms by (simp add: tables_ok_def)
  show thesis
  proof (cases rule: record_run_cases [OF k, of a en tr k obj])
    case 1
    with 2 that(1) show thesis by simp
  next
    case c: (2 r w1)
    show thesis by (rule that(2) [OF 2(1,2), of w1 r]) (use 2(3) c i in auto)
  qed
qed (use that(1) in simp)

lemma fire_tables:
  assumes t: "tables_ok P w"
  shows "tables_ok P (fire origin i tr k obj w)"
proof (cases rule: fire_new [OF t, of origin i tr k obj])
  case (2 a en r w1)
  have c: "calm (set (links w)) w w1" using 2(8) calm_supersede by auto
  have m: "awMissions w1 = awMissions w" "awAutos w1 = awAutos w" "awNow w1 = awNow w" using 2(8) by auto
  from tables_ok_calm [OF t c m(1)] have t1: "tables_ok P w1" .
  let ?w = "w1\<lparr>awRuns := awRuns w1 @ [r], awCount := awCount w + 1\<rparr>"
  have cnt: "awCount w1 = awCount w" "awIDs w1 = awIDs w" using c by (simp_all add: calm_def runs_evolve_def)
  have id: "arID r = awIDs w1 (awCount w1)" using 2(4) cnt by (simp add: fresh_run_def)
  have new: "arID r \<notin> arID ` set (awRuns w1)"
    using t1 id unfolding tables_ok_def keys_ok_def by (auto simp: inj_def) (metis less_irrefl)
  have key: "(i, k) \<notin> set (map (\<lambda>r. (arAutomation r, arDedup r)) (awRuns w1))"
    using 2(7) runs_evolve_maps(3) [of "set (links w)" w w1] c unfolding dedup_taken_set calm_def by simp
  have "i \<in> amID ` set (awAutos w1)" using find_auto_Some [OF 2(1)] m by auto
  moreover have "\<forall>x \<in> set (awRuns ?w). \<exists>n < awCount ?w. arID x = awIDs ?w n"
  proof
    fix x assume "x \<in> set (awRuns ?w)"
    then consider "x = r" | "x \<in> set (awRuns w1)" by auto
    then show "\<exists>n < awCount ?w. arID x = awIDs ?w n"
    proof cases
      case 1
      with id cnt show ?thesis by auto
    next
      case 2
      with t1 obtain n where "n < awCount w1" "arID x = awIDs w1 n" by (auto simp: tables_ok_def keys_ok_def)
      with cnt show ?thesis by (intro exI [of _ n]) simp
    qed
  qed
  ultimately have "keys_ok ?w"
    using t1 new key 2(5,6) unfolding tables_ok_def keys_ok_def by auto
  moreover have "links_ok ?w" using t1 by (auto simp: tables_ok_def links_ok_def)
  ultimately have "tables_ok P ?w" using t1 by (simp add: tables_ok_def)
  with 2(3) show ?thesis by simp
qed (use t in simp)

text \<open>A starter step: nothing, a calm one, or a calm one after a mission was linked to an unlinked run.\<close>

lemma start_run_missions:
  "awMissions (fst (start_run env msg ins m r w)) = awMissions w
   \<or> linked_mission w (arID r) = None \<and> awMissions (fst (start_run env msg ins m r w)) = awMissions w @ [(m, Some (arID r))]"
  by (cases rule: start_run_cases [of w r env msg ins m]) auto

lemma startOne_cases:
  assumes "tables_ok P w"
  obtains "startOne env msg ins commits m tried w = w"
  | r where "r \<in> set (awRuns w)" "arStatus r = RunStarting" "linked_mission w (arID r) = None"
      "startOne env msg ins commits m tried w = with_mission m (arID r) w"
  | r where "r \<in> set (awRuns w)" "arStatus r = RunStarting" "claim_run tried w = Some r"
      "startOne env msg ins commits m tried w = fst (start_run env msg ins m r w)"
proof (cases "claim_run tried w")
  case None
  with that(1) show thesis by (simp add: startOne_def)
next
  case (Some r)
  with claim_run_Some [OF Some] have r: "r \<in> set (awRuns w)" "arStatus r = RunStarting" by (simp_all add: due_def)
  show thesis
  proof (cases commits)
    case True
    with Some r show thesis by (intro that(3)) (simp_all add: startOne_def)
  next
    case False
    then have w': "startOne env msg ins commits m tried w = w\<lparr>awMissions := awMissions (fst (start_run env msg ins m r w))\<rparr>"
      using Some by (simp add: startOne_def Let_def)
    from start_run_missions [of env msg ins m r w] show thesis
    proof
      assume "awMissions (fst (start_run env msg ins m r w)) = awMissions w"
      with w' that(1) show thesis by simp
    next
      assume "linked_mission w (arID r) = None \<and> awMissions (fst (start_run env msg ins m r w)) = awMissions w @ [(m, Some (arID r))]"
      with w' r show thesis by (intro that(2) [of r]) (simp_all add: with_mission_def)
    qed
  qed
qed

lemma with_mission_tables:
  assumes "tables_ok P w" "r \<in> set (awRuns w)" "arStatus r = RunStarting" "linked_mission w (arID r) = None"
    "m \<notin> fst ` set (awMissions w)"
  shows "tables_ok P (with_mission m (arID r) w)"
proof -
  have "links_ok (with_mission m (arID r) w)"
    using assms by (auto simp: tables_ok_def links_ok_def linked_mission_None)
  then show ?thesis using assms(1) by (auto simp: tables_ok_def keys_ok_def)
qed

lemma startOne_tables:
  assumes t: "tables_ok P w" and m: "m \<notin> fst ` set (awMissions w)"
  shows "tables_ok P (startOne env msg ins commits m tried w)"
proof (cases rule: startOne_cases [OF t, of env msg ins commits m tried])
  case 1
  with t show ?thesis by simp
next
  case (2 r)
  from with_mission_tables [OF t 2(1-3) m] show ?thesis by (simp add: 2(4))
next
  case (3 r)
  let ?w = "fst (start_run env msg ins m r w)"
  have k: "keys_ok w" using t by (simp add: tables_ok_def)
  from start_run_missions [of env msg ins m r w] show ?thesis
  proof
    assume same: "awMissions ?w = awMissions w"
    have "calm (set (links w)) w ?w"
      by (rule calm_start_run [OF k 3(1,2)]) (use linked_mission_None [of w "arID r"] in simp)
    from tables_ok_calm [OF t this same] show ?thesis by (simp add: 3(4))
  next
    assume new: "linked_mission w (arID r) = None \<and> awMissions ?w = awMissions w @ [(m, Some (arID r))]"
    have t1: "tables_ok P (with_mission m (arID r) w)" by (rule with_mission_tables [OF t 3(1,2) _ m]) (use new in simp)
    have kept: "linked_mission w (arID r) = None" using new by simp
    have "calm (set (links (with_mission m (arID r) w))) (with_mission m (arID r) w) ?w"
    proof (cases rule: start_run_cases [of w r env msg ins m])
      case 2
      have "calm (set (links (with_mission m (arID r) w))) (with_mission m (arID r) w) (mark_running (arID r) m (with_mission m (arID r) w))"
        by (rule calm_mark_running) (use t1 3(1,2) in \<open>simp_all add: tables_ok_def\<close>)
      with 2 show ?thesis by simp
    next
      case (5 f reason w0)
      let ?w0 = "with_mission m (arID r) w"
      have w0: "w0 = ?w0" using 5(3,4) new by auto
      have k0: "keys_ok ?w0" using t1 by (simp add: tables_ok_def)
      have c: "calm (set (links ?w0)) ?w0 (set_runs (\<lambda>x. arID x = arID r) f ?w0)"
        using 5(2) 3(1) by (intro calm_set_run [OF k0]) simp_all
      have fr: "f r \<in> set (awRuns (set_runs (\<lambda>x. arID x = arID r) f ?w0))" "arID (f r) = arID r" "arStatus (f r) = RunStarting"
        using 3(1,2) 5(2) [of r] by (auto simp: same_keys_def)
      have "calm (set (links ?w0)) (set_runs (\<lambda>x. arID x = arID r) f ?w0)
          (fst (finalizeRun (arID (f r)) (arAutomation r) True reason (set_runs (\<lambda>x. arID x = arID r) f ?w0)))"
        by (rule calm_finalizeRun [OF keys_ok_calm [OF k0 c] fr(1)]) (simp add: fr(3))
      with c 5(4) fr(2) w0 show ?thesis by (metis calm_trans)
    qed (use new in auto)
    from tables_ok_calm [OF t1 this] show ?thesis using new by (simp add: 3(4))
  qed
qed

section \<open>Operator writes\<close>

lemma validate_automation_facts:
  assumes "validate_automation cron_ok compiles a = Inr v"
  shows "amID v = amID a" "validateConcurrency (amConcurrency v) (amMaxConcurrent v) (amMaxRunsPerHour v) = None"
    "amFailures v = amFailures a" "amEnabled v = amEnabled a" "amConcurrency v = amConcurrency a" "amMaxConcurrent v = amMaxConcurrent a"
  using assms by (auto simp: validate_automation_def split: sum.splits if_splits option.splits)

lemma create_automation_parts:
  assumes "create_automation cron_ok compiles i ids a w = Some w'"
  obtains row where "w' = w\<lparr>awAutos := awAutos w @ [row]\<rparr>" "amID row = i" "find_auto w i = None"
    "validateConcurrency (amConcurrency row) (amMaxConcurrent row) (amMaxRunsPerHour row) = None"
proof -
  from assms obtain v where v: "validate_automation cron_ok compiles a = Inr v"
    by (auto simp: create_automation_def split: sum.splits)
  with assms validate_automation_facts [OF v] that show thesis
    by (auto simp: create_automation_def Let_def split: if_splits)
qed

lemma patch_automation_parts:
  assumes "patch_automation cron_ok compiles i ids p w = Some w'"
  obtains before v gone where "find_auto w i = Some before" "amID v = i"
    "w' = set_runs (\<lambda>r. arAutomation r = i \<and> (\<exists>t \<in> gone. arTrigger r = Some t)) (\<lambda>r. r\<lparr>arTrigger := None\<rparr>) (set_auto i (\<lambda>_. v) w)"
    "validateConcurrency (amConcurrency v) (amMaxConcurrent v) (amMaxRunsPerHour v) = None"
proof (cases "find_auto w i")
  case None
  with assms show thesis by (simp add: patch_automation_def)
next
  case (Some before)
  show thesis
  proof (cases "validate_automation cron_ok compiles (apply_patch p before)")
    case (Inl e)
    with assms Some show thesis by (simp add: patch_automation_def)
  next
    case (Inr v)
    define ts where "ts = (if paTriggers p = None then amTriggers before
      else replaceTriggers ids (awNow w) (amTriggers before) (amTriggers v))"
    have "amID v = i" using validate_automation_facts(1) [OF Inr] find_auto_Some [OF Some] by (simp add: apply_patch_def)
    moreover have "w' = set_runs (\<lambda>r. arAutomation r = i \<and> (\<exists>t \<in> tgID ` set (amTriggers before) - tgID ` set ts. arTrigger r = Some t))
        (\<lambda>r. r\<lparr>arTrigger := None\<rparr>) (set_auto i (\<lambda>_. v\<lparr>amTriggers := ts\<rparr>) w)"
      using assms Some Inr by (cases "paTriggers p") (simp_all add: patch_automation_def Let_def ts_def split: if_splits)
    ultimately show thesis using validate_automation_facts(2) [OF Inr] Some
      by (intro that [of before "v\<lparr>amTriggers := ts\<rparr>"]) simp_all
  qed
qed

lemma runs_evolve_forget_trigger: "runs_evolve S w (set_runs p (\<lambda>r. r\<lparr>arTrigger := None\<rparr>) w)"
  by (rule runs_evolve_set_runs) (simp add: same_keys_def)

lemma set_auto_ids: "amID v = i \<Longrightarrow> map amID (awAutos (set_auto i (\<lambda>_. v) w)) = map amID (awAutos w)"
  by auto

lemma delete_automation_sel:
  "awRuns (delete_automation i w) = filter (\<lambda>r. arAutomation r \<noteq> i) (awRuns w)"
  "awAutos (delete_automation i w) = filter (\<lambda>a. amID a \<noteq> i) (awAutos w)"
  "awIDs (delete_automation i w) = awIDs w" "awCount (delete_automation i w) = awCount w" "awNow (delete_automation i w) = awNow w"
  by (simp_all add: delete_automation_def)

lemma delete_links:
  "links (delete_automation i w) = filter (\<lambda>rid. \<not> (\<exists>r \<in> set (awRuns w). arAutomation r = i \<and> rid = arID r)) (links w)"
proof -
  have "concat (map (\<lambda>(m, l). case l of Some rid \<Rightarrow> [rid] | None \<Rightarrow> [])
          (map (\<lambda>(m, l). (m, if \<exists>r \<in> set (awRuns w). arAutomation r = i \<and> l = Some (arID r) then None else l)) ms))
      = filter (\<lambda>rid. \<not> (\<exists>r \<in> set (awRuns w). arAutomation r = i \<and> rid = arID r))
          (concat (map (\<lambda>(m, l). case l of Some rid \<Rightarrow> [rid] | None \<Rightarrow> []) ms))" for ms :: "(string \<times> string option) list"
    by (induction ms) (auto split: option.split)
  then show ?thesis by (simp add: links_def delete_automation_def)
qed

lemma delete_automation_tables:
  assumes "tables_ok P w"
  shows "tables_ok P (delete_automation i w)"
proof -
  have k: "keys_ok w" and l: "links_ok w" using assms by (simp_all add: tables_ok_def)
  have "distinct (map arID (filter (\<lambda>r. arAutomation r \<noteq> i) (awRuns w)))"
    "distinct (map (\<lambda>r. (arAutomation r, arDedup r)) (filter (\<lambda>r. arAutomation r \<noteq> i) (awRuns w)))"
    "distinct (map amID (filter (\<lambda>a. amID a \<noteq> i) (awAutos w)))"
    using k by (simp_all add: keys_ok_def distinct_map_filter)
  then have kd: "keys_ok (delete_automation i w)" using k by (auto simp: keys_ok_def delete_automation_sel)
  have "map fst (awMissions (delete_automation i w)) = map fst (awMissions w)"
    by (simp add: delete_automation_def comp_def split_beta)
  moreover have "\<exists>r \<in> set (awRuns (delete_automation i w)). arID r = rid \<and> arStatus r \<noteq> RunQueued \<and> arStatus r \<noteq> RunSkipped"
    if rid: "rid \<in> set (links (delete_automation i w))" for rid
  proof -
    from rid l obtain r where "r \<in> set (awRuns w)" "arID r = rid" "arStatus r \<noteq> RunQueued" "arStatus r \<noteq> RunSkipped"
      by (auto simp: delete_links links_ok_def)
    with rid show ?thesis by (intro bexI [of _ r]) (auto simp: delete_links delete_automation_sel)
  qed
  ultimately have "links_ok (delete_automation i w)" using l by (simp add: links_ok_def delete_links)
  with kd show ?thesis using assms by (auto simp: tables_ok_def delete_automation_sel)
qed

lemma forget_links: "set (links (forget_mission m w)) \<subseteq> set (links w)" "distinct (links w) \<Longrightarrow> distinct (links (forget_mission m w))"
proof -
  have "set (concat (map (\<lambda>(m, l). case l of Some rid \<Rightarrow> [rid] | None \<Rightarrow> []) (filter (\<lambda>(x, _). x \<noteq> m) ms)))
      \<subseteq> set (concat (map (\<lambda>(m, l). case l of Some rid \<Rightarrow> [rid] | None \<Rightarrow> []) ms))
    \<and> (distinct (concat (map (\<lambda>(m, l). case l of Some rid \<Rightarrow> [rid] | None \<Rightarrow> []) ms))
      \<longrightarrow> distinct (concat (map (\<lambda>(m, l). case l of Some rid \<Rightarrow> [rid] | None \<Rightarrow> []) (filter (\<lambda>(x, _). x \<noteq> m) ms))))"
    for ms :: "(string \<times> string option) list"
    by (induction ms) (auto split: option.split)
  then show "set (links (forget_mission m w)) \<subseteq> set (links w)" "distinct (links w) \<Longrightarrow> distinct (links (forget_mission m w))"
    by (auto simp: links_def forget_mission_def)
qed

lemma calm_forget: "calm S w (forget_mission m w)"
proof -
  have "calm S w (set_runs (\<lambda>r. arMission r = Some m) (\<lambda>r. r\<lparr>arMission := None\<rparr>) w)"
    unfolding calm_def by (intro conjI runs_evolve_set_runs) (simp_all add: same_keys_def)
  moreover have "calm S (set_runs (\<lambda>r. arMission r = Some m) (\<lambda>r. r\<lparr>arMission := None\<rparr>) w) (forget_mission m w)"
    by (rule calm_runs_cong) (simp_all add: forget_mission_def)
  ultimately show ?thesis by (rule calm_trans)
qed

lemma forget_tables:
  assumes "tables_ok P w"
  shows "tables_ok P (forget_mission m w)"
proof -
  have k: "keys_ok (forget_mission m w)" using assms keys_ok_calm calm_forget by (auto simp: tables_ok_def)
  have l: "links_ok w" using assms by (simp add: tables_ok_def)
  have "distinct (map fst (awMissions (forget_mission m w)))" using l by (simp add: links_ok_def forget_mission_def distinct_map_filter)
  moreover have "\<exists>r \<in> set (awRuns (forget_mission m w)). arID r = rid \<and> arStatus r \<noteq> RunQueued \<and> arStatus r \<noteq> RunSkipped"
    if "rid \<in> set (links w)" for rid
  proof -
    from l that obtain r where r: "r \<in> set (awRuns w)" "arID r = rid" "arStatus r \<noteq> RunQueued" "arStatus r \<noteq> RunSkipped"
      by (auto simp: links_ok_def)
    define r' where "r' = (if arMission r = Some m then r\<lparr>arMission := None\<rparr> else r)"
    have "r' \<in> set (awRuns (forget_mission m w))" using r(1) by (simp add: forget_mission_def r'_def)
    moreover have "arID r' = arID r" "arStatus r' = arStatus r" by (simp_all add: r'_def)
    ultimately show ?thesis using r by metis
  qed
  ultimately have "links_ok (forget_mission m w)" using forget_links [where m = m and w = w] l by (auto simp: links_ok_def)
  moreover have "awAutos (forget_mission m w) = awAutos w" by (simp add: forget_mission_def)
  ultimately show ?thesis using k assms by (simp add: tables_ok_def)
qed

section \<open>Every step keeps the tables\<close>

lemma step_tables:
  assumes "auto_step P ok w w'" "tables_ok P w"
  shows "tables_ok P w'"
  using assms
proof (cases rule: auto_step.cases)
  case (create cron_ok compiles i ids a)
  from create_automation_parts [OF create(1)] obtain row where row: "w' = w\<lparr>awAutos := awAutos w @ [row]\<rparr>" "amID row = i"
    "find_auto w i = None" "validateConcurrency (amConcurrency row) (amMaxConcurrent row) (amMaxRunsPerHour row) = None" .
  have "keys_ok w'" using assms(2) row find_auto_None [of w i] by (auto simp: tables_ok_def keys_ok_def)
  moreover have "links_ok w'" using assms(2) row by (simp add: tables_ok_def links_ok_def links_def)
  ultimately show ?thesis using assms(2) row create(2) by (auto simp: tables_ok_def settings_def)
next
  case (patch cron_ok compiles i ids p)
  from patch_automation_parts [OF patch(1)] obtain before v gone where v: "find_auto w i = Some before" "amID v = i"
    "w' = set_runs (\<lambda>r. arAutomation r = i \<and> (\<exists>t \<in> gone. arTrigger r = Some t)) (\<lambda>r. r\<lparr>arTrigger := None\<rparr>) (set_auto i (\<lambda>_. v) w)"
    "validateConcurrency (amConcurrency v) (amMaxConcurrent v) (amMaxRunsPerHour v) = None" .
  have e: "runs_evolve (set (links w)) w w'"
    unfolding v(3) by (rule runs_evolve_trans [OF runs_evolve_runs_cong runs_evolve_forget_trigger]) simp_all
  have "keys_ok w'" using assms(2) v(2,3) by (intro keys_ok_autos [OF _ e]) (auto simp: tables_ok_def)
  moreover have "links_ok w'" using assms(2) v(3) by (intro links_ok_mono [OF _ e]) (simp_all add: tables_ok_def)
  moreover have "validateConcurrency (amConcurrency x) (amMaxConcurrent x) (amMaxRunsPerHour x) = None" if "x \<in> set (awAutos w')" for x
    using that assms(2) v(3,4) by (auto simp: tables_ok_def settings_def)
  ultimately show ?thesis using patch(2) by (auto simp: tables_ok_def settings_def)
next
  case (remove i)
  with assms(2) delete_automation_tables show ?thesis by simp
next
  case (put i n c)
  then have "awRuns w' = awRuns w" "awAutos w' = awAutos w" "awMissions w' = awMissions w" "awIDs w' = awIDs w" "awCount w' = awCount w"
    by (auto simp: PutNote_def Let_def split: if_splits)
  then show ?thesis using tables_ok_calm [OF assms(2) calm_runs_cong] by simp
next
  case (unput i n)
  then show ?thesis using tables_ok_calm [OF assms(2) calm_runs_cong] by (simp add: DeleteNote_def)
next
  case (auth i tid)
  show ?thesis unfolding auth by (rule tables_ok_calm [OF assms(2) calm_set_auto]) (simp_all add: settings_def)
next
  case (event rx ev d)
  from Handle_event_inv [OF event, of "tables_ok P"] assms(2) fire_tables finalizeMission_tables show ?thesis by blast
next
  case (starts m env msg ins commits tried)
  with assms(2) startOne_tables show ?thesis by simp
next
  case (mission m)
  then have "links w' = links w" by (simp add: links_def)
  with mission assms(2) show ?thesis by (auto simp: tables_ok_def keys_ok_def links_ok_def)
next
  case (forget m)
  with assms(2) forget_tables show ?thesis by simp
next
  case (tick n)
  then show ?thesis using tables_ok_calm [OF assms(2) calm_runs_cong] by simp
qed

lemma empty_tables_ok: "inj ids \<Longrightarrow> tables_ok P (empty_tables ids now)"
  by (simp add: tables_ok_def keys_ok_def links_ok_def links_def empty_tables_def)

lemma reach_tables: "auto_reach P ok w \<Longrightarrow> tables_ok P w"
  by (induction rule: auto_reach.induct) (auto intro: step_tables empty_tables_ok)

end
