(* ===== verification/Automation_Props.thy ===== *)
theory Automation_Props
  imports Automation_Facts
begin

text \<open>
  What automations guarantee over every order of writes, events, starter passes and crashes: the
  ceilings of an automation hold, a finished run is final, a run has one mission, and no queued run waits
  beside a free slot. Two lemmas show where a slot or a queued run is lost.
\<close>

section \<open>Ceilings\<close>

definition limits_ok :: "(string \<Rightarrow> nat) \<Rightarrow> (string \<Rightarrow> nat) \<Rightarrow> AutoWorld \<Rightarrow> bool" where
  "limits_ok K N w = (\<forall>i. count_runs active w i \<le> K i \<and> count_runs queued w i \<le> 1 \<and> (\<forall>t. count_runs (counted t) w i \<le> N i))"

definition settings_within :: "(string \<times> string \<times> int \<times> int \<Rightarrow> bool) \<Rightarrow> (string \<Rightarrow> nat) \<Rightarrow> (string \<Rightarrow> nat) \<Rightarrow> bool" where
  "settings_within P K N = (\<forall>i c k n. P (i, c, k, n) \<longrightarrow> validateConcurrency c k n = None \<longrightarrow>
     (if c = ConcurrencyParallel then k else 1) \<le> int (K i) \<and> n \<le> int (N i))"

lemma auto_within:
  assumes "tables_ok P w" "settings_within P K N" "a \<in> set (awAutos w)"
  shows "slot_limit a \<le> int (K (amID a))" "amMaxRunsPerHour a \<le> int (N (amID a))"
proof -
  have "P (settings a)" "validateConcurrency (amConcurrency a) (amMaxConcurrent a) (amMaxRunsPerHour a) = None"
    using assms(1,3) by (auto simp: tables_ok_def settings_def)
  then have "(if amConcurrency a = ConcurrencyParallel then amMaxConcurrent a else 1) \<le> int (K (amID a)) \<and> amMaxRunsPerHour a \<le> int (N (amID a))"
    using assms(2) unfolding settings_within_def settings_def by blast
  then show "slot_limit a \<le> int (K (amID a))" "amMaxRunsPerHour a \<le> int (N (amID a))" by (auto simp: slot_limit_def)
qed

lemma limits_calm:
  assumes "limits_ok K N w" "calm S w w'" "\<And>i. count_runs active w' i \<le> K i"
  shows "limits_ok K N w'"
  using assms runs_evolve_queued [of S w w'] runs_evolve_counted [of S w w'] unfolding limits_ok_def calm_def
  by (meson order_trans)

lemma active_le_trans: "(\<And>i. count_runs active w' i \<le> count_runs active w i) \<Longrightarrow> (\<forall>i. count_runs active w i \<le> K i) \<Longrightarrow> \<forall>i. count_runs active w' i \<le> K i"
  by (meson order_trans)

lemma promote_active:
  assumes k: "keys_ok w" and b: "slot_limit a \<le> int (K (amID a))" and h: "\<forall>i. count_runs active w i \<le> K i"
  shows "\<forall>i. count_runs active (promoteQueued a w) i \<le> K i"
proof (cases rule: promoteQueued_cases [of a w])
  case (2 q)
  let ?w1 = "set_runs (\<lambda>r. arID r = arID q) (\<lambda>r. r\<lparr>arStatus := RunStarting, arStarted := Some (awNow w)\<rparr>) w"
  have "count_runs active ?w1 i \<le> K i" for i
  proof (cases "i = amID a")
    case True
    have "count_runs active ?w1 i \<le> count_runs active w i + 1"
      by (rule count_set_one) (use k in \<open>simp_all add: keys_ok_def\<close>)
    with 2(4) b True show ?thesis by (simp add: active_runs_count)
  next
    case False
    have "count_runs active ?w1 i = count_runs active w i"
      using run_unique [OF k 2(1)] 2(2) False by (intro count_set_other) auto
    with h show ?thesis by simp
  qed
  moreover have "count_runs active (promoteQueued a w) i \<le> count_runs active ?w1 i" for i
    unfolding 2(5) by (rule count_set_runs_le) (simp add: supersede_def active_def)
  ultimately show ?thesis by (meson order_trans)
qed (use h in simp)

lemma ended_active: "count_runs active (ended rid failed reason w) i \<le> count_runs active w i"
  unfolding ended_def by (rule count_set_runs_le) (simp add: active_def)

lemma mark_skipped_active: "count_runs active (mark_skipped rid reason err w) i \<le> count_runs active w i"
  unfolding mark_skipped_def by (rule count_set_runs_le) (simp add: active_def)

lemma drop_queue_active: "count_runs active (drop_queue j w) i \<le> count_runs active w i"
  unfolding drop_queue_def by (rule count_set_runs_le) (simp add: active_def)

lemma set_auto_count [simp]: "count_runs q (set_auto i g w) j = count_runs q w j"
  by (rule count_runs_cong) simp

lemma keys_ok_ended: "keys_ok w \<Longrightarrow> r \<in> set (awRuns w) \<Longrightarrow> arStatus r = RunStarting \<or> arStatus r = RunRunning \<Longrightarrow>
    (\<And>a. settings (g a) = settings a) \<Longrightarrow> keys_ok (set_auto i g (ended (arID r) failed reason w))"
  by (rule keys_ok_calm [OF keys_ok_calm [OF _ calm_ended] calm_set_auto])

lemma finalize_active:
  assumes k: "keys_ok w" and r: "r \<in> set (awRuns w)" "arStatus r = RunStarting \<or> arStatus r = RunRunning"
    and b: "\<And>a. a \<in> set (awAutos w) \<Longrightarrow> slot_limit a \<le> int (K (amID a))" and h: "\<forall>i. count_runs active w i \<le> K i"
  shows "\<forall>j. count_runs active (fst (finalizeRun (arID r) i failed reason w)) j \<le> K j"
proof -
  let ?e = "ended (arID r) failed reason w"
  have e: "\<forall>j. count_runs active ?e j \<le> K j" by (rule active_le_trans [OF ended_active h])
  show ?thesis
  proof (cases rule: finalizeRun_cases [of w i "arID r" failed reason])
    case 1
    with e show ?thesis by simp
  next
    case (2 a g)
    have "\<forall>j. count_runs active (set_auto i g ?e) j \<le> K j" using e by simp
    then show ?thesis unfolding 2(5) fst_conv by (rule active_le_trans [OF drop_queue_active])
  next
    case (3 a g)
    with e show ?thesis by simp
  next
    case (4 a g)
    have "keys_ok (set_auto i g ?e)" using 4(2) by (intro keys_ok_ended [OF k r]) blast
    moreover have "slot_limit a \<le> int (K (amID a))" using b find_auto_Some [OF 4(1)] by blast
    ultimately show ?thesis unfolding 4(5) fst_conv using e by (intro promote_active) simp_all
  qed
qed

lemma skipRun_active:
  assumes k: "keys_ok w" and r: "r \<in> set (awRuns w)" "arStatus r = RunStarting"
    and b: "\<And>a. a \<in> set (awAutos w) \<Longrightarrow> slot_limit a \<le> int (K (amID a))" and h: "\<forall>i. count_runs active w i \<le> K i"
  shows "\<forall>j. count_runs active (skipRun (arID r) i reason err w) j \<le> K j"
proof -
  let ?w = "mark_skipped (arID r) reason err w"
  have s: "\<forall>j. count_runs active ?w j \<le> K j" by (rule active_le_trans [OF mark_skipped_active h])
  have "calm {} w ?w" unfolding mark_skipped_def
    by (rule calm_set_run [OF k r(1)]) (simp_all add: same_keys_def r(2) moves_def final_def)
  then have k1: "keys_ok ?w" by (rule keys_ok_calm [OF k])
  show ?thesis unfolding skipRun_alt
  proof (cases rule: releaseSlot_cases [of i ?w])
    case 1
    with s show "\<forall>j. count_runs active (releaseSlot i ?w) j \<le> K j" by simp
  next
    case (2 a)
    then have "find_auto w i = Some a" by (simp add: mark_skipped_def)
    then have "slot_limit a \<le> int (K (amID a))" using b find_auto_Some by blast
    from promote_active [where K = K, OF k1 this s] 2(3) show "\<forall>j. count_runs active (releaseSlot i ?w) j \<le> K j" by simp
  qed
qed

lemma same_status_active:
  assumes "\<And>x. same_keys x (f x) \<and> arStatus (f x) = arStatus x"
  shows "count_runs active (set_runs (\<lambda>x. arID x = rid) f w) i \<le> count_runs active w i"
  using assms by (intro count_set_runs_le) (simp add: same_keys_def active_def)

lemma mark_running_active:
  assumes "keys_ok w" "r \<in> set (awRuns w)" "arStatus r = RunStarting"
  shows "count_runs active (mark_running (arID r) m w) i \<le> count_runs active w i"
  unfolding mark_running_def
proof (rule count_set_runs_le)
  fix x assume "x \<in> set (awRuns w)" "arID x = arID r"
  with run_unique [OF assms(1,2)] have "x = r" by blast
  with assms(3) show "arAutomation (x\<lparr>arStatus := RunRunning, arMission := Some m\<rparr>) = arAutomation x
      \<and> (active (x\<lparr>arStatus := RunRunning, arMission := Some m\<rparr>) \<longrightarrow> active x)" by (simp add: active_def)
qed

lemma with_mission_count [simp]: "count_runs q (with_mission m rid w) i = count_runs q w i"
  by (rule count_runs_cong) simp

lemma start_run_active:
  assumes k: "keys_ok w" and r: "r \<in> set (awRuns w)" "arStatus r = RunStarting"
    and b: "\<And>a. a \<in> set (awAutos w) \<Longrightarrow> slot_limit a \<le> int (K (amID a))" and h: "\<forall>i. count_runs active w i \<le> K i"
  shows "\<forall>j. count_runs active (fst (start_run env msg ins m r w)) j \<le> K j"
proof (cases rule: start_run_cases [of w r env msg ins m])
  case (1 l)
  show ?thesis unfolding 1(2) fst_conv by (rule active_le_trans [OF mark_running_active [OF k r] h])
next
  case 2
  have "keys_ok (with_mission m (arID r) w)" by (rule keys_ok_calm [OF k calm_with_mission])
  from mark_running_active [OF this, of r m] r have "count_runs active (mark_running (arID r) m (with_mission m (arID r) w)) i \<le> count_runs active w i" for i
    by simp
  from active_le_trans [OF this h] show ?thesis unfolding 2(2) fst_conv .
next
  case (3 err)
  show ?thesis unfolding 3(2) fst_conv by (rule skipRun_active [OF k r b h])
next
  case (4 f)
  show ?thesis unfolding 4(3) fst_conv by (rule active_le_trans [OF same_status_active [OF 4(2)] h])
next
  case (5 f reason w0)
  let ?w = "set_runs (\<lambda>x. arID x = arID r) f w0"
  have w0: "keys_ok w0" "awRuns w0 = awRuns w" "awAutos w0 = awAutos w" "\<And>i. count_runs active w0 i = count_runs active w i"
    using 5(3) k keys_ok_calm [OF k calm_with_mission] by auto
  have "calm {} w0 ?w" using 5(2) r(1) w0 by (intro calm_set_run) simp_all
  then have k1: "keys_ok ?w" by (rule keys_ok_calm [OF w0(1)])
  have fr: "f r \<in> set (awRuns ?w)" "arID (f r) = arID r" "arStatus (f r) = RunStarting"
    using r 5(2) [of r] w0(2) by (auto simp: same_keys_def)
  have "\<forall>i. count_runs active ?w i \<le> K i"
    by (rule active_le_trans [OF same_status_active [OF 5(2)]]) (simp add: w0(4) h)
  from finalize_active [where K = K, OF k1 fr(1) _ _ this, of "arAutomation r" True reason] fr b w0(3)
  show ?thesis unfolding 5(4) by simp
qed

lemma count_append: "count_runs q (w\<lparr>awRuns := awRuns w @ [r], awCount := c\<rparr>) i = count_runs q w i + (if arAutomation r = i \<and> q r then 1 else 0)"
  by (simp add: count_runs_def)

lemma runs_since_count: "runs_since w i t = int (count_runs (\<lambda>r. t < arCreated r \<and> arStatus r \<noteq> RunSkipped) w i)"
  by (simp add: runs_since_def runs_of_def count_runs_def conj_commute conj_left_commute)

lemma count_mono: "(\<And>r. q r \<Longrightarrow> q' r) \<Longrightarrow> count_runs q w i \<le> count_runs q' w i"
  unfolding count_runs_def by (rule filter_list_all2_le [where R = "(=)"]) (auto simp: list.rel_eq)

lemma fire_limits:
  assumes t: "tables_ok P w" and s: "settings_within P K N" and l: "limits_ok K N w"
  shows "limits_ok K N (fire origin i tr k obj w)"
proof (cases rule: fire_new [OF t, of origin i tr k obj])
  case (2 a en r w1)
  have a: "slot_limit a \<le> int (K i)" "amMaxRunsPerHour a \<le> int (N i)"
    using auto_within [OF t s] find_auto_Some [OF 2(1)] by auto
  have act: "count_runs active w1 j \<le> count_runs active w j" for j
    using 2(8) by (auto intro: count_set_runs_le simp: supersede_def active_def)
  have c: "calm {} w w1" using 2(8) calm_supersede by auto
  have l1: "limits_ok K N w1"
    by (rule limits_calm [OF l c]) (use act l in \<open>auto simp: limits_ok_def intro: order_trans\<close>)
  have "count_runs active w1 i < K i" if "active r"
  proof -
    from that 2(10,12) have "active_runs w i < slot_limit a" by (auto simp: active_def)
    with a(1) act [of i] show ?thesis by (simp add: active_runs_count)
  qed
  moreover have "count_runs queued w1 i = 0" if "queued r"
  proof -
    from that 2(9) have w1: "w1 = set_runs (\<lambda>x. arAutomation x = i \<and> arStatus x = RunQueued) (supersede (awNow w)) w"
      by (simp add: queued_def)
    show ?thesis unfolding w1 count_runs_def by (auto simp: filter_empty_conv queued_def supersede_def)
  qed
  moreover have "count_runs (counted t) w1 i < N i" if "counted t r" for t
  proof -
    from that have "arStatus r \<noteq> RunSkipped" "t < awNow w" "awNow w \<le> t + rateWindow"
      using 2(4) by (auto simp: counted_def fresh_run_def)
    with 2(11) a(2) have "count_runs (\<lambda>r. awNow w - rateWindow < arCreated r \<and> arStatus r \<noteq> RunSkipped) w i < N i"
      by (simp add: runs_since_count)
    moreover have "count_runs (counted t) w i \<le> count_runs (\<lambda>r. awNow w - rateWindow < arCreated r \<and> arStatus r \<noteq> RunSkipped) w i"
      using \<open>awNow w \<le> t + rateWindow\<close> by (intro count_mono) (auto simp: counted_def)
    moreover have "count_runs (counted t) w1 i \<le> count_runs (counted t) w i"
      using c runs_evolve_counted by (auto simp: calm_def)
    ultimately show ?thesis by linarith
  qed
  ultimately show ?thesis
    unfolding 2(3) using l1 2(5) by (auto simp: limits_ok_def count_append Suc_le_eq)
qed (use l in simp)

lemma finalizeMission_limits:
  assumes t: "tables_ok P w" and s: "settings_within P K N" and l: "limits_ok K N w"
  shows "limits_ok K N (fst (finalizeMission m failed w))"
proof (rule limits_calm [OF l finalizeMission_calm [OF t]])
  fix i
  have h: "\<forall>i. count_runs active w i \<le> K i" using l by (simp add: limits_ok_def)
  show "count_runs active (fst (finalizeMission m failed w)) i \<le> K i"
  proof (cases rule: finalizeMission_cases [of m failed w])
    case 1
    with h show ?thesis by simp
  next
    case (2 r)
    have "keys_ok w" using t by (simp add: tables_ok_def)
    from finalize_active [where K = K, OF this 2(1) linked_active [OF t 2(1,2,4)] auto_within(1) [OF t s] h]
    show ?thesis by (simp add: 2(5))
  qed
qed

lemma startOne_limits:
  assumes t: "tables_ok P w" and s: "settings_within P K N" and l: "limits_ok K N w"
  shows "limits_ok K N (startOne env msg ins commits m tried w)"
proof (cases rule: startOne_cases [OF t, of env msg ins commits m tried])
  case 1
  with l show ?thesis by simp
next
  case (2 r)
  have "limits_ok K N (with_mission m (arID r) w)" using l by (simp add: limits_ok_def)
  with 2(4) show ?thesis by simp
next
  case (3 r)
  have k: "keys_ok w" using t by (simp add: tables_ok_def)
  have h: "\<forall>i. count_runs active w i \<le> K i" using l by (simp add: limits_ok_def)
  have "calm {} w (fst (start_run env msg ins m r w))" by (rule calm_start_run [OF k 3(1,2)]) simp
  from limits_calm [OF l this] start_run_active [where K = K, OF k 3(1,2) auto_within(1) [OF t s] h]
  show ?thesis by (simp add: 3(4))
qed

lemma limits_runs_cong: "awRuns w' = awRuns w \<Longrightarrow> limits_ok K N w \<Longrightarrow> limits_ok K N w'"
  unfolding limits_ok_def count_runs_def by simp

lemma count_filter_le: "awRuns w' = filter p (awRuns w) \<Longrightarrow> count_runs q w' i \<le> count_runs q w i"
proof -
  assume "awRuns w' = filter p (awRuns w)"
  moreover have "length (filter q (filter p rs)) \<le> length (filter q rs)" for q :: "AutoRun \<Rightarrow> bool" and rs
    by (induction rs) auto
  ultimately show ?thesis by (simp add: count_runs_def del: filter_filter)
qed

lemma step_limits:
  assumes "auto_step P ok w w'" "tables_ok P w" "settings_within P K N" "limits_ok K N w"
  shows "limits_ok K N w'"
  using assms(1)
proof (cases rule: auto_step.cases)
  case (create cron_ok compiles i ids a)
  from create_automation_parts [OF create(1)] obtain row where "w' = w\<lparr>awAutos := awAutos w @ [row]\<rparr>" .
  then have "awRuns w' = awRuns w" by simp
  then show ?thesis by (rule limits_runs_cong [OF _ assms(4)])
next
  case (patch cron_ok compiles i ids p)
  from patch_automation_parts [OF patch(1)] obtain before v gone where v:
    "w' = set_runs (\<lambda>r. arAutomation r = i \<and> (\<exists>t \<in> gone. arTrigger r = Some t)) (\<lambda>r. r\<lparr>arTrigger := None\<rparr>) (set_auto i (\<lambda>_. v) w)" .
  have "count_runs q w' j \<le> count_runs q (set_auto i (\<lambda>_. v) w) j" if "\<And>r. q (r\<lparr>arTrigger := None\<rparr>) = q r" for q j
    unfolding v by (rule count_set_runs_le) (simp add: that)
  then have "count_runs active w' j \<le> count_runs active w j" "count_runs queued w' j \<le> count_runs queued w j"
    "count_runs (counted t) w' j \<le> count_runs (counted t) w j" for j t
    by (simp_all add: active_def queued_def counted_def)
  with assms(4) show ?thesis unfolding limits_ok_def by (meson order_trans)
next
  case (remove i)
  have "count_runs q w' j \<le> count_runs q w j" for q j unfolding remove by (rule count_filter_le) (rule delete_automation_sel)
  with assms(4) show ?thesis unfolding limits_ok_def by (meson order_trans)
next
  case (put i n c)
  then have "awRuns w' = awRuns w" by (auto simp: PutNote_def Let_def split: if_splits)
  then show ?thesis by (rule limits_runs_cong [OF _ assms(4)])
next
  case (event rx ev d)
  define keeps where "keeps = (\<lambda>w. tables_ok P w \<and> limits_ok K N w)"
  have "keeps w'"
    by (rule Handle_event_inv [OF event, of keeps])
      (use assms(2-4) fire_tables fire_limits finalizeMission_tables finalizeMission_limits in \<open>auto simp: keeps_def\<close>)
  then show ?thesis by (simp add: keeps_def)
next
  case (starts m env msg ins commits tried)
  with startOne_limits assms(2-4) show ?thesis by simp
next
  case (forget m)
  have "calm {} w w'" unfolding forget by (rule calm_forget)
  have "count_runs active w' i \<le> count_runs active w i" for i
  proof -
    have "count_runs active w' i = count_runs active (set_runs (\<lambda>r. arMission r = Some m) (\<lambda>r. r\<lparr>arMission := None\<rparr>) w) i"
      unfolding forget by (rule count_runs_cong) (simp add: forget_mission_def)
    also have "\<dots> \<le> count_runs active w i" by (rule count_set_runs_le) (simp add: active_def)
    finally show ?thesis .
  qed
  then have "count_runs active w' i \<le> K i" for i using assms(4) unfolding limits_ok_def by (meson order_trans)
  with \<open>calm {} w w'\<close> show ?thesis by (intro limits_calm [OF assms(4)])
next
  case (unput i n)
  then have "awRuns w' = awRuns w" by (simp add: DeleteNote_def)
  then show ?thesis by (rule limits_runs_cong [OF _ assms(4)])
next
  case (auth i tid)
  then have "awRuns w' = awRuns w" by simp
  then show ?thesis by (rule limits_runs_cong [OF _ assms(4)])
next
  case (mission m)
  then have "awRuns w' = awRuns w" by simp
  then show ?thesis by (rule limits_runs_cong [OF _ assms(4)])
next
  case (tick n)
  then have "awRuns w' = awRuns w" by simp
  then show ?thesis by (rule limits_runs_cong [OF _ assms(4)])
qed

lemma reach_limits: "auto_reach P ok w \<Longrightarrow> settings_within P K N \<Longrightarrow> limits_ok K N w"
proof (induction rule: auto_reach.induct)
  case (boot ids now)
  then show ?case by (simp add: limits_ok_def count_runs_def empty_tables_def)
next
  case (step w w')
  then show ?case using step_limits reach_tables by blast
qed

text \<open>C36. The ceilings of an automation hold under every order of operator writes, events, starter passes, crashes
  and deletions: never more runs at once than its settings allow, never more than one queued run, and in no
  window of an hour more runs than its hourly limit (skipped ones apart). \<open>K\<close> and \<open>N\<close> bound the settings an operator
  ever stores; three and sixty always do, since a stored automation passed \<open>validate\<close>.\<close>

theorem automation_ceilings_hold:
  assumes "auto_reach P ok w" "settings_within P K N"
  shows "active_runs w i \<le> int (K i)
    \<and> length (filter (\<lambda>r. arStatus r = RunQueued) (runs_of w i)) \<le> 1
    \<and> length (filter (counted t) (runs_of w i)) \<le> N i"
  using reach_limits [OF assms]
  by (simp add: limits_ok_def active_runs_count count_runs_def runs_of_def queued_def conj_commute)

text \<open>The settings every stored automation has.\<close>

lemma validated_settings: "settings_within (\<lambda>_. True) (\<lambda>_. 3) (\<lambda>_. 60)"
  by (auto simp: settings_within_def validateConcurrency_def split: if_splits)

text \<open>An automation started by hand, and what happens to its runs.\<close>

definition u1 :: string where "u1 = ''00000000-0000-0000-0000-000000000001''"
definition u2 :: string where "u2 = ''00000000-0000-0000-0000-000000000002''"

definition demo_auto :: Automation where
  "demo_auto = \<lparr>amID = [], amName = ''a'', amDescription = [], amAgentID = u1,
     amAction = \<lparr>acKind = ''mission'', acMission = Some
       \<lparr>mtGoal = ''do it'', mtName = [], mtKind = ''general'', mtRoute = ''r'', mtReviewRoute = [], mtPlanRoute = [],
        mtMaxIterations = 0, mtBudgetAmount = None, mtBudgetCurrency = [], mtHarness = [], mtReviewHarness = [],
        mtLight = True, mtAutoApproveTools = True, mtDestinationIDs = [], mtAttachments = []\<rparr>, acWorkflowID = []\<rparr>,
     amConcurrency = ''queue'', amMaxConcurrent = 1, amMaxRunsPerHour = 6, amContinuity = False, amNotesEnabled = False,
     amFailures = 0, amDisabledReason = [], amEnabled = True, amExpires = None, amCreated = 0,
     amTriggers = [\<lparr>tgID = [], tgKind = ''manual'', tgConfig = EmptyConfig, tgCredential = [], tgAllowlist = None,
       tgEnabled = True, tgCreated = 0, tgLastFired = None, tgAuthFailures = [], tgDisabledReason = []\<rparr>]\<rparr>"

definition demo_ids :: "nat \<Rightarrow> string" where "demo_ids n = replicate n CHR ''x''"

definition run_now :: "string \<Rightarrow> auto_event" where
  "run_now k = \<lparr>aeKind = KindRunNow, aeSource = ''manual'', aeDedup = k, aeOrigin = [], aePayload = RunNow u2 ''t''\<rparr>"

definition mission_event :: "bool \<Rightarrow> auto_event" where
  "mission_event failed = \<lparr>aeKind = ''mission'', aeSource = ''mission'', aeDedup = u1, aeOrigin = [], aePayload = MissionEnded u1 failed\<rparr>"

definition demo_env :: StarterEnv where
  "demo_env =
     \<lparr>svResolve = \<lparr>rdDecide = None, rdClassify = None, rdAgent = None, rdRouteForRole = None, rdRouteExists = None,
        rdCodingExecutorDefault = None, rdDefaultMaxIterations = None, rdResolveRoute = None\<rparr>,
      svRegistries = demo_registries, svValidate = None, svAgentExists = (\<lambda>_. True), svLineage = None,
      svDestinationEnabled = None\<rparr>"

definition demo_start :: "AutoWorld \<Rightarrow> AutoWorld" where
  "demo_start w = startOne demo_env (\<lambda>_. []) Inserted True u1 [] w"

definition handled :: "auto_event \<Rightarrow> AutoWorld \<Rightarrow> AutoWorld" where
  "handled ev w = (case Handle_event (\<lambda>_ _. None) ev w of Some (w', _) \<Rightarrow> w' | None \<Rightarrow> w)"

definition demo_row :: Automation where
  "demo_row = demo_auto\<lparr>amID := u2, amTriggers := map (\<lambda>t. t\<lparr>tgID := demo_ids 0\<rparr>) (amTriggers demo_auto)\<rparr>"

definition demo_run :: "nat \<Rightarrow> string \<Rightarrow> run_status \<Rightarrow> AutoRun" where
  "demo_run n k stat =
     \<lparr>arID = demo_ids n, arAutomation = u2, arTrigger = None, arDedup = k, arStatus = stat, arSkipReason = [],
      arEvent = head_fields (run_now k) @ [(''requested_at'', JString ''t'')], arStartError = [], arStartAttempts = 0,
      arStartAttemptAt = None, arMission = None, arCreated = 0, arStarted = (if stat = RunStarting then Some 0 else None),
      arFinished = None\<rparr>"

definition demo_world :: "AutoRun list \<Rightarrow> (string \<times> string option) list \<Rightarrow> AutoWorld" where
  "demo_world rs ms =
     \<lparr>awNow = 0, awAutos = [demo_row], awRuns = rs, awMissions = ms, awNotes = [], awIDs = demo_ids, awCount = length rs\<rparr>"

text \<open>One run is about to start, one is queued behind it; then the first runs.\<close>

definition demo_due :: AutoWorld where
  "demo_due = demo_world [demo_run 0 ''k1'' RunStarting, demo_run 1 ''k2'' RunQueued] []"

definition demo_busy :: AutoWorld where
  "demo_busy = demo_world
     [(demo_run 0 ''k1'' RunStarting)\<lparr>arStatus := RunRunning, arMission := Some u1\<rparr>, demo_run 1 ''k2'' RunQueued]
     [(u1, Some (demo_ids 0))]"

text \<open>Worlds are compared without the generator of identifiers, which no operation changes.\<close>

definition tables :: "AutoWorld \<Rightarrow> int \<times> Automation list \<times> AutoRun list \<times> (string \<times> string option) list \<times> AutoNote list \<times> nat" where
  "tables w = (awNow w, awAutos w, awRuns w, awMissions w, awNotes w, awCount w)"

lemma same_tables: "tables w = tables w' \<Longrightarrow> awIDs w = awIDs w' \<Longrightarrow> w = (w' :: AutoWorld)"
  by (simp add: tables_def)

lemma ids_sel [simp]:
  "awIDs (promoteQueued a w) = awIDs w" "awIDs (ended rid failed reason w) = awIDs w" "awIDs (drop_queue i w) = awIDs w"
  "awIDs (mark_running rid m w) = awIDs w" "awIDs (mark_skipped rid reason err w) = awIDs w"
  by (auto simp: promoteQueued_def ended_def drop_queue_def mark_running_def mark_skipped_def Let_def split: option.split)

lemma finalizeRun_ids [simp]: "awIDs (fst (finalizeRun rid i failed reason w)) = awIDs w"
  by (cases rule: finalizeRun_cases [of w i rid failed reason]) simp_all

lemma skipRun_ids [simp]: "awIDs (skipRun rid i reason err w) = awIDs w"
  unfolding skipRun_alt by (cases rule: releaseSlot_cases [of i "mark_skipped rid reason err w"]) simp_all

lemma fire_ids [simp]: "awIDs (fire origin i tr k obj w) = awIDs w"
  by (cases rule: fire_cases [of origin i tr k obj w]) (simp_all add: record_run_def Let_def split: prod.split)

lemma finalizeMission_ids [simp]: "awIDs (fst (finalizeMission m failed w)) = awIDs w"
  by (cases rule: finalizeMission_cases [of m failed w]) simp_all

lemma start_run_ids [simp]: "awIDs (fst (start_run env msg ins m r w)) = awIDs w"
  by (cases rule: start_run_cases [of w r env msg ins m]) auto

lemma handled_ids [simp]: "awIDs (handled ev w) = awIDs w"
proof (cases "Handle_event (\<lambda>_ _. None) ev w")
  case (Some x)
  then obtain w' d where "Handle_event (\<lambda>_ _. None) ev w = Some (w', d)" by (cases x) auto
  from Handle_event_inv [OF this, of "\<lambda>v. awIDs v = awIDs w"] this show ?thesis by (simp add: handled_def)
qed (simp add: handled_def)

lemma demo_create:
  "create_automation (\<lambda>_. True) (\<lambda>_. True) u2 demo_ids demo_auto (empty_tables demo_ids 0) = Some (demo_world [] [])"
proof -
  have "map_option tables (create_automation (\<lambda>_. True) (\<lambda>_. True) u2 demo_ids demo_auto (empty_tables demo_ids 0))
      = Some (tables (demo_world [] []))" by code_simp
  then obtain w where w: "create_automation (\<lambda>_. True) (\<lambda>_. True) u2 demo_ids demo_auto (empty_tables demo_ids 0) = Some w"
    "tables w = tables (demo_world [] [])" by auto
  from create_automation_parts [OF w(1)] obtain row where "w = (empty_tables demo_ids 0)\<lparr>awAutos := awAutos (empty_tables demo_ids 0) @ [row]\<rparr>" .
  then have "awIDs w = awIDs (demo_world [] [])" by (simp add: empty_tables_def demo_world_def)
  with w show ?thesis using same_tables by metis
qed

lemma demo_fires:
  "handled (run_now ''k1'') (demo_world [] []) = demo_world [demo_run 0 ''k1'' RunStarting] []"
  "handled (run_now ''k2'') (demo_world [demo_run 0 ''k1'' RunStarting] []) = demo_due"
proof -
  have "tables (handled (run_now ''k1'') (demo_world [] [])) = tables (demo_world [demo_run 0 ''k1'' RunStarting] [])" by code_simp
  then show "handled (run_now ''k1'') (demo_world [] []) = demo_world [demo_run 0 ''k1'' RunStarting] []"
    by (rule same_tables) (simp add: demo_world_def)
  have "tables (handled (run_now ''k2'') (demo_world [demo_run 0 ''k1'' RunStarting] [])) = tables demo_due" by code_simp
  then show "handled (run_now ''k2'') (demo_world [demo_run 0 ''k1'' RunStarting] []) = demo_due"
    by (rule same_tables) (simp add: demo_world_def demo_due_def)
qed

text \<open>The due run gets a mission: nothing stands in its way.\<close>

lemma demo_mission: obtains nm where "run_mission demo_env demo_due (demo_run 0 ''k1'' RunStarting) = Inr nm"
proof -
  have a: "find_auto demo_due u2 = Some demo_row" by (simp add: demo_due_def demo_world_def find_auto_def demo_row_def)
  have k: "obj_get (arEvent (demo_run 0 ''k1'' RunStarting)) ''kind'' = Some (JString KindRunNow)" by code_simp
  have t: "triggerAllowlist (amTriggers demo_row) None (Some (JString KindRunNow)) = Inr []"
    by (simp add: triggerAllowlist_def demo_row_def demo_auto_def)
  obtain tpl where tpl: "acKind (amAction demo_row) = ''mission''" "acMission (amAction demo_row) = Some tpl" "ValidateTemplate tpl = None"
  proof -
    have "map_option ValidateTemplate (acMission (amAction demo_row)) = Some None \<and> acKind (amAction demo_row) = ''mission''" by code_simp
    then show thesis using that by auto
  qed
  have c: "\<not> amContinuity demo_row" by (simp add: demo_row_def demo_auto_def)
  obtain req where req: "createRequest demo_env demo_due demo_row tpl (demo_ids 0) (arEvent (demo_run 0 ''k1'' RunStarting)) [] = Inr req"
    "crToolAllowlist req = None"
  proof -
    have "\<exists>req. createRequest demo_env demo_due demo_row tpl i ev [] = Inr req \<and> crToolAllowlist req = None" for i ev
      unfolding createRequest_def Let_def by (simp add: c run_allowlist_def)
    then show thesis using that by blast
  qed
  define m where "m = resolved_mission (svResolve demo_env) req"
  have "first_unusable None axes seen = None" for axes seen by (induction axes arbitrary: seen) (simp_all add: RouteUnusable_def)
  then have d: "ResolveDefaults (svResolve demo_env) req = Inr m"
    unfolding ResolveDefaults_def UnusableCreateRoute_def m_def [symmetric] by (simp add: demo_env_def)
  have "nmToolAllowlist m = None" using req(2) by (simp add: m_def resolved_mission_def Let_def normalizeToolAllowlist_def)
  then have h: "CheckToolAllowlistHarness m = None" by (simp add: CheckToolAllowlistHarness_def delegatedAllowlistGap_def)
  have r: "arAutomation (demo_run 0 ''k1'' RunStarting) = u2" "arTrigger (demo_run 0 ''k1'' RunStarting) = None"
    "arID (demo_run 0 ''k1'' RunStarting) = demo_ids 0" by (simp_all add: demo_run_def)
  have e: "svAgentExists demo_env x" "svValidate demo_env = None" for x by (simp_all add: demo_env_def)
  have "run_mission demo_env demo_due (demo_run 0 ''k1'' RunStarting) = Inr m"
    by (simp add: run_mission_def a k t tpl req(1) d h r e)
  then show thesis by (rule that)
qed

lemma demo_starts: "demo_start demo_due = demo_busy"
proof -
  obtain nm where nm: "run_mission demo_env demo_due (demo_run 0 ''k1'' RunStarting) = Inr nm" by (rule demo_mission)
  have c: "claim_run [] demo_due = Some (demo_run 0 ''k1'' RunStarting)" by code_simp
  have i: "arID (demo_run 0 ''k1'' RunStarting) = demo_ids 0" by (simp add: demo_run_def)
  have l: "linked_mission demo_due (demo_ids 0) = None" by (simp add: linked_mission_def demo_due_def demo_world_def)
  have "demo_start demo_due
      = mark_running (demo_ids 0) u1 (demo_due\<lparr>awMissions := awMissions demo_due @ [(u1, Some (demo_ids 0))]\<rparr>)"
    by (simp add: demo_start_def startOne_def c start_run_def i l nm)
  also have "\<dots> = demo_busy"
    by (simp add: mark_running_def set_runs_def demo_due_def demo_busy_def demo_world_def demo_run_def demo_ids_def)
  finally show ?thesis .
qed

lemma handled_reach: "auto_reach P ok w \<Longrightarrow> auto_reach P ok (handled ev w)"
  by (auto simp: handled_def split: option.split intro: auto_reach.step auto_step.event)

lemma demo_due_reach: "auto_reach (\<lambda>_. True) ok demo_due"
proof -
  have "auto_reach (\<lambda>_. True) ok (empty_tables demo_ids 0)"
    by (rule auto_reach.boot) (simp add: inj_def demo_ids_def)
  then have "auto_reach (\<lambda>_. True) ok (demo_world [] [])"
    by (rule auto_reach.step) (rule auto_step.create [OF demo_create], simp)
  from handled_reach [OF handled_reach [OF this], of "run_now ''k2''" "run_now ''k1''"] show ?thesis
    by (simp add: demo_fires)
qed

lemma demo_busy_reach: "auto_reach (\<lambda>_. True) ok demo_busy"
  unfolding demo_starts [symmetric] demo_start_def
  by (intro auto_reach.step [OF demo_due_reach] auto_step.starts) (simp add: demo_due_def demo_world_def)

theorem automation_ceilings_hold_witness:
  "map arStatus (awRuns demo_busy) = [RunRunning, RunQueued]
    \<and> active_runs demo_busy u2 \<le> 3 \<and> length (filter (\<lambda>r. arStatus r = RunQueued) (runs_of demo_busy u2)) \<le> 1
    \<and> length (filter (counted (- 5)) (runs_of demo_busy u2)) \<le> 60"
  using automation_ceilings_hold [OF demo_busy_reach validated_settings, of u2 "- 5"]
  by (simp add: demo_busy_def demo_world_def demo_run_def)

section \<open>One mission per run\<close>

text \<open>C37. An event starts at most one run of an automation, and a run at most one mission, also when the starter
  crashes between the commit of the mission and that of the run: the keys of the runs are distinct, no two
  missions link the same run, and a run with a mission is neither waiting in the queue nor recorded as skipped.\<close>

theorem each_run_gets_one_mission:
  assumes "auto_reach P ok w"
  shows "distinct (map (\<lambda>r. (arAutomation r, arDedup r)) (awRuns w)) \<and> distinct (links w)
    \<and> (\<forall>r \<in> set (awRuns w). arID r \<in> set (links w) \<longrightarrow> arStatus r \<noteq> RunQueued \<and> arStatus r \<noteq> RunSkipped)"
proof -
  from reach_tables [OF assms] have t: "keys_ok w" "links_ok w" by (simp_all add: tables_ok_def)
  have "arStatus r \<noteq> RunQueued \<and> arStatus r \<noteq> RunSkipped" if r: "r \<in> set (awRuns w)" "arID r \<in> set (links w)" for r
  proof -
    from t(2) r(2) obtain x where "x \<in> set (awRuns w)" "arID x = arID r" "arStatus x \<noteq> RunQueued" "arStatus x \<noteq> RunSkipped"
      by (auto simp: links_ok_def)
    with run_unique [OF t(1) r(1)] show ?thesis by blast
  qed
  with t show ?thesis by (simp add: keys_ok_def links_ok_def)
qed

theorem each_run_gets_one_mission_witness:
  "distinct (map (\<lambda>r. (arAutomation r, arDedup r)) (awRuns demo_busy)) \<and> distinct (links demo_busy) \<and> links demo_busy \<noteq> []"
  using each_run_gets_one_mission [OF demo_busy_reach] by (simp add: demo_busy_def demo_world_def links_def)

section \<open>A finished run is final\<close>

definition held :: "(nat \<Rightarrow> string) \<Rightarrow> nat \<Rightarrow> run_status \<Rightarrow> AutoWorld \<Rightarrow> bool" where
  "held ids n st w = (awIDs w = ids \<and> n < awCount w \<and> (\<forall>r \<in> set (awRuns w). arID r = ids n \<longrightarrow> arStatus r = st))"

lemma held_evolves:
  assumes "held ids n st w" "runs_evolve S w w'" "final st"
  shows "held ids n st w'"
proof -
  have "arStatus r' = st" if "r' \<in> set (awRuns w')" "arID r' = ids n" for r'
  proof -
    from assms(2) have "list_all2 (\<lambda>r' r. same_keys r r' \<and> moves (arID r \<in> S) (arStatus r) (arStatus r')) (awRuns w') (awRuns w)"
      unfolding runs_evolve_def by (simp add: list_all2_conv_all_nth)
    from list_all2_mem [OF this that(1)] obtain r where r: "r \<in> set (awRuns w)" "same_keys r r'"
      "moves (arID r \<in> S) (arStatus r) (arStatus r')" by blast
    with assms(1) that(2) have "arStatus r = st" by (auto simp: held_def same_keys_def)
    with r(3) assms(3) show ?thesis by (auto simp: moves_def)
  qed
  with assms(1,2) show ?thesis by (simp add: held_def runs_evolve_def)
qed

lemma held_runs_cong: "awRuns w' = awRuns w \<Longrightarrow> awIDs w' = awIDs w \<Longrightarrow> awCount w' = awCount w \<Longrightarrow> held ids n st w \<Longrightarrow> held ids n st w'"
  by (simp add: held_def)

lemma fire_held:
  assumes t: "tables_ok P w" and h: "held ids n st w" "final st"
  shows "held ids n st (fire origin i tr k obj w)"
proof (cases rule: fire_new [OF t, of origin i tr k obj])
  case (2 a en r w1)
  have "calm {} w w1" using 2(8) calm_supersede by auto
  then have h1: "held ids n st w1" using held_evolves h by (auto simp: calm_def)
  have "arID r = ids (awCount w)" using 2(4) h(1) by (simp add: fresh_run_def held_def)
  moreover have "inj ids" "n < awCount w" using t h(1) by (auto simp: tables_ok_def keys_ok_def held_def)
  ultimately have "arID r \<noteq> ids n" by (auto simp: inj_def)
  with h1 \<open>n < awCount w\<close> show ?thesis unfolding 2(3) by (auto simp: held_def)
qed (use h in simp)

lemma step_held:
  assumes "auto_step P ok w w'" "tables_ok P w" "held ids n st w" "final st"
  shows "held ids n st w'"
  using assms(1)
proof (cases rule: auto_step.cases)
  case (create cron_ok compiles i ids' a)
  from create_automation_parts [OF create(1)] obtain row where "w' = w\<lparr>awAutos := awAutos w @ [row]\<rparr>" .
  then show ?thesis using held_runs_cong [OF _ _ _ assms(3)] by simp
next
  case (patch cron_ok compiles i ids' p)
  from patch_automation_parts [OF patch(1)] obtain before v gone where v:
    "w' = set_runs (\<lambda>r. arAutomation r = i \<and> (\<exists>t \<in> gone. arTrigger r = Some t)) (\<lambda>r. r\<lparr>arTrigger := None\<rparr>) (set_auto i (\<lambda>_. v) w)" .
  have "runs_evolve {} w w'" unfolding v by (rule runs_evolve_trans [OF runs_evolve_runs_cong runs_evolve_forget_trigger]) simp_all
  with held_evolves assms(3,4) show ?thesis by blast
next
  case (remove i)
  with assms(3) show ?thesis by (simp add: held_def delete_automation_sel)
next
  case (put i n' c)
  then have "awRuns w' = awRuns w" "awIDs w' = awIDs w" "awCount w' = awCount w" by (auto simp: PutNote_def Let_def split: if_splits)
  then show ?thesis using held_runs_cong [OF _ _ _ assms(3)] by simp
next
  case (event rx ev d)
  define keeps where "keeps = (\<lambda>w. tables_ok P w \<and> held ids n st w)"
  have ends: "keeps (fst (finalizeMission m failed w))" if "keeps w" for m failed w
    using that finalizeMission_tables finalizeMission_calm [of P w "{}" m failed] held_evolves [OF _ _ assms(4)]
    unfolding keeps_def calm_def by blast
  have "keeps w'"
    by (rule Handle_event_inv [OF event, of keeps])
      (use assms(2,3) fire_tables fire_held [OF _ _ assms(4)] ends in \<open>auto simp: keeps_def\<close>)
  then show ?thesis by (simp add: keeps_def)
next
  case (starts m env msg ins commits tried)
  show ?thesis unfolding starts
  proof (cases rule: startOne_cases [OF assms(2), of env msg ins commits m tried])
    case 1
    with assms(3) show "held ids n st (startOne env msg ins commits m tried w)" by simp
  next
    case (2 r)
    show "held ids n st (startOne env msg ins commits m tried w)" unfolding 2(4) using held_runs_cong [OF _ _ _ assms(3)] by simp
  next
    case (3 r)
    have "calm {} w (fst (start_run env msg ins m r w))"
      by (rule calm_start_run [OF _ 3(1,2)]) (use assms(2) in \<open>simp_all add: tables_ok_def\<close>)
    with held_evolves [OF assms(3) _ assms(4)] show "held ids n st (startOne env msg ins commits m tried w)"
      unfolding 3(4) calm_def by blast
  qed
next
  case (forget m)
  have "calm {} w w'" unfolding forget by (rule calm_forget)
  with held_evolves [OF assms(3) _ assms(4)] show ?thesis unfolding calm_def by blast
next
  case (unput i n')
  then show ?thesis using held_runs_cong [OF _ _ _ assms(3)] by (simp add: DeleteNote_def)
next
  case (auth i tid)
  then show ?thesis using held_runs_cong [OF _ _ _ assms(3)] by simp
next
  case (mission m)
  then show ?thesis using held_runs_cong [OF _ _ _ assms(3)] by simp
next
  case (tick n')
  then show ?thesis using held_runs_cong [OF _ _ _ assms(3)] by simp
qed

text \<open>C38. A finished run is final: once a run is done, failed or skipped, whatever the operator, the events, the
  starter and the missions do later, its row is either deleted with its automation or still says so.\<close>

theorem finished_runs_are_final:
  assumes "auto_reach P ok w" "(auto_step P ok)\<^sup>*\<^sup>* w w'"
    and "r \<in> set (awRuns w)" "final (arStatus r)" "r' \<in> set (awRuns w')" "arID r' = arID r"
  shows "arStatus r' = arStatus r"
proof -
  from reach_tables [OF assms(1)] have t: "tables_ok P w" .
  then obtain n where n: "n < awCount w" "arID r = awIDs w n" using assms(3) by (auto simp: tables_ok_def keys_ok_def)
  have "arStatus x = arStatus r" if "x \<in> set (awRuns w)" "arID x = awIDs w n" for x
    using run_unique [of w r x] t assms(3) that n(2) by (simp add: tables_ok_def)
  with n(1) have "held (awIDs w) n (arStatus r) w" by (simp add: held_def)
  from assms(2) this t have "held (awIDs w) n (arStatus r) w' \<and> tables_ok P w'"
    by (induction rule: rtranclp_induct) (auto intro: step_held [OF _ _ _ assms(4)] step_tables)
  with assms(5,6) n(2) show ?thesis by (simp add: held_def)
qed

text \<open>The first run ends well, which starts the second; asking for the first again changes nothing.\<close>

definition demo_done :: AutoWorld where "demo_done = handled (mission_event False) demo_busy"
definition demo_later :: AutoWorld where "demo_later = handled (run_now ''k1'') demo_done"

lemma handled_step: "auto_step P ok w (handled ev w) \<or> handled ev w = w"
  by (auto simp: handled_def split: option.split intro: auto_step.event)

lemma handled_steps: "(auto_step P ok)\<^sup>*\<^sup>* w (handled ev w)"
  using handled_step [of P ok w ev] by auto

theorem finished_runs_are_final_witness:
  "\<exists>r r'. r \<in> set (awRuns demo_done) \<and> arStatus r = RunDone \<and> r' \<in> set (awRuns demo_later) \<and> arStatus r' = arStatus r"
proof -
  have "map (\<lambda>r. (arID r, arStatus r)) (awRuns demo_done) = [(demo_ids 0, RunDone), (demo_ids 1, RunStarting)]" by code_simp
  then obtain r rs where r: "awRuns demo_done = r # rs" "arID r = demo_ids 0" "arStatus r = RunDone" by auto
  have "map arID (awRuns demo_later) = [demo_ids 0, demo_ids 1]" by code_simp
  then obtain r' rs' where r': "awRuns demo_later = r' # rs'" "arID r' = demo_ids 0" by auto
  have "auto_reach (\<lambda>_. True) (\<lambda>_ _. True) demo_done" unfolding demo_done_def by (rule handled_reach [OF demo_busy_reach])
  from finished_runs_are_final [OF this, of demo_later r r'] r r' handled_steps
  have "arStatus r' = arStatus r" by (auto simp: demo_later_def final_def)
  with r r' show ?thesis by (intro exI [of _ r] exI [of _ r']) simp
qed

section \<open>No queued run beside a free slot\<close>

definition wait_ok :: "AutoWorld \<Rightarrow> bool" where
  "wait_ok w = (\<forall>a \<in> set (awAutos w). 0 < count_runs queued w (amID a) \<longrightarrow> amEnabled a \<and> slot_limit a \<le> active_runs w (amID a))"

definition keeps_slots :: "Automation \<Rightarrow> Automation \<Rightarrow> bool" where
  "keeps_slots x y = (amEnabled y = amEnabled x \<and> slot_limit y = slot_limit x)"

lemma wait_ok_mono:
  assumes "wait_ok w" "\<And>i. count_runs queued w' i \<le> count_runs queued w i" "\<And>i. count_runs active w i \<le> count_runs active w' i"
    and "\<And>y. y \<in> set (awAutos w') \<Longrightarrow> \<exists>x \<in> set (awAutos w). amID x = amID y \<and> keeps_slots x y"
  shows "wait_ok w'"
  unfolding wait_ok_def
proof (intro ballI impI)
  fix y assume y: "y \<in> set (awAutos w')" "0 < count_runs queued w' (amID y)"
  from assms(4) [OF y(1)] obtain x where x: "x \<in> set (awAutos w)" "amID x = amID y" "keeps_slots x y" by blast
  have "0 < count_runs queued w (amID x)" using y(2) assms(2) [of "amID y"] x(2) by simp
  with assms(1) x(1) have "amEnabled x \<and> slot_limit x \<le> active_runs w (amID x)" by (simp add: wait_ok_def)
  with assms(3) [of "amID y"] x show "amEnabled y \<and> slot_limit y \<le> active_runs w' (amID y)"
    by (simp add: keeps_slots_def active_runs_count)
qed

lemma keeps_slots_refl [simp]: "keeps_slots a a"
  by (simp add: keeps_slots_def)

lemma settings_slot: "settings y = settings x \<Longrightarrow> slot_limit y = slot_limit x \<and> amID y = amID x"
  by (simp add: settings_def slot_limit_def)

lemma count_set_eq:
  assumes "\<And>r. r \<in> set (awRuns w) \<Longrightarrow> p r \<Longrightarrow> arAutomation (f r) = arAutomation r \<and> q (f r) = q r"
  shows "count_runs q (set_runs p f w) i = count_runs q w i"
proof -
  have "length (filter (\<lambda>r. arAutomation r = i \<and> q r) (map (\<lambda>r. if p r then f r else r) rs)) = length (filter (\<lambda>r. arAutomation r = i \<and> q r) rs)"
    if "set rs \<subseteq> set (awRuns w)" for rs
    using that
  proof (induction rs)
    case (Cons r rs)
    have "p r \<Longrightarrow> arAutomation (f r) = arAutomation r \<and> q (f r) = q r" using Cons.prems assms [of r] by simp
    with Cons show ?case by (cases "p r") simp_all
  qed simp
  then show ?thesis by (simp add: count_runs_def)
qed

lemma promote_other:
  assumes "keys_ok w" "j \<noteq> amID a"
  shows "count_runs q (promoteQueued a w) j = count_runs q w j"
proof (cases rule: promoteQueued_cases [of a w])
  case (2 x)
  let ?w1 = "set_runs (\<lambda>r. arID r = arID x) (\<lambda>r. r\<lparr>arStatus := RunStarting, arStarted := Some (awNow w)\<rparr>) w"
  have "count_runs q ?w1 j = count_runs q w j"
    using run_unique [OF assms(1) 2(1)] 2(2) assms(2) by (intro count_set_other) auto
  moreover have "count_runs q (promoteQueued a w) j = count_runs q ?w1 j"
    unfolding 2(5) by (rule count_set_other) (use assms(2) in \<open>auto simp: supersede_def\<close>)
  ultimately show ?thesis by simp
qed simp

lemma promote_settles:
  "count_runs queued (promoteQueued a w) (amID a) = 0 \<or> slot_limit a \<le> active_runs (promoteQueued a w) (amID a)"
proof (cases rule: promoteQueued_cases [of a w])
  case (2 q)
  have "count_runs queued (promoteQueued a w) (amID a) = 0"
    unfolding 2(5) count_runs_def by (auto simp: filter_empty_conv queued_def supersede_def)
  then show ?thesis by simp
qed auto

lemma promote_autos [simp]: "awAutos (promoteQueued a w) = awAutos w"
  by (cases rule: promoteQueued_cases [of a w]) simp_all

lemma ended_other: "keys_ok w \<Longrightarrow> r \<in> set (awRuns w) \<Longrightarrow> j \<noteq> arAutomation r \<Longrightarrow>
    count_runs q (ended (arID r) failed reason w) j = count_runs q w j"
  unfolding ended_def using run_unique [of w r] by (intro count_set_other) auto

lemma ended_queued: "count_runs queued (ended rid failed reason w) j \<le> count_runs queued w j"
  unfolding ended_def by (rule count_set_runs_le) (simp add: queued_def)

lemma drop_queue_other: "j \<noteq> i \<Longrightarrow> count_runs q (drop_queue i w) j = count_runs q w j"
  unfolding drop_queue_def by (rule count_set_other) auto

lemma drop_queue_empty: "count_runs queued (drop_queue i w) i = 0"
  unfolding drop_queue_def count_runs_def by (auto simp: filter_empty_conv queued_def)

lemma drop_queue_autos: "awAutos (drop_queue i w) = awAutos w"
  by (simp add: drop_queue_def)

lemma auto_unique: "keys_ok w \<Longrightarrow> a \<in> set (awAutos w) \<Longrightarrow> b \<in> set (awAutos w) \<Longrightarrow> amID a = amID b \<Longrightarrow> a = b"
  by (auto simp: keys_ok_def distinct_map inj_on_def)

text \<open>One automation is settled, the others are as before.\<close>

lemma wait_ok_one:
  assumes w: "wait_ok w" and others: "\<And>q j. j \<noteq> i \<Longrightarrow> count_runs q w' j = count_runs q w j"
    and autos: "\<And>y. y \<in> set (awAutos w') \<Longrightarrow> amID y \<noteq> i \<Longrightarrow> y \<in> set (awAutos w)"
    and one: "\<And>y. y \<in> set (awAutos w') \<Longrightarrow> amID y = i \<Longrightarrow> 0 < count_runs queued w' i \<Longrightarrow> amEnabled y \<and> slot_limit y \<le> active_runs w' i"
  shows "wait_ok w'"
  unfolding wait_ok_def
proof (intro ballI impI)
  fix y assume y: "y \<in> set (awAutos w')" "0 < count_runs queued w' (amID y)"
  show "amEnabled y \<and> slot_limit y \<le> active_runs w' (amID y)"
  proof (cases "amID y = i")
    case True
    with one y show ?thesis by simp
  next
    case False
    with others y have "0 < count_runs queued w (amID y)" by simp
    with w autos [OF y(1) False] have "amEnabled y \<and> slot_limit y \<le> active_runs w (amID y)" by (simp add: wait_ok_def)
    with others False show ?thesis by (simp add: active_runs_count)
  qed
qed

lemma finalize_wait:
  assumes k: "keys_ok w" and r: "r \<in> set (awRuns w)" "arStatus r = RunStarting \<or> arStatus r = RunRunning" and h: "wait_ok w"
  shows "wait_ok (fst (finalizeRun (arID r) (arAutomation r) failed reason w))"
proof -
  let ?i = "arAutomation r" and ?e = "ended (arID r) failed reason w"
  have oth: "count_runs q ?e j = count_runs q w j" if "j \<noteq> ?i" for q j by (rule ended_other [OF k r(1) that])
  have eauto: "awAutos ?e = awAutos w" by (simp add: ended_def)
  have pre: "\<exists>x \<in> set (awAutos w). amID x = amID y \<and> y = (if amID x = ?i then g x else x)"
    if "y \<in> set (awAutos (set_auto ?i g ?e))" "\<And>a. settings (g a) = settings a" for y g
  proof -
    from that(1) eauto obtain x where x: "x \<in> set (awAutos w)" "y = (if amID x = ?i then g x else x)" by auto
    have "amID y = amID x" using x(2) settings_slot [OF that(2), of x] by simp
    with x show ?thesis by (intro bexI [of _ x]) simp_all
  qed
  have same: "y \<in> set (awAutos w)" if "y \<in> set (awAutos (set_auto ?i g ?e))" "amID y \<noteq> ?i" "\<And>a. settings (g a) = settings a" for y g
    using pre [OF that(1,3)] that(2) by auto
  have img: "\<exists>x \<in> set (awAutos w). amID x = ?i \<and> y = g x"
    if "y \<in> set (awAutos (set_auto ?i g ?e))" "amID y = ?i" "\<And>a. settings (g a) = settings a" for y g
    using pre [OF that(1,3)] that(2) by auto
  show ?thesis
  proof (cases rule: finalizeRun_cases [of w ?i "arID r" failed reason])
    case 1
    have "?i \<in> amID ` set (awAutos w)" using k r(1) by (simp add: keys_ok_def)
    with 1(1) show ?thesis by (simp add: find_auto_None)
  next
    case (2 a g)
    have g: "\<And>a. settings (g a) = settings a" using 2(2) by blast
    let ?w = "set_auto ?i g ?e"
    show ?thesis unfolding 2(5) fst_conv
    proof (rule wait_ok_one [OF h, of ?i])
      show "count_runs q (drop_queue ?i ?w) j = count_runs q w j" if "j \<noteq> ?i" for q j
        using drop_queue_other [OF that, of q ?w] oth [OF that, of q] by simp
      show "y \<in> set (awAutos w)" if "y \<in> set (awAutos (drop_queue ?i ?w))" "amID y \<noteq> ?i" for y
        using same [OF _ _ g, of y] that by (simp add: drop_queue_autos)
    qed (simp add: drop_queue_empty)
  next
    case (3 a g)
    have g: "\<And>a. settings (g a) = settings a" using 3(2) by blast
    have a: "a \<in> set (awAutos w)" "amID a = ?i" using find_auto_Some [OF 3(1)] by auto
    have "count_runs queued w ?i = 0" using h a 3(3) by (auto simp: wait_ok_def)
    then have "count_runs queued (set_auto ?i g ?e) ?i = 0" using ended_queued [of "arID r" failed reason w ?i] by simp
    then have none: "\<not> 0 < count_runs queued (set_auto ?i g ?e) ?i" by simp
    show ?thesis unfolding 3(4) fst_conv
    proof (rule wait_ok_one [OF h, of ?i])
      show "count_runs q (set_auto ?i g ?e) j = count_runs q w j" if "j \<noteq> ?i" for q j
        using oth [OF that, of q] by simp
      show "y \<in> set (awAutos w)" if "y \<in> set (awAutos (set_auto ?i g ?e))" "amID y \<noteq> ?i" for y
        by (rule same [OF that g])
    qed (use none in blast)
  next
    case (4 a g)
    have g: "\<And>a. settings (g a) = settings a" using 4(2) by blast
    have a: "a \<in> set (awAutos w)" "amID a = ?i" using find_auto_Some [OF 4(1)] by auto
    let ?w = "set_auto ?i g ?e"
    have k1: "keys_ok ?w" by (rule keys_ok_ended [OF k r g])
    show ?thesis unfolding 4(5) fst_conv
    proof (rule wait_ok_one [OF h, of ?i])
      show "count_runs q (promoteQueued a ?w) j = count_runs q w j" if "j \<noteq> ?i" for q j
        using promote_other [OF k1, of j a q] that a(2) oth [OF that, of q] by simp
      show "y \<in> set (awAutos w)" if "y \<in> set (awAutos (promoteQueued a ?w))" "amID y \<noteq> ?i" for y
        using same [OF _ _ g, of y] that by simp
      fix y assume y: "y \<in> set (awAutos (promoteQueued a ?w))" "amID y = ?i" "0 < count_runs queued (promoteQueued a ?w) ?i"
      from img [OF _ y(2) g] y(1) obtain x where x: "x \<in> set (awAutos w)" "amID x = ?i" "y = g x" by auto
      with auto_unique [OF k _ a(1)] a(2) have "y = g a" by metis
      moreover have "amEnabled (g a)" "slot_limit (g a) = slot_limit a" using 4(2) [of a] 4(3) settings_slot by blast+
      moreover have "slot_limit a \<le> active_runs (promoteQueued a ?w) ?i" using promote_settles [of a ?w] y(3) a(2) by auto
      ultimately show "amEnabled y \<and> slot_limit y \<le> active_runs (promoteQueued a ?w) ?i" by simp
    qed
  qed
qed

lemma skipRun_wait:
  assumes k: "keys_ok w" and r: "r \<in> set (awRuns w)" "arStatus r = RunStarting" and h: "wait_ok w"
  shows "wait_ok (skipRun (arID r) (arAutomation r) reason err w)"
proof -
  let ?i = "arAutomation r" and ?w = "mark_skipped (arID r) reason err w"
  have "calm {} w ?w" unfolding mark_skipped_def
    by (rule calm_set_run [OF k r(1)]) (simp_all add: same_keys_def r(2) moves_def final_def)
  then have k1: "keys_ok ?w" by (rule keys_ok_calm [OF k])
  have oth: "count_runs q ?w j = count_runs q w j" if "j \<noteq> ?i" for q j
    unfolding mark_skipped_def using run_unique [OF k r(1)] that by (intro count_set_other) auto
  have qle: "count_runs queued ?w j \<le> count_runs queued w j" for j
    unfolding mark_skipped_def by (rule count_set_runs_le) (simp add: queued_def)
  have autos: "awAutos ?w = awAutos w" "find_auto ?w ?i = find_auto w ?i" by (simp_all add: mark_skipped_def)
  obtain a where a: "a \<in> set (awAutos w)" "amID a = ?i" "find_auto w ?i = Some a"
    using k r(1) find_auto_Some find_auto_None [of w ?i] by (cases "find_auto w ?i") (auto simp: keys_ok_def)
  show ?thesis unfolding skipRun_alt
  proof (cases rule: releaseSlot_cases [of ?i ?w])
    case 1
    then have "\<not> amEnabled a" using a(3) autos(2) by auto
    then have "count_runs queued w ?i = 0" using h a by (auto simp: wait_ok_def)
    then have "count_runs queued ?w ?i = 0" using qle [of ?i] by simp
    then show "wait_ok (releaseSlot ?i ?w)" unfolding 1(1)
      by (intro wait_ok_one [OF h, of ?i]) (use oth autos in auto)
  next
    case (2 b)
    then have b: "b = a" "amEnabled a" using a(3) autos(2) by auto
    show "wait_ok (releaseSlot ?i ?w)" unfolding 2(3)
    proof (rule wait_ok_one [OF h, of ?i])
      show "count_runs q (promoteQueued b ?w) j = count_runs q w j" if "j \<noteq> ?i" for q j
        using promote_other [OF k1, of j b q] that a(2) b(1) oth [OF that, of q] by simp
      show "y \<in> set (awAutos w)" if "y \<in> set (awAutos (promoteQueued b ?w))" for y using that autos by simp
      fix y assume y: "y \<in> set (awAutos (promoteQueued b ?w))" "amID y = ?i" "0 < count_runs queued (promoteQueued b ?w) ?i"
      have "y = a" by (rule auto_unique [OF k]) (use y a autos in simp_all)
      with promote_settles [of b ?w] y(3) a(2) b show "amEnabled y \<and> slot_limit y \<le> active_runs (promoteQueued b ?w) ?i" by auto
    qed
  qed
qed

lemma fire_wait:
  assumes t: "tables_ok P w" and h: "wait_ok w"
  shows "wait_ok (fire origin i tr k obj w)"
proof (cases rule: fire_new [OF t, of origin i tr k obj])
  case (2 a en r w1)
  let ?w = "w1\<lparr>awRuns := awRuns w1 @ [r], awCount := awCount w + 1\<rparr>"
  have a: "a \<in> set (awAutos w)" "amID a = i" using find_auto_Some [OF 2(1)] by auto
  have k: "keys_ok w" using t by (simp add: tables_ok_def)
  have autos: "awAutos ?w = awAutos w" using 2(8) by auto
  have oth: "count_runs q ?w j = count_runs q w j" if "j \<noteq> i" for q j
  proof -
    have "count_runs q w1 j = count_runs q w j" using 2(8) that by (auto intro!: count_set_other simp: supersede_def)
    then show ?thesis using that 2(5) by (simp add: count_append)
  qed
  have act: "count_runs active w1 i = count_runs active w i"
    using 2(8) by (auto intro!: count_set_eq simp: supersede_def active_def)
  have emptied: "count_runs queued (set_runs (\<lambda>x. arAutomation x = i \<and> arStatus x = RunQueued) (supersede (awNow w)) w) i = 0"
    unfolding count_runs_def by (auto simp: filter_empty_conv queued_def supersede_def)
  have "wait_ok ?w"
  proof (rule wait_ok_one [OF h, of i])
    show "count_runs q ?w j = count_runs q w j" if "j \<noteq> i" for q j by (rule oth [OF that])
    show "y \<in> set (awAutos w)" if "y \<in> set (awAutos ?w)" for y using that autos by simp
    fix y assume y: "y \<in> set (awAutos ?w)" "amID y = i" "0 < count_runs queued ?w i"
    have ya: "y = a" by (rule auto_unique [OF k]) (use y a autos in simp_all)
    have "amEnabled a \<and> slot_limit a \<le> active_runs w i"
    proof (cases "arStatus r = RunQueued")
      case True
      with 2(2,9) show ?thesis by blast
    next
      case False
      then have "0 < count_runs queued w1 i" using y(3) 2(5) by (simp add: count_append queued_def)
      with emptied 2(8) have "0 < count_runs queued w i" by auto
      with h a show ?thesis by (auto simp: wait_ok_def)
    qed
    with ya act show "amEnabled y \<and> slot_limit y \<le> active_runs ?w i"
      by (auto simp: active_runs_count count_append)
  qed
  with 2(3) show ?thesis by simp
qed (use h in simp)

lemma wait_ok_same:
  assumes "wait_ok w" "awAutos w' = awAutos w" "\<And>i. count_runs queued w' i = count_runs queued w i"
    "\<And>i. count_runs active w' i = count_runs active w i"
  shows "wait_ok w'"
  using assms by (simp add: wait_ok_def active_runs_count)

lemma wait_ok_missions: "wait_ok w \<Longrightarrow> wait_ok (w\<lparr>awMissions := ms\<rparr>)"
  by (rule wait_ok_same) (simp_all add: count_runs_def)

lemma mark_running_wait:
  assumes "keys_ok w" "r \<in> set (awRuns w)" "arStatus r = RunStarting" "wait_ok w"
  shows "wait_ok (mark_running (arID r) m w)"
proof -
  have "x = r" if "x \<in> set (awRuns w)" "arID x = arID r" for x using run_unique [OF assms(1,2) that] .
  then have "count_runs q (mark_running (arID r) m w) i = count_runs q w i"
    if "q (r\<lparr>arStatus := RunRunning, arMission := Some m\<rparr>) = q r" for q i
    unfolding mark_running_def using that by (intro count_set_eq) auto
  with assms(3,4) show ?thesis
    by (intro wait_ok_same [OF assms(4)]) (simp_all add: mark_running_def queued_def active_def)
qed

lemma same_status_wait:
  assumes "wait_ok w" "\<And>x. same_keys x (f x) \<and> arStatus (f x) = arStatus x"
  shows "wait_ok (set_runs p f w)"
proof -
  have "count_runs q (set_runs p f w) i = count_runs q w i" if "\<And>x. q (f x) = q x" for q i
    using assms(2) that by (intro count_set_eq) (simp add: same_keys_def)
  then show ?thesis using assms by (intro wait_ok_same [OF assms(1)]) (simp_all add: queued_def active_def)
qed

lemma start_run_wait:
  assumes k: "keys_ok w" and r: "r \<in> set (awRuns w)" "arStatus r = RunStarting" and h: "wait_ok w"
  shows "wait_ok (fst (start_run env msg ins m r w))"
proof (cases rule: start_run_cases [of w r env msg ins m])
  case (1 l)
  from mark_running_wait [OF k r h] show ?thesis unfolding 1(2) fst_conv .
next
  case 2
  have "wait_ok (with_mission m (arID r) w)" using h by (intro wait_ok_same [OF h]) simp_all
  moreover have "keys_ok (with_mission m (arID r) w)" by (rule keys_ok_calm [OF k calm_with_mission])
  ultimately show ?thesis unfolding 2(2) fst_conv using r by (intro mark_running_wait) simp_all
next
  case (3 err)
  from skipRun_wait [OF k r h] show ?thesis unfolding 3(2) fst_conv .
next
  case (4 f)
  from same_status_wait [OF h 4(2)] show ?thesis unfolding 4(3) fst_conv .
next
  case (5 f reason w0)
  let ?w = "set_runs (\<lambda>x. arID x = arID r) f w0"
  have w0: "keys_ok w0" "awRuns w0 = awRuns w" using 5(3) k keys_ok_calm [OF k calm_with_mission] by auto
  have "wait_ok w0" using 5(3) h wait_ok_same [OF h, of "with_mission m (arID r) w"] by auto
  then have h1: "wait_ok ?w" by (rule same_status_wait [OF _ 5(2)])
  have "calm {} w0 ?w" using 5(2) r(1) w0 by (intro calm_set_run) simp_all
  then have k1: "keys_ok ?w" by (rule keys_ok_calm [OF w0(1)])
  have fr: "f r \<in> set (awRuns ?w)" "arID (f r) = arID r" "arStatus (f r) = RunStarting" "arAutomation (f r) = arAutomation r"
    using r 5(2) [of r] w0(2) by (auto simp: same_keys_def)
  from finalize_wait [OF k1 fr(1) _ h1, of True reason] fr show ?thesis unfolding 5(4) by simp
qed

lemma finalizeMission_wait:
  assumes t: "tables_ok P w" and h: "wait_ok w"
  shows "wait_ok (fst (finalizeMission m failed w))"
proof (cases rule: finalizeMission_cases [of m failed w])
  case (2 r)
  have "keys_ok w" using t by (simp add: tables_ok_def)
  from finalize_wait [OF this 2(1) linked_active [OF t 2(1,2,4)] h] show ?thesis by (simp add: 2(5))
qed (use h in simp)

lemma find_set_auto:
  assumes "find_auto w i = Some b" "amID v = i"
  shows "find_auto (set_auto i (\<lambda>_. v) w) i = Some v"
proof -
  have "find (\<lambda>x. amID x = i) (map (\<lambda>x. if amID x = i then v else x) xs) = Some v"
    if "find (\<lambda>x. amID x = i) xs = Some b" for xs
    using that assms(2) by (induction xs) (auto split: if_splits)
  then show ?thesis using assms(1) by (simp add: find_auto_def)
qed

lemma step_wait:
  assumes "auto_step P keeps_slots w w'" "tables_ok P w" "wait_ok w"
  shows "wait_ok w'"
  using assms(1)
proof (cases rule: auto_step.cases)
  case (create cron_ok compiles i ids a)
  from create_automation_parts [OF create(1)] obtain row where row: "w' = w\<lparr>awAutos := awAutos w @ [row]\<rparr>" "amID row = i" "find_auto w i = None" .
  have c: "count_runs q (w\<lparr>awAutos := awAutos w @ [row]\<rparr>) j = count_runs q w j" for q j by (simp add: count_runs_def)
  have "i \<notin> arAutomation ` set (awRuns w)" using row(3) assms(2) find_auto_None [of w i] by (auto simp: tables_ok_def keys_ok_def)
  then have "count_runs queued w i = 0" by (auto simp: count_runs_def filter_empty_conv)
  with assms(3) row(1,2) show ?thesis by (simp add: wait_ok_def c active_runs_count)
next
  case (patch cron_ok compiles i ids p)
  from patch_automation_parts [OF patch(1)] obtain before v gone where v: "find_auto w i = Some before" "amID v = i"
    "w' = set_runs (\<lambda>r. arAutomation r = i \<and> (\<exists>t \<in> gone. arTrigger r = Some t)) (\<lambda>r. r\<lparr>arTrigger := None\<rparr>) (set_auto i (\<lambda>_. v) w)" .
  have "find_auto w' i = Some v" using find_set_auto [OF v(1,2)] v(3) by simp
  with patch(3) v(1) have ok: "keeps_slots before v" by blast
  have "wait_ok (set_auto i (\<lambda>_. v) w)"
  proof (rule wait_ok_mono [OF assms(3)])
    fix y assume "y \<in> set (awAutos (set_auto i (\<lambda>_. v) w))"
    then obtain x where x: "x \<in> set (awAutos w)" "y = (if amID x = i then v else x)" by auto
    show "\<exists>x \<in> set (awAutos w). amID x = amID y \<and> keeps_slots x y"
    proof (cases "amID x = i")
      case True
      with x ok v(2) find_auto_Some [OF v(1)] show ?thesis by (intro bexI [of _ before]) simp_all
    next
      case False
      with x show ?thesis by (intro bexI [of _ x]) simp_all
    qed
  qed simp_all
  then show ?thesis unfolding v(3) by (rule same_status_wait) (simp add: same_keys_def)
next
  case (remove i)
  have c: "count_runs q (delete_automation i w) j = count_runs q w j" if "j \<noteq> i" for q j
  proof -
    have "filter (\<lambda>r. arAutomation r = j \<and> q r) (filter (\<lambda>r. arAutomation r \<noteq> i) rs) = filter (\<lambda>r. arAutomation r = j \<and> q r) rs" for rs
      using that by (induction rs) auto
    then show ?thesis unfolding count_runs_def by (simp add: delete_automation_sel del: filter_filter)
  qed
  with assms(3) show ?thesis unfolding remove wait_ok_def active_runs_count by (simp add: delete_automation_sel)
next
  case (put i n c)
  then have "awRuns w' = awRuns w" "awAutos w' = awAutos w" by (auto simp: PutNote_def Let_def split: if_splits)
  then show ?thesis by (intro wait_ok_same [OF assms(3)]) (simp_all add: count_runs_def)
next
  case (unput i n)
  then show ?thesis by (intro wait_ok_same [OF assms(3)]) (simp_all add: count_runs_def DeleteNote_def)
next
  case (auth i tid)
  show ?thesis
  proof (rule wait_ok_mono [OF assms(3)])
    fix y assume "y \<in> set (awAutos w')"
    then show "\<exists>x \<in> set (awAutos w). amID x = amID y \<and> keeps_slots x y"
      unfolding auth by (force simp: keeps_slots_def slot_limit_def split: if_splits)
  qed (simp_all add: auth)
next
  case (event rx ev d)
  define keeps where "keeps = (\<lambda>w. tables_ok P w \<and> wait_ok w)"
  have "keeps w'"
    by (rule Handle_event_inv [OF event, of keeps])
      (use assms(2,3) fire_tables fire_wait finalizeMission_tables finalizeMission_wait in \<open>auto simp: keeps_def\<close>)
  then show ?thesis by (simp add: keeps_def)
next
  case (starts m env msg ins commits tried)
  show ?thesis unfolding starts
  proof (cases rule: startOne_cases [OF assms(2), of env msg ins commits m tried])
    case 1
    with assms(3) show "wait_ok (startOne env msg ins commits m tried w)" by simp
  next
    case (2 r)
    show "wait_ok (startOne env msg ins commits m tried w)" unfolding 2(4) by (rule wait_ok_same [OF assms(3)]) simp_all
  next
    case (3 r)
    have "keys_ok w" using assms(2) by (simp add: tables_ok_def)
    from start_run_wait [OF this 3(1,2) assms(3)] show "wait_ok (startOne env msg ins commits m tried w)" unfolding 3(4) .
  qed
next
  case (mission m)
  then show ?thesis by (intro wait_ok_same [OF assms(3)]) (simp_all add: count_runs_def)
next
  case (forget m)
  have "wait_ok (set_runs (\<lambda>r. arMission r = Some m) (\<lambda>r. r\<lparr>arMission := None\<rparr>) w)"
    by (rule same_status_wait [OF assms(3)]) (simp add: same_keys_def)
  then show ?thesis unfolding forget forget_mission_def by (rule wait_ok_missions)
next
  case (tick n)
  then show ?thesis by (intro wait_ok_same [OF assms(3)]) (simp_all add: count_runs_def)
qed

text \<open>C39. No queued run waits beside a free slot: as long as patches keep an automation's switch and its number of
  slots, every automation with a queued run is enabled and has all its slots taken, so the end of a run
  will start the queued one. (An operator who disables and enables again can break this, see below.)\<close>

theorem queued_runs_wait_for_a_slot:
  assumes "auto_reach P keeps_slots w" "a \<in> set (awAutos w)" "r \<in> set (runs_of w (amID a))" "arStatus r = RunQueued"
  shows "amEnabled a \<and> slot_limit a \<le> active_runs w (amID a)"
proof -
  from assms(1) have "wait_ok w \<and> tables_ok P w"
  proof (induction rule: auto_reach.induct)
    case (boot ids now)
    then show ?case using empty_tables_ok [OF boot] by (simp add: wait_ok_def empty_tables_def)
  next
    case (step w w')
    then show ?case using step_wait step_tables by blast
  qed
  moreover have "0 < count_runs queued w (amID a)"
    using assms(3,4) by (auto simp: count_runs_def runs_of_def queued_def filter_empty_conv)
  ultimately show ?thesis using assms(2) by (simp add: wait_ok_def)
qed

theorem queued_runs_wait_for_a_slot_witness:
  "amEnabled demo_row \<and> slot_limit demo_row \<le> active_runs demo_busy u2"
  using queued_runs_wait_for_a_slot [OF demo_busy_reach, of demo_row "demo_run 1 ''k2'' RunQueued"]
  by (simp add: demo_busy_def demo_world_def runs_of_def demo_run_def demo_row_def)

end
