(* ===== verification/Automation_Cases.thy ===== *)
theory Automation_Cases
  imports Automation_Props
begin

text \<open>
  Orders of events the tables of automations do not recover from, each evaluated: a mission deleted
  before its end is handled, an automation switched off and on again, and a mission whose row is
  written but not provisioned. Then what happens when an event is handled twice.
\<close>

section \<open>Evaluated orders\<close>

definition switch :: "bool \<Rightarrow> Patch" where
  "switch b = \<lparr>paName = None, paDescription = None, paAgentID = None, paAction = None, paConcurrency = None,
     paMaxConcurrent = None, paMaxRunsPerHour = None, paContinuity = None, paNotesEnabled = None,
     paEnabled = Some b, paExpires = None, paTriggers = None\<rparr>"

definition switched :: "bool \<Rightarrow> AutoWorld \<Rightarrow> AutoWorld" where
  "switched b w = (case patch_automation (\<lambda>_. True) (\<lambda>_. True) u2 demo_ids (switch b) w of Some w' \<Rightarrow> w' | None \<Rightarrow> w)"

text \<open>
  The mission is done and deleted before the dispatcher reads its event: the run stays running and
  keeps its slot, so the queued run waits forever.
\<close>

lemma deleted_mission_keeps_its_slot:
  "map arStatus (awRuns (handled (mission_event False) (forget_mission u1 demo_busy))) = [RunRunning, RunQueued]"
  by code_simp

text \<open>The automation is off when the run ends; switched on again, nothing starts the queued run.\<close>

lemma switched_off_queue_waits:
  "map arStatus (awRuns (switched True (handled (mission_event False) (switched False demo_busy)))) = [RunDone, RunQueued]"
  by code_simp

text \<open>
  An automation the breaker disabled keeps its count when an operator enables it: the first failure
  disables it again.
\<close>

definition demo_tripped :: AutoWorld where
  "demo_tripped = demo_busy\<lparr>awAutos := [demo_row\<lparr>amFailures := 3, amEnabled := False, amDisabledReason := ''3 consecutive failed runs''\<rparr>]\<rparr>"

lemma enabled_again_keeps_its_failures:
  "map (\<lambda>a. (amEnabled a, amFailures a, amDisabledReason a)) (awAutos (switched True demo_tripped))
     = [(True, 3, ''3 consecutive failed runs'')]
   \<and> map (\<lambda>a. (amEnabled a, amFailures a)) (awAutos (handled (mission_event True) (switched True demo_tripped))) = [(False, 4)]"
  by code_simp

text \<open>
  The mission's row is written and its provisioning fails: the run is failed and the next one
  promoted, and the mission is still there.
\<close>

definition demo_unprovisioned :: AutoWorld where
  "demo_unprovisioned = demo_world [demo_run 0 ''k1'' RunStarting, demo_run 1 ''k2'' RunQueued] [(u1, Some (demo_ids 0))]"

lemma unprovisioned_mission_outlives_its_run:
  "fst (start_run demo_env (\<lambda>_. []) InsertedThenFailed u1 (demo_run 0 ''k1'' RunStarting) demo_due)
     = fst (start_failed (\<lambda>_. []) (demo_run 0 ''k1'' RunStarting) ProvisionError demo_unprovisioned)"
  "map arStatus (awRuns (fst (start_failed (\<lambda>_. []) (demo_run 0 ''k1'' RunStarting) ProvisionError demo_unprovisioned)))
     = [RunFailed, RunStarting]"
  "awMissions (fst (start_failed (\<lambda>_. []) (demo_run 0 ''k1'' RunStarting) ProvisionError demo_unprovisioned)) = [(u1, Some (demo_ids 0))]"
proof -
  have "linked_mission demo_due (demo_ids 0) = None" by code_simp
  moreover obtain nm where "run_mission demo_env demo_due (demo_run 0 ''k1'' RunStarting) = Inr nm" by (rule demo_mission)
  moreover have "arID (demo_run 0 ''k1'' RunStarting) = demo_ids 0" by (simp add: demo_run_def)
  moreover have "demo_due\<lparr>awMissions := awMissions demo_due @ [(u1, Some (demo_ids 0))]\<rparr> = demo_unprovisioned"
    by (simp add: demo_due_def demo_unprovisioned_def demo_world_def)
  ultimately show "fst (start_run demo_env (\<lambda>_. []) InsertedThenFailed u1 (demo_run 0 ''k1'' RunStarting) demo_due)
     = fst (start_failed (\<lambda>_. []) (demo_run 0 ''k1'' RunStarting) ProvisionError demo_unprovisioned)"
    by (simp add: start_run_def)
  show "map arStatus (awRuns (fst (start_failed (\<lambda>_. []) (demo_run 0 ''k1'' RunStarting) ProvisionError demo_unprovisioned)))
     = [RunFailed, RunStarting]" by code_simp
  show "awMissions (fst (start_failed (\<lambda>_. []) (demo_run 0 ''k1'' RunStarting) ProvisionError demo_unprovisioned)) = [(u1, Some (demo_ids 0))]"
    by code_simp
qed

text \<open>The run queued before the automation expired starts all the same.\<close>

definition demo_expired :: AutoWorld where
  "demo_expired = demo_busy\<lparr>awAutos := [demo_row\<lparr>amExpires := Some 0\<rparr>]\<rparr>"

lemma expired_queue_starts:
  "map arStatus (awRuns (handled (mission_event False) demo_expired)) = [RunDone, RunStarting]"
  by code_simp

section \<open>An event handled twice\<close>

definition run_key :: "AutoRun \<Rightarrow> string \<times> string \<times> string" where
  "run_key r = (arID r, arAutomation r, arDedup r)"

text \<open>What a firing leaves: the automations, the missions, the time, and the keys of all runs before it.\<close>

definition kept :: "AutoWorld \<Rightarrow> AutoWorld \<Rightarrow> bool" where
  "kept w w' = (awAutos w' = awAutos w \<and> awMissions w' = awMissions w \<and> awNow w' = awNow w
     \<and> run_key ` set (awRuns w) \<subseteq> run_key ` set (awRuns w'))"

lemma kept_refl [simp]: "kept w w"
  by (simp add: kept_def)

lemma kept_trans: "kept w w1 \<Longrightarrow> kept w1 w2 \<Longrightarrow> kept w w2"
  unfolding kept_def by auto

lemma kept_supersede: "kept w (set_runs p (supersede t) w)"
proof -
  have "run_key \<circ> (\<lambda>r. if p r then supersede t r else r) = run_key" by (auto simp: run_key_def supersede_def)
  then have "run_key ` set (map (\<lambda>r. if p r then supersede t r else r) rs) = run_key ` set rs" for rs
    by (simp only: set_map image_comp)
  then show ?thesis unfolding kept_def set_runs_def by simp
qed

lemma dedup_supersede: "dedup_taken w i k \<Longrightarrow> dedup_taken (set_runs p (supersede t) w) i k"
proof -
  have "(\<lambda>r. (arAutomation r, arDedup r)) \<circ> (\<lambda>r. if p r then supersede t r else r) = (\<lambda>r. (arAutomation r, arDedup r))"
    by (auto simp: supersede_def)
  then have "map (\<lambda>r. (arAutomation r, arDedup r)) (awRuns (set_runs p (supersede t) w)) = map (\<lambda>r. (arAutomation r, arDedup r)) (awRuns w)"
    by (simp only: set_runs_sel map_map)
  moreover assume "dedup_taken w i k"
  ultimately show ?thesis by (simp only: dedup_taken_set)
qed

lemma record_run_result:
  obtains "record_run a en tr k obj w = w" "dedup_taken w (amID a) k"
  | r w1 p where "w1 = w\<lparr>awRuns := awRuns w @ [r], awCount := awCount w + 1\<rparr>" "arAutomation r = amID a" "arDedup r = k"
      "record_run a en tr k obj w = w1 \<or> record_run a en tr k obj w = set_runs p (supersede (awNow w)) w1"
proof (cases "dedup_taken w (amID a) k")
  case True
  then show thesis by (intro that(1)) (simp_all add: record_run_def Let_def split: prod.split)
next
  case False
  obtain stat reason again where d: "decide
      \<lparr>diEnabled = en, diExpired = (case amExpires a of Some t \<Rightarrow> t \<le> awNow w | None \<Rightarrow> False),
       diRunsLastHour = runs_since w (amID a) (awNow w - rateWindow), diMaxRunsPerHour = amMaxRunsPerHour a,
       diActive = active_runs w (amID a), diConcurrency = amConcurrency a, diMaxConcurrent = amMaxConcurrent a\<rparr> = (stat, reason, again)"
    by (rule prod_cases3)
  show thesis
    by (rule that(2) [OF refl, of "new_run w (amID a) tr k obj stat reason"])
      (use False d in \<open>auto simp: new_run_def record_run_def Let_def\<close>)
qed

lemma record_run_kept: "kept w (record_run a en tr k obj w)"
proof (cases rule: record_run_result [of a en tr k obj w])
  case (2 r w1 p)
  have "kept w w1" unfolding 2(1) by (auto simp: kept_def)
  with 2(4) kept_trans [OF _ kept_supersede] show ?thesis by metis
qed simp

lemma record_run_takes: "dedup_taken (record_run a en tr k obj w) (amID a) k"
proof (cases rule: record_run_result [of a en tr k obj w])
  case (2 r w1 p)
  have "dedup_taken w1 (amID a) k" unfolding 2(1) using 2(2,3) by (auto simp: dedup_taken_def)
  with 2(4) dedup_supersede show ?thesis by metis
qed simp

lemma fire_kept: "kept w (fire origin i tr k obj w)"
  by (cases rule: fire_cases [of origin i tr k obj w]) (simp_all add: record_run_kept)

text \<open>A firing that has been handled, or that will never be.\<close>

definition fired :: "string \<Rightarrow> string \<Rightarrow> string option \<Rightarrow> string \<Rightarrow> AutoWorld \<Rightarrow> bool" where
  "fired origin i tr k w =
     (\<not> isUUID i \<or> (case tr of Some t \<Rightarrow> \<not> isUUID t | None \<Rightarrow> False) \<or> find_auto w i = None
      \<or> selfTriggered w i origin \<or> dedup_taken w i k
      \<or> (\<exists>a t. find_auto w i = Some a \<and> tr = Some t \<and> find (\<lambda>x. tgID x = t) (amTriggers a) = None))"

lemma record_run_taken: "dedup_taken w (amID a) k \<Longrightarrow> record_run a en tr k obj w = w"
  by (simp add: record_run_def Let_def split: prod.split)

lemma fired_fire: "fired origin i tr k w \<Longrightarrow> fire origin i tr k obj w = w"
  using find_auto_Some [of w i]
  by (auto simp: fired_def fire_def record_run_taken split: option.split)

lemma fired_kept:
  assumes "fired origin i tr k w" "kept w w'"
  shows "fired origin i tr k w'"
proof -
  have f: "find_auto w' i = find_auto w i" using assms(2) by (simp add: find_auto_def kept_def)
  have "dedup_taken w' i k" if "dedup_taken w i k"
  proof -
    from that obtain r where "r \<in> set (awRuns w)" "run_key r = (arID r, i, k)" by (auto simp: dedup_taken_def run_key_def)
    then have "(arID r, i, k) \<in> run_key ` set (awRuns w')" using assms(2) by (force simp: kept_def)
    then show ?thesis by (auto simp: dedup_taken_def run_key_def)
  qed
  moreover have "selfTriggered w' i origin" if "selfTriggered w i origin"
  proof -
    from that obtain m r where r: "isUUID origin" "(origin, Some (arID r)) \<in> set (awMissions w)" "r \<in> set (awRuns w)" "arAutomation r = i"
      by (auto simp: selfTriggered_def)
    then have "run_key r \<in> run_key ` set (awRuns w')" using assms(2) by (auto simp: kept_def)
    then obtain r' where r': "r' \<in> set (awRuns w')" "Some (arID r) = Some (arID r')" "arAutomation r' = i" using r(4) by (auto simp: run_key_def)
    have "(origin, Some (arID r)) \<in> set (awMissions w')" using r(2) assms(2) by (simp add: kept_def)
    with r(1) r' show ?thesis unfolding selfTriggered_def by (intro conjI bexI [of _ "(origin, Some (arID r))"]) auto
  qed
  moreover from assms(1) have "(\<not> isUUID i \<or> (case tr of Some t \<Rightarrow> \<not> isUUID t | None \<Rightarrow> False) \<or> find_auto w i = None
      \<or> (\<exists>a t. find_auto w i = Some a \<and> tr = Some t \<and> find (\<lambda>x. tgID x = t) (amTriggers a) = None))
      \<or> selfTriggered w i origin \<or> dedup_taken w i k" (is "?never \<or> _ \<or> _")
    unfolding fired_def by argo
  moreover have "fired origin i tr k w'" if ?never using that unfolding fired_def f by argo
  moreover have "fired origin i tr k w'" if "selfTriggered w' i origin \<or> dedup_taken w' i k" using that unfolding fired_def by argo
  ultimately show ?thesis by argo
qed

lemma fire_fired: "fired origin i tr k (fire origin i tr k obj w)"
proof (cases "fired origin i tr k w")
  case True
  then show ?thesis by (simp add: fired_fire)
next
  case False
  then obtain a where a: "find_auto w i = Some a" by (auto simp: fired_def)
  with False have "\<exists>en. fire origin i tr k obj w = record_run a en tr k obj w"
    by (auto simp: fired_def fire_def split: option.split)
  then obtain en where "fire origin i tr k obj w = record_run a en tr k obj w" ..
  moreover have "amID a = i" using find_auto_Some [OF a] by simp
  ultimately show ?thesis using record_run_takes [of a en tr k obj w] by (simp add: fired_def)
qed

lemma fires_kept: "kept w (fold (\<lambda>x. fire (f1 x) (f2 x) (f3 x) (f4 x) (f5 x)) xs w)"
  by (induction xs arbitrary: w) (auto intro: kept_trans [OF fire_kept])

lemma fires_twice:
  assumes "w' = fold (\<lambda>x. fire (f1 x) (f2 x) (f3 x) (f4 x) (f5 x)) xs w"
  shows "fold (\<lambda>x. fire (f1 x) (f2 x) (f3 x) (f4 x) (f5 x)) xs w' = w'"
proof -
  have "\<forall>x \<in> set xs. fired (f1 x) (f2 x) (f3 x) (f4 x) (fold (\<lambda>x. fire (f1 x) (f2 x) (f3 x) (f4 x) (f5 x)) xs w)"
  proof (induction xs arbitrary: w)
    case (Cons x xs)
    have "fired (f1 x) (f2 x) (f3 x) (f4 x) (fold (\<lambda>x. fire (f1 x) (f2 x) (f3 x) (f4 x) (f5 x)) xs (fire (f1 x) (f2 x) (f3 x) (f4 x) (f5 x) w))"
      by (rule fired_kept [OF fire_fired fires_kept])
    with Cons show ?case by simp
  qed simp
  then have "\<forall>x \<in> set xs. fired (f1 x) (f2 x) (f3 x) (f4 x) w'" unfolding assms .
  then show ?thesis by (induction xs) (simp_all add: fired_fire)
qed

lemma live_triggers_kept: "kept w w' \<Longrightarrow> live_triggers w' = live_triggers w"
  unfolding live_triggers_def kept_def by (elim conjE) (simp only:)

lemma connector_twice:
  "handleConnectorEvent origin p body src (handleConnectorEvent origin p body src w) = handleConnectorEvent origin p body src w"
proof -
  define ms where "ms = (\<lambda>w. filter (\<lambda>(a, t). case tgConfig t of ConnectorConfig c \<Rightarrow> tgKind t = ''connector_event''
                          \<and> matchConnectorEvent c p | _ \<Rightarrow> False) (live_triggers w))"
  define F where "F = (\<lambda>x :: Automation \<times> Trigger. fire origin (amID (fst x)) (Some (tgID (snd x))) (tgID (snd x) @ ''|'' @ cpEventID p)
                          (body @ [(''source'', JString src)]))"
  have h: "handleConnectorEvent origin p body src w = (if cpSelf p then w else fold F (ms w) w)" for w
    by (simp add: handleConnectorEvent_def F_def ms_def split_def)
  have "kept w (fold F (ms w) w)" unfolding F_def by (rule fires_kept)
  then have "ms (fold F (ms w) w) = ms w" by (simp add: ms_def live_triggers_kept)
  moreover have "fold F (ms w) (fold F (ms w) w) = fold F (ms w) w" unfolding F_def by (rule fires_twice) simp
  ultimately show ?thesis by (simp add: h)
qed

lemma channel_twice: "handleChannelMessage rx ev p (handleChannelMessage rx ev p w) = handleChannelMessage rx ev p w"
proof -
  define hit where "hit = (\<lambda>w. find (\<lambda>(a, t). tgKind t = ''channel'' \<and> tgID t = chpTriggerID p
                   \<and> (case tgConfig t of ChannelTriggerConfig c \<Rightarrow> equal_fold (chChannelID c) (chpChannelID p) | _ \<Rightarrow> False))
             (live_triggers w))"
  have h: "handleChannelMessage rx ev p w = (case hit w of None \<Rightarrow> w
      | Some x \<Rightarrow> (case tgConfig (snd x) of ChannelTriggerConfig c \<Rightarrow>
            if MatchChannel rx c (chpChatID p) (chpText p)
            then fire (aeOrigin ev) (amID (fst x)) (Some (tgID (snd x))) (tgID (snd x) @ ''|'' @ aeDedup ev) (channelRunEvent ev p) w else w
          | _ \<Rightarrow> w))" for w
    unfolding handleChannelMessage_def hit_def by (cases "hit w") (simp_all add: hit_def split_def)
  have k: "hit (fire o1 i tr k obj w) = hit w" for o1 i tr k obj by (simp add: hit_def live_triggers_kept [OF fire_kept])
  show ?thesis by (simp add: h k fired_fire [OF fire_fired] split: option.split trigger_config.split)
qed

text \<open>A mission's end handled again finds the run finished.\<close>

lemma finalizeRun_held:
  assumes "keys_ok w" "r \<in> set (awRuns w)" "arStatus r = RunStarting \<or> arStatus r = RunRunning" "arID r = awIDs w n" "n < awCount w"
  shows "held (awIDs w) n (if failed then RunFailed else RunDone) (fst (finalizeRun (arID r) i failed reason w))"
proof -
  let ?e = "ended (arID r) failed reason w" and ?st = "if failed then RunFailed else RunDone"
  have "held (awIDs w) n ?st ?e" using assms(4,5) by (auto simp: held_def ended_def)
  moreover have "final ?st" by (simp add: final_def)
  ultimately have e: "held (awIDs w) n ?st w'" if "calm {} ?e w'" for w' using held_evolves that by (auto simp: calm_def)
  have k: "keys_ok ?e" by (rule keys_ok_calm [OF assms(1) calm_ended [OF assms(1-3)]])
  have g: "calm {} ?e (set_auto i g ?e)" if "\<And>a. settings (g a) = settings a" for g by (rule calm_set_auto) (rule that)
  show ?thesis
  proof (cases rule: finalizeRun_cases [of w i "arID r" failed reason])
    case 1
    then show ?thesis by (simp add: e)
  next
    case (2 a g)
    have "calm {} ?e (set_auto i g ?e)" using 2(2) by (intro g) blast
    then show ?thesis unfolding 2(5) fst_conv by (intro e calm_trans [OF _ calm_drop_queue])
  next
    case (3 a g)
    show ?thesis unfolding 3(4) fst_conv using 3(2) by (intro e g) blast
  next
    case (4 a g)
    have c: "calm {} ?e (set_auto i g ?e)" using 4(2) by (intro g) blast
    show ?thesis unfolding 4(5) fst_conv by (rule e [OF calm_trans [OF c promoteQueued_calm [OF keys_ok_calm [OF k c]]]])
  qed
qed

lemma finalizeMission_twice:
  assumes t: "tables_ok P w" and w': "finalizeMission m failed w = (w', d)"
  shows "finalizeMission m failed w' = (w', False)"
proof (cases rule: finalizeMission_cases [of m failed w])
  case 1
  with w' show ?thesis by simp
next
  case (2 r)
  have k: "keys_ok w" using t by (simp add: tables_ok_def)
  from k 2(1) obtain n where n: "n < awCount w" "arID r = awIDs w n" by (auto simp: keys_ok_def)
  have e: "w' = fst (finalizeRun (arID r) (arAutomation r) failed [] w)" using w' 2(5) by (metis fst_conv)
  have "held (awIDs w) n (if failed then RunFailed else RunDone) w'"
    unfolding e by (rule finalizeRun_held [OF k 2(1) linked_active [OF t 2(1,2,4)] n(2,1)])
  then have fin: "arStatus x = RunDone \<or> arStatus x = RunFailed" if "x \<in> set (awRuns w')" "arID x = arID r" for x
    using that n(2) by (auto simp: held_def split: if_splits)
  have mm: "awMissions w' = awMissions w" by (simp add: e)
  from 2(3) have l: "map_of (awMissions w) m = Some (Some (arID r))"
    by (auto simp: run_of_mission_def find_Some_iff split: option.splits)
  show ?thesis
  proof (cases "find (\<lambda>x. arID x = arID r) (awRuns w')")
    case None
    then show ?thesis by (simp add: finalizeMission_def run_of_mission_def mm l)
  next
    case (Some x)
    then have "x \<in> set (awRuns w')" "arID x = arID r" by (auto simp: find_Some_iff)
    from fin [OF this] Some show ?thesis by (simp add: finalizeMission_def run_of_mission_def mm l)
  qed
qed

text \<open>C40. Handling an event again changes nothing: whatever the event fired or ended, right after it was handled
  its redelivery leaves all tables as they are and disables no automation.\<close>

theorem redelivered_automation_events:
  assumes "auto_reach P ok w" "Handle_event rx ev w = Some (w', d)"
  shows "Handle_event rx ev w' = Some (w', False)"
proof -
  have f: "fire o1 i tr k obj (fire o1 i tr k obj w) = fire o1 i tr k obj w" for o1 i tr k obj
    by (rule fired_fire [OF fire_fired])
  show ?thesis
  proof (cases "aePayload ev")
    case (MissionEnded m failed)
    with assms(2) have "finalizeMission m failed w = (w', d)" by (simp add: Handle_event_def)
    from finalizeMission_twice [OF reach_tables [OF assms(1)] this] MissionEnded show ?thesis by (simp add: Handle_event_def)
  qed (use assms(2) f connector_twice channel_twice in \<open>auto simp: Handle_event_def\<close>)
qed

theorem redelivered_automation_events_witness:
  "Handle_event (\<lambda>_ _. None) (mission_event False) demo_done = Some (demo_done, False)"
  by (rule redelivered_automation_events [OF demo_busy_reach [of "\<lambda>_ _. True"], where d = "snd (finalizeMission u1 False demo_busy)"])
    (simp add: demo_done_def handled_def Handle_event_def mission_event_def split_def)

end
