(* ===== verification/Spec2Isabelle.thy ===== *)
theory Spec2Isabelle
  imports Mission_Props Plan_Props Review_Props Danger_Props Permissions_Props Tool_Props Router_Props
    Think_Tag Retrieval_Props Memory_Chunk Agent_Props Perm_Props Event_Drainer Workflow_Props
    Session_Props Automation_Cases
begin

text \<open>
  A verification development for the core of Timothy, a personal agent written in Go (\<open>README.md\<close>,
  \<open>internal/\<close>). It models the parts that decide: what a mission does next and what its row may become,
  which plans are accepted and which work counts as evidence, which tool calls run, how a turn of the
  model loop proceeds, which provider is asked, and how text of unknown origin enters a prompt.

  \<^bold>\<open>The system.\<close> The \<open>brain\<close> service runs chat turns and missions. A mission is a row driven through phases
  (discover, plan, build, prove, result): each turn reads the row, asks a worker, a planner or a reviewer
  through the agent loop, and hands the outcome as an input to a pure function \<open>Step\<close>, whose output the
  store commits; sweeps, answers, approvals and cancels write the same row. A terminal mission puts an
  event into a durable inbox, which workflows and automations read to spawn the next mission. Every model call goes to
  the \<open>gateway\<close>, which resolves a route to a provider; every tool call passes a constraint chain and a
  permission chain, which classifies shell commands and may ask the user. The \<open>memory\<close> service cuts
  documents into chunks and packs ranked memories into prompts.

  \<^bold>\<open>Conventions.\<close> A Go string is the list of its bytes; \<open>int\<close> and \<open>int64\<close> are \<open>int\<close> (no counter modelled
  here can reach the bounds of its width: attempts, iterations and budgets are compared with small
  constants), \<open>float64\<close> is \<open>real\<close> and only added, scaled and compared, a time is an \<open>int\<close> of seconds. A
  struct is a record with the initials of its Go type as prefix, a tagged constant a datatype, an error a
  value of a sum or an option. Go maps are functions to options, or lists of pairs in the order a loop
  walks them where the order can be seen. Models, tools, databases, git, the file system and clocks are
  arguments: fields of an environment record, quantified in every theorem.

  \<^bold>\<open>Theories and sources.\<close>
  \<^item> \<open>Prelude\<close>: the functions of \<open>strings\<close> and \<open>strconv\<close>, payloads, and the contracts \<open>input_machine\<close>
    (an invariant kept by every input) and \<open>monotone_machine\<close> (a relation every step moves along).
    \<open>Go_Text\<close>: runes and quoting; \<open>Go_Path\<close>: \<open>path.Clean\<close>, \<open>Join\<close>, \<open>Match\<close>; \<open>Go_Regexp\<close>: a matcher with the
    leftmost-first search of \<open>regexp\<close> and its language; \<open>Go_Json\<close>: writing and reading JSON.
  \<^item> Missions (\<open>internal/brain/missions\<close>). \<open>Mission_State\<close>, \<open>Findings\<close>, \<open>Mission_Step\<close>: \<open>statemachine.go\<close>,
    the ledger of reviewer findings and the transition function with every handler, guard and event.
    \<open>Mission_Facts\<close>, \<open>Mission_Phases\<close>: what a step does to each part and where it can lead.
    \<open>Mission_Store\<close>: the row and its writers (\<open>store.go\<close>, \<open>notify.go\<close>). \<open>Mission_World\<close>: every interleaving of
    the writers, with reads and commits apart. \<open>Mission_Run\<close>: runs of inputs and their abstraction to the
    pure machine. \<open>Mission_Driver\<close>: the error branch of \<open>advance\<close>. \<open>Mission_Create\<close>: \<open>create.go\<close>, \<open>route.go\<close>,
    \<open>validate.go\<close>. \<open>Mission_Props\<close>: endings, evidence, brakes, approval, findings.
  \<^item> Plans. \<open>Shell_Words\<close>, \<open>Plan_Gate\<close>: \<open>plangate.go\<close>. \<open>Plan_Accept\<close>: parsing, probing and accepting a plan
    and the plan turn (\<open>runner.go\<close>, \<open>driver.go\<close>). \<open>Plan_Props\<close>.
  \<^item> Evidence and review. \<open>Mission_Verify\<close>: \<open>verifier.go\<close>, \<open>policy.go\<close>. \<open>Lockfile_Evidence\<close>:
    \<open>lockfile_evidence.go\<close>. \<open>Mission_Review\<close>: \<open>review.go\<close>. \<open>Mission_Turns\<close>: the build and prove turns of
    \<open>driver.go\<close>. \<open>Review_Props\<close>.
  \<^item> Tool calls (\<open>internal/brain/tools\<close>). \<open>Danger\<close>: \<open>danger.go\<close>. \<open>Permissions\<close>: \<open>permissions.go\<close>, with the grant
    tables behind the contract \<open>grant_store\<close>. \<open>Tool_Constraints\<close>: \<open>constraints.go\<close>. Their \<open>_Props\<close> theories.
  \<^item> The agent loop (\<open>internal/brain/loop\<close>). \<open>Tool_Error\<close>: \<open>toolerror.go\<close> and what the model sees of a result.
    \<open>Agent_Tools\<close>: one tool call. \<open>Agent_Loop\<close>: one turn (\<open>agent.go\<close>). \<open>Agent_Props\<close>, over the contract
    \<open>turn_stages\<close> of an invariant of the loop, interpreted once per property. \<open>Perm_Broker\<close>, \<open>Perm_Props\<close>:
    prompts that outlive their turn (\<open>permbroker.go\<close>, \<open>permstore.go\<close>).
  \<^item> Sessions (\<open>internal/brain/session\<close>). \<open>Session_Log\<close>: the log, the context a model sees, the transcript and
    its pages, the compactor (which is one step here: nothing is appended while it waits for its summary).
    \<open>Session_Props\<close>.
  \<^item> Events and workflows. \<open>Event_Drainer\<close>: \<open>internal/brain/events\<close>. \<open>Workflow_Engine\<close>, \<open>Workflow_Props\<close>:
    \<open>internal/brain/workflows\<close>, an \<open>idempotent_consumer\<close> of the inbox.
  \<^item> Automations (\<open>internal/brain/automations\<close>). \<open>Automation_Text\<close>: \<open>interpolate.go\<close>, \<open>sources.go\<close>.
    \<open>Automation_Model\<close>: the rows and \<open>automations.go\<close>. \<open>Automation_Runs\<close>: \<open>store.go\<close>, \<open>dispatcher.go\<close>.
    \<open>Automation_Starter\<close>: \<open>starter.go\<close> and every order of the steps. \<open>Automation_Facts\<close>: what each step
    leaves alone. \<open>Automation_Props\<close>; \<open>Automation_Cases\<close>: orders the tables do not recover from.
  \<^item> The gateway. \<open>Router\<close>, \<open>Router_Props\<close>: \<open>internal/gateway/router/router.go\<close>. \<open>Think_Tag\<close>:
    \<open>internal/gateway/provider/thinktag.go\<close>.
  \<^item> Memory (\<open>internal/memory\<close>). \<open>Memory_Chunk\<close>: \<open>chunk/chunk.go\<close>. \<open>Memory_Retrieval\<close>, \<open>Retrieval_Props\<close>: \<open>retrieval/\<close>.
  \<^item> \<open>Trust_Fence\<close>: \<open>internal/platform/trustfence\<close> and the prompt slots of \<open>sentinel.go\<close>.

  \<^bold>\<open>What the theorems show.\<close> For missions: one ending ever and a final one under every interleaving of the
  writers; delivery only of units the harness verified; worker failures, replans and budgets stop; a
  failed turn costs nothing; the stored row runs the pure machine. For plans: every accepted unit passed
  every gate, its test could fail before the work, evidence survives a replan only where it was earned,
  and quoting reads back. For review: a unit passes on evidence, an approval is earned, the evidence gate
  only demotes. For tools: what is allowed stays in the workspace or the sandbox, paths resolve inside the
  root, the repeat guard is exact. For the loop: a turn ends once, is bounded, runs only permitted tools,
  pairs calls with results and keeps a sensitive turn on its route; an answer to a prompt is spent once, on
  its own call. For the inbox: every event settles; workflows take each edge at most ten times under any
  failures and redeliveries; automations keep their ceilings in every order of writes, events and starts, give
  a run one mission and never reopen it. For sessions: a compaction replaces exactly the messages it summarized and pages
  are the transcript. For the gateway and memory: resolution and chunk streaming equal their
  specifications, ranking ignores the race, packing keeps its budget, no prose is lost. Lemmas beside them
  record where the code departs from its comments or loses something; the manifest lists them as findings.

  \<^bold>\<open>Bounds and fuel.\<close> Recursion is structural or proved terminating except where the code recurses on a
  file system or a grammar: \<open>dir_dirty\<close> and \<open>resolveExisting\<close>, which walk up a path, take its length plus
  one, enough since each step drops a component (\<open>resolveExisting_ends\<close> for the latter); the JSON reader takes twice the length of the
  text plus two, enough for every text (\<open>json_parse_fuel\<close>). A step of the loop is retried \<open>maxStepRetries\<close>
  times and the loop ends at its ceiling, so a turn is a total function. Runs of missions, brokers, inboxes
  and workflows are inductive relations, so their theorems hold for runs of every length.

  \<^bold>\<open>Not modelled.\<close> The HTTP layers (\<open>brain/api\<close>, \<open>gateway/api\<close>, \<open>gateway/admin\<close>, \<open>memory/api\<close>), the command
  binaries and the web client map requests to the operations above. Connectors, channels, destinations, git
  providers, media services, the sandbox daemon and the provider drivers speak protocols of other systems:
  what the core relies on is an environment field. The delegated executors (\<open>delegated.go\<close>, \<open>executor/\<close>) run
  command line programs; their verdicts are inputs. Prompt texts, prompts' context assembly (\<open>chat\<close>,
  \<open>packet.go\<close>), embeddings and memory extraction are language-model input, with no decision of their own
  that a theorem here rests on. Metrics, logs, SQL plans and lock
  timeouts are left out; a transaction is one step. Secrets, login and billing ledgers are separate
  services of the same process and are not modelled.
\<close>

end
